(* ===== verification/Prelude.thy ===== *)
theory Prelude
  imports
    "HOL-Library.Word"
    "HOL-Library.Sublist"
    "HOL-Library.Multiset"
    "HOL-Library.List_Lexorder"
    "HOL-Library.Char_ord"
begin

text \<open>
  The shared base of the development: exceptions as values, the Python string
  operations the service uses, JSON values, byte strings, database tables as lists of
  rows with a primary key, and two interfaces that the components rely on (a table
  with a primary key, a transition system with an invariant).

  Strings are lists of characters, so the string operations are those of Python on
  ASCII (and Latin-1 white space); instants are integers in seconds since the epoch.
\<close>

named_theorems table_simps \<open>lookups after table updates\<close>
named_theorems frame_simps \<open>tables and fields an operation leaves alone\<close>

section \<open>Exceptions as values\<close>

datatype exn =
    HTTPException nat string
  | ValueError string
  | RuntimeError string
  | PermissionError string
  | PayloadTooLarge nat
  | MasterKeyMissing string
  | IntegrityError
  | InvalidTag
  | OverflowError
  | BackendError
  | PyError string

definition is_http :: "nat \<Rightarrow> (exn + 'a) \<Rightarrow> bool" where
  "is_http c r = (case r of Inl (HTTPException c' _) \<Rightarrow> c' = c | _ \<Rightarrow> False)"

section \<open>Python strings\<close>

definition char_code :: "char \<Rightarrow> nat" where
  "char_code c = of_char c"

definition char_lower :: "char \<Rightarrow> char" where
  "char_lower c = (if 65 \<le> char_code c \<and> char_code c \<le> 90 then char_of (char_code c + 32) else c)"

definition py_lower :: "string \<Rightarrow> string" where
  "py_lower s = map char_lower s"

definition char_upper :: "char \<Rightarrow> char" where
  "char_upper c = (if 97 \<le> char_code c \<and> char_code c \<le> 122 then char_of (char_code c - 32) else c)"

definition py_upper :: "string \<Rightarrow> string" where
  "py_upper s = map char_upper s"

definition is_space :: "char \<Rightarrow> bool" where
  "is_space c = (let n = char_code c in
     (9 \<le> n \<and> n \<le> 13) \<or> (28 \<le> n \<and> n \<le> 32) \<or> n = 133 \<or> n = 160)"

definition py_lstrip :: "string \<Rightarrow> string" where
  "py_lstrip s = dropWhile is_space s"

definition py_strip :: "string \<Rightarrow> string" where
  "py_strip s = rev (dropWhile is_space (rev (dropWhile is_space s)))"

definition is_digit :: "char \<Rightarrow> bool" where
  "is_digit c = (48 \<le> char_code c \<and> char_code c \<le> 57)"

definition is_lower_alnum :: "char \<Rightarrow> bool" where
  "is_lower_alnum c = (is_digit c \<or> (97 \<le> char_code c \<and> char_code c \<le> 122))"

fun split_on :: "char \<Rightarrow> string \<Rightarrow> string list" where
  "split_on c [] = [[]]"
| "split_on c (x # xs) =
     (if x = c then [] # split_on c xs
      else (case split_on c xs of [] \<Rightarrow> [[x]] | w # ws \<Rightarrow> (x # w) # ws))"

fun join_with :: "string \<Rightarrow> string list \<Rightarrow> string" where
  "join_with sep [] = []"
| "join_with sep [w] = w"
| "join_with sep (w # v # ws) = w @ sep @ join_with sep (v # ws)"

text \<open>Python's \<open>xs[:n]\<close>, which counts from the end for a negative \<open>n\<close>.\<close>

definition py_take :: "int \<Rightarrow> 'a list \<Rightarrow> 'a list" where
  "py_take n xs = (if 0 \<le> n then take (nat n) xs else take (length xs - nat (- n)) xs)"

text \<open>\<open>sorted(xs, key=key, reverse=True)\<close>: equal keys keep their order.\<close>

definition sort_desc :: "('a \<Rightarrow> 'k::linorder) \<Rightarrow> 'a list \<Rightarrow> 'a list" where
  "sort_desc key xs = rev (sort_key key (rev xs))"

text \<open>Python's \<open>s or d\<close> on strings, and the truth of an optional string.\<close>

definition str_or :: "string \<Rightarrow> string \<Rightarrow> string" where
  "str_or s d = (if s = [] then d else s)"

fun truthy :: "string option \<Rightarrow> bool" where
  "truthy None = False"
| "truthy (Some s) = (s \<noteq> [])"

lemma py_lower_length [simp]: "length (py_lower s) = length s"
  by (simp add: py_lower_def)

lemma py_lower_Nil [simp]: "py_lower s = [] \<longleftrightarrow> s = []"
  by (simp add: py_lower_def)

lemma char_code_lt: "char_code c < 256"
  by (simp add: char_code_def)

lemma char_code_char_of: "n < 256 \<Longrightarrow> char_code (char_of n) = n"
  by (simp add: char_code_def of_char_of)

lemma char_lower_idem [simp]: "char_lower (char_lower c) = char_lower c"
  by (simp add: char_lower_def char_code_char_of)

lemma py_lower_idem [simp]: "py_lower (py_lower s) = py_lower s"
  by (simp add: py_lower_def)

lemma is_space_char_lower [simp]: "is_space (char_lower c) = is_space c"
  by (simp add: is_space_def char_lower_def char_code_char_of Let_def)

lemma dropWhile_map_inv:
  "(\<And>x. P (f x) = P x) \<Longrightarrow> dropWhile P (map f xs) = map f (dropWhile P xs)"
  by (induction xs) auto

lemma py_strip_lower: "py_strip (py_lower s) = py_lower (py_strip s)"
  by (simp add: py_strip_def py_lower_def dropWhile_map_inv rev_map)

lemma dropWhile_idem_list [simp]: "dropWhile P (dropWhile P xs) = dropWhile P xs"
  by (induction xs) auto

lemma hd_dropWhile_rev:
  "xs \<noteq> [] \<Longrightarrow> \<not> P (hd xs) \<Longrightarrow> rev (dropWhile P (rev xs)) \<noteq> [] \<and> \<not> P (hd (rev (dropWhile P (rev xs))))"
proof (induction xs rule: rev_induct)
  case Nil
  then show ?case by simp
next
  case (snoc x xs)
  show ?case
  proof (cases xs)
    case Nil
    with snoc.prems show ?thesis by simp
  next
    case (Cons y ys)
    with snoc show ?thesis by auto
  qed
qed

lemma dropWhile_hd_id: "xs = [] \<or> \<not> P (hd xs) \<Longrightarrow> dropWhile P xs = xs"
  by (cases xs) auto

lemma py_strip_idem [simp]: "py_strip (py_strip s) = py_strip s"
proof (cases "dropWhile is_space s = []")
  case True
  then have "py_strip s = []" unfolding py_strip_def by (simp only: rev.simps dropWhile.simps)
  moreover have "py_strip [] = []" by (simp add: py_strip_def)
  ultimately show ?thesis by simp
next
  case False
  define t where "t = dropWhile is_space s"
  have h: "\<not> is_space (hd t)" using False hd_dropWhile t_def by blast
  have "rev (dropWhile is_space (rev t)) \<noteq> [] \<and> \<not> is_space (hd (rev (dropWhile is_space (rev t))))"
    using False h by (intro hd_dropWhile_rev) (simp_all add: t_def)
  then have "dropWhile is_space (rev (dropWhile is_space (rev t))) = rev (dropWhile is_space (rev t))"
    by (intro dropWhile_hd_id) blast
  then show ?thesis by (simp add: py_strip_def t_def)
qed

lemma split_on_ne [simp]: "split_on c s \<noteq> []"
  by (induction s) (auto split: list.splits)

lemma join_split_on: "join_with [c] (split_on c s) = s"
proof (induction s)
  case Nil
  then show ?case by simp
next
  case (Cons x xs)
  have "join_with [c] ((x # w) # ws) = x # join_with [c] (w # ws)" for w ws
    by (cases ws) simp_all
  with Cons show ?case by (cases "split_on c xs") auto
qed

lemma split_on_no_sep: "c \<notin> set w \<Longrightarrow> split_on c w = [w]"
  by (induction w) auto

lemma split_on_pieces: "w \<in> set (split_on c s) \<Longrightarrow> c \<notin> set w"
proof (induction s arbitrary: w)
  case Nil
  then show ?case by simp
next
  case (Cons x xs)
  then show ?case by (auto split: if_splits list.splits)
qed

section \<open>JSON values and byte strings\<close>

datatype json =
    JNull
  | JBool bool
  | JInt int
  | JReal string
  | JStr string
  | JList "json list"
  | JObj "(string \<times> json) list"

text \<open>\<open>bool(x)\<close> of a JSON value.\<close>

fun json_truthy :: "json \<Rightarrow> bool" where
  "json_truthy JNull = False"
| "json_truthy (JBool b) = b"
| "json_truthy (JInt i) = (i \<noteq> 0)"
| "json_truthy (JReal r) = list_ex (\<lambda>c. 49 \<le> char_code c \<and> char_code c \<le> 57) r"
| "json_truthy (JStr s) = (s \<noteq> [])"
| "json_truthy (JList js) = (js \<noteq> [])"
| "json_truthy (JObj kvs) = (kvs \<noteq> [])"

text \<open>The members of an object, and \<open>dict.get\<close> (\<open>None\<close> where the key is absent).\<close>

definition jget :: "json \<Rightarrow> string \<Rightarrow> json option" where
  "jget j k = (case j of JObj kvs \<Rightarrow> map_of kvs k | _ \<Rightarrow> None)"

fun jopt_str :: "string option \<Rightarrow> json" where
  "jopt_str None = JNull"
| "jopt_str (Some s) = JStr s"

fun jopt_int :: "int option \<Rightarrow> json" where
  "jopt_int None = JNull"
| "jopt_int (Some i) = JInt i"

type_synonym bytes = "8 word list"
type_synonym instant = int

definition be_nat :: "bytes \<Rightarrow> nat" where
  "be_nat bs = foldl (\<lambda>n b. n * 256 + unat b) 0 bs"

definition nat_be4 :: "nat \<Rightarrow> bytes" where
  "nat_be4 n = [of_nat (n div 16777216), of_nat (n div 65536), of_nat (n div 256), of_nat n]"

lemma length_nat_be4 [simp]: "length (nat_be4 n) = 4"
  by (simp add: nat_be4_def)

lemma unat_byte: "unat (of_nat n :: 8 word) = n mod 256"
  by (simp add: unat_of_nat)

lemma base256_step: "n div (256 * m) * 256 + n div m mod 256 = n div (m :: nat)"
proof -
  have "n div (256 * m) = n div m div 256" by (simp add: div_mult2_eq mult.commute)
  then show ?thesis by simp
qed

lemma be_nat_be4:
  assumes "n < 4294967296"
  shows "be_nat (nat_be4 n) = n"
proof -
  have top: "n div 16777216 mod 256 = n div 16777216" using assms by simp
  have "be_nat (nat_be4 n) =
      ((n div 16777216 * 256 + n div 65536 mod 256) * 256 + n div 256 mod 256) * 256 + n mod 256"
    by (simp add: be_nat_def nat_be4_def unat_byte top)
  also have "\<dots> = n"
    using base256_step [of n 65536] base256_step [of n 256] base256_step [of n 1] by simp
  finally show ?thesis .
qed

definition clamp :: "int \<Rightarrow> int \<Rightarrow> int \<Rightarrow> int" where
  "clamp lo hi x = max lo (min x hi)"

lemma clamp_bounds: "lo \<le> hi \<Longrightarrow> lo \<le> clamp lo hi x \<and> clamp lo hi x \<le> hi"
  by (auto simp: clamp_def)

section \<open>Decimal numerals\<close>

definition digit_char :: "nat \<Rightarrow> char" where
  "digit_char d = char_of (48 + d)"

fun show_nat :: "nat \<Rightarrow> string" where
  "show_nat n = (if n < 10 then [digit_char n] else show_nat (n div 10) @ [digit_char (n mod 10)])"

declare show_nat.simps [simp del]

definition show_int :: "int \<Rightarrow> string" where
  "show_int i = (if i < 0 then CHR ''-'' # show_nat (nat (- i)) else show_nat (nat i))"

definition read_nat :: "string \<Rightarrow> nat" where
  "read_nat s = foldl (\<lambda>n c. 10 * n + (char_code c - 48)) 0 s"

lemma char_code_digit_char: "d < 10 \<Longrightarrow> char_code (digit_char d) = 48 + d"
  by (simp add: digit_char_def char_code_char_of)

lemma show_nat_digits: "c \<in> set (show_nat n) \<Longrightarrow> is_digit c"
proof (induction n arbitrary: c rule: show_nat.induct)
  case (1 n)
  show ?case
  proof (cases "n < 10")
    case True
    then have "show_nat n = [digit_char n]" by (simp add: show_nat.simps [of n])
    with True "1.prems" show ?thesis by (simp add: is_digit_def char_code_digit_char)
  next
    case False
    then have "show_nat n = show_nat (n div 10) @ [digit_char (n mod 10)]"
      by (simp add: show_nat.simps [of n])
    with False "1.prems" "1.IH" show ?thesis by (auto simp: is_digit_def char_code_digit_char)
  qed
qed

lemma show_nat_ne [simp]: "show_nat n \<noteq> []"
  by (subst show_nat.simps) simp

lemma read_show_nat [simp]: "read_nat (show_nat n) = n"
proof (induction n rule: show_nat.induct)
  case (1 n)
  show ?case
  proof (cases "n < 10")
    case True
    then show ?thesis
      by (subst show_nat.simps) (simp add: read_nat_def char_code_digit_char)
  next
    case False
    have m: "n mod 10 < 10" by simp
    from False 1 have "read_nat (show_nat (n div 10)) = n div 10" by simp
    with False m show ?thesis
      by (subst show_nat.simps) (simp add: read_nat_def char_code_digit_char)
  qed
qed

lemma show_nat_inj: "show_nat m = show_nat n \<longleftrightarrow> m = n"
  by (metis read_show_nat)

section \<open>Tables with a primary key\<close>

text \<open>
  A table is the list of its rows in insertion order. \<open>row_get\<close> is \<open>Session.get\<close>,
  \<open>row_add\<close> an insert, \<open>row_set\<close> an attribute assignment on the row with that
  key, \<open>row_del\<close> a delete by key.
\<close>

definition row_get :: "('r \<Rightarrow> 'k) \<Rightarrow> 'k \<Rightarrow> 'r list \<Rightarrow> 'r option" where
  "row_get key k rows = find (\<lambda>r. key r = k) rows"

definition row_add :: "'r \<Rightarrow> 'r list \<Rightarrow> 'r list" where
  "row_add r rows = rows @ [r]"

definition row_set :: "('r \<Rightarrow> 'k) \<Rightarrow> 'k \<Rightarrow> ('r \<Rightarrow> 'r) \<Rightarrow> 'r list \<Rightarrow> 'r list" where
  "row_set key k f rows = map (\<lambda>r. if key r = k then f r else r) rows"

definition row_del :: "('r \<Rightarrow> 'k) \<Rightarrow> 'k \<Rightarrow> 'r list \<Rightarrow> 'r list" where
  "row_del key k rows = filter (\<lambda>r. key r \<noteq> k) rows"

definition pk :: "('r \<Rightarrow> 'k) \<Rightarrow> 'r list \<Rightarrow> bool" where
  "pk key rows \<longleftrightarrow> distinct (map key rows)"

lemma find_append: "find P (xs @ ys) = (case find P xs of None \<Rightarrow> find P ys | Some x \<Rightarrow> Some x)"
  by (induction xs) auto

lemma row_get_Some: "row_get key k rows = Some r \<Longrightarrow> r \<in> set rows \<and> key r = k"
  by (auto simp: row_get_def find_Some_iff)

lemma row_get_None: "row_get key k rows = None \<longleftrightarrow> k \<notin> key ` set rows"
  by (auto simp: row_get_def find_None_iff)

lemma row_get_in: "pk key rows \<Longrightarrow> r \<in> set rows \<Longrightarrow> row_get key (key r) rows = Some r"
  by (induction rows) (auto simp: row_get_def pk_def)

lemma row_get_Nil [simp]: "row_get key k [] = None"
  by (simp add: row_get_def)

lemma row_get_add [table_simps]:
  "row_get key k (row_add r rows) =
     (case row_get key k rows of None \<Rightarrow> (if key r = k then Some r else None) | Some x \<Rightarrow> Some x)"
  by (auto simp: row_get_def row_add_def find_append split: option.splits)

lemma row_get_set:
  assumes "\<And>r. key (f r) = key r"
  shows "row_get key k (row_set key j f rows) =
    (if k = j then map_option f (row_get key k rows) else row_get key k rows)"
  using assms by (induction rows) (auto simp: row_get_def row_set_def)

lemma row_get_replace:
  "key r = j \<Longrightarrow> row_get key k (row_set key j (\<lambda>_. r) rows) =
     (if k = j then (if row_get key k rows = None then None else Some r) else row_get key k rows)"
  by (induction rows) (auto simp: row_get_def row_set_def)

lemma row_get_del [table_simps]:
  "row_get key k (row_del key j rows) = (if k = j then None else row_get key k rows)"
  by (induction rows) (auto simp: row_get_def row_del_def)

lemma row_get_filter:
  "pk key rows \<Longrightarrow> row_get key k (filter P rows) =
     (case row_get key k rows of None \<Rightarrow> None | Some r \<Rightarrow> if P r then Some r else None)"
  by (induction rows) (auto simp: row_get_def pk_def find_None_iff find_Some_iff split: option.splits)

lemma pk_Nil [simp]: "pk key []"
  by (simp add: pk_def)

lemma pk_add: "pk key (row_add r rows) \<longleftrightarrow> pk key rows \<and> row_get key (key r) rows = None"
  by (auto simp: pk_def row_add_def row_get_None)

lemma pk_set: "(\<And>r. key (f r) = key r) \<Longrightarrow> pk key (row_set key k f rows) \<longleftrightarrow> pk key rows"
proof -
  assume "\<And>r. key (f r) = key r"
  then have "map key (row_set key k f rows) = map key rows" by (auto simp: row_set_def)
  then show ?thesis by (simp add: pk_def)
qed

lemma pk_filter: "pk key rows \<Longrightarrow> pk key (filter P rows)"
  by (simp add: pk_def distinct_map_filter)

lemma pk_del: "pk key rows \<Longrightarrow> pk key (row_del key k rows)"
  by (simp add: row_del_def pk_filter)

lemma set_row_add [simp]: "set (row_add r rows) = insert r (set rows)"
  by (simp add: row_add_def)

lemma set_row_del: "set (row_del key k rows) = {r \<in> set rows. key r \<noteq> k}"
  by (auto simp: row_del_def)

lemma set_row_set: "set (row_set key k f rows) = (\<lambda>r. if key r = k then f r else r) ` set rows"
  by (simp add: row_set_def)

lemma length_row_set [simp]: "length (row_set key k f rows) = length rows"
  by (simp add: row_set_def)

text \<open>What a client of a table relies on, whatever the table's rows are.\<close>

locale pk_table =
  fixes get :: "'k \<Rightarrow> 't \<Rightarrow> 'r option"
    and add :: "'r \<Rightarrow> 't \<Rightarrow> 't"
    and upd :: "'k \<Rightarrow> ('r \<Rightarrow> 'r) \<Rightarrow> 't \<Rightarrow> 't"
    and del :: "'k \<Rightarrow> 't \<Rightarrow> 't"
    and key :: "'r \<Rightarrow> 'k"
    and inv :: "'t \<Rightarrow> bool"
  assumes get_key: "get k t = Some r \<Longrightarrow> key r = k"
    and get_add: "get (key r) t = None \<Longrightarrow> get k (add r t) = (if k = key r then Some r else get k t)"
    and get_upd: "(\<And>r. key (f r) = key r) \<Longrightarrow>
      get k (upd j f t) = (if k = j then map_option f (get k t) else get k t)"
    and get_del: "get k (del j t) = (if k = j then None else get k t)"
    and inv_add: "inv t \<Longrightarrow> get (key r) t = None \<Longrightarrow> inv (add r t)"
    and inv_upd: "inv t \<Longrightarrow> (\<And>r. key (f r) = key r) \<Longrightarrow> inv (upd j f t)"
    and inv_del: "inv t \<Longrightarrow> inv (del j t)"
begin

lemma get_added: "get (key r) t = None \<Longrightarrow> get (key r) (add r t) = Some r"
  by (simp add: get_add)

lemma get_add_other: "get (key r) t = None \<Longrightarrow> k \<noteq> key r \<Longrightarrow> get k (add r t) = get k t"
  by (simp add: get_add)

lemma del_added: "get (key r) t = None \<Longrightarrow> get k (del (key r) (add r t)) = get k t"
  by (simp add: get_del get_add)

lemma upd_missing: "get j t = None \<Longrightarrow> (\<And>r. key (f r) = key r) \<Longrightarrow> get k (upd j f t) = get k t"
  by (simp add: get_upd)

lemma upd_add: "get (key r) t = None \<Longrightarrow> (\<And>r. key (f r) = key r) \<Longrightarrow>
    get k (upd (key r) f (add r t)) = (if k = key r then Some (f r) else get k t)"
  by (simp add: get_upd get_add)

end

lemma pk_table_rows:
  "pk_table (row_get key) row_add (row_set key) (row_del key) key (pk key)"
  by unfold_locales
     (auto simp: table_simps row_get_set pk_add pk_set pk_del
       dest: row_get_Some split: option.splits)

section \<open>Transition systems with an invariant\<close>

locale inv_system =
  fixes step :: "'s \<Rightarrow> 's \<Rightarrow> bool"
    and inv :: "'s \<Rightarrow> bool"
  assumes inv_step: "inv s \<Longrightarrow> step s t \<Longrightarrow> inv t"
begin

lemma reach_inv: "step\<^sup>*\<^sup>* s t \<Longrightarrow> inv s \<Longrightarrow> inv t"
  by (induction rule: rtranclp_induct) (auto intro: inv_step)

lemma reach_safe:
  assumes "step\<^sup>*\<^sup>* s t" and "inv s" and "\<And>u. inv u \<Longrightarrow> P u"
  shows "P t"
  using assms reach_inv by blast

end

end
