(* ===== verification/Roles.thy ===== *)
theory Roles
  imports Prelude
begin

text \<open>
  The role enumeration of \<^verbatim>\<open>app/roles.py\<close>: the six roles, their stored string
  values, their numeric ranks and the privilege comparison \<open>implies\<close>. The rank order
  makes the roles a linear order.
\<close>

datatype role = Readonly | User | Support | Operator | Admin | Owner

fun role_value :: "role \<Rightarrow> string" where
  "role_value Readonly = ''readonly''"
| "role_value User = ''user''"
| "role_value Support = ''support''"
| "role_value Operator = ''operator''"
| "role_value Admin = ''admin''"
| "role_value Owner = ''owner''"

fun rank :: "role \<Rightarrow> int" where
  "rank Readonly = 0"
| "rank User = 10"
| "rank Support = 20"
| "rank Operator = 30"
| "rank Admin = 40"
| "rank Owner = 50"

definition implies :: "role \<Rightarrow> role \<Rightarrow> bool" where
  "implies a b \<longleftrightarrow> rank a \<ge> rank b"

text \<open>\<open>Role(value)\<close>: \<open>None\<close> is Python's \<open>ValueError\<close>.\<close>

definition all_roles :: "role list" where
  "all_roles = [Readonly, User, Support, Operator, Admin, Owner]"

definition role_of :: "string \<Rightarrow> role option" where
  "role_of s = find (\<lambda>r. role_value r = s) all_roles"

lemma rank_inj: "rank a = rank b \<longleftrightarrow> a = b"
  by (cases a; cases b) simp_all

instantiation role :: linorder
begin

definition less_eq_role :: "role \<Rightarrow> role \<Rightarrow> bool" where
  "less_eq_role a b \<longleftrightarrow> rank a \<le> rank b"

definition less_role :: "role \<Rightarrow> role \<Rightarrow> bool" where
  "less_role a b \<longleftrightarrow> rank a < rank b"

instance
  by standard (auto simp: less_eq_role_def less_role_def rank_inj)

end

lemma implies_iff_ge: "implies a b \<longleftrightarrow> b \<le> a"
  by (simp add: implies_def less_eq_role_def)

lemma implies_trans: "implies a b \<Longrightarrow> implies b c \<Longrightarrow> implies a c"
  by (simp add: implies_def)

lemma implies_Owner [simp]: "implies Owner r"
  by (cases r) (simp_all add: implies_def)

lemma implies_Owner_iff: "implies r Owner \<longleftrightarrow> r = Owner"
  by (cases r) (simp_all add: implies_def)

lemma implies_Admin_iff: "implies r Admin \<longleftrightarrow> r = Admin \<or> r = Owner"
  by (cases r) (simp_all add: implies_def)

lemma implies_Readonly [simp]: "implies r Readonly"
  by (cases r) (simp_all add: implies_def)

lemma role_value_inj: "role_value a = role_value b \<longleftrightarrow> a = b"
  by (cases a; cases b) simp_all

lemma role_of_value [simp]: "role_of (role_value r) = Some r"
  by (cases r) (simp_all add: role_of_def all_roles_def)

lemma role_of_Some: "role_of s = Some r \<longleftrightarrow> s = role_value r"
  by (auto simp: role_of_def find_Some_iff dest: sym) (metis role_of_value role_of_def find_Some_iff)

text \<open>
  \<open>Role.implies\<close> is a total preorder with \<open>owner\<close> on top and \<open>readonly\<close> at
  the bottom: any two roles are comparable, the comparison is transitive, mutual
  implication is equality, and reading a role back from the string stored in the database
  gives that role.
\<close>
lemma implies_total_order:
  "(implies a b \<or> implies b a) \<and> (implies a b \<and> implies b a \<longleftrightarrow> a = b) \<and>
   implies Owner a \<and> implies a Readonly \<and> (implies a Owner \<longleftrightarrow> a = Owner) \<and>
   role_of (role_value a) = Some a"
  by (cases a; cases b) (simp_all add: implies_def role_of_def all_roles_def)

end
