(* ===== verification/Db.thy ===== *)
theory Db
  imports Prelude
begin

text \<open>
  The tables of \<^verbatim>\<open>app/db.py\<close>: one record per ORM class, with its columns, and the
  database as the record of all tables. Nullable columns are options, JSON columns are
  \<open>json\<close>, binary columns are byte strings, timestamps are instants. A table is a list of
  rows in insertion order; identifiers of new rows come from the database's
  autoincrement, which the operations take as a parameter (\<open>alloc\<close>, from the ids in
  use to a new one).
\<close>

section \<open>Catalog tables\<close>

record app_row =
  app_id :: string
  app_display_name :: string
  app_category :: string
  app_description :: string
  app_homepage :: "string option"
  app_license :: "string option"
  app_created_at :: instant
  app_updated_at :: instant

record release_row =
  rel_id :: int
  rel_app_id :: string
  rel_version :: string
  rel_major_minor :: string
  rel_channel :: string
  rel_released_at :: "string option"
  rel_created_at :: instant

record download_row =
  dl_id :: int
  dl_release_id :: int
  dl_url :: string
  dl_os :: string
  dl_arch :: string
  dl_archive_type :: string
  dl_source :: string
  dl_headers :: "json option"
  dl_sha256 :: "string option"
  dl_size_bytes :: "int option"

section \<open>Accounts, tokens and sessions\<close>

record user_row =
  usr_id :: int
  usr_username :: string
  usr_password_hash :: string
  usr_created_at :: instant
  usr_last_login_at :: "instant option"

record account =
  acc_id :: int
  acc_email :: string
  acc_password_hash :: string
  acc_role :: string
  acc_suspended_at :: "instant option"
  acc_token_version :: int
  acc_created_at :: instant
  acc_last_login_at :: "instant option"
  acc_failed_login_count :: int
  acc_locked_until :: "instant option"
  acc_totp_enabled :: bool
  acc_totp_secret :: "string option"
  acc_totp_recovery_hashes :: "string option"
  acc_totp_enabled_at :: "instant option"

record idempotency_record =
  idem_key_hash :: string
  idem_account_id :: "int option"
  idem_method :: string
  idem_path :: string
  idem_body_hash :: "string option"
  idem_status_code :: nat
  idem_response_body :: bytes
  idem_content_type :: string
  idem_created_at :: instant
  idem_expires_at :: instant

record revoked_token =
  rev_jti :: string
  rev_account_id :: "int option"
  rev_reason :: "string option"
  rev_revoked_at :: instant
  rev_expires_at :: "instant option"

record personal_access_token =
  pat_id :: int
  pat_account_id :: int
  pat_name :: string
  pat_token_hash :: string
  pat_token_prefix :: string
  pat_created_at :: instant
  pat_last_used_at :: "instant option"
  pat_last_used_ip :: "string option"
  pat_last_used_ua :: "string option"
  pat_revoked_at :: "instant option"
  pat_expires_at :: "instant option"
  pat_read_only :: bool
  pat_ip_allowlist :: "string list option"

record consumed_invite =
  inv_nonce :: string
  inv_email :: string
  inv_consumed_at :: instant
  inv_account_id :: "int option"

record admin_session =
  ses_id :: int
  ses_user_id :: int
  ses_fingerprint :: string
  ses_ip :: "string option"
  ses_user_agent :: "string option"
  ses_created_at :: instant
  ses_last_seen_at :: instant
  ses_revoked_at :: "instant option"

section \<open>Policy, audit and job history\<close>

record global_policy =
  gp_snapshot_keep_last_n :: int
  gp_snapshot_retain_days :: int
  gp_max_bytes_per_user :: "int option"
  gp_registration_enabled :: bool
  gp_default_role :: string
  gp_banner_message :: "string option"
  gp_require_2fa_for_admins :: bool
  gp_admin_ip_allowlist :: "string list option"
  gp_admin_session_idle_days :: int
  gp_audit_retention_days :: int
  gp_scheduler_run_retention_days :: int
  gp_webhook_delivery_retention_days :: int
  gp_webhook_url :: "string option"
  gp_webhook_event_prefixes :: string
  gp_backup_directory :: "string option"
  gp_backup_enabled :: bool
  gp_backup_retention_count :: int
  gp_updated_at :: instant
  gp_updated_by_email :: "string option"

text \<open>\<open>GlobalPolicy(id=1)\<close> with every column at its declared default.\<close>

definition default_global_policy :: "instant \<Rightarrow> global_policy" where
  "default_global_policy now =
    \<lparr>gp_snapshot_keep_last_n = 30, gp_snapshot_retain_days = 90, gp_max_bytes_per_user = None,
     gp_registration_enabled = True, gp_default_role = ''user'', gp_banner_message = None,
     gp_require_2fa_for_admins = False, gp_admin_ip_allowlist = None,
     gp_admin_session_idle_days = 0, gp_audit_retention_days = 365,
     gp_scheduler_run_retention_days = 90, gp_webhook_delivery_retention_days = 30,
     gp_webhook_url = None,
     gp_webhook_event_prefixes =
       ''permission.denied,login.failed,session.killed,user.suspended,user.deleted,totp.login_failed'',
     gp_backup_directory = None, gp_backup_enabled = False, gp_backup_retention_count = 7,
     gp_updated_at = now, gp_updated_by_email = None\<rparr>"

record audit_event =
  aud_id :: int
  aud_actor_id :: "int option"
  aud_actor_email :: "string option"
  aud_action :: string
  aud_resource_type :: "string option"
  aud_resource_id :: "string option"
  aud_detail :: "json option"
  aud_ip :: "string option"
  aud_user_agent :: "string option"
  aud_created_at :: instant

record webhook_delivery =
  whd_id :: int
  whd_url :: string
  whd_event_action :: "string option"
  whd_status_code :: "int option"
  whd_duration_ms :: "int option"
  whd_error :: "string option"
  whd_created_at :: instant

record scheduler_run =
  run_id :: int
  run_job :: string
  run_started_at :: instant
  run_finished_at :: "instant option"
  run_duration_ms :: "int option"
  run_summary :: "json option"
  run_error :: "string option"

section \<open>Devices and snapshots\<close>

record device_config =
  dev_device_id :: string
  dev_user_id :: "int option"
  dev_name :: "json option"
  dev_os :: "json option"
  dev_arch :: "json option"
  dev_site_count :: "nat option"
  dev_last_seen_at :: "instant option"
  dev_updated_at :: instant
  dev_payload :: json

record device_snapshot =
  snap_id :: int
  snap_device_id :: string
  snap_account_id :: "int option"
  snap_created_at :: instant
  snap_label :: "string option"
  snap_kind :: string
  snap_size_bytes :: nat
  snap_payload_json :: "json option"
  snap_payload_blob :: "bytes option"
  snap_blob_uri :: "string option"
  snap_checksum :: string
  snap_parent :: "int option"
  snap_compression :: "string option"
  snap_encryption_kid :: "string option"
  snap_created_by_ip :: "string option"

record device_head =
  head_device_id :: string
  head_current_snapshot_id :: int
  head_updated_at :: instant
  head_updated_by :: string

record retention_policy =
  rp_id :: int
  rp_account_id :: int
  rp_device_id :: "string option"
  rp_keep_last_n_auto :: int
  rp_auto_expire_days :: "int option"
  rp_keep_labeled_forever :: bool
  rp_max_total_bytes :: "int option"
  rp_updated_at :: instant

record sync_snapshot =
  ss_id :: int
  ss_device_id :: string
  ss_account_id :: int
  ss_created_at :: instant
  ss_size_bytes :: nat
  ss_content_gzip :: bytes

record encryption_key =
  ek_kid :: string
  ek_account_id :: int
  ek_wrapped_dek :: bytes
  ek_wrap_algo :: string
  ek_kek_source :: string
  ek_created_at :: instant
  ek_retired_at :: "instant option"

record saved_audit_query =
  saq_id :: int
  saq_account_id :: int
  saq_name :: string
  saq_action :: "string option"
  saq_resource_type :: "string option"
  saq_resource_id :: "string option"
  saq_actor_id :: "int option"
  saq_created_at :: instant

section \<open>The database\<close>

record database =
  apps :: "app_row list"
  releases :: "release_row list"
  downloads :: "download_row list"
  users :: "user_row list"
  accounts :: "account list"
  idempotency_records :: "idempotency_record list"
  revoked_tokens :: "revoked_token list"
  personal_access_tokens :: "personal_access_token list"
  consumed_invites :: "consumed_invite list"
  admin_sessions :: "admin_session list"
  global_policies :: "global_policy option"
  audit_events :: "audit_event list"
  webhook_deliveries :: "webhook_delivery list"
  scheduler_runs :: "scheduler_run list"
  device_configs :: "device_config list"
  device_snapshots :: "device_snapshot list"
  device_heads :: "device_head list"
  retention_policies :: "retention_policy list"
  sync_snapshots :: "sync_snapshot list"
  account_encryption_keys :: "encryption_key list"
  saved_audit_queries :: "saved_audit_query list"

definition empty_db :: database where
  "empty_db =
    \<lparr>apps = [], releases = [], downloads = [], users = [], accounts = [],
     idempotency_records = [], revoked_tokens = [], personal_access_tokens = [],
     consumed_invites = [], admin_sessions = [], global_policies = None, audit_events = [],
     webhook_deliveries = [], scheduler_runs = [], device_configs = [], device_snapshots = [],
     device_heads = [], retention_policies = [], sync_snapshots = [],
     account_encryption_keys = [], saved_audit_queries = []\<rparr>"

text \<open>\<open>count_query\<close>: the number of rows of a filtered select, pagination removed.\<close>

definition count_query :: "('r \<Rightarrow> bool) \<Rightarrow> 'r list \<Rightarrow> nat" where
  "count_query P rows = length (filter P rows)"

section \<open>Constraints of the snapshot table\<close>

definition lanes :: "device_snapshot \<Rightarrow> nat" where
  "lanes s = (if snap_payload_json s \<noteq> None then 1 else 0)
    + (if snap_payload_blob s \<noteq> None then 1 else 0)
    + (if snap_blob_uri s \<noteq> None then 1 else 0)"

definition snapshot_kinds :: "string list" where
  "snapshot_kinds = [''auto'', ''manual'', ''pre_restore'', ''import'']"

text \<open>
  What the database checks when a snapshot row is inserted: exactly one payload lane, a
  known kind, and the foreign keys (device, account, parent).
\<close>

definition snapshot_row_ok :: "database \<Rightarrow> device_snapshot \<Rightarrow> bool" where
  "snapshot_row_ok d s \<longleftrightarrow>
     lanes s = 1 \<and> snap_kind s \<in> set snapshot_kinds \<and>
     row_get dev_device_id (snap_device_id s) (device_configs d) \<noteq> None \<and>
     (case snap_account_id s of None \<Rightarrow> True | Some a \<Rightarrow> row_get acc_id a (accounts d) \<noteq> None) \<and>
     (case snap_parent s of None \<Rightarrow> True | Some p \<Rightarrow> row_get snap_id p (device_snapshots d) \<noteq> None)"

section \<open>Column defaults for the start-up migration\<close>

datatype col_type = BooleanT | IntegerT | StringT | DateTimeT | OtherT

datatype col_default = DefBool bool | DefInt int | DefStr string | DefCallable | DefOther

text \<open>\<open>replace("'", "''")\<close>.\<close>

fun escape_quotes :: "string \<Rightarrow> string" where
  "escape_quotes [] = []"
| "escape_quotes (c # cs) =
     (if char_code c = 39 then c # c # escape_quotes cs else c # escape_quotes cs)"

definition quote_char :: char where
  "quote_char = char_of (39 :: nat)"

fun literal_default :: "col_type \<Rightarrow> col_default option \<Rightarrow> string option" where
  "literal_default t None = None"
| "literal_default t (Some DefCallable) =
     (if t = DateTimeT then Some ''CURRENT_TIMESTAMP'' else None)"
| "literal_default t (Some (DefBool b)) =
     (if t = BooleanT then Some (if b then ''TRUE'' else ''FALSE'')
      else Some (if b then ''1'' else ''0''))"
| "literal_default t (Some (DefInt i)) = Some (show_int i)"
| "literal_default t (Some (DefStr s)) =
     Some ([quote_char] @ escape_quotes s @ [quote_char])"
| "literal_default t (Some DefOther) = None"

text \<open>Reading such a literal back as SQL does: doubled quotes stand for one.\<close>

fun unescape_quotes :: "string \<Rightarrow> string" where
  "unescape_quotes [] = []"
| "unescape_quotes [c] = [c]"
| "unescape_quotes (c # d # cs) =
     (if char_code c = 39 \<and> char_code d = 39 then c # unescape_quotes cs
      else c # unescape_quotes (d # cs))"

lemma escape_unescape: "unescape_quotes (escape_quotes s) = s"
proof (induction s)
  case Nil
  then show ?case by simp
next
  case (Cons c cs)
  then show ?case
    by (cases "escape_quotes cs") (auto split: if_splits)
qed

section \<open>Tables as interpretations of the table interface\<close>

interpretation accounts_tbl: pk_table "row_get acc_id" row_add "row_set acc_id" "row_del acc_id" acc_id "pk acc_id"
  by (rule pk_table_rows)

interpretation devices_tbl: pk_table "row_get dev_device_id" row_add "row_set dev_device_id"
  "row_del dev_device_id" dev_device_id "pk dev_device_id"
  by (rule pk_table_rows)

interpretation snapshots_tbl: pk_table "row_get snap_id" row_add "row_set snap_id"
  "row_del snap_id" snap_id "pk snap_id"
  by (rule pk_table_rows)

interpretation heads_tbl: pk_table "row_get head_device_id" row_add "row_set head_device_id"
  "row_del head_device_id" head_device_id "pk head_device_id"
  by (rule pk_table_rows)

interpretation pats_tbl: pk_table "row_get pat_id" row_add "row_set pat_id" "row_del pat_id" pat_id "pk pat_id"
  by (rule pk_table_rows)

interpretation idem_tbl: pk_table "row_get idem_key_hash" row_add "row_set idem_key_hash"
  "row_del idem_key_hash" idem_key_hash "pk idem_key_hash"
  by (rule pk_table_rows)

interpretation revoked_tbl: pk_table "row_get rev_jti" row_add "row_set rev_jti" "row_del rev_jti" rev_jti "pk rev_jti"
  by (rule pk_table_rows)

section \<open>Autoincrement\<close>

text \<open>What the operations rely on of the database's identifier allocation.\<close>

definition fresh_alloc :: "(int list \<Rightarrow> int) \<Rightarrow> bool" where
  "fresh_alloc alloc \<longleftrightarrow> (\<forall>ids. alloc ids \<notin> set ids)"

text \<open>SQLite's choice for an integer primary key: one above the largest id in use.\<close>

definition max_alloc :: "int list \<Rightarrow> int" where
  "max_alloc ids = foldr max ids 0 + 1"

lemma le_foldr_max: "x \<in> set xs \<Longrightarrow> x \<le> foldr max xs (0 :: int)"
  by (induction xs) auto

lemma fresh_max_alloc: "fresh_alloc max_alloc"
proof -
  have "max_alloc ids \<notin> set ids" for ids
    using le_foldr_max [of "max_alloc ids" ids] by (auto simp: max_alloc_def)
  then show ?thesis by (simp add: fresh_alloc_def)
qed

lemma fresh_row_get: "fresh_alloc alloc \<Longrightarrow> row_get key (alloc (map key rows)) rows = None"
  by (auto simp: fresh_alloc_def row_get_None image_iff) (metis image_eqI list.set_map)

text \<open>
  The literal the start-up migration writes for a string default reads back, as SQL
  reads a quoted literal, to the default itself, whatever quotes it contains.
\<close>
lemma literal_default_string_roundtrip:
  "\<exists>body. literal_default t (Some (DefStr s)) = Some ([quote_char] @ body @ [quote_char])
     \<and> unescape_quotes body = s"
  by (simp add: escape_unescape)

end
