(* ===== verification/Cache.thy ===== *)
theory Cache
  imports Prelude
begin

text \<open>
  The in-process TTL cache of \<^verbatim>\<open>app/_cache.py\<close> (\<open>TTLCache\<close>) and the interface its
  clients rely on. The monotonic clock is an argument of every operation. The cache lock
  makes each operation atomic, so an operation is a function on the store. The interface
  is stated as a locale and carries the staleness bound of a memoised lookup: a cached
  answer is at most one lifetime old.
\<close>

record 'v ttl_entry =
  ttl_value :: 'v
  ttl_expires :: int

record 'v ttl_cache =
  cache_ttl :: int
  cache_store :: "string \<rightharpoonup> 'v ttl_entry"

definition new_cache :: "int \<Rightarrow> 'v ttl_cache" where
  "new_cache ttl = \<lparr>cache_ttl = ttl, cache_store = Map.empty\<rparr>"

definition cache_get :: "int \<Rightarrow> 'v ttl_cache \<Rightarrow> string \<Rightarrow> 'v option" where
  "cache_get now c k =
     (case cache_store c k of None \<Rightarrow> None
      | Some e \<Rightarrow> if ttl_expires e \<le> now then None else Some (ttl_value e))"

definition cache_set :: "int \<Rightarrow> 'v ttl_cache \<Rightarrow> string \<Rightarrow> 'v \<Rightarrow> int option \<Rightarrow> 'v ttl_cache" where
  "cache_set now c k v ttl =
     c\<lparr>cache_store := (cache_store c)
         (k \<mapsto> \<lparr>ttl_value = v,
                ttl_expires = now + (case ttl of Some t \<Rightarrow> t | None \<Rightarrow> cache_ttl c)\<rparr>)\<rparr>"

definition get_or_compute :: "int \<Rightarrow> int \<Rightarrow> 'v ttl_cache \<Rightarrow> string \<Rightarrow> 'v \<Rightarrow> 'v \<times> 'v ttl_cache" where
  "get_or_compute t_get t_set c k computed =
     (case cache_get t_get c k of Some hit \<Rightarrow> (hit, c)
      | None \<Rightarrow> (computed, cache_set t_set c k computed None))"

definition cache_invalidate :: "'v ttl_cache \<Rightarrow> string option \<Rightarrow> 'v ttl_cache" where
  "cache_invalidate c k =
     c\<lparr>cache_store := (case k of None \<Rightarrow> Map.empty | Some k \<Rightarrow> (cache_store c)(k := None))\<rparr>"

text \<open>The module's three caches all live 30 seconds.\<close>

definition CACHE_TTL :: int where
  "CACHE_TTL = 30"

lemma cache_get_new [simp]: "cache_get t (new_cache l) k = None"
  by (simp add: cache_get_def new_cache_def)

lemma cache_get_set:
  "cache_get t' (cache_set t c k v ttl) k' =
     (if k' = k then (if t' < t + (case ttl of Some l \<Rightarrow> l | None \<Rightarrow> cache_ttl c) then Some v else None)
      else cache_get t' c k')"
  by (auto simp: cache_get_def cache_set_def)

lemma cache_get_invalidate:
  "cache_get t (cache_invalidate c k) k' = (if k = None \<or> k = Some k' then None else cache_get t c k')"
  by (auto simp: cache_get_def cache_invalidate_def split: option.splits)

lemma cache_get_earlier: "cache_get t' c k = Some v \<Longrightarrow> t \<le> t' \<Longrightarrow> cache_get t c k = Some v"
  by (auto simp: cache_get_def split: option.splits if_splits)

lemma cache_ttl_set [simp]: "cache_ttl (cache_set t c k v l) = cache_ttl c"
  by (simp add: cache_set_def)

lemma cache_ttl_invalidate [simp]: "cache_ttl (cache_invalidate c k) = cache_ttl c"
  by (simp add: cache_invalidate_def)

section \<open>The interface and the staleness bound\<close>

text \<open>
  A store of answers with a lifetime. \<open>ok P c\<close> says that every answer the store can
  still give was computed from the time-dependent truth \<open>P\<close> less than a lifetime ago;
  it is kept by storing the current truth and by dropping entries.
\<close>

locale ttl_store =
  fixes get :: "int \<Rightarrow> 'c \<Rightarrow> string \<Rightarrow> 'v option"
    and put :: "int \<Rightarrow> 'c \<Rightarrow> string \<Rightarrow> 'v \<Rightarrow> 'c"
    and drop :: "'c \<Rightarrow> string \<Rightarrow> 'c"
    and life :: "'c \<Rightarrow> int"
  assumes get_put: "get t' (put t c k v) k' =
      (if k' = k then (if t' < t + life c then Some v else None) else get t' c k')"
    and get_drop: "get t (drop c k) k' = (if k' = k then None else get t c k')"
    and get_earlier: "get t' c k = Some v \<Longrightarrow> t \<le> t' \<Longrightarrow> get t c k = Some v"
    and life_put: "life (put t c k v) = life c"
    and life_drop: "life (drop c k) = life c"
begin

definition ok :: "(int \<Rightarrow> string \<Rightarrow> 'v) \<Rightarrow> 'c \<Rightarrow> bool" where
  "ok P c \<longleftrightarrow> (\<forall>t k v. get t c k = Some v \<longrightarrow> (\<exists>t0. t < t0 + life c \<and> P t0 k = v))"

lemma ok_put: "ok P c \<Longrightarrow> ok P (put t c k (P t k))"
  by (auto simp: ok_def get_put life_put split: if_splits)

lemma ok_drop: "ok P c \<Longrightarrow> ok P (drop c k)"
  by (auto simp: ok_def get_drop life_drop split: if_splits)

lemma read_your_write: "t \<le> t' \<Longrightarrow> t' < t + life c \<Longrightarrow> get t' (put t c k v) k = Some v"
  by (simp add: get_put)

lemma expired: "t + life c \<le> t' \<Longrightarrow> get t' (put t c k v) k = None"
  by (simp add: get_put)

lemma staleness_bound:
  assumes "ok P c" and "get t c k = Some v"
    and "\<And>t'. s \<le> t' \<Longrightarrow> P t' k = w" and "s + life c \<le> t"
  shows "v = w"
proof -
  from assms(1,2) obtain t0 where "t < t0 + life c" "P t0 k = v"
    unfolding ok_def by blast
  with assms(3) [of t0] assms(4) show ?thesis by auto
qed

end

interpretation ttlc: ttl_store cache_get "\<lambda>t c k v. cache_set t c k v None"
  "\<lambda>c k. cache_invalidate c (Some k)" cache_ttl
  by unfold_locales (auto simp: cache_get_set cache_get_invalidate dest: cache_get_earlier)

lemma ok_new [simp]: "ttlc.ok P (new_cache l)"
  by (simp add: ttlc.ok_def)

text \<open>
  A TTL cache never serves an entry at or after its expiry, always serves the last
  value stored under a key before it, and keys do not interfere: after \<open>set\<close> at time
  \<open>t\<close> with lifetime \<open>l\<close>, a \<open>get\<close> at any time \<open>t'\<close> returns that value exactly
  when \<open>t' < t + l\<close>, and invalidation of the whole cache or of one key removes exactly
  those keys.
\<close>
lemma cache_get_after_set:
  "cache_get t' (cache_set t c k v ttl) k' =
     (if k' = k then (if t' < t + (case ttl of Some l \<Rightarrow> l | None \<Rightarrow> cache_ttl c) then Some v else None)
      else cache_get t' c k')
   \<and> cache_get t' (cache_invalidate c j) k' =
     (if j = None \<or> j = Some k' then None else cache_get t' c k')
   \<and> fst (get_or_compute t' t (cache_set t' c k v (Some 1)) k w) = v"
  by (simp add: cache_get_set cache_get_invalidate get_or_compute_def)

end
