(* ===== verification/Device_Ids.thy ===== *)
theory Device_Ids
  imports Prelude
begin

text \<open>
  Normalisation and validation of device ids (\<^verbatim>\<open>app/device_ids.py\<close>): strip, lower-case,
  then the pattern \<^verbatim>\<open>^[a-z0-9][a-z0-9-]{2,63}$\<close>. The pattern is written out as a
  predicate; \<open>$\<close> also matches before a final newline, which \<open>strip\<close> has removed.
\<close>

definition is_id_char :: "char \<Rightarrow> bool" where
  "is_id_char c = (is_lower_alnum c \<or> c = CHR ''-'')"

definition device_id_re :: "string \<Rightarrow> bool" where
  "device_id_re s =
     (let body = (if s \<noteq> [] \<and> char_code (last s) = 10 then butlast s else s) in
      case body of [] \<Rightarrow> False
      | c # cs \<Rightarrow> is_lower_alnum c \<and> list_all is_id_char cs \<and> 2 \<le> length cs \<and> length cs \<le> 63)"

definition normalize_device_id :: "string \<Rightarrow> exn + string" where
  "normalize_device_id raw =
     (let normalized = py_lower (py_strip raw) in
      if normalized = [] then Inl (HTTPException 400 ''device_id is required'')
      else if \<not> device_id_re normalized then
        Inl (HTTPException 400 ''device_id must be 3-64 chars, lowercase alphanumeric + dashes'')
      else Inr normalized)"

definition valid_device_id :: "string \<Rightarrow> bool" where
  "valid_device_id s \<longleftrightarrow> 3 \<le> length s \<and> length s \<le> 64 \<and> list_all is_id_char s \<and> is_lower_alnum (hd s)"

lemma last_py_strip: "py_strip s \<noteq> [] \<Longrightarrow> \<not> is_space (last (py_strip s))"
  unfolding py_strip_def
  by (metis hd_dropWhile hd_rev rev_is_Nil_conv last_rev)

lemma last_normalized: "py_lower (py_strip s) \<noteq> [] \<Longrightarrow> char_code (last (py_lower (py_strip s))) \<noteq> 10"
proof -
  assume "py_lower (py_strip s) \<noteq> []"
  then have ne: "py_strip s \<noteq> []" by simp
  then have "\<not> is_space (last (py_lower (py_strip s)))"
    using last_py_strip by (simp add: py_lower_def last_map)
  then show ?thesis by (auto simp: is_space_def Let_def)
qed

lemma device_id_re_valid:
  assumes "s \<noteq> []" and "char_code (last s) \<noteq> 10"
  shows "device_id_re s \<longleftrightarrow> valid_device_id s"
proof (cases s)
  case Nil
  with assms show ?thesis by simp
next
  case (Cons c cs)
  with assms show ?thesis
    by (auto simp: device_id_re_def valid_device_id_def is_id_char_def)
qed

lemma normalize_Inr:
  "normalize_device_id raw = Inr d \<longleftrightarrow> d = py_lower (py_strip raw) \<and> valid_device_id d"
  using last_normalized [of raw] device_id_re_valid [of "py_lower (py_strip raw)"]
  by (auto simp: normalize_device_id_def valid_device_id_def Let_def)

lemma is_id_char_not_space: "is_id_char c \<Longrightarrow> \<not> is_space c"
  by (auto simp: is_id_char_def is_lower_alnum_def is_digit_def is_space_def char_code_def Let_def)

lemma valid_strip: "valid_device_id d \<Longrightarrow> py_strip d = d"
proof -
  assume v: "valid_device_id d"
  then have ns: "\<forall>c \<in> set d. \<not> is_space c"
    by (auto simp: valid_device_id_def list_all_iff is_id_char_not_space)
  then have a: "dropWhile is_space d = d" by (cases d) auto
  from ns have "dropWhile is_space (rev d) = rev d" by (intro dropWhile_hd_id) (metis hd_in_set set_rev)
  with a show ?thesis by (simp add: py_strip_def)
qed

lemma is_id_char_lower: "is_id_char c \<Longrightarrow> char_lower c = c"
  by (auto simp: is_id_char_def is_lower_alnum_def is_digit_def char_lower_def char_code_def)

lemma valid_lower: "valid_device_id d \<Longrightarrow> py_lower d = d"
  by (simp add: valid_device_id_def py_lower_def list_all_iff is_id_char_lower map_idI)

text \<open>
  \<open>normalize_device_id\<close> accepts exactly the strings whose stripped, lower-cased form
  is 3 to 64 characters of \<open>a-z0-9-\<close> starting with an alphanumeric, returns that form,
  raises HTTP 400 otherwise, and is idempotent: a returned id normalises to itself.
\<close>
lemma normalize_device_id_spec:
  "(normalize_device_id raw = Inr d \<longleftrightarrow> d = py_lower (py_strip raw) \<and> valid_device_id d)
   \<and> (normalize_device_id raw = Inr d \<longrightarrow> normalize_device_id d = Inr d)
   \<and> (\<not> valid_device_id (py_lower (py_strip raw)) \<longrightarrow> is_http 400 (normalize_device_id raw))"
proof -
  have "is_http 400 (normalize_device_id raw)" if "\<not> valid_device_id (py_lower (py_strip raw))"
    using that last_normalized [of raw] device_id_re_valid [of "py_lower (py_strip raw)"]
    by (auto simp: normalize_device_id_def is_http_def Let_def)
  then show ?thesis by (auto simp: normalize_Inr valid_strip valid_lower)
qed

text \<open>The hypotheses are met by a padded, upper-case id.\<close>
theorem normalize_device_id_spec_witness:
  "normalize_device_id '' My-PC '' = Inr ''my-pc'' \<and> normalize_device_id ''my-pc'' = Inr ''my-pc''
   \<and> is_http 400 (normalize_device_id ''-x'')"
proof -
  have a: "py_lower (py_strip '' My-PC '') = ''my-pc''"
    by code_simp
  have b: "valid_device_id ''my-pc''"
    by (simp add: valid_device_id_def is_id_char_def is_lower_alnum_def is_digit_def char_code_def)
  have c: "\<not> valid_device_id (py_lower (py_strip ''-x''))"
    by (simp add: valid_device_id_def py_lower_def py_strip_def is_space_def char_lower_def char_code_def Let_def)
  show ?thesis
    using normalize_device_id_spec [of "'' My-PC ''" "''my-pc''"] normalize_device_id_spec [of "''-x''"] a b c
    by simp
qed

end
