(* ===== verification/Ratelimit.thy ===== *)
theory Ratelimit
  imports Prelude
begin

text \<open>
  Client addresses (\<^verbatim>\<open>app/ratelimit.py\<close>): the trusted-proxy list and the address a
  request is rate limited and audited under. The standard library's \<open>ipaddress\<close> module
  is modelled at the level the code uses it: parsing of addresses and networks are
  functions \<open>ip_address\<close> and \<open>ip_network\<close> that give the numeric value with its
  version, and membership compares the network bits.
\<close>

record ip_addr =
  ip_version :: nat
  ip_value :: nat

record ip_net =
  net_version :: nat
  net_value :: nat
  net_prefixlen :: nat

definition max_prefixlen :: "nat \<Rightarrow> nat" where
  "max_prefixlen v = (if v = 4 then 32 else 128)"

text \<open>\<open>ip in net\<close>: same version, and equal after dropping the host bits.\<close>

definition ip_in_net :: "ip_addr \<Rightarrow> ip_net \<Rightarrow> bool" where
  "ip_in_net ip net \<longleftrightarrow> ip_version ip = net_version net \<and>
     ip_value ip div 2 ^ (max_prefixlen (net_version net) - net_prefixlen net) =
     net_value net div 2 ^ (max_prefixlen (net_version net) - net_prefixlen net)"

datatype trusted = TrustAny | TrustNets "ip_net list"

fun parse_tokens :: "(string \<Rightarrow> ip_net option) \<Rightarrow> string list \<Rightarrow> ip_net list" where
  "parse_tokens ip_network [] = []"
| "parse_tokens ip_network (t # ts) =
     (let token = py_strip t in
      if token = [] then parse_tokens ip_network ts
      else (case ip_network token of None \<Rightarrow> parse_tokens ip_network ts
            | Some n \<Rightarrow> n # parse_tokens ip_network ts))"

definition parse_trusted_proxies :: "(string \<Rightarrow> ip_net option) \<Rightarrow> string \<Rightarrow> trusted" where
  "parse_trusted_proxies ip_network env =
     (let raw = py_strip env in
      if raw = [] then TrustNets []
      else if raw = ''*'' then TrustAny
      else TrustNets (parse_tokens ip_network (split_on (CHR '','') raw)))"

definition peer_is_trusted :: "(string \<Rightarrow> ip_addr option) \<Rightarrow> trusted \<Rightarrow> string option \<Rightarrow> bool" where
  "peer_is_trusted ip_address tr peer =
     (case peer of None \<Rightarrow> False
      | Some p \<Rightarrow>
        (case tr of TrustAny \<Rightarrow> True
         | TrustNets nets \<Rightarrow>
           (if nets = [] then False
            else case ip_address p of None \<Rightarrow> False
                 | Some ip \<Rightarrow> list_ex (ip_in_net ip) nets)))"

text \<open>What is read of a request: the socket peer, the request line and three headers.\<close>

record request =
  req_peer :: "string option"
  req_xff :: "string option"
  req_user_agent :: "string option"
  req_method :: string
  req_path :: string
  req_idempotency_key :: "string option"

definition client_ip :: "(string \<Rightarrow> ip_addr option) \<Rightarrow> trusted \<Rightarrow> request \<Rightarrow> string" where
  "client_ip ip_address tr r =
     (let peer = req_peer r;
          fallback = (case peer of None \<Rightarrow> ''0.0.0.0'' | Some p \<Rightarrow> str_or p ''0.0.0.0'') in
      if peer_is_trusted ip_address tr peer then
        (case req_xff r of None \<Rightarrow> fallback
         | Some xff \<Rightarrow>
           if xff = [] then fallback
           else str_or (py_strip (hd (split_on (CHR '','') xff))) fallback)
      else fallback)"

text \<open>slowapi's \<open>get_remote_address\<close>: the peer's host, \<open>127.0.0.1\<close> without one.\<close>

definition ratelimit_key ::
  "(string \<Rightarrow> ip_addr option) \<Rightarrow> (request \<Rightarrow> string) \<Rightarrow> trusted \<Rightarrow> request \<Rightarrow> string" where
  "ratelimit_key ip_address get_remote_address tr r =
     (if tr \<noteq> TrustNets [] then client_ip ip_address tr r else get_remote_address r)"

lemma peer_trusted_nets:
  "peer_is_trusted ip_address (TrustNets nets) (Some p) \<longleftrightarrow>
     (\<exists>ip. ip_address p = Some ip \<and> (\<exists>net \<in> set nets. ip_in_net ip net))"
  by (auto simp: peer_is_trusted_def list_ex_iff split: option.splits)

lemma client_ip_untrusted:
  "\<not> peer_is_trusted ip_address tr (req_peer r) \<Longrightarrow>
     client_ip ip_address tr r = client_ip ip_address tr (r\<lparr>req_xff := x\<rparr>)"
  by (simp add: client_ip_def)

lemma parse_tokens_append:
  "parse_tokens f (xs @ ys) = parse_tokens f xs @ parse_tokens f ys"
  by (induction xs) (auto simp: Let_def split: option.splits)

text \<open>
  C8: A client cannot choose its own address. Unless the socket peer parses as an address
  inside one of the configured proxy networks, the address of a request is the peer's
  whatever the \<open>X-Forwarded-For\<close> header says, and a malformed or empty configuration
  trusts nobody; from a trusted peer it is the first hop of the header.
\<close>
theorem client_ip_not_spoofable:
  "(\<not> (\<exists>p ip net. req_peer r = Some p \<and> ip_address p = Some ip \<and> net \<in> set nets \<and> ip_in_net ip net)
      \<longrightarrow> client_ip ip_address (TrustNets nets) r =
           (case req_peer r of None \<Rightarrow> ''0.0.0.0'' | Some p \<Rightarrow> str_or p ''0.0.0.0''))
   \<and> client_ip ip_address TrustAny (r\<lparr>req_peer := Some p, req_xff := Some (hop @ CHR '','' # rest)\<rparr>)
       = str_or (py_strip (hd (split_on (CHR '','') hop))) (str_or p ''0.0.0.0'')
   \<and> (\<forall>env. (\<forall>t \<in> set (split_on (CHR '','') (py_strip env)). ip_network (py_strip t) = None)
        \<and> py_strip env \<noteq> ''*'' \<longrightarrow> parse_trusted_proxies ip_network env = TrustNets [])"
proof -
  have none: "parse_tokens ip_network ts = []" if "\<forall>t \<in> set ts. ip_network (py_strip t) = None" for ts
    using that by (induction ts) (auto simp: Let_def)
  have hdsplit: "hd (split_on (CHR '','') (hop @ CHR '','' # rest)) = hd (split_on (CHR '','') hop)"
    by (induction hop) (auto split: list.splits)
  have pt: "peer_is_trusted ip_address TrustAny (Some p)" by (simp add: peer_is_trusted_def)
  have "\<not> peer_is_trusted ip_address (TrustNets nets) (req_peer r)"
    if "\<not> (\<exists>p ip net. req_peer r = Some p \<and> ip_address p = Some ip \<and> net \<in> set nets \<and> ip_in_net ip net)"
    using that by (cases "req_peer r") (auto simp: peer_trusted_nets, simp add: peer_is_trusted_def)
  then show ?thesis
    using none hdsplit pt
    by (auto simp: client_ip_def parse_trusted_proxies_def Let_def)
qed

definition demo_request :: request where
  "demo_request = \<lparr>req_peer = Some ''203.0.113.9'', req_xff = Some ''1.2.3.4'', req_user_agent = None,
     req_method = ''POST'', req_path = ''/x'', req_idempotency_key = Some ''key-1''\<rparr>"

text \<open>An untrusted peer with a forged header keeps its socket address.\<close>
theorem client_ip_not_spoofable_witness:
  "client_ip (\<lambda>s. if s = ''203.0.113.9'' then Some \<lparr>ip_version = 4, ip_value = 3405803785\<rparr> else None)
     (TrustNets [\<lparr>net_version = 4, net_value = 167772160, net_prefixlen = 8\<rparr>]) demo_request = ''203.0.113.9''
   \<and> parse_trusted_proxies (\<lambda>s. None) ''bogus, 300.1.1.1/8'' = TrustNets []"
proof -
  have s: "py_strip ''bogus, 300.1.1.1/8'' \<noteq> ''*''" by code_simp
  show ?thesis
    using client_ip_not_spoofable
      [of demo_request
          "\<lambda>s. if s = ''203.0.113.9'' then Some \<lparr>ip_version = 4, ip_value = 3405803785\<rparr> else None"
          "[\<lparr>net_version = 4, net_value = 167772160, net_prefixlen = 8\<rparr>]" "[]" "[]" "[]" "\<lambda>s. None"] s
    by (simp add: ip_in_net_def max_prefixlen_def str_or_def demo_request_def)
qed

end
