(* ===== verification/Event_Bus.thy ===== *)
theory Event_Bus
  imports Prelude
begin

text \<open>
  The in-process publish/subscribe bus of \<^verbatim>\<open>app/event_bus.py\<close>. Queues are objects in a
  heap (a subscriber's queue outlives its registration while a callback that names it
  is pending); the registry pairs each queue with the event loop it was created on. A
  publish from another thread only schedules \<open>_deliver\<close> on the owning loop, so the
  model has the pending callbacks of each loop as part of its state and a step that runs
  the oldest one. The interleavings of the threads are the paths of \<open>bus_step\<close>.
\<close>

definition MAX_SUBSCRIBERS :: nat where
  "MAX_SUBSCRIBERS = 32"

definition QUEUE_MAXSIZE :: nat where
  "QUEUE_MAXSIZE = 128"

text \<open>\<open>asyncio.Queue\<close>: \<open>put_nowait\<close> (None is \<open>QueueFull\<close>) and \<open>get_nowait\<close> (None is \<open>QueueEmpty\<close>).\<close>

definition put_nowait :: "'e list \<Rightarrow> 'e \<Rightarrow> 'e list option" where
  "put_nowait q e = (if QUEUE_MAXSIZE \<le> length q then None else Some (q @ [e]))"

fun get_nowait :: "'e list \<Rightarrow> ('e \<times> 'e list) option" where
  "get_nowait [] = None"
| "get_nowait (e # q) = Some (e, q)"

definition deliver :: "'e list \<Rightarrow> 'e \<Rightarrow> 'e list" where
  "deliver q e =
     (case put_nowait q e of Some q' \<Rightarrow> q'
      | None \<Rightarrow>
        (let q1 = (case get_nowait q of None \<Rightarrow> q | Some (_, r) \<Rightarrow> r) in
         case put_nowait q1 e of Some q' \<Rightarrow> q' | None \<Rightarrow> q1))"

record 'e bus =
  heap :: "nat \<Rightarrow> 'e list"
  queues :: "(nat \<times> nat) list"
  pending :: "(nat \<times> nat \<times> 'e) list"
  closed :: "nat list"

definition new_bus :: "'e bus" where
  "new_bus = \<lparr>heap = (\<lambda>_. []), queues = [], pending = [], closed = []\<rparr>"

definition bus_register :: "'e bus \<Rightarrow> nat \<Rightarrow> nat \<Rightarrow> exn + 'e bus" where
  "bus_register b q loop =
     (if MAX_SUBSCRIBERS \<le> length (queues b) then Inl (RuntimeError ''event bus saturated'')
      else Inr (b\<lparr>queues := queues b @ (if (q, loop) \<in> set (queues b) then [] else [(q, loop)])\<rparr>))"

definition bus_unregister :: "'e bus \<Rightarrow> nat \<Rightarrow> 'e bus" where
  "bus_unregister b q = b\<lparr>queues := filter (\<lambda>(q', _). q' \<noteq> q) (queues b)\<rparr>"

definition deliver_to :: "'e \<Rightarrow> nat \<Rightarrow> 'e bus \<Rightarrow> 'e bus" where
  "deliver_to e q b = b\<lparr>heap := (heap b)(q := deliver (heap b q) e)\<rparr>"

text \<open>One target of a publish: inline on the owning loop, scheduled otherwise.\<close>

definition publish_target :: "nat option \<Rightarrow> 'e \<Rightarrow> nat \<times> nat \<Rightarrow> 'e bus \<Rightarrow> 'e bus" where
  "publish_target current_loop e t b =
     (case t of (q, loop) \<Rightarrow>
        if current_loop = Some loop then deliver_to e q b
        else if loop \<in> set (closed b) then b
        else b\<lparr>pending := pending b @ [(loop, q, e)]\<rparr>)"

definition publish :: "nat option \<Rightarrow> 'e bus \<Rightarrow> 'e \<Rightarrow> 'e bus" where
  "publish current_loop b e = fold (publish_target current_loop e) (queues b) b"

text \<open>Entering \<open>subscribe()\<close> on a loop: a new queue object, then its registration.\<close>

definition subscribe_enter :: "'e bus \<Rightarrow> nat \<Rightarrow> nat \<Rightarrow> exn + 'e bus" where
  "subscribe_enter b q loop = bus_register (b\<lparr>heap := (heap b)(q := [])\<rparr>) q loop"

definition subscribe_exit :: "'e bus \<Rightarrow> nat \<Rightarrow> 'e bus" where
  "subscribe_exit b q = bus_unregister b q"

text \<open>One round of \<open>_drain\<close>: None while the queue is empty (the consumer waits).\<close>

definition drain :: "'e bus \<Rightarrow> nat \<Rightarrow> ('e \<times> 'e bus) option" where
  "drain b q = (case get_nowait (heap b q) of None \<Rightarrow> None
     | Some (e, r) \<Rightarrow> Some (e, b\<lparr>heap := (heap b)(q := r)\<rparr>))"

text \<open>A loop runs the oldest callback scheduled on it.\<close>

definition run_callback :: "'e bus \<Rightarrow> nat \<Rightarrow> 'e bus option" where
  "run_callback b loop =
     (case find (\<lambda>(l, _). l = loop) (pending b) of None \<Rightarrow> None
      | Some (l, q, e) \<Rightarrow>
        Some (deliver_to e q (b\<lparr>pending :=
          takeWhile (\<lambda>(l', _). l' \<noteq> loop) (pending b) @ tl (dropWhile (\<lambda>(l', _). l' \<noteq> loop) (pending b))\<rparr>)))"

inductive bus_step :: "'e bus \<Rightarrow> 'e bus \<Rightarrow> bool" where
  enter: "subscribe_enter b q loop = Inr b' \<Longrightarrow> q \<notin> fst ` set (queues b) \<Longrightarrow> bus_step b b'"
| leave: "bus_step b (subscribe_exit b q)"
| publishes: "bus_step b (publish cur b e)"
| callback: "run_callback b loop = Some b' \<Longrightarrow> bus_step b b'"
| receive: "drain b q = Some (e, b') \<Longrightarrow> bus_step b b'"
| close: "bus_step b (b\<lparr>closed := loop # closed b\<rparr>)"

definition bus_ok :: "'e bus \<Rightarrow> bool" where
  "bus_ok b \<longleftrightarrow> length (queues b) \<le> MAX_SUBSCRIBERS \<and> distinct (map fst (queues b)) \<and>
     (\<forall>q. length (heap b q) \<le> QUEUE_MAXSIZE)"

section \<open>Drop-oldest queues\<close>

text \<open>The last \<open>n\<close> elements of a list.\<close>

definition last_n :: "nat \<Rightarrow> 'a list \<Rightarrow> 'a list" where
  "last_n n xs = drop (length xs - n) xs"

lemma length_last_n [simp]: "length (last_n n xs) = min n (length xs)"
  by (auto simp: last_n_def)

lemma last_n_snoc: "last_n n (last_n n xs @ [x]) = last_n n (xs @ [x])"
proof -
  have "last_n n xs @ [x] = drop (length xs - n) (xs @ [x])" by (simp add: last_n_def)
  then have "last_n n (last_n n xs @ [x]) =
      drop (length (drop (length xs - n) (xs @ [x])) - n + (length xs - n)) (xs @ [x])"
    by (simp only: last_n_def [of n "drop (length xs - n) (xs @ [x])"] drop_drop)
  moreover have "length (drop (length xs - n) (xs @ [x])) - n + (length xs - n) = length (xs @ [x]) - n"
    by simp
  ultimately show ?thesis by (simp only: last_n_def)
qed

text \<open>
  The contract of a bounded queue that never blocks its producer: after a put it holds
  the newest \<open>cap\<close> of what it held and the new element, in order.
\<close>

locale drop_oldest =
  fixes put :: "'q \<Rightarrow> 'e \<Rightarrow> 'q"
    and contents :: "'q \<Rightarrow> 'e list"
    and cap :: nat
    and ok :: "'q \<Rightarrow> bool"
  assumes put_contents: "ok q \<Longrightarrow> contents (put q e) = last_n cap (contents q @ [e])"
    and ok_put: "ok q \<Longrightarrow> ok (put q e)"
    and ok_cap: "ok q \<Longrightarrow> length (contents q) \<le> cap"
begin

lemma ok_puts: "ok q \<Longrightarrow> ok (foldl put q es)"
  by (induction es arbitrary: q) (auto intro: ok_put)

lemma puts_contents: "ok q \<Longrightarrow> contents (foldl put q es) = last_n cap (contents q @ es)"
proof (induction es rule: rev_induct)
  case Nil
  then show ?case using ok_cap by (simp add: last_n_def)
next
  case (snoc e es)
  then have "contents (foldl put q (es @ [e])) = last_n cap (last_n cap (contents q @ es) @ [e])"
    by (simp add: put_contents ok_puts)
  then show ?case by (simp add: last_n_snoc)
qed

lemma newest_kept: "ok q \<Longrightarrow> 0 < cap \<Longrightarrow> last (contents (put q e)) = e"
  by (simp add: put_contents last_n_def)

end

lemma deliver_eq: "length q \<le> QUEUE_MAXSIZE \<Longrightarrow> deliver q e = last_n QUEUE_MAXSIZE (q @ [e])"
  by (cases q) (auto simp: deliver_def put_nowait_def last_n_def QUEUE_MAXSIZE_def Let_def)

interpretation subq: drop_oldest deliver "\<lambda>q. q" QUEUE_MAXSIZE "\<lambda>q. length q \<le> QUEUE_MAXSIZE"
  by unfold_locales (auto simp: deliver_eq)

section \<open>The invariant of the bus\<close>

lemma deliver_to_ok: "bus_ok b \<Longrightarrow> bus_ok (deliver_to e q b)"
  by (auto simp: bus_ok_def deliver_to_def deliver_eq)

lemma publish_target_ok: "bus_ok b \<Longrightarrow> bus_ok (publish_target cur e t b)"
  by (cases t) (auto simp: publish_target_def deliver_to_ok, simp add: bus_ok_def)

lemma fold_publish_ok: "bus_ok b \<Longrightarrow> bus_ok (fold (publish_target cur e) ts b)"
  by (induction ts arbitrary: b) (auto intro: publish_target_ok)

lemma enter_ok:
  assumes "bus_ok b" and "subscribe_enter b q loop = Inr b'" and "q \<notin> fst ` set (queues b)"
  shows "bus_ok b'"
proof -
  have n: "(q, loop) \<notin> set (queues b)" using assms(3) by force
  then have "b' = b\<lparr>heap := (heap b)(q := []), queues := queues b @ [(q, loop)]\<rparr>"
    and "length (queues b) < MAX_SUBSCRIBERS"
    using assms(2) by (auto simp: subscribe_enter_def bus_register_def split: if_splits)
  with assms(1,3) show ?thesis by (auto simp: bus_ok_def)
qed

lemma unregister_ok: "bus_ok b \<Longrightarrow> bus_ok (subscribe_exit b q)"
  by (auto simp: bus_ok_def subscribe_exit_def bus_unregister_def distinct_map_filter
      intro: le_trans [OF length_filter_le])

lemma callback_ok: "bus_ok b \<Longrightarrow> run_callback b loop = Some b' \<Longrightarrow> bus_ok b'"
  by (auto simp: run_callback_def split: option.splits intro!: deliver_to_ok) (simp add: bus_ok_def)

lemma drain_ok: "bus_ok b \<Longrightarrow> drain b q = Some (e, b') \<Longrightarrow> bus_ok b'"
  by (cases "heap b q") (auto simp: drain_def bus_ok_def, metis Suc_leD length_Cons)

lemma bus_step_ok:
  assumes "bus_ok b" and "bus_step b b'"
  shows "bus_ok b'"
  using assms(2,1)
proof cases
  case enter
  with assms(1) show ?thesis by (auto intro: enter_ok)
next
  case publishes
  with assms(1) show ?thesis by (auto simp: publish_def intro: fold_publish_ok)
next
  case close
  with assms(1) show ?thesis by (simp add: bus_ok_def)
qed (auto intro: assms(1) unregister_ok callback_ok drain_ok)

interpretation bus: inv_system bus_step bus_ok
  by unfold_locales (rule bus_step_ok)

lemma new_bus_ok: "bus_ok new_bus"
  by (simp add: bus_ok_def new_bus_def)

section \<open>A publish on the loop thread\<close>

lemma publish_inline:
  assumes "\<forall>t \<in> set ts. snd t = l" and "distinct (map fst ts)"
  shows "heap (fold (publish_target (Some l) e) ts b) q =
           (if q \<in> fst ` set ts then deliver (heap b q) e else heap b q)
     \<and> pending (fold (publish_target (Some l) e) ts b) = pending b"
  using assms by (induction ts arbitrary: b) (auto simp: publish_target_def deliver_to_def image_iff)

text \<open>
  C7: Whatever the interleaving of subscriptions, publishes from loop and worker
  threads, callbacks and reads, the bus has at most 32 subscribers and no queue holds
  more than 128 events; a publish never blocks and never raises, and the 33rd
  subscription raises \<open>RuntimeError\<close>.
\<close>
theorem bus_bounds:
  assumes "bus_step\<^sup>*\<^sup>* new_bus b"
  shows "length (queues b) \<le> 32 \<and> length (heap b q) \<le> 128
    \<and> (length (queues b) = 32 \<longrightarrow> subscribe_enter b q l = Inl (RuntimeError ''event bus saturated''))"
proof -
  have "bus_ok b" using bus.reach_inv [OF assms new_bus_ok] .
  then show ?thesis
    by (auto simp: bus_ok_def MAX_SUBSCRIBERS_def QUEUE_MAXSIZE_def subscribe_enter_def bus_register_def)
qed

text \<open>A bus on which one subscriber has received one event.\<close>
theorem bus_bounds_witness:
  "let b = publish (Some 0) (case subscribe_enter new_bus 7 0 of Inr b \<Rightarrow> b | Inl _ \<Rightarrow> new_bus) (5 :: int) in
   length (queues b) \<le> 32 \<and> length (heap b 7) \<le> 128 \<and> heap b 7 = [5]"
proof -
  define b1 :: "int bus" where "b1 = (case subscribe_enter new_bus 7 0 of Inr b \<Rightarrow> b | Inl _ \<Rightarrow> new_bus)"
  have e: "subscribe_enter (new_bus :: int bus) 7 0 = Inr b1"
    by (simp add: b1_def subscribe_enter_def bus_register_def new_bus_def MAX_SUBSCRIBERS_def)
  have "bus_step new_bus b1" by (rule bus_step.enter [OF e]) (simp add: new_bus_def)
  then have r: "bus_step\<^sup>*\<^sup>* new_bus (publish (Some 0) b1 5)"
    using bus_step.publishes [of b1 "Some 0" 5] by (meson converse_rtranclp_into_rtranclp rtranclp.rtrancl_refl)
  have h: "heap (publish (Some 0) b1 5) 7 = [5]"
    by (simp add: b1_def subscribe_enter_def bus_register_def new_bus_def MAX_SUBSCRIBERS_def
        publish_def publish_target_def deliver_to_def deliver_def put_nowait_def QUEUE_MAXSIZE_def)
  show ?thesis
    using bus_bounds [OF r, of 7] h by (simp add: b1_def [symmetric])
qed

text \<open>
  Drop-oldest back-pressure: a subscriber that reads nothing holds, after any sequence
  of events delivered to it, exactly the newest 128 of what it held and those events, in
  publication order; in particular a publish on the loop thread gives every subscriber of
  that loop its event as the newest one and touches no other queue.
\<close>
lemma deliver_drop_oldest:
  assumes "bus_ok b" and "\<forall>t \<in> set (queues b). snd t = l"
  shows "foldl deliver (heap b q) es = last_n 128 (heap b q @ es)
    \<and> heap (publish (Some l) b e) q =
        (if q \<in> fst ` set (queues b) then last_n 128 (heap b q @ [e]) else heap b q)"
proof -
  have c: "length (heap b q) \<le> QUEUE_MAXSIZE" using assms(1) by (simp add: bus_ok_def)
  have d: "distinct (map fst (queues b))" using assms(1) by (simp add: bus_ok_def)
  have "heap (publish (Some l) b e) q =
      (if q \<in> fst ` set (queues b) then deliver (heap b q) e else heap b q)"
    unfolding publish_def by (rule publish_inline [OF assms(2) d, THEN conjunct1])
  then show ?thesis
    using subq.puts_contents [OF c, of es] deliver_eq [OF c, of e] by (simp add: QUEUE_MAXSIZE_def)
qed

text \<open>The hypotheses hold on a bus with one subscriber.\<close>
lemma deliver_drop_oldest_witness:
  "heap (publish (Some 3) (new_bus\<lparr>queues := [(1, 3)]\<rparr>) (9 :: int)) 1 = last_n 128 ([] @ [9])"
proof -
  have "bus_ok (new_bus\<lparr>queues := [(1, 3)]\<rparr> :: int bus)"
    by (simp add: bus_ok_def new_bus_def MAX_SUBSCRIBERS_def)
  then show ?thesis
    using deliver_drop_oldest [of "new_bus\<lparr>queues := [(1, 3)]\<rparr>" 3 1 "[]" "9 :: int"] by (simp add: new_bus_def)
qed

end
