(* ===== verification/Audit_Trail.thy ===== *)
theory Audit_Trail
  imports Db Cache Event_Bus Ratelimit
begin

text \<open>
  The state of the server process and the audit trail (\<^verbatim>\<open>app/audit.py\<close>,
  \<^verbatim>\<open>app/webhooks.py\<close>, the security counter of \<^verbatim>\<open>app/observability.py\<close> and the
  session life cycle \<open>get_session\<close> of \<^verbatim>\<open>app/db.py\<close>).

  \<open>app_state\<close> holds the open session's view of the database (\<open>db\<close>), the last committed
  database (\<open>committed\<close>), and what a rollback does not undo: the event bus, the webhook
  pool, the caches, the metrics and the object store. A handler takes a state to an
  exception or a result together with the new state; \<open>with_session\<close> is the request's
  transaction around it.
\<close>

text \<open>
  What the catalog endpoint caches: the serialised page with its ETag, and the timestamp
  that goes with a content hash.
\<close>

datatype catalog_entry = Page string string | Stable string "string option"

record app_state =
  db :: database
  committed :: database
  audit_bus :: "json bus"
  webhook_pool :: "(string \<times> json) list"
  revoked_cache :: "bool ttl_cache"
  stats_cache :: "json ttl_cache"
  catalog_cache :: "catalog_entry ttl_cache"
  security_events :: "string \<Rightarrow> nat"
  objects :: "string \<times> string \<rightharpoonup> bytes"

type_synonym 'a handler = "app_state \<Rightarrow> (exn + 'a) \<times> app_state"

text \<open>
  The ambient parameters: environment variables, the address parser, the database's
  identifier allocation and the rendering of timestamps.
\<close>

record environment =
  env_ip_address :: "string \<Rightarrow> ip_addr option"
  env_trusted :: trusted
  env_disable_webhooks :: bool
  env_alloc :: "int list \<Rightarrow> int"
  env_isoformat :: "instant \<Rightarrow> string"

section \<open>The request's transaction\<close>

definition commit :: "app_state \<Rightarrow> app_state" where
  "commit st = st\<lparr>committed := db st\<rparr>"

definition rollback :: "app_state \<Rightarrow> app_state" where
  "rollback st = st\<lparr>db := committed st\<rparr>"

definition get_session :: "'a handler \<Rightarrow> 'a handler" where
  "get_session h st =
     (case h st of (Inl e, st') \<Rightarrow> (Inl e, rollback st') | (Inr r, st') \<Rightarrow> (Inr r, commit st'))"

text \<open>A handler with its result forgotten.\<close>

definition void :: "(exn + 'a) \<times> app_state \<Rightarrow> (exn + unit) \<times> app_state" where
  "void x = (case x of (Inl e, st) \<Rightarrow> (Inl e, st) | (Inr _, st) \<Rightarrow> (Inr (), st))"

lemma void_state: "void x = (r, st') \<Longrightarrow> \<exists>r0. x = (r0, st')"
  by (auto simp: void_def split: prod.splits sum.splits)

section \<open>Webhooks\<close>

fun webhook_matches :: "string \<Rightarrow> string list \<Rightarrow> bool" where
  "webhook_matches action [] = False"
| "webhook_matches action (p0 # ps) =
     (let p = py_strip p0 in
      if p = [] then webhook_matches action ps
      else if last p = CHR ''.'' then
        (if prefix p action then True else webhook_matches action ps)
      else if action = p then True else webhook_matches action ps)"

definition resolve_config :: "database \<Rightarrow> string option \<times> string list" where
  "resolve_config d =
     (case global_policies d of None \<Rightarrow> (None, [])
      | Some g \<Rightarrow>
        (case gp_webhook_url g of None \<Rightarrow> (None, [])
         | Some u \<Rightarrow>
           (if py_strip u = [] then (None, [])
            else (Some (py_strip u),
                  filter (\<lambda>p. p \<noteq> []) (map py_strip (split_on (CHR '','') (gp_webhook_event_prefixes g)))))))"

definition webhook_payload :: "instant \<Rightarrow> json \<Rightarrow> json" where
  "webhook_payload now event =
     JObj [(''source'', JStr ''nks-wdc-catalog-api''), (''ts'', JInt now), (''event'', event)]"

definition event_action :: "json \<Rightarrow> string" where
  "event_action event = (case jget event ''action'' of Some (JStr a) \<Rightarrow> a | _ \<Rightarrow> [])"

definition fire :: "environment \<Rightarrow> instant \<Rightarrow> json \<Rightarrow> app_state \<Rightarrow> app_state" where
  "fire env now event st =
     (if env_disable_webhooks env then st
      else (case resolve_config (db st) of
              (None, _) \<Rightarrow> st
            | (Some url, pfxs) \<Rightarrow>
              if pfxs = [] then st
              else if \<not> webhook_matches (event_action event) pfxs then st
              else st\<lparr>webhook_pool := webhook_pool st @ [(url, webhook_payload now event)]\<rparr>))"

text \<open>The outcome of one POST: a response, an HTTP error, or another failure with its text.\<close>

datatype post_outcome = Response nat | HttpErr nat | Failed string

definition post_result :: "post_outcome \<Rightarrow> int option \<times> string option" where
  "post_result r =
     (case r of
        Response s \<Rightarrow> (Some (int s), if 300 \<le> s then Some (''HTTP '' @ show_nat s) else None)
      | HttpErr s \<Rightarrow> (Some (int s), Some (''HTTP '' @ show_nat s))
      | Failed m \<Rightarrow> (None, Some m))"

definition record_delivery ::
  "environment \<Rightarrow> instant \<Rightarrow> string \<Rightarrow> string option \<Rightarrow> int option \<Rightarrow> int \<Rightarrow> string option
     \<Rightarrow> database \<Rightarrow> database" where
  "record_delivery env now url action status ms err d =
     d\<lparr>webhook_deliveries := row_add
         \<lparr>whd_id = env_alloc env (map whd_id (webhook_deliveries d)), whd_url = url,
          whd_event_action = action, whd_status_code = status, whd_duration_ms = Some ms,
          whd_error = (if truthy err then map_option (take 512) err else None),
          whd_created_at = now\<rparr> (webhook_deliveries d)\<rparr>"

definition post ::
  "environment \<Rightarrow> instant \<Rightarrow> string \<times> json \<Rightarrow> post_outcome \<Rightarrow> int \<Rightarrow> database \<Rightarrow> database" where
  "post env now job outcome ms d =
     (let action = (case jget (snd job) ''event'' of Some ev \<Rightarrow>
                      (case jget ev ''action'' of Some (JStr a) \<Rightarrow> Some a | _ \<Rightarrow> None) | None \<Rightarrow> None);
          (status, err) = post_result outcome in
      record_delivery env now (fst job) action status ms err d)"

section \<open>The security counter\<close>

definition SECURITY_ACTION_ALLOWLIST :: "string list" where
  "SECURITY_ACTION_ALLOWLIST =
     [''login.failed'', ''login.locked_out'', ''login.lockout_armed'', ''login.sso'',
      ''totp.login_failed'', ''permission.denied'', ''password.change_failed'',
      ''user.suspended'', ''user.unlocked'', ''user.deleted'', ''user.tokens_revoked'',
      ''session.killed'', ''session.killed_others'', ''admin.global_session_kill'',
      ''totp.disabled'', ''backup.exported'', ''webhook.retried'', ''pat.rotated'']"

definition inc_security_event :: "string \<Rightarrow> app_state \<Rightarrow> app_state" where
  "inc_security_event action st =
     (if action \<in> set SECURITY_ACTION_ALLOWLIST
      then st\<lparr>security_events := (security_events st)(action := security_events st action + 1)\<rparr>
      else st)"

section \<open>The audit event\<close>

definition audit_payload :: "environment \<Rightarrow> audit_event \<Rightarrow> json" where
  "audit_payload env ev =
     JObj [(''id'', JInt (aud_id ev)), (''created_at'', JStr (env_isoformat env (aud_created_at ev))),
           (''actor_id'', jopt_int (aud_actor_id ev)), (''actor_email'', jopt_str (aud_actor_email ev)),
           (''action'', JStr (aud_action ev)), (''resource_type'', jopt_str (aud_resource_type ev)),
           (''resource_id'', jopt_str (aud_resource_id ev)), (''ip'', jopt_str (aud_ip ev)),
           (''detail'', case aud_detail ev of None \<Rightarrow> JNull | Some j \<Rightarrow> j)]"

text \<open>The row \<open>emit\<close> builds. The handlers run on worker threads, so a publish has no running loop.\<close>

definition audit_row ::
  "environment \<Rightarrow> instant \<Rightarrow> account option \<Rightarrow> string \<Rightarrow> request option \<Rightarrow> string option
     \<Rightarrow> string option \<Rightarrow> json option \<Rightarrow> database \<Rightarrow> audit_event" where
  "audit_row env now actor action req rtype rid detail d =
     \<lparr>aud_id = env_alloc env (map aud_id (audit_events d)),
      aud_actor_id = map_option acc_id actor, aud_actor_email = map_option acc_email actor,
      aud_action = action, aud_resource_type = rtype, aud_resource_id = rid, aud_detail = detail,
      aud_ip = map_option (client_ip (env_ip_address env) (env_trusted env)) req,
      aud_user_agent = (case req of None \<Rightarrow> None | Some r \<Rightarrow> req_user_agent r),
      aud_created_at = now\<rparr>"

definition emit ::
  "environment \<Rightarrow> instant \<Rightarrow> account option \<Rightarrow> string \<Rightarrow> request option \<Rightarrow> string option
     \<Rightarrow> string option \<Rightarrow> json option \<Rightarrow> app_state \<Rightarrow> app_state" where
  "emit env now actor action req rtype rid detail st =
     (let ev = audit_row env now actor action req rtype rid detail (db st);
          st1 = st\<lparr>db := (db st)\<lparr>audit_events := row_add ev (audit_events (db st))\<rparr>\<rparr>;
          payload = audit_payload env ev;
          st2 = st1\<lparr>audit_bus := publish None (audit_bus st1) payload\<rparr>;
          st3 = fire env now payload st2
      in inc_security_event action st3)"

section \<open>Lemmas\<close>

text \<open>One configured name: a dotted one is a prefix, any other an exact action; blanks match nothing.\<close>

definition webhook_rule :: "string \<Rightarrow> string \<Rightarrow> bool" where
  "webhook_rule a p0 \<longleftrightarrow> (let p = py_strip p0 in
     p \<noteq> [] \<and> (if last p = CHR ''.'' then prefix p a else a = p))"

lemma webhook_matches_iff: "webhook_matches a ps \<longleftrightarrow> (\<exists>p \<in> set ps. webhook_rule a p)"
  by (induction ps) (auto simp: Let_def webhook_rule_def)

lemma db_fire [simp]: "db (fire env now ev st) = db st"
  by (auto simp: fire_def split: prod.splits option.splits)

lemma committed_fire [simp]: "committed (fire env now ev st) = committed st"
  by (auto simp: fire_def split: prod.splits option.splits)

lemma audit_bus_fire [simp]: "audit_bus (fire env now ev st) = audit_bus st"
  by (auto simp: fire_def split: prod.splits option.splits)

lemma objects_fire [simp]: "objects (fire env now ev st) = objects st"
  by (auto simp: fire_def split: prod.splits option.splits)

lemma revoked_cache_fire [simp]: "revoked_cache (fire env now ev st) = revoked_cache st"
  by (auto simp: fire_def split: prod.splits option.splits)

lemma inc_security_event_frame [simp]:
  "db (inc_security_event a st) = db st" "committed (inc_security_event a st) = committed st"
  "audit_bus (inc_security_event a st) = audit_bus st" "objects (inc_security_event a st) = objects st"
  "webhook_pool (inc_security_event a st) = webhook_pool st"
  "revoked_cache (inc_security_event a st) = revoked_cache st"
  by (simp_all add: inc_security_event_def)

lemma db_emit:
  "db (emit env now actor action req rt rid detail st) =
     (db st)\<lparr>audit_events := row_add (audit_row env now actor action req rt rid detail (db st))
               (audit_events (db st))\<rparr>"
  by (simp add: emit_def Let_def)

lemma emit_frame [simp]:
  "committed (emit env now actor action req rt rid detail st) = committed st"
  "objects (emit env now actor action req rt rid detail st) = objects st"
  "revoked_cache (emit env now actor action req rt rid detail st) = revoked_cache st"
  by (simp_all add: emit_def Let_def)

lemma emit_tables [frame_simps]:
  "accounts (db (emit env now actor action req rt rid detail st)) = accounts (db st)"
  "device_configs (db (emit env now actor action req rt rid detail st)) = device_configs (db st)"
  "device_snapshots (db (emit env now actor action req rt rid detail st)) = device_snapshots (db st)"
  "device_heads (db (emit env now actor action req rt rid detail st)) = device_heads (db st)"
  "personal_access_tokens (db (emit env now actor action req rt rid detail st)) = personal_access_tokens (db st)"
  "revoked_tokens (db (emit env now actor action req rt rid detail st)) = revoked_tokens (db st)"
  "retention_policies (db (emit env now actor action req rt rid detail st)) = retention_policies (db st)"
  "consumed_invites (db (emit env now actor action req rt rid detail st)) = consumed_invites (db st)"
  "global_policies (db (emit env now actor action req rt rid detail st)) = global_policies (db st)"
  "account_encryption_keys (db (emit env now actor action req rt rid detail st)) = account_encryption_keys (db st)"
  by (simp_all add: db_emit)

lemma pending_publish_None:
  "pending (publish None b e) =
     pending b @ map (\<lambda>(q, l). (l, q, e)) (filter (\<lambda>(q, l). l \<notin> set (closed b)) (queues b))"
proof -
  have "pending (fold (publish_target None e) ts b) =
      pending b @ map (\<lambda>(q, l). (l, q, e)) (filter (\<lambda>(q, l). l \<notin> set (closed b)) ts)" for ts
    by (induction ts arbitrary: b) (auto simp: publish_target_def)
  then show ?thesis by (simp add: publish_def)
qed

text \<open>
  The audit trail of one mutation. \<open>emit\<close> appends exactly one row with the actor, the
  action and the trusted client address, changes no other table, schedules the event on
  every live subscriber, and hands a webhook job to the pool exactly when webhooks are
  enabled, an endpoint is configured and the action equals one of the configured names or
  extends one that ends in a dot.
\<close>
lemma emit_spec:
  "let st' = emit env now actor action req rt rid detail st;
       ev = audit_row env now actor action req rt rid detail (db st)
   in audit_events (db st') = audit_events (db st) @ [ev]
    \<and> (db st')\<lparr>audit_events := audit_events (db st)\<rparr> = db st
    \<and> pending (audit_bus st') = pending (audit_bus st) @
        map (\<lambda>(q, l). (l, q, audit_payload env ev))
          (filter (\<lambda>(q, l). l \<notin> set (closed (audit_bus st))) (queues (audit_bus st)))
    \<and> webhook_pool st' = webhook_pool st @
        (case resolve_config (db st) of
           (Some url, pfxs) \<Rightarrow>
             if \<not> env_disable_webhooks env \<and> (\<exists>p \<in> set pfxs. webhook_rule action p)
             then [(url, webhook_payload now (audit_payload env ev))] else []
         | (None, _) \<Rightarrow> [])"
proof -
  define ev where "ev = audit_row env now actor action req rt rid detail (db st)"
  define st' where "st' = emit env now actor action req rt rid detail st"
  have act: "event_action (audit_payload env ev) = action"
    by (simp add: event_action_def audit_payload_def jget_def ev_def audit_row_def)
  have rc: "resolve_config (db st\<lparr>audit_events := x\<rparr>) = resolve_config (db st)" for x
    by (simp add: resolve_config_def)
  have one: "audit_events (db st') = audit_events (db st) @ [ev]"
    and two: "(db st')\<lparr>audit_events := audit_events (db st)\<rparr> = db st"
    and three: "pending (audit_bus st') = pending (audit_bus st) @
        map (\<lambda>(q, l). (l, q, audit_payload env ev))
          (filter (\<lambda>(q, l). l \<notin> set (closed (audit_bus st))) (queues (audit_bus st)))"
    by (simp_all add: st'_def ev_def db_emit row_add_def emit_def Let_def pending_publish_None)
  have "webhook_pool st' = webhook_pool (fire env now (audit_payload env ev)
      (st\<lparr>db := (db st)\<lparr>audit_events := row_add ev (audit_events (db st))\<rparr>,
          audit_bus := publish None (audit_bus st) (audit_payload env ev)\<rparr>))"
    by (simp add: st'_def ev_def emit_def Let_def)
  then have four: "webhook_pool st' = webhook_pool st @
        (case resolve_config (db st) of
           (Some url, pfxs) \<Rightarrow>
             if \<not> env_disable_webhooks env \<and> (\<exists>p \<in> set pfxs. webhook_rule action p)
             then [(url, webhook_payload now (audit_payload env ev))] else []
         | (None, _) \<Rightarrow> [])"
    by (simp add: fire_def rc act webhook_matches_iff split: prod.splits option.splits)
  show ?thesis
    using one two three four unfolding Let_def st'_def ev_def by blast
qed



end
