(* ===== verification/Json_Codec.thy ===== *)
theory Json_Codec
  imports Prelude
begin

text \<open>
  The parts of Python's \<open>json\<close> module that the service uses: \<open>dumps\<close> with
  \<open>ensure_ascii\<close>, \<open>sort_keys\<close> and compact separators (the canonical bytes that
  snapshots are hashed and stored as) and \<open>loads\<close>. A float is kept as the lexeme that
  \<open>repr\<close> prints. Code points above 255 are outside the model's characters: an escape
  for one makes \<open>loads\<close> fail.
\<close>

section \<open>Printing\<close>

definition bslash :: char where "bslash = CHR 0x5C"

definition dquote :: char where "dquote = CHR 0x22"

definition hex_digit :: "nat \<Rightarrow> char" where
  "hex_digit d = (if d < 10 then char_of (48 + d) else char_of (87 + d))"

definition json_escape :: "char \<Rightarrow> string" where
  "json_escape c =
     (let n = char_code c in
      if n = 34 \<or> n = 92 then [bslash, c]
      else if n = 10 then [bslash, CHR ''n'']
      else if n = 13 then [bslash, CHR ''r'']
      else if n = 9 then [bslash, CHR ''t'']
      else if n = 12 then [bslash, CHR ''f'']
      else if n = 8 then [bslash, CHR ''b'']
      else if n < 32 \<or> 126 < n then
        [bslash, CHR ''u'', CHR ''0'', CHR ''0'', hex_digit (n div 16), hex_digit (n mod 16)]
      else [c])"

definition dumps_str :: "string \<Rightarrow> string" where
  "dumps_str s = dquote # concat (map json_escape s) @ [dquote]"

fun dumps :: "json \<Rightarrow> string" where
  "dumps JNull = ''null''"
| "dumps (JBool b) = (if b then ''true'' else ''false'')"
| "dumps (JInt i) = show_int i"
| "dumps (JReal r) = r"
| "dumps (JStr s) = dumps_str s"
| "dumps (JList js) = ''['' @ join_with '','' (map dumps js) @ '']''"
| "dumps (JObj kvs) = ''{'' @ join_with '','' (map (\<lambda>(k, v). dumps_str k @ '':'' @ dumps v) kvs) @ ''}''"

text \<open>The same with Python's default separators, and with \<open>indent=2\<close> at a nesting level.\<close>

fun dumps_default :: "json \<Rightarrow> string" where
  "dumps_default (JList js) = ''['' @ join_with '', '' (map dumps_default js) @ '']''"
| "dumps_default (JObj kvs) =
     ''{'' @ join_with '', '' (map (\<lambda>(k, v). dumps_str k @ '': '' @ dumps_default v) kvs) @ ''}''"
| "dumps_default JNull = ''null''"
| "dumps_default (JBool b) = (if b then ''true'' else ''false'')"
| "dumps_default (JInt i) = show_int i"
| "dumps_default (JReal r) = r"
| "dumps_default (JStr s) = dumps_str s"

text \<open>The common form of the one-line printers: how a character is escaped, and the two separators.\<close>

definition dumps_str_gen :: "(char \<Rightarrow> string) \<Rightarrow> string \<Rightarrow> string" where
  "dumps_str_gen esc s = dquote # concat (map esc s) @ [dquote]"

fun dumps_gen :: "(char \<Rightarrow> string) \<Rightarrow> string \<Rightarrow> string \<Rightarrow> json \<Rightarrow> string" where
  "dumps_gen esc i k JNull = ''null''"
| "dumps_gen esc i k (JBool b) = (if b then ''true'' else ''false'')"
| "dumps_gen esc i k (JInt n) = show_int n"
| "dumps_gen esc i k (JReal r) = r"
| "dumps_gen esc i k (JStr s) = dumps_str_gen esc s"
| "dumps_gen esc i k (JList js) = ''['' @ join_with i (map (dumps_gen esc i k) js) @ '']''"
| "dumps_gen esc i k (JObj kvs) =
     ''{'' @ join_with i (map (\<lambda>(x, v). dumps_str_gen esc x @ k @ dumps_gen esc i k v) kvs) @ ''}''"

lemma dumps_gen_eq: "dumps j = dumps_gen json_escape '','' '':'' j" "dumps_default j = dumps_gen json_escape '', '' '': '' j"
proof (induction j)
  case (JList js)
  {
    case 1
    have "map dumps js = map (dumps_gen json_escape '','' '':'') js" using JList(1) by simp
    then show ?case by (simp del: map_eq_conv)
  next
    case 2
    have "map dumps_default js = map (dumps_gen json_escape '', '' '': '') js" using JList(2) by simp
    then show ?case by (simp del: map_eq_conv)
  }
next
  case (JObj kvs)
  {
    case 1
    have "map (\<lambda>(k, v). dumps_str k @ '':'' @ dumps v) kvs
        = map (\<lambda>(x, v). dumps_str_gen json_escape x @ '':'' @ dumps_gen json_escape '','' '':'' v) kvs"
      using JObj(1) by (auto simp: dumps_str_def dumps_str_gen_def)
    then show ?case by (simp only: dumps.simps dumps_gen.simps)
  next
    case 2
    have "map (\<lambda>(k, v). dumps_str k @ '': '' @ dumps_default v) kvs
        = map (\<lambda>(x, v). dumps_str_gen json_escape x @ '': '' @ dumps_gen json_escape '', '' '': '' v) kvs"
      using JObj(2) by (auto simp: dumps_str_def dumps_str_gen_def)
    then show ?case by (simp only: dumps_default.simps dumps_gen.simps)
  }
qed (simp_all add: dumps_str_def dumps_str_gen_def)

definition newline_indent :: "nat \<Rightarrow> string" where
  "newline_indent n = CHR 0x0A # replicate (2 * n) (CHR '' '')"

fun dumps_indent :: "nat \<Rightarrow> json \<Rightarrow> string" where
  "dumps_indent n (JList js) =
     (if js = [] then ''[]''
      else ''['' @ newline_indent (Suc n) @ join_with ('','' @ newline_indent (Suc n)) (map (dumps_indent (Suc n)) js)
           @ newline_indent n @ '']'')"
| "dumps_indent n (JObj kvs) =
     (if kvs = [] then ''{}''
      else ''{'' @ newline_indent (Suc n) @
           join_with ('','' @ newline_indent (Suc n))
             (map (\<lambda>(k, v). dumps_str k @ '': '' @ dumps_indent (Suc n) v) kvs)
           @ newline_indent n @ ''}'')"
| "dumps_indent n JNull = ''null''"
| "dumps_indent n (JBool b) = (if b then ''true'' else ''false'')"
| "dumps_indent n (JInt i) = show_int i"
| "dumps_indent n (JReal r) = r"
| "dumps_indent n (JStr s) = dumps_str s"

text \<open>The key order of \<open>sort_keys=True\<close>, at every level.\<close>

fun norm_json :: "json \<Rightarrow> json" where
  "norm_json (JList js) = JList (map norm_json js)"
| "norm_json (JObj kvs) = JObj (sort_key fst (map (\<lambda>(k, v). (k, norm_json v)) kvs))"
| "norm_json JNull = JNull"
| "norm_json (JBool b) = JBool b"
| "norm_json (JInt i) = JInt i"
| "norm_json (JReal r) = JReal r"
| "norm_json (JStr s) = JStr s"

section \<open>Parsing\<close>

definition is_ws :: "char \<Rightarrow> bool" where
  "is_ws c = (char_code c = 32 \<or> char_code c = 9 \<or> char_code c = 10 \<or> char_code c = 13)"

definition skip_ws :: "string \<Rightarrow> string" where
  "skip_ws s = dropWhile is_ws s"

definition unhex :: "char \<Rightarrow> nat option" where
  "unhex c = (let n = char_code c in
     if 48 \<le> n \<and> n \<le> 57 then Some (n - 48)
     else if 97 \<le> n \<and> n \<le> 102 then Some (n - 87)
     else if 65 \<le> n \<and> n \<le> 70 then Some (n - 55) else None)"

definition unhex4 :: "char \<Rightarrow> char \<Rightarrow> char \<Rightarrow> char \<Rightarrow> char option" where
  "unhex4 a b c d = (case (unhex a, unhex b, unhex c, unhex d) of
     (Some w, Some x, Some y, Some z) \<Rightarrow>
       (if w = 0 \<and> x = 0 then Some (char_of (y * 16 + z)) else None)
   | _ \<Rightarrow> None)"

definition unescape_simple :: "char \<Rightarrow> char option" where
  "unescape_simple c = (let n = char_code c in
     if n = 34 \<or> n = 92 \<or> n = 47 then Some c
     else if n = 110 then Some (char_of (10 :: nat))
     else if n = 114 then Some (char_of (13 :: nat))
     else if n = 116 then Some (char_of (9 :: nat))
     else if n = 102 then Some (char_of (12 :: nat))
     else if n = 98 then Some (char_of (8 :: nat)) else None)"

fun consc :: "char \<Rightarrow> (string \<times> string) option \<Rightarrow> (string \<times> string) option" where
  "consc c None = None"
| "consc c (Some (s, r)) = Some (c # s, r)"

text \<open>The rest of a string literal after its opening quote.\<close>

fun parse_str :: "string \<Rightarrow> (string \<times> string) option" where
  "parse_str [] = None"
| "parse_str (c # r) =
     (if c = dquote then Some ([], r)
      else if c = bslash then
        (case r of [] \<Rightarrow> None
         | e # r1 \<Rightarrow>
           (if e = CHR ''u'' then
              (case r1 of h1 # h2 # h3 # h4 # r2 \<Rightarrow>
                 (case unhex4 h1 h2 h3 h4 of None \<Rightarrow> None | Some x \<Rightarrow> consc x (parse_str r2))
               | _ \<Rightarrow> None)
            else (case unescape_simple e of None \<Rightarrow> None | Some x \<Rightarrow> consc x (parse_str r1))))
      else if char_code c < 32 then None
      else consc c (parse_str r))"

text \<open>
  Python's number pattern: an optional sign, \<open>0\<close> or digits without a leading zero, then
  an optional fraction and an optional exponent. The result is the lexeme, whether it is
  a float, and the rest.
\<close>

definition scan_int :: "string \<Rightarrow> (string \<times> string) option" where
  "scan_int s =
     (let (sg, s1) = (case s of c # r \<Rightarrow> if c = CHR ''-'' then (''-'', r) else ([], s) | [] \<Rightarrow> ([], s)) in
      case s1 of [] \<Rightarrow> None
      | c # r \<Rightarrow>
        (if c = CHR ''0'' then Some (sg @ ''0'', r)
         else if is_digit c then Some (sg @ takeWhile is_digit s1, dropWhile is_digit s1)
         else None))"

definition scan_frac :: "string \<Rightarrow> string \<times> string" where
  "scan_frac s = (case s of c # d # r \<Rightarrow>
       (if c = CHR ''.'' \<and> is_digit d then (c # takeWhile is_digit (d # r), dropWhile is_digit (d # r))
        else ([], s))
     | _ \<Rightarrow> ([], s))"

definition scan_exp :: "string \<Rightarrow> string \<times> string" where
  "scan_exp s = (case s of [] \<Rightarrow> ([], s)
     | c # r \<Rightarrow>
       (if c = CHR ''e'' \<or> c = CHR ''E'' then
          (let (sg, r1) = (case r of x # r' \<Rightarrow> if x = CHR ''+'' \<or> x = CHR ''-'' then ([x], r') else ([], r)
                           | [] \<Rightarrow> ([], r)) in
           if takeWhile is_digit r1 = [] then ([], s)
           else (c # sg @ takeWhile is_digit r1, dropWhile is_digit r1))
        else ([], s)))"

definition scan_number :: "string \<Rightarrow> (string \<times> bool \<times> string) option" where
  "scan_number s = (case scan_int s of None \<Rightarrow> None
     | Some (i, r1) \<Rightarrow>
       (let (f, r2) = scan_frac r1; (e, r3) = scan_exp r2 in
        Some (i @ f @ e, f @ e \<noteq> [], r3)))"

definition read_int :: "string \<Rightarrow> int" where
  "read_int s = (case s of c # r \<Rightarrow> if c = CHR ''-'' then - int (read_nat r) else int (read_nat s)
     | [] \<Rightarrow> 0)"

text \<open>A repeated key overwrites the value and keeps its place.\<close>

fun dict_put :: "string \<Rightarrow> json \<Rightarrow> (string \<times> json) list \<Rightarrow> (string \<times> json) list" where
  "dict_put k v [] = [(k, v)]"
| "dict_put k v ((k', v') # kvs) = (if k' = k then (k, v) # kvs else (k', v') # dict_put k v kvs)"

definition dict_of :: "(string \<times> json) list \<Rightarrow> (string \<times> json) list" where
  "dict_of kvs = foldl (\<lambda>d (k, v). dict_put k v d) [] kvs"

text \<open>Recursive descent; the fuel bounds the nesting and the number of items on a path.\<close>

fun parse_value :: "nat \<Rightarrow> string \<Rightarrow> (json \<times> string) option"
  and parse_elems :: "nat \<Rightarrow> string \<Rightarrow> (json list \<times> string) option"
  and parse_members :: "nat \<Rightarrow> string \<Rightarrow> ((string \<times> json) list \<times> string) option" where
  "parse_value 0 s = None"
| "parse_value (Suc n) s =
     (if prefix ''null'' s then Some (JNull, drop 4 s)
      else if prefix ''true'' s then Some (JBool True, drop 4 s)
      else if prefix ''false'' s then Some (JBool False, drop 5 s)
      else (case s of [] \<Rightarrow> None
        | c # r \<Rightarrow>
          (if c = dquote then
             (case parse_str r of None \<Rightarrow> None | Some (x, r1) \<Rightarrow> Some (JStr x, r1))
           else if c = CHR ''['' then
             (let r1 = skip_ws r in
              if prefix '']'' r1 then Some (JList [], tl r1)
              else (case parse_elems n r1 of None \<Rightarrow> None | Some (vs, r2) \<Rightarrow> Some (JList vs, r2)))
           else if c = CHR ''{'' then
             (let r1 = skip_ws r in
              if prefix ''}'' r1 then Some (JObj [], tl r1)
              else (case parse_members n r1 of None \<Rightarrow> None
                    | Some (kvs, r2) \<Rightarrow> Some (JObj (dict_of kvs), r2)))
           else (case scan_number s of None \<Rightarrow> None
                 | Some (lx, is_real, r1) \<Rightarrow>
                   Some (if is_real then JReal lx else JInt (read_int lx), r1)))))"
| "parse_elems 0 s = None"
| "parse_elems (Suc n) s =
     (case parse_value n s of None \<Rightarrow> None
      | Some (v, r) \<Rightarrow>
        (case skip_ws r of [] \<Rightarrow> None
         | c # r1 \<Rightarrow>
           (if c = CHR '','' then
              (case parse_elems n (skip_ws r1) of None \<Rightarrow> None | Some (vs, r2) \<Rightarrow> Some (v # vs, r2))
            else if c = CHR '']'' then Some ([v], r1) else None)))"
| "parse_members 0 s = None"
| "parse_members (Suc n) s =
     (case s of [] \<Rightarrow> None
      | q # r0 \<Rightarrow>
        (if q \<noteq> dquote then None
         else (case parse_str r0 of None \<Rightarrow> None
           | Some (k, r1) \<Rightarrow>
             (case skip_ws r1 of [] \<Rightarrow> None
              | c # r2 \<Rightarrow>
                (if c \<noteq> CHR '':'' then None
                 else (case parse_value n (skip_ws r2) of None \<Rightarrow> None
                   | Some (v, r3) \<Rightarrow>
                     (case skip_ws r3 of [] \<Rightarrow> None
                      | c' # r4 \<Rightarrow>
                        (if c' = CHR '','' then
                           (case parse_members n (skip_ws r4) of None \<Rightarrow> None
                            | Some (kvs, r5) \<Rightarrow> Some ((k, v) # kvs, r5))
                         else if c' = CHR ''}'' then Some ([(k, v)], r4) else None))))))))"

definition loads :: "string \<Rightarrow> json option" where
  "loads s = (case parse_value (Suc (length s)) (skip_ws s) of None \<Rightarrow> None
     | Some (v, r) \<Rightarrow> if skip_ws r = [] then Some v else None)"

text \<open>What Python values can be: dict keys are distinct, float lexemes are lexemes of floats.\<close>

fun json_wf :: "json \<Rightarrow> bool" where
  "json_wf (JReal r) = (scan_number r = Some (r, True, []))"
| "json_wf (JList js) = list_all json_wf js"
| "json_wf (JObj kvs) = (distinct (map fst kvs) \<and> list_all (\<lambda>(k, v). json_wf v) kvs)"
| "json_wf _ = True"

section \<open>Strings read back\<close>

lemma char_eq_code: "c = d \<longleftrightarrow> char_code c = char_code d"
  by (simp add: char_code_def)

lemma code_marks [simp]: "char_code bslash = 92" "char_code dquote = 34"
  by (simp_all add: bslash_def dquote_def char_code_def)

lemma unhex_hex: "d < 16 \<Longrightarrow> unhex (hex_digit d) = Some d"
  by (auto simp: unhex_def hex_digit_def char_code_char_of Let_def)

lemma unhex_zero [simp]: "unhex (CHR ''0'') = Some 0"
  by (simp add: unhex_def char_code_def)

lemma char_of_code: "char_of (char_code c) = c"
  by (simp add: char_code_def)

lemma unhex4_hex: "n < 256 \<Longrightarrow>
    unhex4 (CHR ''0'') (CHR ''0'') (hex_digit (n div 16)) (hex_digit (n mod 16)) = Some (char_of n)"
  by (simp add: unhex4_def unhex_hex less_mult_imp_div_less)

lemma not_bslash_dquote: "bslash \<noteq> dquote"
  by (simp add: char_eq_code)

lemma unescape_letters:
  "unescape_simple (CHR ''n'') = Some (char_of (10 :: nat))" "unescape_simple (CHR ''r'') = Some (char_of (13 :: nat))"
  "unescape_simple (CHR ''t'') = Some (char_of (9 :: nat))" "unescape_simple (CHR ''f'') = Some (char_of (12 :: nat))"
  "unescape_simple (CHR ''b'') = Some (char_of (8 :: nat))"
  by (simp_all add: unescape_simple_def char_code_def)

lemma parse_escape: "parse_str (json_escape c @ r) = consc c (parse_str r)"
proof -
  define n where "n = char_code c"
  have c: "c = char_of n" by (simp add: n_def char_of_code)
  have n: "n < 256" by (simp add: n_def char_code_lt)
  consider "n = 34 \<or> n = 92" | "n = 10" | "n = 13" | "n = 9" | "n = 12" | "n = 8"
    | (u) "n \<notin> {34, 92, 10, 13, 9, 12, 8}" "n < 32 \<or> 126 < n"
    | (p) "n \<notin> {34, 92}" "\<not> n < 32" "\<not> 126 < n" by auto
  then show ?thesis
  proof cases
    case u
    then have "json_escape c = [bslash, CHR ''u'', CHR ''0'', CHR ''0'', hex_digit (n div 16), hex_digit (n mod 16)]"
      by (simp add: json_escape_def n_def [symmetric])
    then show ?thesis using unhex4_hex [OF n] c by (simp add: not_bslash_dquote)
  next
    case p
    then have "json_escape c = [c]" by (auto simp: json_escape_def n_def [symmetric])
    with p show ?thesis by (simp add: char_eq_code n_def)
  next
    case 1
    then have "json_escape c = [bslash, c]" by (auto simp: json_escape_def n_def [symmetric])
    moreover have "unescape_simple c = Some c" "c \<noteq> CHR ''u''"
      using 1 by (auto simp: unescape_simple_def n_def char_eq_code char_code_def [of "CHR ''u''"] Let_def)
    ultimately show ?thesis by (simp add: not_bslash_dquote)
  qed (use c in \<open>simp_all add: json_escape_def char_code_char_of not_bslash_dquote unescape_letters\<close>)
qed

section \<open>Numbers read back\<close>

text \<open>What can follow a value inside printed text.\<close>

definition delim :: "string \<Rightarrow> bool" where
  "delim r = (case r of [] \<Rightarrow> True | c # _ \<Rightarrow> c = CHR '','' \<or> c = CHR '']'' \<or> c = CHR ''}'')"

lemma delim_digits:
  assumes "delim r"
  shows "takeWhile is_digit (s @ r) = takeWhile is_digit s"
    and "dropWhile is_digit (s @ r) = dropWhile is_digit s @ r"
proof -
  have "takeWhile is_digit r = [] \<and> dropWhile is_digit r = r"
    using assms by (cases r) (auto simp: delim_def is_digit_def char_code_def)
  then show "takeWhile is_digit (s @ r) = takeWhile is_digit s"
    and "dropWhile is_digit (s @ r) = dropWhile is_digit s @ r"
    by (induction s) auto
qed

lemma scan_int_append:
  "scan_int s = Some (i, q) \<Longrightarrow> delim r \<Longrightarrow> scan_int (s @ r) = Some (i, q @ r)"
  using delim_digits [of r] delim_digits [of r "_ # _"]
  by (cases s) (auto simp: scan_int_def Let_def split: list.splits if_splits)

lemma delim_cases:
  "delim r \<Longrightarrow> r = [] \<or> (\<exists>c r'. r = c # r' \<and> \<not> is_digit c \<and> c \<noteq> CHR ''.'' \<and> c \<noteq> CHR ''e'' \<and> c \<noteq> CHR ''E''
     \<and> c \<noteq> CHR ''+'' \<and> c \<noteq> CHR ''-'')"
  by (cases r) (auto simp: delim_def is_digit_def char_code_def)

lemma scan_frac_append:
  assumes "delim r"
  shows "scan_frac (s @ r) = (fst (scan_frac s), snd (scan_frac s) @ r)"
proof -
  consider "s = []" | c where "s = [c]" | c d t where "s = c # d # t" by (metis list.exhaust)
  then show ?thesis
    using delim_cases [OF assms] delim_digits [OF assms] delim_digits [OF assms, of "_ # _"]
    by cases (auto simp: scan_frac_def split: list.splits)
qed

lemma scan_exp_append:
  assumes "delim r"
  shows "scan_exp (s @ r) = (fst (scan_exp s), snd (scan_exp s) @ r)"
proof -
  have tr: "takeWhile is_digit r = []" "dropWhile is_digit r = r" using delim_digits [OF assms, of "[]"] by simp_all
  consider "s = []" | c where "s = [c]" | c d t where "s = c # d # t" by (metis list.exhaust)
  then show ?thesis
    using delim_cases [OF assms] delim_digits [OF assms] delim_digits [OF assms, of "_ # _"] tr
    by cases (auto simp: scan_exp_def Let_def split: list.splits)
qed

lemma scan_number_append:
  assumes "scan_number s = Some (l, b, [])" and "delim r"
  shows "scan_number (s @ r) = Some (l, b, r)"
proof -
  from assms(1) obtain i q where i: "scan_int s = Some (i, q)"
    by (auto simp: scan_number_def split: option.splits)
  show ?thesis
    using assms(1) i scan_int_append [OF i assms(2)]
    by (auto simp: scan_number_def scan_frac_append [OF assms(2)] scan_exp_append [OF assms(2)] Let_def
        split: prod.splits)
qed

lemma show_nat_cases: "n = 0 \<and> show_nat n = ''0'' \<or>
   (\<exists>c r. show_nat n = c # r \<and> c \<noteq> CHR ''0'' \<and> is_digit c)"
proof (induction n rule: show_nat.induct)
  case (1 n)
  show ?case
  proof (cases "n < 10")
    case True
    then have s: "show_nat n = [digit_char n]" by (subst show_nat.simps) simp
    have "n \<noteq> 0 \<Longrightarrow> digit_char n \<noteq> CHR ''0''"
      using char_code_digit_char [OF True] by (auto simp: char_code_def)
    moreover have "n = 0 \<Longrightarrow> digit_char n = CHR ''0''" by (simp add: digit_char_def) code_simp
    ultimately show ?thesis
      using s char_code_digit_char [OF True] True by (auto simp: is_digit_def)
  next
    case False
    then have "n div 10 \<noteq> 0" by simp
    with 1 False have "\<exists>c r. show_nat (n div 10) = c # r \<and> c \<noteq> CHR ''0'' \<and> is_digit c" by auto
    with False show ?thesis by (subst (2) show_nat.simps) auto
  qed
qed

lemma takeWhile_all: "\<forall>c \<in> set s. P c \<Longrightarrow> takeWhile P s = s \<and> dropWhile P s = []"
  by (induction s) auto

lemma scan_int_show_nat: "scan_int (show_nat n) = Some (show_nat n, [])"
proof -
  have d: "takeWhile is_digit (show_nat n) = show_nat n" "dropWhile is_digit (show_nat n) = []"
    using takeWhile_all [of "show_nat n" is_digit] show_nat_digits by blast+
  have m: "c = CHR ''-'' \<Longrightarrow> \<not> is_digit c" for c by (simp add: is_digit_def char_code_def)
  show ?thesis using show_nat_cases [of n] d m by (auto simp: scan_int_def)
qed

lemma scan_int_show_int: "scan_int (show_int i) = Some (show_int i, [])"
proof (cases "i < 0")
  case False
  then show ?thesis by (simp add: show_int_def scan_int_show_nat)
next
  case True
  define n where "n = nat (- i)"
  have s: "show_int i = CHR ''-'' # show_nat n" using True by (simp add: show_int_def n_def)
  have "scan_int (show_nat n) = Some (show_nat n, [])" by (rule scan_int_show_nat)
  then show ?thesis using show_nat_cases [of n] unfolding s
    by (auto simp: scan_int_def is_digit_def char_code_def split: if_splits)
qed

lemma read_show_int: "read_int (show_int i) = i"
proof (cases "i < 0")
  case True
  then show ?thesis by (simp add: show_int_def read_int_def)
next
  case False
  have m: "is_digit c \<Longrightarrow> c \<noteq> CHR ''-''" for c by (auto simp: is_digit_def char_code_def)
  have "read_int (show_nat n) = int n" for n
  proof -
    obtain c r where cr: "show_nat n = c # r" by (cases "show_nat n") auto
    then have "is_digit c" using show_nat_digits [of c n] by simp
    then have "read_int (show_nat n) = int (read_nat (show_nat n))" using m cr by (simp add: read_int_def)
    then show ?thesis by simp
  qed
  with False show ?thesis by (simp add: show_int_def)
qed

lemma scan_number_show_int: "scan_number (show_int i) = Some (show_int i, False, [])"
  by (simp add: scan_number_def scan_int_show_int scan_frac_def scan_exp_def)

lemma scan_number_head:
  "scan_number s = Some x \<Longrightarrow> \<exists>c r. s = c # r \<and> (c = CHR ''-'' \<or> is_digit c)"
  by (cases s) (auto simp: scan_number_def scan_int_def is_digit_def char_code_def split: option.splits if_splits)

section \<open>Values read back\<close>

lemma not_ws [simp]:
  "skip_ws (CHR '','' # r) = CHR '','' # r" "skip_ws (CHR '']'' # r) = CHR '']'' # r"
  "skip_ws (CHR ''}'' # r) = CHR ''}'' # r" "skip_ws (CHR '':'' # r) = CHR '':'' # r"
  "skip_ws (dquote # r) = dquote # r"
  by (simp_all add: skip_ws_def is_ws_def char_code_def dquote_def)

lemma dquote_neq [simp]:
  "CHR ''['' \<noteq> dquote" "CHR ''{'' \<noteq> dquote" "dquote \<noteq> CHR ''['' " "dquote \<noteq> CHR ''{''" "dquote \<noteq> CHR ''}''"
  "CHR ''}'' \<noteq> dquote" "dquote \<noteq> CHR ''n''" "dquote \<noteq> CHR ''t''" "dquote \<noteq> CHR ''f''"
  "CHR ''n'' \<noteq> dquote" "CHR ''t'' \<noteq> dquote" "CHR ''f'' \<noteq> dquote"
  by (simp_all add: dquote_def)

lemma delims [simp]: "delim (CHR '','' # r)" "delim (CHR '']'' # r)" "delim (CHR ''}'' # r)" "delim []"
  by (simp_all add: delim_def)

lemma digit_chars: "is_digit c \<or> c = CHR ''-'' \<Longrightarrow>
    c \<noteq> dquote \<and> c \<noteq> CHR ''['' \<and> c \<noteq> CHR ''{'' \<and> c \<noteq> CHR ''n'' \<and> c \<noteq> CHR ''t'' \<and> c \<noteq> CHR ''f''
    \<and> c \<noteq> CHR '']'' \<and> c \<noteq> CHR ''}'' \<and> \<not> is_ws c"
  by (auto simp: is_digit_def is_ws_def char_code_def dquote_def)

lemma number_head:
  "scan_number s = Some x \<Longrightarrow> \<exists>c r. s = c # r \<and> \<not> is_ws c \<and> c \<noteq> CHR '']'' \<and> c \<noteq> CHR ''}''"
  using scan_number_head [of s x] digit_chars by blast

lemma dict_put_new: "k \<notin> fst ` set kvs \<Longrightarrow> dict_put k v kvs = kvs @ [(k, v)]"
  by (induction k v kvs rule: dict_put.induct) auto

lemma dict_of_distinct: "distinct (map fst kvs) \<Longrightarrow> dict_of kvs = kvs"
  by (induction kvs rule: rev_induct) (auto simp: dict_of_def dict_put_new)

lemma parse_number:
  assumes "scan_number s = Some (s, b, [])" and "delim r"
  shows "parse_value (Suc n) (s @ r) = Some (if b then JReal s else JInt (read_int s), r)"
proof -
  from scan_number_head [OF assms(1)] obtain c t where c: "s = c # t" "c = CHR ''-'' \<or> is_digit c" by blast
  then have "c \<noteq> dquote" "c \<noteq> CHR ''[''" "c \<noteq> CHR ''{''" "c \<noteq> CHR ''n''" "c \<noteq> CHR ''t''" "c \<noteq> CHR ''f''"
    using digit_chars by blast+
  with scan_number_append [OF assms] c(1) show ?thesis by simp
qed

lemma skip_ws_append: "list_all is_ws ws \<Longrightarrow> skip_ws (ws @ r) = skip_ws r"
  by (induction ws) (simp_all add: skip_ws_def)

text \<open>A printer reads back when its escapes do and its separators are a comma and a colon with blanks.\<close>

locale json_printer =
  fixes esc :: "char \<Rightarrow> string" and i :: string and k :: string
  assumes esc: "parse_str (esc c @ r) = consc c (parse_str r)"
    and item_sep: "hd i = CHR '','' \<and> i \<noteq> [] \<and> list_all is_ws (tl i)"
    and key_sep: "hd k = CHR '':'' \<and> k \<noteq> [] \<and> list_all is_ws (tl k)"
begin

lemma item_sep_eq: "i @ r = CHR '','' # tl i @ r" "skip_ws (tl i @ r) = skip_ws r"
proof -
  show "i @ r = CHR '','' # tl i @ r" using item_sep by (metis append_Cons list.collapse)
  show "skip_ws (tl i @ r) = skip_ws r" using item_sep by (intro skip_ws_append) blast
qed

lemma key_sep_eq: "k @ r = CHR '':'' # tl k @ r" "skip_ws (tl k @ r) = skip_ws r"
proof -
  show "k @ r = CHR '':'' # tl k @ r" using key_sep by (metis append_Cons list.collapse)
  show "skip_ws (tl k @ r) = skip_ws r" using key_sep by (intro skip_ws_append) blast
qed

lemma parse_printed_str: "parse_str (concat (map esc s) @ dquote # r) = Some (s, r)"
  by (induction s) (simp_all add: esc)

lemma printed_head:
  "json_wf j \<Longrightarrow> \<exists>c r. dumps_gen esc i k j = c # r \<and> \<not> is_ws c \<and> c \<noteq> CHR '']'' \<and> c \<noteq> CHR ''}''"
proof (cases j)
  case (JInt n)
  then show ?thesis using number_head [OF scan_number_show_int [of n]] by simp
next
  case (JReal x)
  moreover assume "json_wf j"
  ultimately show ?thesis using number_head [of x] by simp
next
  case (JBool b)
  then show ?thesis by (cases b) (auto simp: is_ws_def char_code_def)
qed (auto simp: dumps_str_gen_def is_ws_def char_code_def dquote_def)

lemma skip_ws_printed: "json_wf j \<Longrightarrow> skip_ws (dumps_gen esc i k j @ r) = dumps_gen esc i k j @ r"
  using printed_head [of j] by (auto simp: skip_ws_def)

lemma printed_pos: "json_wf j \<Longrightarrow> 0 < length (dumps_gen esc i k j)"
  using printed_head [of j] by auto

definition reads_back :: "json \<Rightarrow> bool" where
  "reads_back j \<longleftrightarrow> (\<forall>n r. length (dumps_gen esc i k j) \<le> n \<longrightarrow> delim r \<longrightarrow> parse_value n (dumps_gen esc i k j @ r) = Some (j, r))"

lemma parse_elems_printed:
  assumes "js \<noteq> []" and "\<forall>j \<in> set js. json_wf j \<and> reads_back j"
    and "length (join_with i (map (dumps_gen esc i k) js)) < n"
  shows "parse_elems n (join_with i (map (dumps_gen esc i k) js) @ CHR '']'' # r) = Some (js, r)"
  using assms
proof (induction js arbitrary: n)
  case Nil
  then show ?case by simp
next
  case (Cons j js)
  then obtain m where m: "n = Suc m" by (cases n) auto
  show ?case
  proof (cases js)
    case Nil
    with Cons.prems m show ?thesis by (simp add: reads_back_def)
  next
    case (Cons x xs)
    let ?t = "join_with i (map (dumps_gen esc i k) js) @ CHR '']'' # r"
    have d: "delim (i @ r)" for r by (simp add: item_sep_eq(1))
    have v: "parse_value m (dumps_gen esc i k j @ i @ ?t) = Some (j, i @ ?t)"
      using Cons.prems(2,3) m Cons d by (simp add: reads_back_def)
    have "length (join_with i (map (dumps_gen esc i k) (j # js)))
        = length (dumps_gen esc i k j) + length i + length (join_with i (map (dumps_gen esc i k) js))" using Cons by simp
    moreover have "0 < length (dumps_gen esc i k j)" using Cons.prems(2) by (intro printed_pos) simp
    ultimately have "length (join_with i (map (dumps_gen esc i k) js)) < m" using Cons.prems(3) m by linarith
    then have p: "parse_elems m ?t = Some (js, r)"
      using Cons.prems(2) Cons by (intro Cons.IH) auto
    have "\<exists>t. ?t = dumps_gen esc i k x @ t" using Cons by (cases xs) auto
    then have "skip_ws ?t = ?t" using skip_ws_printed [of x] Cons Cons.prems(2) by auto
    then have "skip_ws (tl i @ ?t) = ?t" by (simp only: item_sep_eq(2))
    moreover have "join_with i (map (dumps_gen esc i k) (j # js)) @ CHR '']'' # r = dumps_gen esc i k j @ i @ ?t" using Cons by simp
    moreover have "skip_ws (i @ ?t) = CHR '','' # tl i @ ?t" unfolding item_sep_eq(1) by simp
    ultimately show ?thesis using v p unfolding m by simp
  qed
qed

definition member :: "string \<times> json \<Rightarrow> string" where
  "member kv = (case kv of (x, v) \<Rightarrow> dumps_str_gen esc x @ k @ dumps_gen esc i k v)"

lemma parse_members_printed:
  assumes "kvs \<noteq> []" and "\<forall>kv \<in> set kvs. json_wf (snd kv) \<and> reads_back (snd kv)"
    and "length (join_with i (map member kvs)) < n"
  shows "parse_members n (join_with i (map member kvs) @ CHR ''}'' # r) = Some (kvs, r)"
  using assms
proof (induction kvs arbitrary: n)
  case Nil
  then show ?case by simp
next
  case (Cons kv kvs)
  obtain x v where kv: "kv = (x, v)" by fastforce
  from Cons.prems obtain m where m: "n = Suc m" by (cases n) auto
  have wf: "json_wf v" "reads_back v" using Cons.prems(2) kv by auto
  have str: "parse_str (concat (map esc x) @ dquote # t) = Some (x, t)" for t by (rule parse_printed_str)
  have key: "skip_ws (k @ t) = CHR '':'' # tl k @ t" "skip_ws (tl k @ dumps_gen esc i k v @ t) = dumps_gen esc i k v @ t" for t
    unfolding key_sep_eq skip_ws_printed [OF wf(1)] by (simp_all add: key_sep_eq(1))
  show ?case
  proof (cases kvs)
    case Nil
    have "parse_value m (dumps_gen esc i k v @ CHR ''}'' # r) = Some (v, CHR ''}'' # r)"
      using wf(2) Cons.prems(3) m Nil kv by (simp add: reads_back_def member_def)
    with m Nil kv str key show ?thesis by (simp add: member_def dumps_str_gen_def)
  next
    case (Cons y ys)
    let ?t = "join_with i (map member kvs) @ CHR ''}'' # r"
    have d: "delim (i @ r)" for r by (simp add: item_sep_eq(1))
    have v: "parse_value m (dumps_gen esc i k v @ i @ ?t) = Some (v, i @ ?t)"
      using wf(2) Cons.prems(3) m Cons kv d by (simp add: reads_back_def member_def)
    have p: "parse_members m ?t = Some (kvs, r)"
      using Cons.prems m Cons kv by (intro Cons.IH) (auto simp: member_def dumps_str_gen_def)
    have "\<exists>t. ?t = dquote # t" using Cons by (cases ys; cases y) (auto simp: member_def dumps_str_gen_def)
    then have "skip_ws ?t = ?t" by auto
    then have "skip_ws (tl i @ ?t) = ?t" by (simp only: item_sep_eq(2))
    moreover have "skip_ws (i @ ?t) = CHR '','' # tl i @ ?t" unfolding item_sep_eq(1) by simp
    moreover have "join_with i (map member (kv # kvs)) @ CHR ''}'' # r =
        dquote # concat (map esc x) @ dquote # k @ dumps_gen esc i k v @ i @ ?t"
      using Cons by (simp add: member_def [of "(x, v)"] kv dumps_str_gen_def)
    ultimately show ?thesis using v p unfolding m by (simp add: kv str key)
  qed
qed

lemma printed_number:
  assumes "scan_number s = Some (s, b, [])" "dumps_gen esc i k j = s" "j = (if b then JReal s else JInt (read_int s))"
  shows "reads_back j"
  unfolding reads_back_def
proof (intro allI impI)
  fix n r assume "length (dumps_gen esc i k j) \<le> n" "delim r"
  moreover from this obtain m where "n = Suc m" using scan_number_head [OF assms(1)] assms(2) by (cases n) auto
  ultimately show "parse_value n (dumps_gen esc i k j @ r) = Some (j, r)"
    using parse_number [OF assms(1), of r m] assms(2,3) by simp
qed

lemma printed_list:
  assumes "\<forall>j \<in> set js. json_wf j \<and> reads_back j"
  shows "reads_back (JList js)"
  unfolding reads_back_def
proof (intro allI impI)
  fix n r assume l: "length (dumps_gen esc i k (JList js)) \<le> n" "delim r"
  then obtain m where m: "n = Suc m" by (cases n) auto
  let ?t = "join_with i (map (dumps_gen esc i k) js) @ CHR '']'' # r"
  show "parse_value n (dumps_gen esc i k (JList js) @ r) = Some (JList js, r)"
  proof (cases js)
    case Nil
    then show ?thesis by (simp add: m)
  next
    case (Cons x xs)
    have p: "parse_elems m ?t = Some (js, r)"
      using l m assms Cons by (intro parse_elems_printed) auto
    obtain t where t: "?t = dumps_gen esc i k x @ t" using Cons by (cases xs) auto
    obtain c u where "dumps_gen esc i k x = c # u" "\<not> is_ws c" "c \<noteq> CHR '']''"
      using printed_head [of x] assms Cons by auto
    with t have "skip_ws ?t = ?t" "\<not> prefix '']'' ?t" by (auto simp: skip_ws_def)
    with p m show ?thesis by simp
  qed
qed

lemma printed_object:
  assumes "\<forall>kv \<in> set kvs. json_wf (snd kv) \<and> reads_back (snd kv)" "distinct (map fst kvs)"
  shows "reads_back (JObj kvs)"
  unfolding reads_back_def
proof (intro allI impI)
  have dm: "dumps_gen esc i k (JObj kvs) = ''{'' @ join_with i (map member kvs) @ ''}''" by (simp add: member_def [abs_def])
  fix n r assume l: "length (dumps_gen esc i k (JObj kvs)) \<le> n" "delim r"
  then obtain m where m: "n = Suc m" by (cases n) auto
  let ?t = "join_with i (map member kvs) @ CHR ''}'' # r"
  show "parse_value n (dumps_gen esc i k (JObj kvs) @ r) = Some (JObj kvs, r)"
  proof (cases kvs)
    case Nil
    then show ?thesis by (simp add: m)
  next
    case (Cons x xs)
    have p: "parse_members m ?t = Some (kvs, r)"
      using l m assms(1) Cons unfolding dm by (intro parse_members_printed) auto
    obtain t where "?t = dquote # t" using Cons by (cases xs; cases x) (auto simp: member_def dumps_str_gen_def)
    then have "skip_ws ?t = ?t" "\<not> prefix ''}'' ?t" by auto
    with p m dict_of_distinct [OF assms(2)] show ?thesis unfolding dm by simp
  qed
qed

lemma reads_back_printed: "json_wf j \<Longrightarrow> reads_back j"
proof (induction j)
  case (JInt n)
  show ?case by (rule printed_number [OF scan_number_show_int]) (simp_all add: read_show_int)
next
  case (JReal x)
  then show ?case by (intro printed_number [of x True]) simp_all
next
  case (JList js)
  then show ?case by (intro printed_list) (auto simp: list_all_iff)
next
  case (JObj kvs)
  then show ?case by (intro printed_object) (auto simp: list_all_iff)
qed (auto simp: reads_back_def dumps_str_gen_def parse_printed_str Suc_le_eq elim!: less_natE)

lemma loads_printed: "json_wf j \<Longrightarrow> loads (dumps_gen esc i k j) = Some j"
proof -
  assume w: "json_wf j"
  then have "parse_value (Suc (length (dumps_gen esc i k j))) (dumps_gen esc i k j @ []) = Some (j, [])"
    using reads_back_printed [OF w] unfolding reads_back_def by (metis delims(4) le_SucI order_refl)
  then show ?thesis using skip_ws_printed [OF w, of "[]"] by (simp add: loads_def skip_ws_def)
qed

end

text \<open>The canonical printer and Python's default one.\<close>

interpretation canonical: json_printer json_escape "'',''" "'':''"
  by unfold_locales (simp_all add: parse_escape)

interpretation standard: json_printer json_escape "'', ''" "'': ''"
  by unfold_locales (simp_all add: parse_escape is_ws_def char_code_def)

lemma loads_dumps: "json_wf j \<Longrightarrow> loads (dumps j) = Some j"
  unfolding dumps_gen_eq(1) by (rule canonical.loads_printed)

lemma loads_dumps_default: "json_wf j \<Longrightarrow> loads (dumps_default j) = Some j"
  unfolding dumps_gen_eq(2) by (rule standard.loads_printed)

section \<open>The canonical form\<close>

lemma norm_json_wf: "json_wf j \<Longrightarrow> json_wf (norm_json j)"
proof (induction j)
  case (JObj kvs)
  have "map fst (map (\<lambda>(k, v). (k, norm_json v)) kvs) = map fst kvs" by auto
  then have "distinct (map fst (sort_key fst (map (\<lambda>(k, v). (k, norm_json v)) kvs)))"
    using JObj.prems by (metis (no_types) json_wf.simps(3) mset_map mset_eq_imp_distinct_iff mset_sort)
  with JObj show ?case by (auto simp: list_all_iff)
qed (auto simp: list_all_iff)

lemma norm_json_idem: "norm_json (norm_json j) = norm_json j"
proof (induction j)
  case (JObj kvs)
  define ys where "ys = sort_key fst (map (\<lambda>(k, v). (k, norm_json v)) kvs)"
  have "map (\<lambda>(k, v). (k, norm_json v)) ys = ys"
    by (rule map_idI) (use JObj in \<open>auto simp: ys_def\<close>)
  moreover have "sort_key fst ys = ys" by (rule sort_key_id_if_sorted) (simp add: ys_def)
  ultimately show ?case by (simp add: ys_def)
qed (auto simp: map_idI)

section \<open>Bytes\<close>

definition ascii_encode :: "string \<Rightarrow> bytes" where
  "ascii_encode s = map (\<lambda>c. of_nat (char_code c)) s"

definition ascii_decode :: "bytes \<Rightarrow> string option" where
  "ascii_decode bs = (if list_all (\<lambda>b. unat b < 128) bs then Some (map (\<lambda>b. char_of (unat b)) bs) else None)"

definition canonical_bytes :: "json \<Rightarrow> bytes" where
  "canonical_bytes payload = ascii_encode (dumps (norm_json payload))"

definition json_loads :: "bytes \<Rightarrow> json option" where
  "json_loads bs = (case ascii_decode bs of None \<Rightarrow> None | Some s \<Rightarrow> loads s)"

lemma ascii_decode_encode: "\<forall>c \<in> set s. char_code c < 128 \<Longrightarrow> ascii_decode (ascii_encode s) = Some s"
proof -
  assume a: "\<forall>c \<in> set s. char_code c < 128"
  have "unat (of_nat (char_code c) :: 8 word) = char_code c" for c
    using char_code_lt [of c] by (simp add: unat_byte)
  with a show ?thesis
    by (auto simp: ascii_decode_def ascii_encode_def list_all_iff o_def char_of_code map_idI)
qed

lemma ascii_escape: "x \<in> set (json_escape c) \<Longrightarrow> char_code x < 128"
proof -
  have h: "d < 16 \<Longrightarrow> char_code (hex_digit d) < 128" for d by (simp add: hex_digit_def char_code_char_of)
  have "char_code c div 16 < 16" using char_code_lt [of c] by simp
  moreover have "char_code (CHR ''n'') < 128" "char_code (CHR ''r'') < 128" "char_code (CHR ''t'') < 128"
    "char_code (CHR ''f'') < 128" "char_code (CHR ''b'') < 128" "char_code (CHR ''u'') < 128"
    "char_code (CHR ''0'') < 128" by (simp_all add: char_code_def)
  ultimately show "x \<in> set (json_escape c) \<Longrightarrow> char_code x < 128"
    using h by (auto simp: json_escape_def Let_def split: if_splits)
qed

lemma ascii_join: "x \<in> set (join_with sep ws) \<Longrightarrow> x \<in> set sep \<or> (\<exists>w \<in> set ws. x \<in> set w)"
  by (induction sep ws rule: join_with.induct) auto

lemma scan_number_chars: "scan_number s = Some (s, b, r) \<Longrightarrow> x \<in> set s \<Longrightarrow> 32 \<le> char_code x \<and> char_code x < 128"
proof -
  assume a: "scan_number s = Some (s, b, r)" and x: "x \<in> set s"
  have d: "x \<in> set (takeWhile is_digit t) \<Longrightarrow> 32 \<le> char_code x \<and> char_code x < 128" for t
    using set_takeWhileD [of x is_digit t] by (auto simp: is_digit_def)
  have m: "char_code (CHR ''-'') = 45" "char_code (CHR ''+'') = 43" "char_code (CHR ''.'') = 46"
    "char_code (CHR ''e'') = 101" "char_code (CHR ''E'') = 69" "char_code (CHR ''0'') = 48"
    by (simp_all add: char_code_def)
  have i: "scan_int t = Some (y, q) \<Longrightarrow> x \<in> set y \<Longrightarrow> 32 \<le> char_code x \<and> char_code x < 128" for t y q
    using d m by (auto simp: scan_int_def is_digit_def [of x] Let_def split: list.splits if_splits)
  have f: "x \<in> set (fst (scan_frac t)) \<Longrightarrow> 32 \<le> char_code x \<and> char_code x < 128" for t
    using d m by (auto simp: scan_frac_def is_digit_def split: list.splits if_splits)
  have e: "x \<in> set (fst (scan_exp t)) \<Longrightarrow> 32 \<le> char_code x \<and> char_code x < 128" for t
    using d m by (auto simp: scan_exp_def is_digit_def [of x] Let_def split: list.splits if_splits prod.splits)
  from a obtain y q where y: "scan_int s = Some (y, q)" by (auto simp: scan_number_def split: option.splits)
  with a have "s = y @ fst (scan_frac q) @ fst (scan_exp (snd (scan_frac q)))"
    by (auto simp: scan_number_def split: prod.splits)
  with x i [OF y] f e show ?thesis by (metis Un_iff set_append)
qed

lemma ascii_scan_number: "scan_number s = Some (s, b, r) \<Longrightarrow> x \<in> set s \<Longrightarrow> char_code x < 128"
  using scan_number_chars by blast

lemma ascii_dumps_str: "x \<in> set (dumps_str s) \<Longrightarrow> char_code x < 128"
  by (auto simp: dumps_str_def dest: ascii_escape)

lemma ascii_dumps: "json_wf j \<Longrightarrow> x \<in> set (dumps j) \<Longrightarrow> char_code x < 128"
proof (induction j arbitrary: x)
  case (JList js)
  have m: "char_code (CHR ''['') < 128" "char_code (CHR '']'') < 128" "char_code (CHR '','') < 128"
    by (simp_all add: char_code_def)
  from JList m show ?case by (auto simp: list_all_iff dest!: ascii_join)
next
  case (JObj kvs)
  have m: "char_code (CHR ''{'') < 128" "char_code (CHR ''}'') < 128" "char_code (CHR '','') < 128"
    "char_code (CHR '':'') < 128"
    by (simp_all add: char_code_def)
  from JObj m show ?case by (fastforce simp: list_all_iff dest!: ascii_join ascii_dumps_str)
next
  case (JInt i)
  then show ?case using ascii_scan_number [OF scan_number_show_int [of i]] by simp
next
  case (JReal r)
  then show ?case using ascii_scan_number [of r] by simp
next
  case (JStr s)
  then show ?case using ascii_dumps_str by simp
qed (auto simp: char_code_def split: if_splits)

lemma json_loads_canonical: "json_wf j \<Longrightarrow> json_loads (canonical_bytes j) = Some (norm_json j)"
  using ascii_dumps [OF norm_json_wf] loads_dumps [OF norm_json_wf]
  by (simp add: json_loads_def canonical_bytes_def ascii_decode_encode)

text \<open>
  C5: Canonical bytes are a faithful encoding: for every payload the parser reads them
  back to the payload with its keys sorted, so equal canonical bytes mean equal dicts,
  and reordering keys never changes them.
\<close>
theorem canonical_bytes_faithful:
  assumes "json_wf a" and "json_wf b"
  shows "json_loads (canonical_bytes a) = Some (norm_json a)
    \<and> (canonical_bytes a = canonical_bytes b \<longleftrightarrow> norm_json a = norm_json b)"
proof -
  have "norm_json a = norm_json b" if "canonical_bytes a = canonical_bytes b"
    using json_loads_canonical [OF assms(1)] json_loads_canonical [OF assms(2)] that by simp
  moreover have "canonical_bytes a = canonical_bytes b" if "norm_json a = norm_json b"
    using that by (simp only: canonical_bytes_def)
  ultimately show ?thesis using json_loads_canonical [OF assms(1)] by blast
qed

text \<open>Two spellings of one dict.\<close>
theorem canonical_bytes_faithful_witness:
  "canonical_bytes (JObj [(''b'', JInt 2), (''a'', JList [JNull, JReal ''1.5''])]) =
   canonical_bytes (JObj [(''a'', JList [JNull, JReal ''1.5'']), (''b'', JInt 2)])"
proof -
  have "json_wf (JObj [(''b'', JInt 2), (''a'', JList [JNull, JReal ''1.5''])])" by code_simp
  moreover have "json_wf (JObj [(''a'', JList [JNull, JReal ''1.5'']), (''b'', JInt 2)])" by code_simp
  moreover have "norm_json (JObj [(''b'', JInt 2), (''a'', JList [JNull, JReal ''1.5''])]) =
     norm_json (JObj [(''a'', JList [JNull, JReal ''1.5'']), (''b'', JInt 2)])" by code_simp
  ultimately show ?thesis using canonical_bytes_faithful by blast
qed

end
