(* ===== verification/Crypto.thy ===== *)
theory Crypto
  imports Json_Codec
begin

text \<open>
  Envelope encryption (\<^verbatim>\<open>app/crypto.py\<close>): the master key, the per-account key
  encryption key, wrapping of data keys and payload encryption. The third-party
  primitives (AES-GCM, HKDF, Argon2id, SHA-256) are the fields of \<open>crypto_lib\<close>;
  random bytes are arguments. Strings reach the primitives through their ASCII
  encoding.
\<close>

record crypto_lib =
  aesgcm_encrypt :: "bytes \<Rightarrow> bytes \<Rightarrow> bytes \<Rightarrow> bytes \<Rightarrow> bytes"
  aesgcm_decrypt :: "bytes \<Rightarrow> bytes \<Rightarrow> bytes \<Rightarrow> bytes \<Rightarrow> bytes option"
  hkdf_derive :: "bytes \<Rightarrow> bytes \<Rightarrow> bytes \<Rightarrow> bytes"
  argon2id :: "bytes \<Rightarrow> bytes \<Rightarrow> bytes"
  sha256_digest :: "bytes \<Rightarrow> bytes"

text \<open>What the code relies on of AES-GCM: decryption with the same key, nonce and associated data.\<close>

definition aead_ok :: "crypto_lib \<Rightarrow> bool" where
  "aead_ok cl \<longleftrightarrow> (\<forall>k n p a. aesgcm_decrypt cl k n (aesgcm_encrypt cl k n p a) a = Some p)"

text \<open>
  The environment variables, and the ephemeral key that a process in development mode
  generates on the first use and returns from then on.
\<close>

record crypto_config =
  cfg_master_key :: "string option"
  cfg_allow_weak :: bool
  cfg_dev :: bool
  cfg_ephemeral :: bytes

definition AES_KEY_BYTES :: nat where
  "AES_KEY_BYTES = 32"

definition NONCE_BYTES :: nat where
  "NONCE_BYTES = 12"

section \<open>Keys\<close>

definition master_key :: "crypto_lib \<Rightarrow> crypto_config \<Rightarrow> exn + bytes" where
  "master_key cl cfg =
     (if truthy (cfg_master_key cfg) then
        (let key = ascii_encode (the (cfg_master_key cfg)) in
         if length key < AES_KEY_BYTES then
           (if cfg_allow_weak cfg then Inr (take AES_KEY_BYTES (sha256_digest cl key))
            else Inl (MasterKeyMissing ''NKS_WDC_MASTER_KEY must be at least 32 bytes''))
         else Inr (take AES_KEY_BYTES key))
      else if cfg_dev cfg then Inr (cfg_ephemeral cfg)
      else Inl (MasterKeyMissing ''NKS_WDC_MASTER_KEY must be set for snapshot encryption.''))"

definition HKDF_INFO :: string where
  "HKDF_INFO = ''nks-wdc-catalog-kek/v1''"

definition derive_kek :: "crypto_lib \<Rightarrow> crypto_config \<Rightarrow> int \<Rightarrow> bytes \<Rightarrow> exn + bytes" where
  "derive_kek cl cfg account_id salt =
     (case master_key cl cfg of Inl e \<Rightarrow> Inl e
      | Inr mk \<Rightarrow> Inr (hkdf_derive cl mk salt (ascii_encode (HKDF_INFO @ ''|account='' @ show_int account_id))))"

definition aad :: "int \<Rightarrow> bytes" where
  "aad account_id = ascii_encode (''nks-wdc-account-'' @ show_int account_id)"

section \<open>Envelopes\<close>

definition encrypt_payload :: "crypto_lib \<Rightarrow> bytes \<Rightarrow> bytes \<Rightarrow> bytes \<Rightarrow> bytes \<Rightarrow> bytes" where
  "encrypt_payload cl nonce plaintext dek ad = nonce @ aesgcm_encrypt cl dek nonce plaintext ad"

definition decrypt_payload :: "crypto_lib \<Rightarrow> bytes \<Rightarrow> bytes \<Rightarrow> bytes \<Rightarrow> exn + bytes" where
  "decrypt_payload cl ciphertext dek ad =
     (case aesgcm_decrypt cl dek (take NONCE_BYTES ciphertext) (drop NONCE_BYTES ciphertext) ad of
        None \<Rightarrow> Inl InvalidTag | Some p \<Rightarrow> Inr p)"

definition wrap_dek_with_kek :: "crypto_lib \<Rightarrow> bytes \<Rightarrow> bytes \<Rightarrow> bytes \<Rightarrow> int \<Rightarrow> bytes" where
  "wrap_dek_with_kek cl nonce dek kek account_id =
     nonce @ aesgcm_encrypt cl kek nonce dek (aad account_id)"

definition unwrap_dek_with_kek :: "crypto_lib \<Rightarrow> bytes \<Rightarrow> bytes \<Rightarrow> int \<Rightarrow> exn + bytes" where
  "unwrap_dek_with_kek cl wrapped kek account_id =
     (case aesgcm_decrypt cl kek (take NONCE_BYTES wrapped) (drop NONCE_BYTES wrapped) (aad account_id) of
        None \<Rightarrow> Inl InvalidTag | Some p \<Rightarrow> Inr p)"

definition wrap_dek ::
  "crypto_lib \<Rightarrow> crypto_config \<Rightarrow> bytes \<Rightarrow> bytes \<Rightarrow> int \<Rightarrow> bytes \<Rightarrow> exn + bytes" where
  "wrap_dek cl cfg nonce dek account_id salt =
     (case derive_kek cl cfg account_id salt of Inl e \<Rightarrow> Inl e
      | Inr kek \<Rightarrow> Inr (nonce @ aesgcm_encrypt cl kek nonce dek (aad account_id)))"

definition unwrap_dek :: "crypto_lib \<Rightarrow> crypto_config \<Rightarrow> bytes \<Rightarrow> int \<Rightarrow> bytes \<Rightarrow> exn + bytes" where
  "unwrap_dek cl cfg wrapped account_id salt =
     (case derive_kek cl cfg account_id salt of Inl e \<Rightarrow> Inl e
      | Inr kek \<Rightarrow>
        (case aesgcm_decrypt cl kek (take NONCE_BYTES wrapped) (drop NONCE_BYTES wrapped) (aad account_id) of
           None \<Rightarrow> Inl InvalidTag | Some p \<Rightarrow> Inr p))"

section \<open>Passphrases\<close>

definition MIN_PASSPHRASE_CHARS :: nat where
  "MIN_PASSPHRASE_CHARS = 12"

definition validate_passphrase_for_encrypt :: "string \<Rightarrow> exn + unit" where
  "validate_passphrase_for_encrypt passphrase =
     (if length passphrase < MIN_PASSPHRASE_CHARS
      then Inl (ValueError ''Passphrase must be at least 12 characters'') else Inr ())"

definition derive_key_from_passphrase :: "crypto_lib \<Rightarrow> string \<Rightarrow> bytes \<Rightarrow> exn + bytes" where
  "derive_key_from_passphrase cl passphrase salt =
     (if length passphrase < 8 then Inl (ValueError ''Passphrase must be at least 8 characters'')
      else if length salt < 16 then Inl (ValueError ''Salt must be at least 16 bytes'')
      else Inr (argon2id cl (ascii_encode passphrase) salt))"

section \<open>Round trips\<close>

lemma decrypt_encrypt:
  "aead_ok cl \<Longrightarrow> length nonce = NONCE_BYTES \<Longrightarrow>
     decrypt_payload cl (encrypt_payload cl nonce p dek ad) dek ad = Inr p"
  by (simp add: decrypt_payload_def encrypt_payload_def aead_ok_def)

lemma unwrap_wrap_with_kek:
  "aead_ok cl \<Longrightarrow> length nonce = NONCE_BYTES \<Longrightarrow>
     unwrap_dek_with_kek cl (wrap_dek_with_kek cl nonce dek kek a) kek a = Inr dek"
  by (simp add: unwrap_dek_with_kek_def wrap_dek_with_kek_def aead_ok_def)

lemma unwrap_wrap:
  "aead_ok cl \<Longrightarrow> length nonce = NONCE_BYTES \<Longrightarrow> wrap_dek cl cfg nonce dek a salt = Inr w \<Longrightarrow>
     unwrap_dek cl cfg w a salt = Inr dek"
  by (auto simp: unwrap_dek_def wrap_dek_def aead_ok_def split: sum.splits)

lemma length_take_key: "32 \<le> length k \<Longrightarrow> length (take AES_KEY_BYTES k) = 32"
  by (simp add: AES_KEY_BYTES_def)

text \<open>
  The master key is 32 bytes or the request fails: a configured key shorter than 32
  bytes is refused unless the weak-key override hashes it, a long one is cut to its
  first 32 bytes, and without a key only development mode gets one.
\<close>
lemma master_key_strength:
  assumes "\<And>b. length (sha256_digest cl b) = 32" and "length (cfg_ephemeral cfg) = 32"
    and "master_key cl cfg = Inr k"
  shows "length k = 32 \<and> (truthy (cfg_master_key cfg) \<or> cfg_dev cfg)
    \<and> (\<not> cfg_allow_weak cfg \<and> truthy (cfg_master_key cfg) \<longrightarrow>
        32 \<le> length (the (cfg_master_key cfg)) \<and> prefix k (ascii_encode (the (cfg_master_key cfg))))"
  using assms
  by (auto simp: master_key_def AES_KEY_BYTES_def Let_def ascii_encode_def take_is_prefix split: if_splits)

text \<open>A library whose primitives are trivial, with which hypotheses about the primitives hold.\<close>

definition toy_crypto :: crypto_lib where
  "toy_crypto = \<lparr>aesgcm_encrypt = (\<lambda>k n p a. p), aesgcm_decrypt = (\<lambda>k n c a. Some c),
     hkdf_derive = (\<lambda>k s i. replicate 32 0), argon2id = (\<lambda>p s. replicate 32 1),
     sha256_digest = (\<lambda>b. replicate 32 2)\<rparr>"

lemma toy_crypto_ok: "aead_ok toy_crypto"
  by (simp add: aead_ok_def toy_crypto_def)

text \<open>A 33-character key is cut to 32 bytes.\<close>
theorem master_key_strength_witness:
  "length (replicate 33 (CHR ''k'')) = 33 \<and>
   (\<exists>k. master_key toy_crypto \<lparr>cfg_master_key = Some (replicate 33 (CHR ''k'')), cfg_allow_weak = False,
      cfg_dev = False, cfg_ephemeral = replicate 32 0\<rparr> = Inr k \<and> length k = 32)"
proof -
  define cfg where "cfg = \<lparr>cfg_master_key = Some (replicate 33 (CHR ''k'')), cfg_allow_weak = False,
      cfg_dev = False, cfg_ephemeral = replicate 32 (0 :: 8 word)\<rparr>"
  have "master_key toy_crypto cfg = Inr (take 32 (ascii_encode (replicate 33 (CHR ''k''))))"
    by (simp add: cfg_def master_key_def AES_KEY_BYTES_def ascii_encode_def Let_def)
  then have "\<exists>k. master_key toy_crypto cfg = Inr k \<and> length k = 32"
    using master_key_strength [of toy_crypto cfg] by (simp add: toy_crypto_def cfg_def)
  then show ?thesis by (simp add: cfg_def)
qed

end
