(* ===== verification/Blob_Store.thy ===== *)
theory Blob_Store
  imports Audit_Trail
begin

text \<open>
  The object-store backend (\<^verbatim>\<open>app/blob_store.py\<close>): the URI scheme, the bucket check and
  the three operations. The S3 client is a parameter (\<open>s3_client\<close>): each call takes the
  contents of the store and gives an exception or the new contents; what the code relies
  on is that an object that was put is what a later get returns.
\<close>

type_synonym bucket_contents = "string \<times> string \<rightharpoonup> bytes"

record s3_client =
  put_object :: "string \<Rightarrow> string \<Rightarrow> bytes \<Rightarrow> bucket_contents \<Rightarrow> exn + bucket_contents"
  get_object :: "string \<Rightarrow> string \<Rightarrow> bucket_contents \<Rightarrow> exn + bytes"
  delete_object :: "string \<Rightarrow> string \<Rightarrow> bucket_contents \<Rightarrow> exn + bucket_contents"

definition s3_ok :: "s3_client \<Rightarrow> bool" where
  "s3_ok c \<longleftrightarrow> (\<forall>b k v s s'. put_object c b k v s = Inr s' \<longrightarrow> get_object c b k s' = Inr v)"

text \<open>The configured bucket (an empty variable counts as unset).\<close>

definition is_configured :: "string option \<Rightarrow> bool" where
  "is_configured bucket = truthy bucket"

definition blob_config :: "string option \<Rightarrow> exn + string" where
  "blob_config bucket =
     (if truthy bucket then Inr (the bucket)
      else Inl (RuntimeError ''NKS_WDC_BLOB_S3_BUCKET must be set to enable external blob storage''))"

definition blob_key :: "int option \<Rightarrow> string \<Rightarrow> string" where
  "blob_key account_id uuid =
     ''snapshots/'' @ (case account_id of None \<Rightarrow> ''shared''
        | Some a \<Rightarrow> if a = 0 then ''shared'' else show_int a) @ ''/'' @ uuid @ ''.bin''"

definition upload ::
  "s3_client \<Rightarrow> string option \<Rightarrow> string \<Rightarrow> bytes \<Rightarrow> int option \<Rightarrow> app_state \<Rightarrow> (exn + string) \<times> app_state" where
  "upload s3 bucket uuid body account_id st =
     (case blob_config bucket of Inl e \<Rightarrow> (Inl e, st)
      | Inr b \<Rightarrow>
        (let key = blob_key account_id uuid in
         case put_object s3 b key body (objects st) of
           Inl e \<Rightarrow> (Inl e, st)
         | Inr o' \<Rightarrow> (Inr (''s3://'' @ b @ ''/'' @ key), st\<lparr>objects := o'\<rparr>)))"

text \<open>\<open>str.partition\<close> at the first occurrence of a character.\<close>

definition partition_char :: "char \<Rightarrow> string \<Rightarrow> string \<times> string" where
  "partition_char c s = (takeWhile (\<lambda>x. x \<noteq> c) s, drop 1 (dropWhile (\<lambda>x. x \<noteq> c) s))"

definition parse_uri :: "string option \<Rightarrow> string \<Rightarrow> exn + string \<times> string" where
  "parse_uri cfg uri =
     (if \<not> prefix ''s3://'' uri then Inl (ValueError ''Unsupported blob URI scheme'')
      else (let (bucket, key) = partition_char (CHR ''/'') (drop 5 uri) in
        if bucket = [] \<or> key = [] then Inl (ValueError ''Malformed blob URI'')
        else (case blob_config cfg of Inl e \<Rightarrow> Inl e
          | Inr b \<Rightarrow>
            if bucket \<noteq> b then Inl (ValueError ''Refusing to operate on bucket'')
            else Inr (bucket, key))))"

definition download :: "s3_client \<Rightarrow> string option \<Rightarrow> string \<Rightarrow> app_state \<Rightarrow> exn + bytes" where
  "download s3 cfg uri st =
     (case blob_config cfg of Inl e \<Rightarrow> Inl e
      | Inr _ \<Rightarrow>
        (case parse_uri cfg uri of Inl e \<Rightarrow> Inl e
         | Inr (b, k) \<Rightarrow> get_object s3 b k (objects st)))"

definition blob_delete ::
  "s3_client \<Rightarrow> string option \<Rightarrow> string \<Rightarrow> app_state \<Rightarrow> (exn + unit) \<times> app_state" where
  "blob_delete s3 cfg uri st =
     (case blob_config cfg of Inl e \<Rightarrow> (Inl e, st)
      | Inr _ \<Rightarrow>
        (case parse_uri cfg uri of Inl e \<Rightarrow> (Inl e, st)
         | Inr (b, k) \<Rightarrow>
           (case delete_object s3 b k (objects st) of
              Inl e \<Rightarrow> (Inl e, st)
            | Inr o' \<Rightarrow> (Inr (), st\<lparr>objects := o'\<rparr>))))"

lemma partition_first: "c \<notin> set a \<Longrightarrow> partition_char c (a @ c # b) = (a, b)"
  by (induction a) (auto simp: partition_char_def)

lemma partition_char_split: "partition_char c s = (a, b) \<Longrightarrow> b \<noteq> [] \<Longrightarrow> s = a @ c # b"
  by (induction s arbitrary: a) (auto simp: partition_char_def split: if_splits)

lemma parse_upload_uri:
  assumes "bucket = Some b" and "b \<noteq> []" and "CHR ''/'' \<notin> set b"
  shows "parse_uri bucket (''s3://'' @ b @ ''/'' @ blob_key a u) = Inr (b, blob_key a u)"
  using assms partition_first [of "CHR ''/''" b "blob_key a u"]
  by (simp add: parse_uri_def blob_config_def blob_key_def)

lemma upload_Inr:
  "upload s3 bucket u body a st = (Inr uri, st') \<Longrightarrow>
     \<exists>b o'. bucket = Some b \<and> b \<noteq> [] \<and> uri = ''s3://'' @ b @ ''/'' @ blob_key a u \<and>
       put_object s3 b (blob_key a u) body (objects st) = Inr o' \<and> st' = st\<lparr>objects := o'\<rparr>"
  by (cases bucket) (auto simp: upload_def blob_config_def Let_def split: sum.splits if_splits)

lemma upload_db [simp]: "db (snd (upload s3 bucket u body a st)) = db st"
  by (auto simp: upload_def Let_def split: sum.splits)

lemma blob_delete_db [simp]: "db (snd (blob_delete s3 cfg uri st)) = db st"
  by (auto simp: blob_delete_def split: sum.splits prod.splits)

lemma download_upload:
  assumes "s3_ok s3" and "upload s3 bucket u body a st = (Inr uri, st')"
    and "\<forall>b. bucket = Some b \<longrightarrow> CHR ''/'' \<notin> set b"
  shows "download s3 bucket uri st' = Inr body"
proof -
  from upload_Inr [OF assms(2)] obtain b o' where
    b: "bucket = Some b" "b \<noteq> []" "uri = ''s3://'' @ b @ ''/'' @ blob_key a u"
    and o': "put_object s3 b (blob_key a u) body (objects st) = Inr o'" "st' = st\<lparr>objects := o'\<rparr>"
    by blast
  have "parse_uri bucket uri = Inr (b, blob_key a u)"
    unfolding b(3) by (rule parse_upload_uri) (use b assms(3) in auto)
  with b o' assms(1) show ?thesis
    by (simp add: download_def blob_config_def s3_ok_def)
qed

text \<open>
  An uploaded blob is read back through its own URI, whatever the account and the
  generated name; and no operation ever touches a bucket other than the configured one:
  a URI of another bucket, of another scheme or without a key is refused before the
  client is called.
\<close>
lemma blob_roundtrip_and_pinning:
  "(s3_ok s3 \<and> upload s3 bucket u body a st = (Inr uri, st') \<and>
      (\<forall>b. bucket = Some b \<longrightarrow> CHR ''/'' \<notin> set b) \<longrightarrow> download s3 bucket uri st' = Inr body)
   \<and> (parse_uri bucket x = Inr (b, k) \<longrightarrow> bucket = Some b \<and> prefix (''s3://'' @ b @ ''/'') x \<and> k \<noteq> [])
   \<and> (parse_uri bucket x = Inl e \<longrightarrow> (\<exists>e'. download s3 bucket x st = Inl e') \<and>
        snd (blob_delete s3 bucket x st) = st)"
proof -
  have pin: "bucket = Some b \<and> prefix (''s3://'' @ b @ ''/'') x \<and> k \<noteq> []" if "parse_uri bucket x = Inr (b, k)"
  proof -
    from that have p: "prefix ''s3://'' x" and pc: "partition_char (CHR ''/'') (drop 5 x) = (b, k)"
      and k: "k \<noteq> []" and bk: "bucket = Some b"
      by (cases bucket; auto simp: parse_uri_def blob_config_def split: if_splits prod.splits sum.splits)+
    from p obtain r where r: "x = ''s3://'' @ r" by (auto simp: prefix_def)
    with pc k have "r = b @ CHR ''/'' # k" by (auto intro: partition_char_split)
    with bk k r show ?thesis by simp
  qed
  have "(\<exists>e'. download s3 bucket x st = Inl e') \<and> snd (blob_delete s3 bucket x st) = st"
    if "parse_uri bucket x = Inl e"
    using that by (cases "blob_config bucket") (auto simp: download_def blob_delete_def)
  with pin download_upload show ?thesis by blast
qed

text \<open>The identity of an upload to bucket \<open>b\<close> on a map-based store.\<close>

definition map_s3 :: s3_client where
  "map_s3 = \<lparr>put_object = (\<lambda>b k v s. Inr (s((b, k) \<mapsto> v))),
     get_object = (\<lambda>b k s. case s (b, k) of None \<Rightarrow> Inl BackendError | Some v \<Rightarrow> Inr v),
     delete_object = (\<lambda>b k s. Inr (s((b, k) := None)))\<rparr>"

lemma map_s3_ok: "s3_ok map_s3"
  by (simp add: s3_ok_def map_s3_def)

lemma blob_roundtrip_and_pinning_witness:
  "\<forall>st. download map_s3 (Some ''b'') (''s3://b/'' @ blob_key (Some 7) ''u'')
      (snd (upload map_s3 (Some ''b'') ''u'' [1, 2] (Some 7) st)) = Inr [1, 2]"
proof
  fix st
  have "upload map_s3 (Some ''b'') ''u'' [1, 2] (Some 7) st =
     (Inr (''s3://b/'' @ blob_key (Some 7) ''u''), snd (upload map_s3 (Some ''b'') ''u'' [1, 2] (Some 7) st))"
    by (simp add: upload_def blob_config_def map_s3_def Let_def)
  then show "download map_s3 (Some ''b'') (''s3://b/'' @ blob_key (Some 7) ''u'')
      (snd (upload map_s3 (Some ''b'') ''u'' [1, 2] (Some 7) st)) = Inr [1, 2]"
    using blob_roundtrip_and_pinning [of map_s3 "Some ''b''" "''u''" "[1, 2]" "Some 7" st
        "''s3://b/'' @ blob_key (Some 7) ''u''" "snd (upload map_s3 (Some ''b'') ''u'' [1, 2] (Some 7) st)"]
      map_s3_ok by simp
qed

end
