(* ===== verification/Snapshots.thy ===== *)
theory Snapshots
  imports Crypto Blob_Store
begin

text \<open>
  The snapshot service (\<^verbatim>\<open>app/snapshots.py\<close>): packing with storage tiers, envelope
  encryption with per-account keys, \<open>create_snapshot\<close> with deduplication, the HEAD
  pointer, listing and the purge of the retention runner.

  The libraries the service calls (zstd, SHA-256), the object store, the
  cipher and the database's ordering of equal timestamps are the fields of \<open>snap_lib\<close>;
  \<open>lib_ok\<close> states what is relied on. Random values are the fields of \<open>entropy\<close>. Rows
  that a concurrent transaction commits between the key lookup and the insert are the
  argument \<open>racing\<close>.
\<close>

record snap_lib =
  lib_crypto :: crypto_lib
  lib_cfg :: crypto_config
  lib_s3 :: s3_client
  lib_bucket :: "string option"
  lib_sha256_hex :: "bytes \<Rightarrow> string"
  lib_zstd :: "bytes \<Rightarrow> bytes"
  lib_zstd_high :: "bytes \<Rightarrow> bytes"
  lib_unzstd :: "bytes \<Rightarrow> bytes option"
  lib_inline_threshold :: nat
  lib_blob_threshold :: nat
  lib_order_keys :: "encryption_key list \<Rightarrow> encryption_key list"
  lib_order_snaps :: "device_snapshot list \<Rightarrow> device_snapshot list"

record entropy =
  ent_dek :: bytes
  ent_salt :: bytes
  ent_wrap_nonce :: bytes
  ent_nonce :: bytes
  ent_kid :: string
  ent_blob_uuid :: string

definition codec_ok :: "snap_lib \<Rightarrow> bool" where
  "codec_ok lib \<longleftrightarrow> (\<forall>b. lib_unzstd lib (lib_zstd lib b) = Some b) \<and>
     (\<forall>b. lib_unzstd lib (lib_zstd_high lib b) = Some b)"

definition order_ok :: "('r \<Rightarrow> instant) \<Rightarrow> ('r list \<Rightarrow> 'r list) \<Rightarrow> bool" where
  "order_ok at f \<longleftrightarrow> (\<forall>xs. mset (f xs) = mset xs \<and> sorted_wrt (\<lambda>a b. at b \<le> at a) (f xs))"

definition lib_ok :: "snap_lib \<Rightarrow> bool" where
  "lib_ok lib \<longleftrightarrow> codec_ok lib \<and> aead_ok (lib_crypto lib) \<and> s3_ok (lib_s3 lib) \<and>
     (\<forall>b. lib_bucket lib = Some b \<longrightarrow> CHR ''/'' \<notin> set b) \<and>
     order_ok ek_created_at (lib_order_keys lib) \<and> order_ok snap_created_at (lib_order_snaps lib)"

section \<open>Packing\<close>

record packed_payload =
  pp_column :: string
  pp_json_value :: "json option"
  pp_blob_value :: "bytes option"
  pp_uri_value :: "string option"
  pp_compression :: "string option"
  pp_size_bytes :: nat
  pp_checksum :: string

definition pack_from_raw ::
  "snap_lib \<Rightarrow> string \<Rightarrow> bytes \<Rightarrow> string \<Rightarrow> json \<Rightarrow> int option
     \<Rightarrow> app_state \<Rightarrow> (exn + packed_payload) \<times> app_state" where
  "pack_from_raw lib uuid raw checksum payload account_id st =
     (if length raw \<le> lib_inline_threshold lib then
        (Inr \<lparr>pp_column = ''payload_json'', pp_json_value = Some payload, pp_blob_value = None,
              pp_uri_value = None, pp_compression = None, pp_size_bytes = length raw,
              pp_checksum = checksum\<rparr>, st)
      else (let compressed = lib_zstd lib raw in
        if length compressed \<le> lib_blob_threshold lib then
          (Inr \<lparr>pp_column = ''payload_blob'', pp_json_value = None, pp_blob_value = Some compressed,
                pp_uri_value = None, pp_compression = Some ''zstd'', pp_size_bytes = length compressed,
                pp_checksum = checksum\<rparr>, st)
        else if is_configured (lib_bucket lib) then
          (case upload (lib_s3 lib) (lib_bucket lib) uuid compressed account_id st of
             (Inl e, st') \<Rightarrow> (Inl e, st')
           | (Inr uri, st') \<Rightarrow>
             (Inr \<lparr>pp_column = ''blob_uri'', pp_json_value = None, pp_blob_value = None,
                   pp_uri_value = Some uri, pp_compression = Some ''zstd'',
                   pp_size_bytes = length compressed, pp_checksum = checksum\<rparr>, st'))
        else (Inl (PayloadTooLarge (length compressed)), st)))"

definition pack_payload ::
  "snap_lib \<Rightarrow> string \<Rightarrow> json \<Rightarrow> int option \<Rightarrow> app_state \<Rightarrow> (exn + packed_payload) \<times> app_state" where
  "pack_payload lib uuid payload account_id st =
     (let raw = canonical_bytes payload; checksum = lib_sha256_hex lib raw in
      if length raw \<le> lib_inline_threshold lib then
        (Inr \<lparr>pp_column = ''payload_json'', pp_json_value = Some payload, pp_blob_value = None,
              pp_uri_value = None, pp_compression = None, pp_size_bytes = length raw,
              pp_checksum = checksum\<rparr>, st)
      else (let compressed = lib_zstd lib raw in
        if length compressed \<le> lib_blob_threshold lib then
          (Inr \<lparr>pp_column = ''payload_blob'', pp_json_value = None, pp_blob_value = Some compressed,
                pp_uri_value = None, pp_compression = Some ''zstd'', pp_size_bytes = length compressed,
                pp_checksum = checksum\<rparr>, st)
        else if is_configured (lib_bucket lib) then
          (case upload (lib_s3 lib) (lib_bucket lib) uuid compressed account_id st of
             (Inl e, st') \<Rightarrow> (Inl e, st')
           | (Inr uri, st') \<Rightarrow>
             (Inr \<lparr>pp_column = ''blob_uri'', pp_json_value = None, pp_blob_value = None,
                   pp_uri_value = Some uri, pp_compression = Some ''zstd'',
                   pp_size_bytes = length compressed, pp_checksum = checksum\<rparr>, st'))
        else (Inl (PayloadTooLarge (length compressed)), st)))"

section \<open>The wrapped-key format\<close>

definition WRAPPED_DEK_MAGIC :: bytes where
  "WRAPPED_DEK_MAGIC = ascii_encode ''v1''"

definition LEGACY_SEP :: bytes where
  "LEGACY_SEP = ascii_encode ''||SALT||''"

text \<open>\<open>bytes.partition\<close> at the first occurrence of a non-empty separator.\<close>

fun bytes_partition :: "bytes \<Rightarrow> bytes \<Rightarrow> bytes \<times> bytes" where
  "bytes_partition sep [] = ([], [])"
| "bytes_partition sep (b # bs) =
     (if prefix sep (b # bs) then ([], drop (length sep) (b # bs))
      else (let (x, y) = bytes_partition sep bs in (b # x, y)))"

text \<open>\<open>len(wrapped).to_bytes(4, "big")\<close> raises \<open>OverflowError\<close> from 2^32 on.\<close>

definition pack_wrapped_dek :: "bytes \<Rightarrow> bytes \<Rightarrow> exn + bytes" where
  "pack_wrapped_dek wrapped salt =
     (if 4294967296 \<le> length wrapped then Inl OverflowError
      else Inr (WRAPPED_DEK_MAGIC @ nat_be4 (length wrapped) @ wrapped @ salt))"

definition unpack_wrapped_dek :: "bytes \<Rightarrow> bytes \<times> bytes" where
  "unpack_wrapped_dek blob =
     (if prefix WRAPPED_DEK_MAGIC blob then
        (let body = drop (length WRAPPED_DEK_MAGIC) blob; n = be_nat (take 4 body) in
         (take n (drop 4 body), drop (4 + n) body))
      else bytes_partition LEGACY_SEP blob)"

section \<open>Encryption keys\<close>

definition unwrap :: "snap_lib \<Rightarrow> encryption_key \<Rightarrow> string option \<Rightarrow> exn + bytes" where
  "unwrap lib row passphrase =
     (let (wrapped, salt) = unpack_wrapped_dek (ek_wrapped_dek row) in
      if ek_kek_source row = ''password-derived'' then
        (if \<not> truthy passphrase
         then Inl (PermissionError ''Snapshot was encrypted with a passphrase; supply X-WDC-Passphrase'')
         else (case derive_key_from_passphrase (lib_crypto lib) (the passphrase) salt of
                 Inl e \<Rightarrow> Inl e
               | Inr kek \<Rightarrow> unwrap_dek_with_kek (lib_crypto lib) wrapped kek (ek_account_id row)))
      else unwrap_dek (lib_crypto lib) (lib_cfg lib) wrapped (ek_account_id row) salt)"

text \<open>The filters of the key lookup.\<close>

definition key_filter :: "int \<Rightarrow> string option \<Rightarrow> encryption_key \<Rightarrow> bool" where
  "key_filter account_id passphrase k \<longleftrightarrow>
     ek_account_id k = account_id \<and> ek_retired_at k = None \<and>
     (if passphrase \<noteq> None then ek_kek_source k = ''password-derived''
      else ek_kek_source k \<noteq> ''password-derived'')"

text \<open>The insert succeeds: new kid, existing account, no other active key of that source.\<close>

definition key_row_ok :: "database \<Rightarrow> encryption_key \<Rightarrow> bool" where
  "key_row_ok d k \<longleftrightarrow>
     row_get ek_kid (ek_kid k) (account_encryption_keys d) = None \<and>
     row_get acc_id (ek_account_id k) (accounts d) \<noteq> None \<and>
     \<not> list_ex (\<lambda>r. ek_account_id r = ek_account_id k \<and> ek_kek_source r = ek_kek_source k \<and>
                   ek_retired_at r = None) (account_encryption_keys d)"

definition mint_key ::
  "snap_lib \<Rightarrow> instant \<Rightarrow> entropy \<Rightarrow> int \<Rightarrow> string option \<Rightarrow> exn + encryption_key" where
  "mint_key lib now ent account_id passphrase =
     (case (case passphrase of
         Some p \<Rightarrow>
           (case validate_passphrase_for_encrypt p of Inl e \<Rightarrow> Inl e
            | Inr _ \<Rightarrow>
              (case derive_key_from_passphrase (lib_crypto lib) p (ent_salt ent) of Inl e \<Rightarrow> Inl e
               | Inr kek \<Rightarrow>
                 Inr (wrap_dek_with_kek (lib_crypto lib) (ent_wrap_nonce ent) (ent_dek ent) kek account_id,
                      ''password-derived'')))
       | None \<Rightarrow>
           (case wrap_dek (lib_crypto lib) (lib_cfg lib) (ent_wrap_nonce ent) (ent_dek ent) account_id
                   (ent_salt ent) of Inl e \<Rightarrow> Inl e
            | Inr w \<Rightarrow> Inr (w, if cfg_dev (lib_cfg lib) then ''dev-ephemeral'' else ''master'')))
      of Inl e \<Rightarrow> Inl e
      | Inr (core, source) \<Rightarrow>
        (case pack_wrapped_dek core (ent_salt ent) of Inl e \<Rightarrow> Inl e
         | Inr blob \<Rightarrow>
           Inr \<lparr>ek_kid = ent_kid ent, ek_account_id = account_id, ek_wrapped_dek = blob,
                ek_wrap_algo = ''aes-256-gcm'', ek_kek_source = source, ek_created_at = now,
                ek_retired_at = None\<rparr>))"

text \<open>Another transaction's committed keys become visible.\<close>

definition see_keys :: "encryption_key list \<Rightarrow> app_state \<Rightarrow> app_state" where
  "see_keys racing st =
     st\<lparr>db := (db st)\<lparr>account_encryption_keys := account_encryption_keys (db st) @ racing\<rparr>,
        committed := (committed st)\<lparr>account_encryption_keys :=
          account_encryption_keys (committed st) @ racing\<rparr>\<rparr>"

definition active_key ::
  "snap_lib \<Rightarrow> instant \<Rightarrow> entropy \<Rightarrow> encryption_key list \<Rightarrow> int \<Rightarrow> string option
     \<Rightarrow> app_state \<Rightarrow> (exn + encryption_key) \<times> app_state" where
  "active_key lib now ent racing account_id passphrase st =
     (case lib_order_keys lib (filter (key_filter account_id passphrase) (account_encryption_keys (db st))) of
        k # _ \<Rightarrow> (Inr k, st)
      | [] \<Rightarrow>
        (case mint_key lib now ent account_id passphrase of Inl e \<Rightarrow> (Inl e, st)
         | Inr row \<Rightarrow>
           (let st1 = see_keys racing st in
            if key_row_ok (db st1) row then
              (Inr row, st1\<lparr>db := (db st1)\<lparr>account_encryption_keys :=
                 row_add row (account_encryption_keys (db st1))\<rparr>\<rparr>)
            else (case find (key_filter account_id passphrase) (account_encryption_keys (db st1)) of
                    None \<Rightarrow> (Inl IntegrityError, st1)
                  | Some existing \<Rightarrow> (Inr existing, st1)))))"

definition aad_for :: "int option \<Rightarrow> string \<Rightarrow> bytes" where
  "aad_for account_id kid =
     ascii_encode (''nks-wdc-snapshot-'' @ show_int (case account_id of None \<Rightarrow> 0 | Some a \<Rightarrow> a) @ ''-'' @ kid)"

definition legacy_aad :: "int option \<Rightarrow> bytes" where
  "legacy_aad account_id =
     ascii_encode (''nks-wdc-snapshot-'' @ show_int (case account_id of None \<Rightarrow> 0 | Some a \<Rightarrow> a))"

definition decrypt_with_kid ::
  "snap_lib \<Rightarrow> database \<Rightarrow> string \<Rightarrow> int option \<Rightarrow> bytes \<Rightarrow> string option \<Rightarrow> exn + bytes" where
  "decrypt_with_kid lib d kid account_id ciphertext passphrase =
     (case row_get ek_kid kid (account_encryption_keys d) of
        None \<Rightarrow> Inl (RuntimeError ''Encryption key no longer exists'')
      | Some row \<Rightarrow>
        (case unwrap lib row passphrase of Inl e \<Rightarrow> Inl e
         | Inr dek \<Rightarrow>
           (case decrypt_payload (lib_crypto lib) ciphertext dek (aad_for account_id kid) of
              Inl InvalidTag \<Rightarrow> decrypt_payload (lib_crypto lib) ciphertext dek (legacy_aad account_id)
            | r \<Rightarrow> r)))"

definition unpack_payload ::
  "snap_lib \<Rightarrow> device_snapshot \<Rightarrow> bool \<Rightarrow> string option \<Rightarrow> app_state \<Rightarrow> exn + json" where
  "unpack_payload lib snap has_db passphrase st =
     (case snap_payload_json snap of Some j \<Rightarrow> Inr j
      | None \<Rightarrow>
        (case (case snap_payload_blob snap of Some raw \<Rightarrow> Inr raw
               | None \<Rightarrow> (case snap_blob_uri snap of
                    Some uri \<Rightarrow> download (lib_s3 lib) (lib_bucket lib) uri st
                  | None \<Rightarrow> Inl (RuntimeError ''Snapshot has no payload lane populated'')))
         of Inl e \<Rightarrow> Inl e
         | Inr raw0 \<Rightarrow>
           (case (if truthy (snap_encryption_kid snap) then
                    (if \<not> has_db then Inl (RuntimeError ''Cannot unpack encrypted snapshot without a DB session'')
                     else decrypt_with_kid lib (db st) (the (snap_encryption_kid snap)) (snap_account_id snap)
                            raw0 passphrase)
                  else Inr raw0)
            of Inl e \<Rightarrow> Inl e
            | Inr raw1 \<Rightarrow>
              (case (if snap_compression snap = Some ''zstd''
                     then (case lib_unzstd lib raw1 of None \<Rightarrow> Inl BackendError | Some r \<Rightarrow> Inr r)
                     else Inr raw1)
               of Inl e \<Rightarrow> Inl e
               | Inr raw2 \<Rightarrow>
                 (case json_loads raw2 of None \<Rightarrow> Inl (ValueError ''JSONDecodeError'')
                  | Some j \<Rightarrow> Inr j)))))"

section \<open>The HEAD pointer and new snapshots\<close>

definition get_head :: "database \<Rightarrow> string \<Rightarrow> device_snapshot option" where
  "get_head d device_id =
     (case row_get head_device_id device_id (device_heads d) of None \<Rightarrow> None
      | Some h \<Rightarrow> row_get snap_id (head_current_snapshot_id h) (device_snapshots d))"

text \<open>
  \<open>updated_at\<close> is refreshed only when the update changes a column. The foreign keys make
  the flush fail when the snapshot or the device does not exist.
\<close>

definition set_head :: "instant \<Rightarrow> string \<Rightarrow> int \<Rightarrow> string \<Rightarrow> database \<Rightarrow> exn + database" where
  "set_head now device_id snapshot_id updated_by d =
     (if row_get snap_id snapshot_id (device_snapshots d) = None \<or>
         row_get dev_device_id device_id (device_configs d) = None then Inl IntegrityError
      else (case row_get head_device_id device_id (device_heads d) of
        None \<Rightarrow> Inr (d\<lparr>device_heads := row_add
            \<lparr>head_device_id = device_id, head_current_snapshot_id = snapshot_id,
             head_updated_at = now, head_updated_by = updated_by\<rparr> (device_heads d)\<rparr>)
      | Some h \<Rightarrow> Inr (d\<lparr>device_heads := row_set head_device_id device_id
            (\<lambda>r. if head_current_snapshot_id r = snapshot_id \<and> head_updated_by r = updated_by then r
                 else r\<lparr>head_current_snapshot_id := snapshot_id, head_updated_by := updated_by,
                        head_updated_at := now\<rparr>) (device_heads d)\<rparr>)))"

definition encrypted_pack ::
  "snap_lib \<Rightarrow> instant \<Rightarrow> entropy \<Rightarrow> encryption_key list \<Rightarrow> int \<Rightarrow> string option \<Rightarrow> bytes \<Rightarrow> string
     \<Rightarrow> app_state \<Rightarrow> (exn + packed_payload \<times> string) \<times> app_state" where
  "encrypted_pack lib now ent racing account_id passphrase raw checksum st =
     (case active_key lib now ent racing account_id passphrase st of
        (Inl e, st1) \<Rightarrow> (Inl e, st1)
      | (Inr key_row, st1) \<Rightarrow>
        (case unwrap lib key_row passphrase of Inl e \<Rightarrow> (Inl e, st1)
         | Inr dek \<Rightarrow>
           (let envelope = encrypt_payload (lib_crypto lib) (ent_nonce ent) (lib_zstd_high lib raw) dek
                             (aad_for (Some account_id) (ek_kid key_row)) in
            (Inr (\<lparr>pp_column = ''payload_blob'', pp_json_value = None, pp_blob_value = Some envelope,
                   pp_uri_value = None, pp_compression = Some ''zstd'', pp_size_bytes = length envelope,
                   pp_checksum = checksum\<rparr>, ek_kid key_row), st1))))"

definition snapshot_row ::
  "int \<Rightarrow> instant \<Rightarrow> string \<Rightarrow> int option \<Rightarrow> string option \<Rightarrow> string \<Rightarrow> packed_payload \<Rightarrow> string option
     \<Rightarrow> int option \<Rightarrow> string option \<Rightarrow> device_snapshot" where
  "snapshot_row sid now device_id account_id label kind p kid parent ip =
     \<lparr>snap_id = sid, snap_device_id = device_id, snap_account_id = account_id, snap_created_at = now,
      snap_label = label, snap_kind = kind, snap_size_bytes = pp_size_bytes p,
      snap_payload_json = pp_json_value p, snap_payload_blob = pp_blob_value p,
      snap_blob_uri = pp_uri_value p, snap_checksum = pp_checksum p, snap_parent = parent,
      snap_compression = pp_compression p, snap_encryption_kid = kid, snap_created_by_ip = ip\<rparr>"

text \<open>The insert of the row and the move of HEAD.\<close>

definition append_snapshot ::
  "(int list \<Rightarrow> int) \<Rightarrow> instant \<Rightarrow> string \<Rightarrow> int option \<Rightarrow> string option \<Rightarrow> string \<Rightarrow> packed_payload
     \<Rightarrow> string option \<Rightarrow> int option \<Rightarrow> string option \<Rightarrow> app_state
     \<Rightarrow> (exn + device_snapshot) \<times> app_state" where
  "append_snapshot alloc now device_id account_id label kind p kid parent ip st =
     (let snap = snapshot_row (alloc (map snap_id (device_snapshots (db st)))) now device_id account_id
                   label kind p kid parent ip in
      if \<not> snapshot_row_ok (db st) snap then (Inl IntegrityError, st)
      else (let d1 = (db st)\<lparr>device_snapshots := row_add snap (device_snapshots (db st))\<rparr> in
        case set_head now device_id (snap_id snap) kind d1 of
          Inl e \<Rightarrow> (Inl e, st\<lparr>db := d1\<rparr>)
        | Inr d2 \<Rightarrow> (Inr snap, st\<lparr>db := d2\<rparr>)))"

definition create_snapshot ::
  "snap_lib \<Rightarrow> (int list \<Rightarrow> int) \<Rightarrow> instant \<Rightarrow> entropy \<Rightarrow> encryption_key list
     \<Rightarrow> string \<Rightarrow> int option \<Rightarrow> json \<Rightarrow> string \<Rightarrow> string option \<Rightarrow> string option \<Rightarrow> bool \<Rightarrow> string option
     \<Rightarrow> app_state \<Rightarrow> (exn + device_snapshot) \<times> app_state" where
  "create_snapshot lib alloc now ent racing device_id account_id payload kind label ip encrypt passphrase st =
     (let raw = canonical_bytes payload; checksum = lib_sha256_hex lib raw;
          head = get_head (db st) device_id;
          wants = (encrypt \<or> truthy passphrase) in
      if (case head of None \<Rightarrow> False | Some h \<Rightarrow> snap_checksum h = checksum) \<and> label = None \<and> \<not> wants
      then (Inr (the head), st)
      else (case (if wants \<and> account_id \<noteq> None
                  then (case encrypted_pack lib now ent racing (the account_id) passphrase raw checksum st of
                          (Inl e, st1) \<Rightarrow> (Inl e, st1)
                        | (Inr (p, kid), st1) \<Rightarrow> (Inr (p, Some kid), st1))
                  else (case pack_from_raw lib (ent_blob_uuid ent) raw checksum payload account_id st of
                          (Inl e, st1) \<Rightarrow> (Inl e, st1)
                        | (Inr p, st1) \<Rightarrow> (Inr (p, None), st1)))
            of (Inl e, st1) \<Rightarrow> (Inl e, st1)
            | (Inr (p, kid), st1) \<Rightarrow>
              append_snapshot alloc now device_id account_id label kind p kid (map_option snap_id head) ip st1))"

section \<open>Listing\<close>

text \<open>SQL \<open>LIKE\<close> with escape character \<open>\\\<close>; \<open>f\<close> folds case (the identity on Postgres).\<close>

definition escape_char :: char where
  "escape_char = char_of (92 :: nat)"

fun like :: "(char \<Rightarrow> char) \<Rightarrow> string \<Rightarrow> string \<Rightarrow> bool" where
  "like f [] s = (s = [])"
| "like f (p # ps) s =
     (if p = CHR ''%'' then like f ps s \<or> (case s of [] \<Rightarrow> False | _ # s' \<Rightarrow> like f (p # ps) s')
      else if p = escape_char then
        (case ps of [] \<Rightarrow> False
         | q # ps' \<Rightarrow> (case s of [] \<Rightarrow> False | c # s' \<Rightarrow> f c = f q \<and> like f ps' s'))
      else (case s of [] \<Rightarrow> False
            | c # s' \<Rightarrow> (p = CHR ''_'' \<or> f c = f p) \<and> like f ps s'))"

text \<open>The three \<open>replace\<close> calls together put an escape before each special character.\<close>

fun replace_char :: "char \<Rightarrow> string \<Rightarrow> string \<Rightarrow> string" where
  "replace_char c w [] = []"
| "replace_char c w (x # xs) = (if x = c then w @ replace_char c w xs else x # replace_char c w xs)"

definition like_escape :: "string \<Rightarrow> string" where
  "like_escape s =
     replace_char (CHR ''_'') [escape_char, CHR ''_'']
       (replace_char (CHR ''%'') [escape_char, CHR ''%'']
         (replace_char escape_char [escape_char, escape_char] s))"

definition list_filter ::
  "(char \<Rightarrow> char) \<Rightarrow> string \<Rightarrow> int \<Rightarrow> string option \<Rightarrow> string option \<Rightarrow> device_snapshot \<Rightarrow> bool" where
  "list_filter fc device_id account_id kind label_like s \<longleftrightarrow>
     snap_device_id s = device_id \<and> snap_account_id s = Some account_id \<and>
     (truthy kind \<longrightarrow> Some (snap_kind s) = kind) \<and>
     (truthy label_like \<longrightarrow>
        (case snap_label s of None \<Rightarrow> False
         | Some l \<Rightarrow> like fc (''%'' @ like_escape (the label_like) @ ''%'') l))"

definition list_snapshots ::
  "snap_lib \<Rightarrow> (char \<Rightarrow> char) \<Rightarrow> database \<Rightarrow> string \<Rightarrow> int \<Rightarrow> string option \<Rightarrow> string option \<Rightarrow> int \<Rightarrow> int
     \<Rightarrow> device_snapshot list \<times> nat" where
  "list_snapshots lib fc d device_id account_id kind label_like offset limit =
     (let P = list_filter fc device_id account_id kind label_like;
          page_size = nat (max 1 (min limit 200));
          page_off = nat (max 0 offset);
          rows = take page_size (drop page_off (lib_order_snaps lib (filter P (device_snapshots d))));
          total = (if page_off = 0 \<and> length rows < page_size then length rows
                   else count_query P (device_snapshots d))
      in (rows, total))"

definition snapshot_diff ::
  "snap_lib \<Rightarrow> (json \<Rightarrow> json \<Rightarrow> json list) \<Rightarrow> device_snapshot \<Rightarrow> device_snapshot \<Rightarrow> bool \<Rightarrow> app_state
     \<Rightarrow> exn + json list" where
  "snapshot_diff lib make_patch a b has_db st =
     (case unpack_payload lib a has_db None st of Inl e \<Rightarrow> Inl e
      | Inr pa \<Rightarrow>
        (case unpack_payload lib b has_db None st of Inl e \<Rightarrow> Inl e
         | Inr pb \<Rightarrow> Inr (make_patch pa pb)))"

section \<open>Purge\<close>

definition purge_base :: "int \<Rightarrow> bool \<Rightarrow> device_snapshot \<Rightarrow> bool" where
  "purge_base account_id keep_labeled s \<longleftrightarrow>
     snap_account_id s = Some account_id \<and> snap_kind s = ''auto'' \<and> (keep_labeled \<longrightarrow> snap_label s = None)"

text \<open>\<open>row_number()\<close> over the rows of the same device, newest first.\<close>

definition row_number :: "snap_lib \<Rightarrow> device_snapshot list \<Rightarrow> device_snapshot \<Rightarrow> nat" where
  "row_number lib rows s =
     Suc (length (takeWhile (\<lambda>r. r \<noteq> s)
       (lib_order_snaps lib (filter (\<lambda>r. snap_device_id r = snap_device_id s) rows))))"

definition head_ids :: "database \<Rightarrow> int \<Rightarrow> int list" where
  "head_ids d account_id =
     map head_current_snapshot_id (filter (\<lambda>h. list_ex (\<lambda>s. snap_device_id s = head_device_id h \<and>
       snap_account_id s = Some account_id) (device_snapshots d)) (device_heads d))"

definition purge_candidates ::
  "snap_lib \<Rightarrow> instant \<Rightarrow> database \<Rightarrow> int \<Rightarrow> int \<Rightarrow> int option \<Rightarrow> bool \<Rightarrow> device_snapshot list" where
  "purge_candidates lib now d account_id keep_last_n auto_expire_days keep_labeled =
     (let base = filter (purge_base account_id keep_labeled) (device_snapshots d) in
      filter (\<lambda>s. (keep_last_n < int (row_number lib base s) \<or>
                   (case auto_expire_days of None \<Rightarrow> False
                    | Some days \<Rightarrow> snap_created_at s \<le> now - days * 86400)) \<and>
                  snap_id s \<notin> set (head_ids d account_id)) base)"

text \<open>
  A SQL delete of snapshots by id: refused while a HEAD refers to one of them
  (\<open>RESTRICT\<close>); the parents of the remaining rows that pointed at one become null.
\<close>

definition delete_snapshots :: "int list \<Rightarrow> database \<Rightarrow> exn + nat \<times> database" where
  "delete_snapshots ids d =
     (if list_ex (\<lambda>h. head_current_snapshot_id h \<in> set ids) (device_heads d) then Inl IntegrityError
      else (let gone = filter (\<lambda>s. snap_id s \<in> set ids) (device_snapshots d);
                kept = filter (\<lambda>s. snap_id s \<notin> set ids) (device_snapshots d)
            in Inr (length gone,
                 d\<lparr>device_snapshots := map (\<lambda>s. case snap_parent s of None \<Rightarrow> s
                     | Some p \<Rightarrow> if p \<in> set ids then s\<lparr>snap_parent := None\<rparr> else s) kept\<rparr>)))"

definition CHUNK :: nat where
  "CHUNK = 500"

function (sequential) delete_chunks :: "int list \<Rightarrow> nat \<Rightarrow> database \<Rightarrow> exn + nat \<times> database" where
  "delete_chunks [] deleted d = Inr (deleted, d)"
| "delete_chunks (i # ids) deleted d =
     (case delete_snapshots (take CHUNK (i # ids)) d of Inl e \<Rightarrow> Inl e
      | Inr (n, d') \<Rightarrow> delete_chunks (drop CHUNK (i # ids)) (deleted + n) d')"
  by pat_completeness auto
termination
  by (relation "measure (\<lambda>(ids, _, _). length ids)") (auto simp: CHUNK_def)

text \<open>Failures to delete a blob are logged and counted, never raised.\<close>

definition delete_blobs :: "snap_lib \<Rightarrow> string list \<Rightarrow> app_state \<Rightarrow> app_state" where
  "delete_blobs lib uris st = fold (\<lambda>uri st. snd (blob_delete (lib_s3 lib) (lib_bucket lib) uri st)) uris st"

definition purge_auto_older_than ::
  "snap_lib \<Rightarrow> instant \<Rightarrow> int \<Rightarrow> int \<Rightarrow> int option \<Rightarrow> bool \<Rightarrow> app_state \<Rightarrow> (exn + nat) \<times> app_state" where
  "purge_auto_older_than lib now account_id keep_last_n auto_expire_days keep_labeled st =
     (let candidates = purge_candidates lib now (db st) account_id keep_last_n auto_expire_days keep_labeled in
      if candidates = [] then (Inr 0, st)
      else (let blob_uris = filter (\<lambda>u. u \<noteq> []) (List.map_filter snap_blob_uri candidates);
                st1 = delete_blobs lib blob_uris st in
        case delete_chunks (map snap_id candidates) 0 (db st1) of
          Inl e \<Rightarrow> (Inl e, st1)
        | Inr (n, d) \<Rightarrow> (Inr n, st1\<lparr>db := d\<rparr>)))"

end
