(* ===== verification/Snapshot_Crypto.thy ===== *)
theory Snapshot_Crypto
  imports Snapshots
begin

text \<open>
  What packing and encryption of snapshots preserve: the wrapped-key format reads back,
  a minted key unwraps to its data key, the fast packing path equals \<open>pack_payload\<close>, and
  a snapshot that \<open>create_snapshot\<close> stores unpacks to the payload it was given, on all
  three lanes and under both kinds of key.
\<close>

section \<open>The wrapped-key format\<close>

lemma length_magic: "length WRAPPED_DEK_MAGIC = 2"
  by (simp add: WRAPPED_DEK_MAGIC_def ascii_encode_def)

lemma unpack_pack_wrapped:
  "pack_wrapped_dek w salt = Inr blob \<Longrightarrow> unpack_wrapped_dek blob = (w, salt)"
  by (auto simp: pack_wrapped_dek_def unpack_wrapped_dek_def be_nat_be4 Let_def split: if_splits)

lemma bytes_partition_legacy:
  assumes "\<not> (\<exists>x y. w @ sep = x @ sep @ y \<and> y \<noteq> [])" and "sep \<noteq> []"
  shows "bytes_partition sep (w @ sep @ salt) = (w, salt)"
  using assms(1)
proof (induction w)
  case Nil
  with assms(2) show ?case by (cases sep) (auto simp: prefix_def)
next
  case (Cons b w)
  have np: "\<not> prefix sep (b # w @ sep @ salt)"
  proof
    assume "prefix sep (b # w @ sep @ salt)"
    then obtain r where r: "b # w @ sep @ salt = sep @ r" by (auto simp: prefix_def)
    have "take (length sep) (b # w @ sep) = take (length sep) (b # w @ sep @ salt)"
      by (simp add: take_Cons' )
    then have "take (length sep) (b # w @ sep) = sep" using r by simp
    then have "b # w @ sep = [] @ sep @ drop (length sep) (b # w @ sep)"
      by (metis append_Nil append_take_drop_id)
    moreover have "drop (length sep) (b # w @ sep) \<noteq> []" by simp
    ultimately show False using Cons.prems by (metis append_Cons)
  qed
  have "\<not> (\<exists>x y. w @ sep = x @ sep @ y \<and> y \<noteq> [])"
    using Cons.prems by (metis append_Cons)
  with np Cons.IH show ?case by simp
qed

section \<open>Keys\<close>

lemma mint_key_unwrap:
  assumes "mint_key lib now ent a pass = Inr row" and "aead_ok (lib_crypto lib)"
    and "length (ent_wrap_nonce ent) = NONCE_BYTES"
  shows "unwrap lib row pass = Inr (ent_dek ent)"
proof (cases pass)
  case None
  with assms(1) obtain w blob src where
    w: "wrap_dek (lib_crypto lib) (lib_cfg lib) (ent_wrap_nonce ent) (ent_dek ent) a (ent_salt ent) = Inr w"
    and b: "pack_wrapped_dek w (ent_salt ent) = Inr blob"
    and r: "row = \<lparr>ek_kid = ent_kid ent, ek_account_id = a, ek_wrapped_dek = blob,
        ek_wrap_algo = ''aes-256-gcm'', ek_kek_source = src, ek_created_at = now, ek_retired_at = None\<rparr>"
    and s: "src \<noteq> ''password-derived''"
    by (auto simp: mint_key_def split: sum.splits)
  show ?thesis
    using unwrap_wrap [OF assms(2,3) w] unpack_pack_wrapped [OF b] s by (simp add: unwrap_def r)
next
  case (Some p)
  with assms(1) obtain kek blob where
    v: "length p \<ge> 12"
    and k: "derive_key_from_passphrase (lib_crypto lib) p (ent_salt ent) = Inr kek"
    and b: "pack_wrapped_dek (wrap_dek_with_kek (lib_crypto lib) (ent_wrap_nonce ent) (ent_dek ent) kek a)
        (ent_salt ent) = Inr blob"
    and r: "row = \<lparr>ek_kid = ent_kid ent, ek_account_id = a, ek_wrapped_dek = blob,
        ek_wrap_algo = ''aes-256-gcm'', ek_kek_source = ''password-derived'', ek_created_at = now,
        ek_retired_at = None\<rparr>"
    by (auto simp: mint_key_def validate_passphrase_for_encrypt_def MIN_PASSPHRASE_CHARS_def
        split: sum.splits if_splits)
  have t: "truthy pass" using Some v by auto
  show ?thesis
    using unwrap_wrap_with_kek [OF assms(2,3)] unpack_pack_wrapped [OF b] k t Some by (simp add: unwrap_def r)
qed

definition keys_ok :: "database \<Rightarrow> bool" where
  "keys_ok d \<longleftrightarrow> pk ek_kid (account_encryption_keys d) \<and>
     (\<forall>k \<in> set (account_encryption_keys d). ek_kid k \<noteq> [])"

text \<open>The key that is used is a row of the key table, of that account, active and of the asked source.\<close>

lemma active_key_in:
  assumes "active_key lib now ent racing a pass st = (Inr k, st')"
    and "order_ok ek_created_at (lib_order_keys lib)"
  shows "k \<in> set (account_encryption_keys (db st')) \<and> key_filter a pass k"
proof (cases "lib_order_keys lib (filter (key_filter a pass) (account_encryption_keys (db st)))")
  case (Cons x xs)
  have "x \<in> set (lib_order_keys lib (filter (key_filter a pass) (account_encryption_keys (db st))))"
    using Cons by simp
  then have "x \<in> set (filter (key_filter a pass) (account_encryption_keys (db st)))"
    using assms(2) unfolding order_ok_def by (metis set_mset_mset)
  with Cons assms(1) show ?thesis by (auto simp: active_key_def)
next
  case Nil
  have f: "key_filter a pass row" if "mint_key lib now ent a pass = Inr row" for row
    using that by (auto simp: mint_key_def key_filter_def split: sum.splits option.splits if_splits)
  show ?thesis
    using Nil assms(1) f
    by (auto simp: active_key_def Let_def find_Some_iff split: sum.splits if_splits option.splits)
qed

lemma active_key_frame:
  "active_key lib now ent racing a pass st = (r, st') \<Longrightarrow>
     device_snapshots (db st') = device_snapshots (db st) \<and> device_heads (db st') = device_heads (db st) \<and>
     device_configs (db st') = device_configs (db st) \<and> accounts (db st') = accounts (db st) \<and>
     objects st' = objects st"
  by (auto simp: active_key_def see_keys_def Let_def split: list.splits sum.splits if_splits option.splits)

section \<open>Packing\<close>

lemma pack_payload_raw:
  "pack_payload lib u payload a st =
     pack_from_raw lib u (canonical_bytes payload)
       (lib_sha256_hex lib (canonical_bytes payload)) payload a st"
  by (simp add: pack_payload_def pack_from_raw_def Let_def)

lemma pack_from_raw_db:
  "pack_from_raw lib u raw c payload a st = (r, st') \<Longrightarrow> db st' = db st \<and> committed st' = committed st"
  by (auto simp: pack_from_raw_def Let_def upload_def split: if_splits sum.splits)

text \<open>A packed value occupies exactly one lane and carries the checksum.\<close>

definition packed_lanes :: "packed_payload \<Rightarrow> nat" where
  "packed_lanes p = (if pp_json_value p \<noteq> None then 1 else 0) + (if pp_blob_value p \<noteq> None then 1 else 0)
     + (if pp_uri_value p \<noteq> None then 1 else 0)"

lemma pack_from_raw_one_lane:
  "pack_from_raw lib u raw c payload a st = (Inr p, st') \<Longrightarrow> packed_lanes p = 1 \<and> pp_checksum p = c"
  by (auto simp: pack_from_raw_def packed_lanes_def Let_def split: if_splits sum.splits prod.splits)

lemma encrypted_pack_one_lane:
  "encrypted_pack lib now ent racing a pass raw c st = (Inr (p, kid), st') \<Longrightarrow>
     packed_lanes p = 1 \<and> pp_checksum p = c"
  by (auto simp: encrypted_pack_def packed_lanes_def Let_def split: sum.splits prod.splits)

lemma lanes_snapshot_row: "lanes (snapshot_row i now d a l k p kid par ip) = packed_lanes p"
  by (simp add: lanes_def packed_lanes_def snapshot_row_def)

lemma encrypted_pack_frame:
  "encrypted_pack lib now ent racing a pass raw c st = (r, st') \<Longrightarrow>
     device_snapshots (db st') = device_snapshots (db st) \<and> device_heads (db st') = device_heads (db st) \<and>
     device_configs (db st') = device_configs (db st) \<and> accounts (db st') = accounts (db st)"
  by (auto simp: encrypted_pack_def Let_def split: prod.splits sum.splits dest: active_key_frame)

section \<open>Unpacking what was packed\<close>

lemma unpack_plain:
  assumes "lib_ok lib" and "raw = canonical_bytes payload"
    and "pack_from_raw lib u raw c payload a st = (Inr p, st1)"
    and "objects st' = objects st1" and wf: "json_wf payload"
  shows "\<exists>j. unpack_payload lib (snapshot_row i now d aid l k p None par ip) b pass st' = Inr j
     \<and> norm_json j = norm_json payload"
proof -
  have unz: "lib_unzstd lib (lib_zstd lib x) = Some x" for x
    using assms(1) by (simp add: lib_ok_def codec_ok_def)
  obtain j where j: "json_loads raw = Some j" "norm_json j = norm_json payload"
    using json_loads_canonical [OF wf] assms(2) norm_json_idem by blast
  consider (json) "p = \<lparr>pp_column = ''payload_json'', pp_json_value = Some payload, pp_blob_value = None,
              pp_uri_value = None, pp_compression = None, pp_size_bytes = length raw, pp_checksum = c\<rparr>"
    | (blob) "pp_json_value p = None" "pp_blob_value p = Some (lib_zstd lib raw)" "pp_compression p = Some ''zstd''"
    | (uri) uri where "pp_json_value p = None" "pp_blob_value p = None" "pp_uri_value p = Some uri"
        "pp_compression p = Some ''zstd''"
        "upload (lib_s3 lib) (lib_bucket lib) u (lib_zstd lib raw) a st = (Inr uri, st1)"
    using assms(3) by (auto simp: pack_from_raw_def Let_def split: if_splits sum.splits prod.splits)
  then show ?thesis
  proof cases
    case json
    then show ?thesis by (simp add: unpack_payload_def snapshot_row_def)
  next
    case blob
    with unz j show ?thesis by (simp add: unpack_payload_def snapshot_row_def)
  next
    case uri
    have "download (lib_s3 lib) (lib_bucket lib) uri st1 = Inr (lib_zstd lib raw)"
      using assms(1) by (intro download_upload [OF _ uri(5)]) (simp_all add: lib_ok_def)
    then have "download (lib_s3 lib) (lib_bucket lib) uri st' = Inr (lib_zstd lib raw)"
      unfolding download_def assms(4) .
    with uri unz j show ?thesis by (simp add: unpack_payload_def snapshot_row_def)
  qed
qed

lemma unpack_encrypted:
  assumes "lib_ok lib" and "raw = canonical_bytes payload"
    and "encrypted_pack lib now ent racing a pass raw c st = (Inr (p, kid), st1)"
    and "account_encryption_keys (db st') = account_encryption_keys (db st1)"
    and "keys_ok (db st1)" and "length (ent_nonce ent) = NONCE_BYTES" and wf: "json_wf payload"
  shows "\<exists>j. unpack_payload lib (snapshot_row i t d (Some a) l k p (Some kid) par ip) True pass st' = Inr j
     \<and> norm_json j = norm_json payload"
proof -
  from assms(3) obtain key dek where
    key: "active_key lib now ent racing a pass st = (Inr key, st1)" and dek: "unwrap lib key pass = Inr dek"
    and kid: "kid = ek_kid key"
    and p: "pp_json_value p = None" "pp_compression p = Some ''zstd''"
      "pp_blob_value p = Some (encrypt_payload (lib_crypto lib) (ent_nonce ent) (lib_zstd_high lib raw) dek
        (aad_for (Some a) kid))"
    by (auto simp: encrypted_pack_def Let_def split: prod.splits sum.splits)
  have "key \<in> set (account_encryption_keys (db st1))"
    using active_key_in [OF key] assms(1) by (simp add: lib_ok_def)
  then have row: "row_get ek_kid kid (account_encryption_keys (db st')) = Some key" and ne: "kid \<noteq> []"
    using assms(4,5) kid by (auto simp: keys_ok_def row_get_in)
  have "decrypt_with_kid lib (db st') kid (Some a)
      (encrypt_payload (lib_crypto lib) (ent_nonce ent) (lib_zstd_high lib raw) dek (aad_for (Some a) kid)) pass
      = Inr (lib_zstd_high lib raw)"
    using row dek assms(1,6) by (simp add: decrypt_with_kid_def decrypt_encrypt lib_ok_def)
  moreover obtain j where "json_loads raw = Some j" "norm_json j = norm_json payload"
    using json_loads_canonical [OF wf] assms(2) norm_json_idem by blast
  moreover have "lib_unzstd lib (lib_zstd_high lib raw) = Some raw"
    using assms(1) by (simp add: lib_ok_def codec_ok_def)
  ultimately show ?thesis using p ne by (simp add: unpack_payload_def snapshot_row_def)
qed

end
