(* ===== verification/Snapshot_Store.thy ===== *)
theory Snapshot_Store
  imports Snapshot_Crypto
begin

text \<open>
  The snapshot store as its clients see it: HEAD never dangles, a new snapshot becomes
  HEAD with the old one as its parent, an unchanged payload is not stored twice, listing
  is scoped and counts right, and the purge removes exactly what its policy allows.
\<close>

section \<open>The invariant\<close>

definition heads_ok :: "database \<Rightarrow> bool" where
  "heads_ok d \<longleftrightarrow> pk snap_id (device_snapshots d) \<and> pk head_device_id (device_heads d) \<and>
     (\<forall>h \<in> set (device_heads d). \<exists>s \<in> set (device_snapshots d).
        snap_id s = head_current_snapshot_id h \<and> snap_device_id s = head_device_id h)"

definition rows_ok :: "database \<Rightarrow> bool" where
  "rows_ok d \<longleftrightarrow> (\<forall>s \<in> set (device_snapshots d). lanes s = 1 \<and> snap_kind s \<in> set snapshot_kinds)"

lemma heads_okD:
  assumes "heads_ok d" and "row_get head_device_id dev (device_heads d) = Some h"
  shows "\<exists>s. row_get snap_id (head_current_snapshot_id h) (device_snapshots d) = Some s \<and> snap_device_id s = dev"
proof -
  from row_get_Some [OF assms(2)] have h: "h \<in> set (device_heads d)" "head_device_id h = dev" by auto
  with assms(1) obtain s where s: "s \<in> set (device_snapshots d)" "snap_id s = head_current_snapshot_id h"
    "snap_device_id s = dev" unfolding heads_ok_def by blast
  from assms(1) s(1) have "row_get snap_id (snap_id s) (device_snapshots d) = Some s"
    unfolding heads_ok_def by (blast intro: row_get_in)
  with s show ?thesis by auto
qed

lemma get_head_device: "heads_ok d \<Longrightarrow> get_head d dev = Some s \<Longrightarrow> snap_device_id s = dev \<and> s \<in> set (device_snapshots d)"
  using heads_okD row_get_Some by (fastforce simp: get_head_def split: option.splits)

lemma get_head_None: "heads_ok d \<Longrightarrow> get_head d dev = None \<longleftrightarrow> row_get head_device_id dev (device_heads d) = None"
  using heads_okD by (fastforce simp: get_head_def split: option.splits)

lemma set_head_cases:
  assumes "set_head now dev i by d = Inr d'"
  shows "\<exists>hs. d' = d\<lparr>device_heads := hs\<rparr> \<and> row_get dev_device_id dev (device_configs d) \<noteq> None
    \<and> (pk head_device_id (device_heads d) \<longrightarrow> pk head_device_id hs)
    \<and> (\<forall>h \<in> set hs. head_device_id h = dev \<and> head_current_snapshot_id h = i
          \<or> h \<in> set (device_heads d) \<and> head_device_id h \<noteq> dev)
    \<and> (\<exists>h. row_get head_device_id dev hs = Some h \<and> head_current_snapshot_id h = i)
    \<and> (\<forall>dev'. dev' \<noteq> dev \<longrightarrow> row_get head_device_id dev' hs = row_get head_device_id dev' (device_heads d))"
proof (cases "row_get head_device_id dev (device_heads d)")
  case None
  let ?h = "\<lparr>head_device_id = dev, head_current_snapshot_id = i, head_updated_at = now, head_updated_by = by\<rparr>"
  have "d' = d\<lparr>device_heads := row_add ?h (device_heads d)\<rparr>"
    and "row_get dev_device_id dev (device_configs d) \<noteq> None"
    using assms None by (auto simp: set_head_def split: if_splits)
  moreover have "\<forall>h \<in> set (device_heads d). head_device_id h \<noteq> dev"
    using None by (auto simp: row_get_None)
  ultimately show ?thesis using None
    by (intro exI [of _ "row_add ?h (device_heads d)"])
       (auto simp: pk_add row_get_add split: option.splits)
next
  case (Some h)
  define f :: "device_head \<Rightarrow> device_head" where "f = (\<lambda>r. if head_current_snapshot_id r = i \<and> head_updated_by r = by then r
                 else r\<lparr>head_current_snapshot_id := i, head_updated_by := by, head_updated_at := now\<rparr>)"
  have k: "head_device_id (f r) = head_device_id r" "head_current_snapshot_id (f r) = i" for r
    by (simp_all add: f_def)
  have "d' = d\<lparr>device_heads := row_set head_device_id dev f (device_heads d)\<rparr>"
    and "row_get dev_device_id dev (device_configs d) \<noteq> None"
    using assms Some by (auto simp: set_head_def f_def split: if_splits)
  with Some k show ?thesis
    by (intro exI [of _ "row_set head_device_id dev f (device_heads d)"])
       (auto simp: pk_set row_get_set set_row_set split: if_splits)
qed

lemma set_head_ok:
  assumes "heads_ok d" and "set_head now dev i by d = Inr d'"
    and "row_get snap_id i (device_snapshots d) = Some s" and "snap_device_id s = dev"
  shows "heads_ok d' \<and> get_head d' dev = Some s \<and> device_snapshots d' = device_snapshots d
    \<and> (\<forall>dev'. dev' \<noteq> dev \<longrightarrow> get_head d' dev' = get_head d dev')"
proof -
  from set_head_cases [OF assms(2)] obtain hs where
    d': "d' = d\<lparr>device_heads := hs\<rparr>"
    and p: "pk head_device_id (device_heads d) \<longrightarrow> pk head_device_id hs"
    and m: "\<forall>h \<in> set hs. head_device_id h = dev \<and> head_current_snapshot_id h = i
          \<or> h \<in> set (device_heads d) \<and> head_device_id h \<noteq> dev"
    and g: "\<exists>h. row_get head_device_id dev hs = Some h \<and> head_current_snapshot_id h = i"
    and o: "\<forall>dev'. dev' \<noteq> dev \<longrightarrow> row_get head_device_id dev' hs = row_get head_device_id dev' (device_heads d)"
    by blast
  from row_get_Some [OF assms(3)] have s: "s \<in> set (device_snapshots d)" "snap_id s = i" by auto
  have "\<exists>s \<in> set (device_snapshots d). snap_id s = head_current_snapshot_id h \<and> snap_device_id s = head_device_id h"
    if "h \<in> set hs" for h
    using m [rule_format, OF that] s assms(1,4) by (auto simp: heads_ok_def)
  moreover have "get_head d' dev = Some s"
    using g assms(3) by (auto simp: get_head_def d')
  moreover have "get_head d' dev' = get_head d dev'" if "dev' \<noteq> dev" for dev'
    using o that by (auto simp: get_head_def d' split: option.splits)
  ultimately show ?thesis using p assms(1) by (auto simp: heads_ok_def d')
qed

section \<open>Appending a snapshot\<close>

lemma heads_ok_add:
  assumes "heads_ok d" and "row_get snap_id (snap_id s) (device_snapshots d) = None"
  shows "heads_ok (d\<lparr>device_snapshots := row_add s (device_snapshots d)\<rparr>)"
  using assms by (auto simp: heads_ok_def pk_add)

lemma get_head_add:
  assumes "heads_ok d"
  shows "get_head (d\<lparr>device_snapshots := row_add s (device_snapshots d)\<rparr>) dev = get_head d dev"
proof (cases "row_get head_device_id dev (device_heads d)")
  case None
  then show ?thesis by (simp add: get_head_def)
next
  case (Some h)
  with heads_okD [OF assms Some] show ?thesis by (auto simp: get_head_def row_get_add)
qed

lemma append_snapshot_ok:
  assumes h: "heads_ok (db st)" and f: "fresh_alloc alloc"
    and a: "append_snapshot alloc now dev aid label kind p kid par ip st = (r, st')"
  shows "heads_ok (db st')
    \<and> (\<forall>s. r = Inr s \<longrightarrow>
        s = snapshot_row (alloc (map snap_id (device_snapshots (db st)))) now dev aid label kind p kid par ip
        \<and> snapshot_row_ok (db st) s \<and> get_head (db st') dev = Some s
        \<and> device_snapshots (db st') = device_snapshots (db st) @ [s]
        \<and> (\<forall>dev'. dev' \<noteq> dev \<longrightarrow> get_head (db st') dev' = get_head (db st) dev')
        \<and> objects st' = objects st
        \<and> account_encryption_keys (db st') = account_encryption_keys (db st))"
proof -
  define s where "s = snapshot_row (alloc (map snap_id (device_snapshots (db st)))) now dev aid label kind p kid par ip"
  define d1 where "d1 = (db st)\<lparr>device_snapshots := row_add s (device_snapshots (db st))\<rparr>"
  have id: "snap_id s = alloc (map snap_id (device_snapshots (db st)))" and dv: "snap_device_id s = dev"
    by (simp_all add: s_def snapshot_row_def)
  have n: "row_get snap_id (snap_id s) (device_snapshots (db st)) = None"
    using f by (simp add: id fresh_row_get)
  have h1: "heads_ok d1" unfolding d1_def by (rule heads_ok_add [OF h n])
  have g1: "row_get snap_id (snap_id s) (device_snapshots d1) = Some s"
    using n by (simp add: d1_def row_get_add)
  show ?thesis
  proof (cases "\<not> snapshot_row_ok (db st) s")
    case True
    with a h show ?thesis by (auto simp: append_snapshot_def s_def [symmetric] Let_def)
  next
    case ok: False
    show ?thesis
    proof (cases "set_head now dev (snap_id s) kind d1")
      case (Inl e)
      with ok a h1 show ?thesis
        by (auto simp: append_snapshot_def s_def [symmetric] d1_def [symmetric] Let_def)
    next
      case (Inr d2)
      from set_head_cases [OF Inr] have k: "account_encryption_keys d2 = account_encryption_keys d1" by auto
      from set_head_ok [OF h1 Inr g1 dv] get_head_add [OF h, of s] k Inr ok a show ?thesis
        by (auto simp: append_snapshot_def s_def [symmetric] d1_def [symmetric] Let_def row_add_def)
           (auto simp: d1_def row_add_def)
    qed
  qed
qed

section \<open>Creating a snapshot\<close>

text \<open>The deduplication condition.\<close>

definition dedups :: "snap_lib \<Rightarrow> database \<Rightarrow> string \<Rightarrow> json \<Rightarrow> string option \<Rightarrow> bool \<Rightarrow> string option \<Rightarrow> bool" where
  "dedups lib d dev payload label encrypt pass \<longleftrightarrow>
     (\<exists>h. get_head d dev = Some h \<and> snap_checksum h = lib_sha256_hex lib (canonical_bytes payload))
     \<and> label = None \<and> \<not> encrypt \<and> \<not> truthy pass"

lemma create_dedup:
  "dedups lib (db st) dev payload label encrypt pass \<Longrightarrow>
     create_snapshot lib alloc now ent racing dev aid payload kind label ip encrypt pass st
       = (Inr (the (get_head (db st) dev)), st)"
  by (auto simp: create_snapshot_def dedups_def Let_def)

lemma create_pack_then_append:
  assumes "\<not> dedups lib (db st) dev payload label encrypt pass"
  shows "create_snapshot lib alloc now ent racing dev aid payload kind label ip encrypt pass st =
    (case (if (encrypt \<or> truthy pass) \<and> aid \<noteq> None
           then (case encrypted_pack lib now ent racing (the aid) pass (canonical_bytes payload)
                        (lib_sha256_hex lib (canonical_bytes payload)) st of
                   (Inl e, st1) \<Rightarrow> (Inl e, st1)
                 | (Inr (p, kid), st1) \<Rightarrow> (Inr (p, Some kid), st1))
           else (case pack_from_raw lib (ent_blob_uuid ent) (canonical_bytes payload)
                        (lib_sha256_hex lib (canonical_bytes payload)) payload aid st of
                   (Inl e, st1) \<Rightarrow> (Inl e, st1)
                 | (Inr p, st1) \<Rightarrow> (Inr (p, None), st1)))
     of (Inl e, st1) \<Rightarrow> (Inl e, st1)
     | (Inr (p, kid), st1) \<Rightarrow>
       append_snapshot alloc now dev aid label kind p kid (map_option snap_id (get_head (db st) dev)) ip st1)"
proof -
  have "\<not> ((case get_head (db st) dev of None \<Rightarrow> False
        | Some h \<Rightarrow> snap_checksum h = lib_sha256_hex lib (canonical_bytes payload))
      \<and> label = None \<and> \<not> (encrypt \<or> truthy pass))"
    using assms by (auto simp: dedups_def split: option.splits)
  then show ?thesis unfolding create_snapshot_def Let_def by (simp only: if_False)
qed

text \<open>The encrypted or the plain packing gives \<open>p\<close> and the key id, in state \<open>st1\<close>.\<close>

definition packed_by ::
  "snap_lib \<Rightarrow> instant \<Rightarrow> entropy \<Rightarrow> encryption_key list \<Rightarrow> json \<Rightarrow> int option \<Rightarrow> bool \<Rightarrow> string option
     \<Rightarrow> packed_payload \<Rightarrow> string option \<Rightarrow> app_state \<Rightarrow> app_state \<Rightarrow> bool" where
  "packed_by lib now ent racing payload aid encrypt pass p kid st st1 \<longleftrightarrow>
     (encrypt \<or> truthy pass) \<and> aid \<noteq> None \<and> (\<exists>k. kid = Some k \<and>
              encrypted_pack lib now ent racing (the aid) pass (canonical_bytes payload)
                (lib_sha256_hex lib (canonical_bytes payload)) st = (Inr (p, k), st1))
           \<or> \<not> ((encrypt \<or> truthy pass) \<and> aid \<noteq> None) \<and> kid = None \<and>
              pack_from_raw lib (ent_blob_uuid ent) (canonical_bytes payload)
                (lib_sha256_hex lib (canonical_bytes payload)) payload aid st = (Inr p, st1)"

text \<open>Otherwise the payload is packed, without touching devices, snapshots or HEADs, and appended.\<close>

lemma create_packs:
  assumes "\<not> dedups lib (db st) dev payload label encrypt pass"
    and "create_snapshot lib alloc now ent racing dev aid payload kind label ip encrypt pass st = (r, st')"
  shows "(\<exists>e st1. r = Inl e \<and> st' = st1 \<and> device_snapshots (db st1) = device_snapshots (db st)
        \<and> device_heads (db st1) = device_heads (db st))
    \<or> (\<exists>p kid st1. device_snapshots (db st1) = device_snapshots (db st)
        \<and> device_heads (db st1) = device_heads (db st) \<and> device_configs (db st1) = device_configs (db st)
        \<and> accounts (db st1) = accounts (db st)
        \<and> append_snapshot alloc now dev aid label kind p kid (map_option snap_id (get_head (db st) dev)) ip st1 = (r, st')
        \<and> packed_lanes p = 1 \<and> pp_checksum p = lib_sha256_hex lib (canonical_bytes payload)
        \<and> packed_by lib now ent racing payload aid encrypt pass p kid st st1)"
proof -
  define raw where "raw = canonical_bytes payload"
  define c where "c = lib_sha256_hex lib raw"
  note cp = create_pack_then_append [OF assms(1), of alloc now ent racing aid kind ip,
      unfolded assms(2), folded raw_def, folded c_def]
  show ?thesis
  proof (cases "(encrypt \<or> truthy pass) \<and> aid \<noteq> None")
    case True
    obtain res st1 where e: "encrypted_pack lib now ent racing (the aid) pass raw c st = (res, st1)"
      by fastforce
    note fr = encrypted_pack_frame [OF e]
    show ?thesis
    proof (cases res)
      case (Inl x)
      with cp True e fr show ?thesis by simp
    next
      case (Inr pk)
      obtain p k where pk: "pk = (p, k)" by fastforce
      with encrypted_pack_one_lane e Inr have "packed_lanes p = 1 \<and> pp_checksum p = c" by blast
      moreover have "append_snapshot alloc now dev aid label kind p (Some k)
          (map_option snap_id (get_head (db st) dev)) ip st1 = (r, st')"
        using cp True e Inr pk by simp
      moreover have "packed_by lib now ent racing payload aid encrypt pass p (Some k) st st1"
        using True e Inr pk by (auto simp: packed_by_def raw_def c_def)
      ultimately show ?thesis using fr unfolding raw_def c_def by blast
    qed
  next
    case False
    obtain res st1 where e: "pack_from_raw lib (ent_blob_uuid ent) raw c payload aid st = (res, st1)"
      by fastforce
    note fr = pack_from_raw_db [OF e]
    show ?thesis
    proof (cases res)
      case (Inl x)
      with cp False e fr show ?thesis by auto
    next
      case (Inr p)
      with pack_from_raw_one_lane e have "packed_lanes p = 1 \<and> pp_checksum p = c" by blast
      moreover have "append_snapshot alloc now dev aid label kind p None
          (map_option snap_id (get_head (db st) dev)) ip st1 = (r, st')"
        using cp False e Inr by auto
      moreover have "packed_by lib now ent racing payload aid encrypt pass p None st st1"
        using False e Inr by (auto simp: packed_by_def raw_def c_def)
      ultimately show ?thesis using fr unfolding raw_def c_def by auto
    qed
  qed
qed

lemma heads_ok_cong:
  "device_snapshots d = device_snapshots d' \<Longrightarrow> device_heads d = device_heads d' \<Longrightarrow> heads_ok d = heads_ok d'"
  by (simp add: heads_ok_def)

lemma create_heads_ok:
  assumes "heads_ok (db st)" and "fresh_alloc alloc"
    and "create_snapshot lib alloc now ent racing dev aid payload kind label ip encrypt pass st = (r, st')"
  shows "heads_ok (db st')"
proof (cases "dedups lib (db st) dev payload label encrypt pass")
  case True
  with create_dedup assms show ?thesis by auto
next
  case False
  from create_packs [OF False assms(3)] consider
    (fail) st1 where "st' = st1" "device_snapshots (db st1) = device_snapshots (db st)"
      "device_heads (db st1) = device_heads (db st)"
    | (app) p kid st1 where "device_snapshots (db st1) = device_snapshots (db st)"
      "device_heads (db st1) = device_heads (db st)"
      "append_snapshot alloc now dev aid label kind p kid (map_option snap_id (get_head (db st) dev)) ip st1 = (r, st')"
    by blast
  then show ?thesis
  proof cases
    case fail
    with assms(1) heads_ok_cong [of "db st1" "db st"] show ?thesis by simp
  next
    case app
    from assms(1) heads_ok_cong [OF app(1,2)] have "heads_ok (db st1)" by simp
    from append_snapshot_ok [OF this assms(2) app(3)] show ?thesis by (rule conjunct1)
  qed
qed

lemma get_head_cong:
  "device_snapshots d = device_snapshots d' \<Longrightarrow> device_heads d = device_heads d' \<Longrightarrow> get_head d dev = get_head d' dev"
  by (simp add: get_head_def split: option.splits)

lemma create_Inr:
  assumes h: "heads_ok (db st)" and f: "fresh_alloc alloc"
    and nd: "\<not> dedups lib (db st) dev payload label encrypt pass"
    and c: "create_snapshot lib alloc now ent racing dev aid payload kind label ip encrypt pass st = (Inr s, st')"
  obtains p kid st1 where
    "append_snapshot alloc now dev aid label kind p kid (map_option snap_id (get_head (db st) dev)) ip st1 = (Inr s, st')"
    and "heads_ok (db st1)"
    and "device_snapshots (db st1) = device_snapshots (db st)" and "device_heads (db st1) = device_heads (db st)"
    and "packed_lanes p = 1" and "pp_checksum p = lib_sha256_hex lib (canonical_bytes payload)"
    and "packed_by lib now ent racing payload aid encrypt pass p kid st st1"
proof -
  have "heads_ok d" if "device_snapshots d = device_snapshots (db st)" "device_heads d = device_heads (db st)" for d
    using h that by (simp add: heads_ok_def)
  with create_packs [OF nd c] that show thesis by blast
qed

text \<open>A new row carries the device, the kind and the time of the call; a plain one reads back.\<close>

lemma create_row:
  assumes "heads_ok (db st)" and "fresh_alloc alloc" and "\<not> dedups lib (db st) dev payload label encrypt pass"
    and "create_snapshot lib alloc now ent racing dev aid payload kind label ip encrypt pass st = (Inr s, st')"
  shows "snap_kind s = kind" "snap_device_id s = dev" "snap_created_at s = now"
proof -
  from create_Inr [OF assms] obtain p kid st1 where
    a: "append_snapshot alloc now dev aid label kind p kid (map_option snap_id (get_head (db st) dev)) ip st1 = (Inr s, st')"
    and h: "heads_ok (db st1)" by blast
  from append_snapshot_ok [OF h assms(2) a] show "snap_kind s = kind" "snap_device_id s = dev" "snap_created_at s = now"
    by (auto simp: snapshot_row_def)
qed

lemma create_plain_unpack:
  assumes "heads_ok (db st)" and "fresh_alloc alloc" and "\<not> dedups lib (db st) dev payload label False None"
    and "create_snapshot lib alloc now ent racing dev aid payload kind label ip False None st = (Inr s, st1)"
    and "lib_ok lib" and "json_wf payload" and "objects st' = objects st1"
  shows "\<exists>j. unpack_payload lib s b pass st' = Inr j \<and> norm_json j = norm_json payload"
proof -
  from create_Inr [OF assms(1-4)] obtain p kid st0 where
    a: "append_snapshot alloc now dev aid label kind p kid (map_option snap_id (get_head (db st) dev)) ip st0 = (Inr s, st1)"
    and h: "heads_ok (db st0)"
    and pb: "packed_by lib now ent racing payload aid False None p kid st st0" by blast
  note ap = append_snapshot_ok [OF h assms(2) a, THEN conjunct2, rule_format, OF refl]
  from pb have k: "kid = None"
    and e: "pack_from_raw lib (ent_blob_uuid ent) (canonical_bytes payload)
        (lib_sha256_hex lib (canonical_bytes payload)) payload aid st = (Inr p, st0)"
    by (auto simp: packed_by_def)
  have s: "s = snapshot_row (alloc (map snap_id (device_snapshots (db st0)))) now dev aid label kind p kid
      (map_option snap_id (get_head (db st) dev)) ip" and o: "objects st' = objects st0" using ap assms(7) by auto
  show ?thesis unfolding s k by (rule unpack_plain [OF assms(5) refl e o assms(6)])
qed

section \<open>A concrete library for the examples\<close>

definition newest_first :: "('r \<Rightarrow> instant) \<Rightarrow> 'r list \<Rightarrow> 'r list" where
  "newest_first at xs = sort_key (\<lambda>r. - at r) xs"

lemma newest_first_ok: "order_ok at (newest_first at)"
proof -
  have "sorted_wrt (\<lambda>x y. - at x \<le> - at y) (newest_first at xs)" for xs
    using sorted_sort_key [of "\<lambda>r. - at r" xs] by (simp add: newest_first_def sorted_map)
  then have "sorted_wrt (\<lambda>a b. at b \<le> at a) (newest_first at xs)" for xs
    by (rule sorted_wrt_mono_rel [rotated]) auto
  then show ?thesis by (simp add: order_ok_def newest_first_def)
qed

definition plain_lib :: snap_lib where
  "plain_lib = \<lparr>lib_crypto = toy_crypto,
     lib_cfg = \<lparr>cfg_master_key = None, cfg_allow_weak = False, cfg_dev = True, cfg_ephemeral = replicate 32 0\<rparr>,
     lib_s3 = map_s3, lib_bucket = None, lib_sha256_hex = (\<lambda>b. map (\<lambda>w. char_of (unat w)) b),
     lib_zstd = (\<lambda>b. b), lib_zstd_high = (\<lambda>b. b), lib_unzstd = Some, lib_inline_threshold = 64,
     lib_blob_threshold = 128, lib_order_keys = newest_first ek_created_at,
     lib_order_snaps = newest_first snap_created_at\<rparr>"

lemma plain_lib_ok: "lib_ok plain_lib"
  by (simp add: lib_ok_def plain_lib_def codec_ok_def toy_crypto_ok map_s3_ok newest_first_ok)

definition demo_account :: account where
  "demo_account = \<lparr>acc_id = 1, acc_email = ''a@b.c'', acc_password_hash = ''h'', acc_role = ''user'',
     acc_suspended_at = None, acc_token_version = 0, acc_created_at = 0, acc_last_login_at = None,
     acc_failed_login_count = 0, acc_locked_until = None, acc_totp_enabled = False, acc_totp_secret = None,
     acc_totp_recovery_hashes = None, acc_totp_enabled_at = None\<rparr>"

definition demo_device :: device_config where
  "demo_device = \<lparr>dev_device_id = ''dev'', dev_user_id = Some 1, dev_name = None, dev_os = None, dev_arch = None,
     dev_site_count = None, dev_last_seen_at = None, dev_updated_at = 0, dev_payload = JNull\<rparr>"

definition demo_db :: database where
  "demo_db = empty_db\<lparr>accounts := [demo_account], device_configs := [demo_device]\<rparr>"

definition demo_state :: app_state where
  "demo_state = \<lparr>db = demo_db, committed = demo_db, audit_bus = new_bus,
    webhook_pool = [], revoked_cache = new_cache 30, stats_cache = new_cache 30, catalog_cache = new_cache 30,
    security_events = (\<lambda>_. 0), objects = Map.empty\<rparr>"

definition demo_entropy :: entropy where
  "demo_entropy = \<lparr>ent_dek = replicate 32 7, ent_salt = replicate 16 3, ent_wrap_nonce = replicate 12 4,
     ent_nonce = replicate 12 5, ent_kid = ''k1'', ent_blob_uuid = ''u1''\<rparr>"

lemma demo_heads_ok: "heads_ok (db demo_state)"
  by (simp add: demo_state_def demo_db_def empty_db_def heads_ok_def)

section \<open>Properties of \<open>create_snapshot\<close>\<close>

lemma create_result:
  assumes "heads_ok (db st)" and "fresh_alloc alloc"
    and "create_snapshot lib alloc now ent racing dev aid payload kind label ip encrypt pass st = (Inr s, st')"
  shows "get_head (db st') dev = Some s \<and> snap_checksum s = lib_sha256_hex lib (canonical_bytes payload)
      \<and> (\<forall>dev'. dev' \<noteq> dev \<longrightarrow> get_head (db st') dev' = get_head (db st) dev')
      \<and> (if dedups lib (db st) dev payload label encrypt pass then st' = st
          else device_snapshots (db st') = device_snapshots (db st) @ [s] \<and> lanes s = 1
             \<and> snap_kind s \<in> set snapshot_kinds \<and> snap_label s = label \<and> snap_account_id s = aid
             \<and> snap_parent s = map_option snap_id (get_head (db st) dev))"
proof (cases "dedups lib (db st) dev payload label encrypt pass")
  case True
  with create_dedup [OF True] assms(3) show ?thesis by (auto simp: dedups_def)
next
  case False
  with create_Inr [OF assms(1,2) False assms(3)] obtain p kid st1 where
    a: "append_snapshot alloc now dev aid label kind p kid (map_option snap_id (get_head (db st) dev)) ip st1 = (Inr s, st')"
    and h: "heads_ok (db st1)" and e: "device_snapshots (db st1) = device_snapshots (db st)"
      "device_heads (db st1) = device_heads (db st)"
    and l: "packed_lanes p = 1" "pp_checksum p = lib_sha256_hex lib (canonical_bytes payload)"
    by blast
  have g: "get_head (db st1) d = get_head (db st) d" for d using e by (rule get_head_cong)
  note ap = append_snapshot_ok [OF h assms(2) a, THEN conjunct2, rule_format, OF refl, unfolded e(1) g]
  then have
    s: "s = snapshot_row (alloc (map snap_id (device_snapshots (db st)))) now dev aid label kind p kid
          (map_option snap_id (get_head (db st) dev)) ip"
    and ok: "snapshot_row_ok (db st1) s"
    and o: "get_head (db st') dev = Some s" "device_snapshots (db st') = device_snapshots (db st) @ [s]"
      "\<forall>dev'. dev' \<noteq> dev \<longrightarrow> get_head (db st') dev' = get_head (db st) dev'"
    by blast+
  from s l(2) have "snap_checksum s = lib_sha256_hex lib (canonical_bytes payload)" "snap_label s = label"
    "snap_account_id s = aid" "snap_parent s = map_option snap_id (get_head (db st) dev)"
    by (simp_all add: snapshot_row_def)
  with o ok False show ?thesis by (simp add: snapshot_row_ok_def)
qed

text \<open>
  C1: \<open>create_snapshot\<close> keeps every HEAD pointing at a stored snapshot of its own device,
  whether it returns or raises. When it returns, the result is HEAD of the device; it is
  either the old HEAD with nothing changed, which happens exactly for an unlabelled,
  unencrypted payload with the checksum of HEAD, or one new row appended to the table,
  with exactly one payload lane, the checksum of the payload, a known kind and the old
  HEAD as its parent; and no other device's HEAD moves.
\<close>
theorem create_snapshot_head:
  assumes "heads_ok (db st)" and "fresh_alloc alloc"
    and "create_snapshot lib alloc now ent racing dev aid payload kind label ip encrypt pass st = (r, st')"
  shows "heads_ok (db st') \<and>
    (\<forall>s. r = Inr s \<longrightarrow> get_head (db st') dev = Some s
       \<and> snap_checksum s = lib_sha256_hex lib (canonical_bytes payload)
       \<and> (\<forall>dev'. dev' \<noteq> dev \<longrightarrow> get_head (db st') dev' = get_head (db st) dev')
       \<and> (if dedups lib (db st) dev payload label encrypt pass then st' = st
          else device_snapshots (db st') = device_snapshots (db st) @ [s] \<and> lanes s = 1
             \<and> snap_kind s \<in> set snapshot_kinds \<and> snap_label s = label \<and> snap_account_id s = aid
             \<and> snap_parent s = map_option snap_id (get_head (db st) dev)))"
  using create_heads_ok [OF assms] create_result [OF assms(1,2)] assms(3) by blast

text \<open>A first snapshot of a device, and the same payload again.\<close>

definition demo_create :: "app_state \<Rightarrow> (exn + device_snapshot) \<times> app_state" where
  "demo_create = create_snapshot plain_lib max_alloc 100 demo_entropy [] ''dev'' (Some 1)
     (JObj [(''a'', JInt 1)]) ''auto'' None None False None"

theorem create_snapshot_head_witness:
  "get_head (db (snd (demo_create demo_state))) ''dev'' \<noteq> None \<and>
   heads_ok (db (snd (demo_create demo_state)))"
proof -
  have "case fst (demo_create demo_state) of Inr s \<Rightarrow> snap_id s = 1 | Inl _ \<Rightarrow> False" by code_simp
  then obtain s where "demo_create demo_state = (Inr s, snd (demo_create demo_state))"
    by (cases "demo_create demo_state") (auto split: sum.splits)
  then show ?thesis
    using create_snapshot_head [OF demo_heads_ok fresh_max_alloc, of plain_lib 100 demo_entropy "[]" "''dev''" "Some 1"
      "JObj [(''a'', JInt 1)]" "''auto''" None None False None] by (simp add: demo_create_def)
qed

text \<open>
  C3: What was backed up can be restored: whenever \<open>create_snapshot\<close> stores a new row,
  \<open>unpack_payload\<close> on that row gives back the payload (up to key order) on every
  storage lane, plain or encrypted with the server's or the user's key, when the same
  passphrase is supplied; and a requested encryption is never skipped for an owned
  device: the row names its key and holds no plain JSON.
\<close>
theorem create_unpack_roundtrip:
  assumes "heads_ok (db st)" and "fresh_alloc alloc" and "lib_ok lib" and "json_wf payload"
    and "create_snapshot lib alloc now ent racing dev aid payload kind label ip encrypt pass st = (Inr s, st')"
    and "\<not> dedups lib (db st) dev payload label encrypt pass"
    and "keys_ok (db st')" and "length (ent_nonce ent) = NONCE_BYTES"
  shows "(\<exists>j. unpack_payload lib s True pass st' = Inr j \<and> norm_json j = norm_json payload)
    \<and> ((encrypt \<or> truthy pass) \<and> aid \<noteq> None \<longrightarrow> snap_encryption_kid s \<noteq> None \<and> snap_payload_json s = None)"
proof -
  from create_Inr [OF assms(1,2,6,5)] obtain p kid st1 where
    a: "append_snapshot alloc now dev aid label kind p kid (map_option snap_id (get_head (db st) dev)) ip st1 = (Inr s, st')"
    and h: "heads_ok (db st1)"
    and pb: "packed_by lib now ent racing payload aid encrypt pass p kid st st1"
    by blast
  note ap = append_snapshot_ok [OF h assms(2) a, THEN conjunct2, rule_format, OF refl]
  then have s: "s = snapshot_row (alloc (map snap_id (device_snapshots (db st1)))) now dev aid label kind p kid
          (map_option snap_id (get_head (db st) dev)) ip"
    and o: "objects st' = objects st1" "account_encryption_keys (db st') = account_encryption_keys (db st1)"
    by blast+
  show ?thesis
  proof (cases "(encrypt \<or> truthy pass) \<and> aid \<noteq> None")
    case True
    with pb obtain k where k: "aid \<noteq> None" "kid = Some k"
      and e: "encrypted_pack lib now ent racing (the aid) pass (canonical_bytes payload)
        (lib_sha256_hex lib (canonical_bytes payload)) st = (Inr (p, k), st1)"
      by (auto simp: packed_by_def)
    obtain i where i: "aid = Some i" using k(1) by blast
    have ko: "keys_ok (db st1)" using assms(7) o(2) by (simp add: keys_ok_def)
    have "\<exists>j. unpack_payload lib s True pass st' = Inr j \<and> norm_json j = norm_json payload"
      unfolding s k(2) i
      by (rule unpack_encrypted [OF assms(3) refl e [unfolded i option.sel] o(2) ko assms(8,4)])
    moreover have "pp_json_value p = None"
      using e by (auto simp: encrypted_pack_def Let_def split: prod.splits sum.splits)
    ultimately show ?thesis using k by (auto simp: s snapshot_row_def)
  next
    case False
    with pb have k: "kid = None"
      and e: "pack_from_raw lib (ent_blob_uuid ent) (canonical_bytes payload)
        (lib_sha256_hex lib (canonical_bytes payload)) payload aid st = (Inr p, st1)"
      by (auto simp: packed_by_def)
    have "\<exists>j. unpack_payload lib s True pass st' = Inr j \<and> norm_json j = norm_json payload"
      unfolding s k by (rule unpack_plain [OF assms(3) refl e o(1) assms(4)])
    with False show ?thesis by blast
  qed
qed

text \<open>An encrypted snapshot under a passphrase-derived key.\<close>

definition demo_encrypted :: "(exn + device_snapshot) \<times> app_state" where
  "demo_encrypted = create_snapshot plain_lib max_alloc 100 demo_entropy [] ''dev'' (Some 1)
     (JObj [(''a'', JInt 1)]) ''manual'' (Some ''v1'') None True (Some ''correct horse'') demo_state"

lemma demo_key:
  obtains k where "active_key plain_lib 100 demo_entropy [] 1 (Some ''correct horse'') demo_state =
      (Inr k, demo_state\<lparr>db := demo_db\<lparr>account_encryption_keys := [k]\<rparr>\<rparr>)"
    and "unwrap plain_lib k (Some ''correct horse'') = Inr (ent_dek demo_entropy)" and "ek_kid k = ''k1''"
proof -
  have "\<exists>k. mint_key plain_lib 100 demo_entropy 1 (Some ''correct horse'') = Inr k \<and> ek_kid k = ''k1'' \<and> ek_account_id k = 1"
    by (simp add: mint_key_def validate_passphrase_for_encrypt_def MIN_PASSPHRASE_CHARS_def
        derive_key_from_passphrase_def demo_entropy_def wrap_dek_with_kek_def pack_wrapped_dek_def
        plain_lib_def toy_crypto_def)
  then obtain k where k: "mint_key plain_lib 100 demo_entropy 1 (Some ''correct horse'') = Inr k"
    "ek_kid k = ''k1''" "ek_account_id k = 1" by blast
  have "unwrap plain_lib k (Some ''correct horse'') = Inr (ent_dek demo_entropy)"
    by (rule mint_key_unwrap [OF k(1)]) (simp_all add: plain_lib_def toy_crypto_ok demo_entropy_def NONCE_BYTES_def)
  moreover have "active_key plain_lib 100 demo_entropy [] 1 (Some ''correct horse'') demo_state =
      (Inr k, demo_state\<lparr>db := demo_db\<lparr>account_encryption_keys := [k]\<rparr>\<rparr>)"
    using k by (simp add: active_key_def see_keys_def key_row_ok_def row_add_def row_get_def
        demo_state_def demo_db_def empty_db_def demo_account_def plain_lib_def newest_first_def)
  ultimately show thesis using that k(2) by blast
qed

lemma demo_encrypted_Inr: "\<exists>s st'. demo_encrypted = (Inr s, st') \<and> keys_ok (db st')"
proof -
  obtain k where k: "active_key plain_lib 100 demo_entropy [] 1 (Some ''correct horse'') demo_state =
      (Inr k, demo_state\<lparr>db := demo_db\<lparr>account_encryption_keys := [k]\<rparr>\<rparr>)"
    "unwrap plain_lib k (Some ''correct horse'') = Inr (ent_dek demo_entropy)" "ek_kid k = ''k1''"
    by (rule demo_key)
  then show ?thesis
    by (simp add: demo_encrypted_def create_snapshot_def encrypted_pack_def append_snapshot_def set_head_def
        get_head_def snapshot_row_ok_def snapshot_row_def lanes_def snapshot_kinds_def row_get_def row_add_def
        keys_ok_def pk_def demo_state_def demo_db_def empty_db_def demo_account_def demo_device_def Let_def)
qed

theorem create_unpack_roundtrip_witness:
  "case demo_encrypted of (Inr s, st') \<Rightarrow>
     snap_encryption_kid s \<noteq> None \<and> snap_payload_json s = None \<and>
     (\<exists>j. unpack_payload plain_lib s True (Some ''correct horse'') st' = Inr j \<and>
        norm_json j = norm_json (JObj [(''a'', JInt 1)]))
   | _ \<Rightarrow> False"
proof -
  obtain s st' where r: "demo_encrypted = (Inr s, st')" and k: "keys_ok (db st')"
    using demo_encrypted_Inr by blast
  have nd: "\<not> dedups plain_lib (db demo_state) ''dev'' (JObj [(''a'', JInt 1)]) (Some ''v1'') True (Some ''correct horse'')"
    by (simp add: dedups_def)
  have w: "json_wf (JObj [(''a'', JInt 1)])" by simp
  have n: "length (ent_nonce demo_entropy) = NONCE_BYTES" by (simp add: demo_entropy_def NONCE_BYTES_def)
  show ?thesis
    using create_unpack_roundtrip [OF demo_heads_ok fresh_max_alloc plain_lib_ok w r [unfolded demo_encrypted_def] nd k n]
    by (simp add: r)
qed

text \<open>
  Repeated syncs of an unchanged configuration cost nothing: after a payload has been
  stored without a label and without encryption, storing an equal payload again (in any
  key order, at any later time, whatever the kind) returns the same snapshot and changes
  nothing.
\<close>
lemma create_snapshot_idempotent:
  assumes "heads_ok (db st)" and "fresh_alloc alloc"
    and "create_snapshot lib alloc now ent racing dev aid payload kind None ip False None st = (Inr s, st')"
    and "norm_json payload' = norm_json payload"
  shows "create_snapshot lib alloc now' ent' racing' dev aid' payload' kind' None ip' False None st' = (Inr s, st')"
proof -
  have c: "canonical_bytes payload' = canonical_bytes payload" using assms(4) by (simp only: canonical_bytes_def)
  from create_result [OF assms(1-3)]
  have h: "get_head (db st') dev = Some s" "snap_checksum s = lib_sha256_hex lib (canonical_bytes payload)" by auto
  then have "dedups lib (db st') dev payload' None False None" by (simp add: dedups_def c)
  from create_dedup [OF this] h show ?thesis by simp
qed

text \<open>The same dict twice, with its keys in another order the second time.\<close>
lemma create_snapshot_idempotent_witness:
  "let p = JObj [(''b'', JInt 2), (''a'', JInt 1)]; q = JObj [(''a'', JInt 1), (''b'', JInt 2)];
       (r, st) = create_snapshot plain_lib max_alloc 100 demo_entropy [] ''dev'' (Some 1) p ''auto'' None None
         False None demo_state
   in create_snapshot plain_lib max_alloc 200 demo_entropy [] ''dev'' (Some 1) q ''manual'' None None False None st
      = (r, st)"
proof -
  define p where "p = JObj [(''b'', JInt 2), (''a'', JInt 1)]"
  define q where "q = JObj [(''a'', JInt 1), (''b'', JInt 2)]"
  define r where "r = create_snapshot plain_lib max_alloc 100 demo_entropy [] ''dev'' (Some 1) p ''auto'' None None
         False None demo_state"
  have n: "norm_json q = norm_json p" unfolding p_def q_def by code_simp
  have "isl (fst r) = False" unfolding r_def p_def by code_simp
  then obtain s st' where rr: "r = (Inr s, st')"
    by (cases r) (auto simp: isl_def split: sum.splits, metis sum.exhaust_sel)
  show ?thesis
    using create_snapshot_idempotent [OF demo_heads_ok fresh_max_alloc rr [unfolded r_def] n,
        of 200 demo_entropy "[]" "Some 1" "''manual''" None] rr
    by (simp add: p_def [symmetric] q_def [symmetric] r_def [symmetric])
qed

end
