(* ===== verification/Snapshot_Purge.thy ===== *)
theory Snapshot_Purge
  imports Snapshot_Store
begin

text \<open>
  Listing and purge of snapshots: the escaped \<open>LIKE\<close> pattern is a literal substring
  search, a page is scoped to the device and the account and carries the exact total, and
  the purge deletes exactly the rows its policy names, in chunks, without ever touching a
  HEAD.
\<close>

section \<open>The label search\<close>

definition esc :: "char \<Rightarrow> string" where
  "esc c = (if c = escape_char \<or> c = CHR ''%'' \<or> c = CHR ''_'' then [escape_char, c] else [c])"

lemma replace_char_append: "replace_char c w (xs @ ys) = replace_char c w xs @ replace_char c w ys"
  by (induction xs) auto

lemma escape_char_neq: "escape_char \<noteq> CHR ''%''" "escape_char \<noteq> CHR ''_''"
  by (simp_all add: escape_char_def) code_simp+

lemma like_escape_Cons: "like_escape (c # s) = esc c @ like_escape s"
  using escape_char_neq by (auto simp: like_escape_def esc_def replace_char_append)

lemma like_escape_Nil [simp]: "like_escape [] = []"
  by (simp add: like_escape_def)

lemma like_percent: "like f (CHR ''%'' # p) t \<longleftrightarrow> (\<exists>u v. t = u @ v \<and> like f p v)"
proof (induction t)
  case Nil
  then show ?case by simp
next
  case (Cons c t)
  have "(\<exists>u v. c # t = u @ v \<and> like f p v) \<longleftrightarrow> like f p (c # t) \<or> (\<exists>u v. t = u @ v \<and> like f p v)"
    by (auto simp: Cons_eq_append_conv)
  with Cons show ?case by simp
qed

lemma like_esc: "like f (esc c @ q) t \<longleftrightarrow> (\<exists>d t'. t = d # t' \<and> f d = f c \<and> like f q t')"
  using escape_char_neq by (cases t) (auto simp: esc_def)

declare like.simps [simp del]

lemma like_literal: "like f (like_escape s @ p) t \<longleftrightarrow> (\<exists>u v. t = u @ v \<and> map f u = map f s \<and> like f p v)"
proof (induction s arbitrary: t)
  case Nil
  then show ?case by simp
next
  case (Cons c s)
  have "(\<exists>d t'. t = d # t' \<and> f d = f c \<and> (\<exists>u v. t' = u @ v \<and> map f u = map f s \<and> like f p v)) \<longleftrightarrow>
      (\<exists>u v. t = u @ v \<and> map f u = map f (c # s) \<and> like f p v)" (is "?L \<longleftrightarrow> ?R")
  proof
    assume ?L
    then obtain d u v where "t = (d # u) @ v" "map f (d # u) = map f (c # s)" "like f p v" by auto
    then show ?R by blast
  next
    assume ?R
    then obtain u v where "t = u @ v" "map f u = map f (c # s)" "like f p v" by blast
    then show ?L by (cases u) auto
  qed
  then show ?case by (simp only: like_escape_Cons append_assoc like_esc Cons.IH)
qed

lemma like_substring:
  "like f (''%'' @ like_escape s @ ''%'') l \<longleftrightarrow> (\<exists>u m v. l = u @ m @ v \<and> map f m = map f s)"
proof -
  have any: "(\<exists>u v. va = u @ v \<and> like f [] v) \<longleftrightarrow> True" for va by (auto simp: like.simps)
  have "like f (''%'' @ like_escape s @ ''%'') l \<longleftrightarrow>
      (\<exists>u w. l = u @ w \<and> (\<exists>m v. w = m @ v \<and> map f m = map f s \<and> True))"
    by (simp only: append_Cons append_Nil like_percent like_literal any)
  then show ?thesis by (simp only: simp_thms) (iprover)
qed

section \<open>Pages\<close>

lemma order_ok_set: "order_ok at f \<Longrightarrow> set (f xs) = set xs \<and> length (f xs) = length xs"
  unfolding order_ok_def by (metis mset_eq_length set_mset_mset)

lemma order_ok_distinct: "order_ok at f \<Longrightarrow> distinct (f xs) = distinct xs"
  unfolding order_ok_def by (metis mset_eq_imp_distinct_iff)

text \<open>
  C4: A listing never leaks: every row belongs to the asked device and account, has the
  asked kind and, when a search text is given, a label that contains that very text
  (wildcards in it stand for themselves); the page has at most 200 rows, newest first,
  and the total is the exact number of matching rows, although it is not always counted.
\<close>
theorem list_snapshots_page:
  assumes "order_ok snap_created_at (lib_order_snaps lib)"
    and "list_snapshots lib fc d dev aid kind label_like offset limit = (rows, tot)"
  shows "tot = count_query (list_filter fc dev aid kind label_like) (device_snapshots d)
    \<and> length rows \<le> 200 \<and> sorted_wrt (\<lambda>a b. snap_created_at b \<le> snap_created_at a) rows
    \<and> (\<forall>s \<in> set rows. s \<in> set (device_snapshots d) \<and> snap_device_id s = dev \<and> snap_account_id s = Some aid
         \<and> (truthy kind \<longrightarrow> kind = Some (snap_kind s))
         \<and> (truthy label_like \<longrightarrow> (\<exists>u m v. snap_label s = Some (u @ m @ v) \<and> map fc m = map fc (the label_like))))"
proof -
  define P where "P = list_filter fc dev aid kind label_like"
  define all where "all = lib_order_snaps lib (filter P (device_snapshots d))"
  define ps where "ps = nat (max 1 (min limit 200))"
  define off where "off = nat (max 0 offset)"
  have "list_snapshots lib fc d dev aid kind label_like offset limit =
      (take ps (drop off all), if off = 0 \<and> length (take ps (drop off all)) < ps
         then length (take ps (drop off all)) else count_query P (device_snapshots d))"
    by (simp only: list_snapshots_def Let_def P_def all_def ps_def off_def)
  note eq = trans [OF assms(2) [symmetric] this]
  have r: "rows = take ps (drop off all)" using eq by (rule Pair_inject)
  have t: "tot = (if off = 0 \<and> length rows < ps then length rows else count_query P (device_snapshots d))"
    unfolding r using eq by (rule Pair_inject)
  have al: "set all = set (filter P (device_snapshots d))" "length all = length (filter P (device_snapshots d))"
    using order_ok_set [OF assms(1)] by (simp_all add: all_def)
  have so: "sorted_wrt (\<lambda>a b. snap_created_at b \<le> snap_created_at a) all"
    using assms(1) by (simp add: order_ok_def all_def)
  have tt: "tot = count_query P (device_snapshots d)"
    using t r al(2) by (auto simp: count_query_def)
  have len: "length rows \<le> 200" using r by (simp add: ps_def)
  have sub: "set rows \<subseteq> set all" using r set_take_subset set_drop_subset by fastforce
  have "P s \<and> s \<in> set (device_snapshots d)" if "s \<in> set rows" for s using that sub al(1) by auto
  moreover have "snap_device_id s = dev \<and> snap_account_id s = Some aid \<and> (truthy kind \<longrightarrow> kind = Some (snap_kind s))
      \<and> (truthy label_like \<longrightarrow> (\<exists>u m v. snap_label s = Some (u @ m @ v) \<and> map fc m = map fc (the label_like)))"
    if "P s" for s
    using that by (auto simp: P_def list_filter_def like_substring [simplified] split: option.splits)
  ultimately show ?thesis
    using tt len so r by (auto simp: P_def sorted_wrt_take sorted_wrt_drop)
qed

text \<open>A search for a literal percent sign.\<close>

definition demo_snap :: "int \<Rightarrow> instant \<Rightarrow> string option \<Rightarrow> device_snapshot" where
  "demo_snap i t l = \<lparr>snap_id = i, snap_device_id = ''dev'', snap_account_id = Some 1, snap_created_at = t,
     snap_label = l, snap_kind = ''auto'', snap_size_bytes = 2, snap_payload_json = Some (JObj []),
     snap_payload_blob = None, snap_blob_uri = None, snap_checksum = ''c'', snap_parent = None,
     snap_compression = None, snap_encryption_kid = None, snap_created_by_ip = None\<rparr>"

theorem list_snapshots_page_witness:
  "let (rows, tot) = list_snapshots plain_lib id
     (demo_db\<lparr>device_snapshots := [demo_snap 1 10 (Some ''50%''), demo_snap 2 20 (Some ''500'')]\<rparr>)
     ''dev'' 1 None (Some ''0%'') 0 50
   in tot = 1 \<and> map snap_id rows = [1] \<and> length rows \<le> 200"
proof -
  define d where "d = demo_db\<lparr>device_snapshots := [demo_snap 1 10 (Some ''50%''), demo_snap 2 20 (Some ''500'')]\<rparr>"
  define rt where "rt = list_snapshots plain_lib id d ''dev'' 1 None (Some ''0%'') 0 50"
  obtain rows tot where e: "rt = (rows, tot)" by fastforce
  have "snd rt = 1" "map snap_id (fst rt) = [1]" unfolding rt_def d_def by code_simp+
  moreover have "order_ok snap_created_at (lib_order_snaps plain_lib)"
    using plain_lib_ok by (simp add: lib_ok_def)
  note list_snapshots_page [OF this e [unfolded rt_def]]
  ultimately show ?thesis unfolding d_def [symmetric] rt_def [symmetric] by (simp add: e)
qed

section \<open>Deleting in chunks\<close>

definition nullify :: "int set \<Rightarrow> device_snapshot \<Rightarrow> device_snapshot" where
  "nullify ids s = (case snap_parent s of None \<Rightarrow> s
     | Some p \<Rightarrow> if p \<in> ids then s\<lparr>snap_parent := None\<rparr> else s)"

lemma snap_id_nullify [simp]: "snap_id (nullify A s) = snap_id s"
  "snap_device_id (nullify A s) = snap_device_id s"
  by (simp_all add: nullify_def split: option.splits)

lemma nullify_nullify: "nullify B (nullify A s) = nullify (A \<union> B) s"
  by (auto simp: nullify_def split: option.splits)

definition without :: "int set \<Rightarrow> database \<Rightarrow> database" where
  "without ids d = d\<lparr>device_snapshots := map (nullify ids) (filter (\<lambda>s. snap_id s \<notin> ids) (device_snapshots d))\<rparr>"

lemma delete_snapshots_eq:
  "delete_snapshots ids d =
     (if \<exists>h \<in> set (device_heads d). head_current_snapshot_id h \<in> set ids then Inl IntegrityError
      else Inr (length (filter (\<lambda>s. snap_id s \<in> set ids) (device_snapshots d)), without (set ids) d))"
  by (simp add: delete_snapshots_def without_def nullify_def [abs_def] list_ex_iff Let_def)

lemma without_without: "without B (without A d) = without (A \<union> B) d"
  by (simp add: without_def filter_map o_def nullify_nullify conj_commute)

lemma without_empty [simp]: "without {} d = d"
proof -
  have "nullify {} = id" by (rule ext) (simp add: nullify_def split: option.splits)
  then show ?thesis by (simp add: without_def)
qed

lemma count_union:
  "length (filter (\<lambda>s. snap_id s \<in> A) xs) + length (filter (\<lambda>s. snap_id s \<in> B) (map (nullify A) (filter (\<lambda>s. snap_id s \<notin> A) xs)))
     = length (filter (\<lambda>s. snap_id s \<in> A \<union> B) xs)"
  by (induction xs) auto

lemma delete_chunks_eq:
  assumes "\<forall>h \<in> set (device_heads d). head_current_snapshot_id h \<notin> set ids"
  shows "delete_chunks ids n d =
    Inr (n + length (filter (\<lambda>s. snap_id s \<in> set ids) (device_snapshots d)), without (set ids) d)"
  using assms
proof (induction ids n d rule: delete_chunks.induct)
  case (1 n d)
  then show ?case by simp
next
  case (2 i ids n d)
  define A where "A = set (take CHUNK (i # ids))"
  define B where "B = set (drop CHUNK (i # ids))"
  have AB: "A \<union> B = set (i # ids)" unfolding A_def B_def by (metis append_take_drop_id set_append)
  have hA: "\<forall>h \<in> set (device_heads d). head_current_snapshot_id h \<notin> A" using "2.prems" AB by blast
  have del: "delete_snapshots (take CHUNK (i # ids)) d =
      Inr (length (filter (\<lambda>s. snap_id s \<in> A) (device_snapshots d)), without A d)"
    using hA by (auto simp: delete_snapshots_eq A_def)
  have hB: "\<forall>h \<in> set (device_heads (without A d)). head_current_snapshot_id h \<notin> set (drop CHUNK (i # ids))"
    using "2.prems" AB by (auto simp: without_def B_def)
  note ih = "2.IH" [OF del refl hB, folded B_def]
  have "length (filter (\<lambda>s. snap_id s \<in> A) (device_snapshots d))
      + length (filter (\<lambda>s. snap_id s \<in> B) (device_snapshots (without A d)))
      = length (filter (\<lambda>s. snap_id s \<in> A \<union> B) (device_snapshots d))"
    using count_union [of A "device_snapshots d" B] by (simp add: without_def)
  with del ih show ?case by (simp add: without_without AB add.assoc)
qed

section \<open>What the purge selects\<close>

lemma takeWhile_neq:
  assumes "s \<in> set ys"
  shows "\<exists>zs. ys = takeWhile (\<lambda>r. r \<noteq> s) ys @ s # zs"
  using assms by (induction ys) auto

text \<open>The rank of a row lies between the strictly newer and the at least as new rows of its device.\<close>

lemma row_number_bounds:
  assumes o: "order_ok snap_created_at (lib_order_snaps lib)" and d: "distinct rows" and s: "s \<in> set rows"
  shows "row_number lib rows s \<le> Suc (card {r \<in> set rows. snap_device_id r = snap_device_id s \<and> r \<noteq> s \<and>
            snap_created_at s \<le> snap_created_at r})"
    and "card {r \<in> set rows. snap_device_id r = snap_device_id s \<and> snap_created_at s < snap_created_at r}
            < row_number lib rows s"
proof -
  define ys where "ys = lib_order_snaps lib (filter (\<lambda>r. snap_device_id r = snap_device_id s) rows)"
  define bs where "bs = takeWhile (\<lambda>r. r \<noteq> s) ys"
  have sy: "set ys = {r \<in> set rows. snap_device_id r = snap_device_id s}"
    using order_ok_set [OF o] by (auto simp: ys_def)
  have dy: "distinct ys" using order_ok_distinct [OF o] d by (simp add: ys_def)
  have so: "sorted_wrt (\<lambda>a b. snap_created_at b \<le> snap_created_at a) ys" using o by (simp add: order_ok_def ys_def)
  from takeWhile_neq [of s ys] s sy obtain zs where z: "ys = bs @ s # zs" unfolding bs_def by blast
  have rn: "row_number lib rows s = Suc (length bs)" by (simp add: row_number_def bs_def ys_def)
  have lb: "length bs = card (set bs)" using dy z by (metis distinct_append distinct_card)
  have "set bs \<subseteq> {r \<in> set rows. snap_device_id r = snap_device_id s \<and> r \<noteq> s \<and> snap_created_at s \<le> snap_created_at r}"
    using so sy dy unfolding z by (auto simp: sorted_wrt_append)
  then show "row_number lib rows s \<le> Suc (card {r \<in> set rows. snap_device_id r = snap_device_id s \<and> r \<noteq> s \<and>
            snap_created_at s \<le> snap_created_at r})"
    by (simp add: rn lb card_mono)
  have "{r \<in> set rows. snap_device_id r = snap_device_id s \<and> snap_created_at s < snap_created_at r} \<subseteq> set bs"
    using so sy unfolding z by (fastforce simp: sorted_wrt_append)
  then show "card {r \<in> set rows. snap_device_id r = snap_device_id s \<and> snap_created_at s < snap_created_at r}
            < row_number lib rows s"
    by (simp add: rn lb card_mono less_Suc_eq_le)
qed

lemma candidates_not_head:
  assumes "heads_ok d" and "s \<in> set (purge_candidates lib now d aid n days kl)" and "h \<in> set (device_heads d)"
  shows "head_current_snapshot_id h \<noteq> snap_id s"
proof
  assume e: "head_current_snapshot_id h = snap_id s"
  from assms(2) have s: "s \<in> set (device_snapshots d)" "snap_account_id s = Some aid"
    "snap_id s \<notin> set (head_ids d aid)"
    by (auto simp: purge_candidates_def purge_base_def Let_def)
  from assms(1,3) obtain t where t: "t \<in> set (device_snapshots d)" "snap_id t = head_current_snapshot_id h"
    "snap_device_id t = head_device_id h" unfolding heads_ok_def by blast
  have "t = s" using assms(1) s(1) t e by (auto simp: heads_ok_def pk_def distinct_map inj_on_def)
  with s t assms(3) e show False by (auto simp: head_ids_def list_ex_iff image_iff)
qed

lemma head_ids_head:
  assumes "heads_ok d" and "s \<in> set (device_snapshots d)" and "snap_id s \<in> set (head_ids d aid)"
  shows "\<exists>dev. get_head d dev = Some s"
proof -
  from assms(3) obtain h where h: "h \<in> set (device_heads d)" "snap_id s = head_current_snapshot_id h"
    by (auto simp: head_ids_def)
  from assms(1) h(1) have "row_get head_device_id (head_device_id h) (device_heads d) = Some h"
    by (simp add: heads_ok_def row_get_in)
  moreover from assms(1,2) have "row_get snap_id (snap_id s) (device_snapshots d) = Some s"
    by (simp add: heads_ok_def row_get_in)
  ultimately have "get_head d (head_device_id h) = Some s" using h(2) by (simp add: get_head_def)
  then show ?thesis by blast
qed

lemma candidates_filter:
  assumes "pk snap_id (device_snapshots d)"
  shows "filter (\<lambda>s. snap_id s \<in> snap_id ` set (purge_candidates lib now d aid n days kl)) (device_snapshots d)
    = purge_candidates lib now d aid n days kl"
proof -
  obtain P where c: "purge_candidates lib now d aid n days kl = filter P (device_snapshots d)"
    unfolding purge_candidates_def Let_def filter_filter by blast
  have "(snap_id s \<in> snap_id ` set (filter P (device_snapshots d))) = P s" if "s \<in> set (device_snapshots d)" for s
    using assms that by (auto simp: pk_def distinct_map inj_on_def)
  then show ?thesis unfolding c by (intro filter_cong) auto
qed

lemma delete_blobs_db [simp]: "db (delete_blobs lib uris st) = db st"
  unfolding delete_blobs_def by (induction uris arbitrary: st) simp_all

lemma purge_eq:
  fixes lib now aid n days kl st
  assumes h: "heads_ok (db st)"
  defines "c \<equiv> purge_candidates lib now (db st) aid n days kl"
  shows "\<exists>st'. purge_auto_older_than lib now aid n days kl st = (Inr (length c), st')
     \<and> db st' = without (snap_id ` set c) (db st)"
proof (cases "c = []")
  case True
  then show ?thesis by (simp add: purge_auto_older_than_def c_def)
next
  case False
  define st1 where "st1 = delete_blobs lib (filter (\<lambda>u. u \<noteq> []) (List.map_filter snap_blob_uri c)) st"
  have nh: "\<forall>h \<in> set (device_heads (db st1)). head_current_snapshot_id h \<notin> set (map snap_id c)"
    using candidates_not_head [OF h] by (auto simp: st1_def c_def)
  have "delete_chunks (map snap_id c) 0 (db st1) = Inr (length c, without (snap_id ` set c) (db st))"
    using delete_chunks_eq [OF nh, of 0] candidates_filter [of "db st" lib now aid n days kl] h
    by (simp add: st1_def c_def heads_ok_def)
  then show ?thesis using False
    by (auto simp: purge_auto_older_than_def c_def [symmetric] st1_def Let_def)
qed

lemma without_heads_ok:
  assumes "heads_ok d" and "\<forall>h \<in> set (device_heads d). head_current_snapshot_id h \<notin> A"
  shows "heads_ok (without A d) \<and> (\<forall>dev. get_head (without A d) dev = map_option (nullify A) (get_head d dev))"
proof
  have k: "map snap_id (map (nullify A) xs) = map snap_id xs" for xs by simp
  have pk: "pk snap_id (device_snapshots (without A d))"
    using assms(1) by (simp add: without_def heads_ok_def pk_def distinct_map_filter o_def)
  moreover have "\<exists>s \<in> set (device_snapshots (without A d)). snap_id s = head_current_snapshot_id h
      \<and> snap_device_id s = head_device_id h" if "h \<in> set (device_heads d)" for h
  proof -
    from assms(1) that obtain s where "s \<in> set (device_snapshots d)" "snap_id s = head_current_snapshot_id h"
      "snap_device_id s = head_device_id h" unfolding heads_ok_def by blast
    with assms(2) that show ?thesis by (intro bexI [of _ "nullify A s"]) (auto simp: without_def)
  qed
  ultimately show "heads_ok (without A d)" using assms(1) by (simp add: heads_ok_def without_def)
  show "\<forall>dev. get_head (without A d) dev = map_option (nullify A) (get_head d dev)"
  proof
    fix dev
    show "get_head (without A d) dev = map_option (nullify A) (get_head d dev)"
    proof (cases "row_get head_device_id dev (device_heads d)")
      case None
      then show ?thesis by (simp add: get_head_def without_def)
    next
      case (Some h)
      with heads_okD [OF assms(1) Some] obtain s where
        s: "row_get snap_id (head_current_snapshot_id h) (device_snapshots d) = Some s" by blast
      have n: "snap_id s \<notin> A" using assms(2) row_get_Some [OF Some] row_get_Some [OF s] by auto
      have "nullify A s \<in> set (device_snapshots (without A d))"
        using row_get_Some [OF s] n by (auto simp: without_def)
      from row_get_in [OF pk this] row_get_Some [OF s] have
        "row_get snap_id (head_current_snapshot_id h) (device_snapshots (without A d)) = Some (nullify A s)" by simp
      with Some s show ?thesis by (simp add: get_head_def) (simp add: without_def)
    qed
  qed
qed

text \<open>The rows the purge may consider, and the others of the same device at least as new as one of them.\<close>

definition as_new :: "database \<Rightarrow> int \<Rightarrow> bool \<Rightarrow> device_snapshot \<Rightarrow> device_snapshot set" where
  "as_new d aid kl s = {r \<in> set (device_snapshots d). purge_base aid kl r \<and> snap_device_id r = snap_device_id s
     \<and> r \<noteq> s \<and> snap_created_at s \<le> snap_created_at r}"

definition newer :: "database \<Rightarrow> int \<Rightarrow> bool \<Rightarrow> device_snapshot \<Rightarrow> device_snapshot set" where
  "newer d aid kl s = {r \<in> set (device_snapshots d). purge_base aid kl r \<and> snap_device_id r = snap_device_id s
     \<and> snap_created_at s < snap_created_at r}"

definition expired_at :: "instant \<Rightarrow> int option \<Rightarrow> device_snapshot \<Rightarrow> bool" where
  "expired_at now days s = (case days of None \<Rightarrow> False | Some k \<Rightarrow> snap_created_at s \<le> now - k * 86400)"

text \<open>
  C2: The purge of the retention runner is safe. It always succeeds, returns the number of
  rows it deleted, leaves every HEAD of every device on its snapshot, and every row it
  deletes is an automatic snapshot of that account, is nobody's HEAD, is unlabelled when
  labels are kept, and is either past the expiry or has at least \<open>keep_last_n\<close> other
  rows of its device that are at least as new. Every other row stays, with at most its
  parent reference cleared; and every such row that is past the expiry or has
  \<open>keep_last_n\<close> strictly newer ones does go.
\<close>
theorem purge_safe:
  assumes "heads_ok (db st)" and "order_ok snap_created_at (lib_order_snaps lib)"
  shows "\<exists>c st'. purge_auto_older_than lib now aid n days kl st = (Inr (length c), st') \<and> distinct c
    \<and> set c \<subseteq> set (device_snapshots (db st)) \<and> heads_ok (db st')
    \<and> device_snapshots (db st') = map (nullify (snap_id ` set c)) (filter (\<lambda>s. s \<notin> set c) (device_snapshots (db st)))
    \<and> (\<forall>dev. map_option snap_id (get_head (db st') dev) = map_option snap_id (get_head (db st) dev))
    \<and> (\<forall>s \<in> set c. purge_base aid kl s \<and> (\<forall>dev. get_head (db st) dev \<noteq> Some s)
         \<and> (expired_at now days s \<or> n \<le> int (card (as_new (db st) aid kl s))))
    \<and> (\<forall>s \<in> set (device_snapshots (db st)). purge_base aid kl s \<and> (\<forall>dev. get_head (db st) dev \<noteq> Some s)
         \<and> (expired_at now days s \<or> n \<le> int (card (newer (db st) aid kl s))) \<longrightarrow> s \<in> set c)"
proof -
  define d where "d = db st"
  define c where "c = purge_candidates lib now d aid n days kl"
  define base where "base = filter (purge_base aid kl) (device_snapshots d)"
  have pkd: "pk snap_id (device_snapshots d)" using assms(1) by (simp add: heads_ok_def d_def)
  have dist: "distinct (device_snapshots d)" using pkd by (simp add: pk_def distinct_map)
  have db: "distinct base" using dist by (simp add: base_def)
  have ceq: "c = filter (\<lambda>s. (n < int (row_number lib base s) \<or> expired_at now days s) \<and>
      snap_id s \<notin> set (head_ids d aid)) base"
    by (simp add: c_def purge_candidates_def base_def expired_at_def Let_def)
  have sub: "set c \<subseteq> set (device_snapshots d)" "set c \<subseteq> set base" by (auto simp: ceq base_def)
  have nh: "\<forall>h \<in> set (device_heads d). head_current_snapshot_id h \<notin> snap_id ` set c"
    using candidates_not_head assms(1) by (auto simp: c_def d_def)
  obtain st' where p: "purge_auto_older_than lib now aid n days kl st = (Inr (length c), st')"
    and w: "db st' = without (snap_id ` set c) d"
    using purge_eq [OF assms(1), of lib now aid n days kl] by (auto simp: c_def d_def)
  have as: "as_new d aid kl s = {r \<in> set base. snap_device_id r = snap_device_id s \<and> r \<noteq> s \<and>
      snap_created_at s \<le> snap_created_at r}"
    and nw: "newer d aid kl s = {r \<in> set base. snap_device_id r = snap_device_id s \<and>
      snap_created_at s < snap_created_at r}" for s
    by (auto simp: as_new_def newer_def base_def)
  have rows: "device_snapshots (db st') = map (nullify (snap_id ` set c)) (filter (\<lambda>s. s \<notin> set c) (device_snapshots d))"
  proof -
    have "filter (\<lambda>s. snap_id s \<notin> snap_id ` set c) (device_snapshots d) = filter (\<lambda>s. s \<notin> set c) (device_snapshots d)"
      using pkd sub(1) by (intro filter_cong) (auto simp: pk_def distinct_map inj_on_def subset_iff)
    then show ?thesis by (simp add: w without_def)
  qed
  have nothead: "get_head d dev \<noteq> Some s" if "s \<in> set c" for s dev
  proof
    assume "get_head d dev = Some s"
    then obtain h where "row_get head_device_id dev (device_heads d) = Some h"
      "row_get snap_id (head_current_snapshot_id h) (device_snapshots d) = Some s"
      by (auto simp: get_head_def split: option.splits)
    with nh that show False by (metis image_eqI row_get_Some)
  qed
  have why: "expired_at now days s \<or> n \<le> int (card (as_new d aid kl s))" if "s \<in> set c" for s
    using that row_number_bounds(1) [OF assms(2) db, of s] sub(2) unfolding as by (auto simp: ceq)
  have must: "s \<in> set c" if "s \<in> set base" "expired_at now days s \<or> n \<le> int (card (newer d aid kl s))"
    "\<forall>dev. get_head d dev \<noteq> Some s" for s
    using that row_number_bounds(2) [OF assms(2) db, of s] head_ids_head [OF assms(1) [folded d_def], of s aid]
    unfolding nw by (auto simp: ceq base_def)
  from without_heads_ok [OF assms(1) [folded d_def] nh] w
  have heads: "heads_ok (db st')" "\<forall>dev. get_head (db st') dev = map_option (nullify (snap_id ` set c)) (get_head d dev)"
    by auto
  have "distinct c" using db by (simp add: ceq)
  moreover have "\<forall>dev. map_option snap_id (get_head (db st') dev) = map_option snap_id (get_head d dev)"
    using heads(2) by (simp add: option.map_comp o_def)
  moreover have "\<forall>s \<in> set c. purge_base aid kl s" using sub(2) by (auto simp: base_def)
  moreover have "\<forall>s \<in> set (device_snapshots d). purge_base aid kl s \<longrightarrow> s \<in> set base" by (simp add: base_def)
  ultimately show ?thesis
    unfolding d_def [symmetric] using p sub(1) heads(1) rows nothead why must by blast
qed

text \<open>Three automatic snapshots, the newest is HEAD, keep one: the oldest two are candidates.\<close>
theorem purge_safe_witness:
  "let d = demo_db\<lparr>device_snapshots := [demo_snap 1 10 None, demo_snap 2 20 None, demo_snap 3 30 (Some ''x'')],
        device_heads := [\<lparr>head_device_id = ''dev'', head_current_snapshot_id = 3, head_updated_at = 30,
          head_updated_by = ''auto''\<rparr>]\<rparr>;
       st = demo_state\<lparr>db := d\<rparr>
   in \<exists>k st'. purge_auto_older_than plain_lib 99 1 1 None True st = (Inr k, st') \<and> heads_ok (db st')"
proof -
  define d where "d = demo_db\<lparr>device_snapshots := [demo_snap 1 10 None, demo_snap 2 20 None, demo_snap 3 30 (Some ''x'')],
        device_heads := [\<lparr>head_device_id = ''dev'', head_current_snapshot_id = 3, head_updated_at = 30,
          head_updated_by = ''auto''\<rparr>]\<rparr>"
  have h: "heads_ok (db (demo_state\<lparr>db := d\<rparr>))" by (simp add: d_def heads_ok_def pk_def demo_snap_def)
  have o: "order_ok snap_created_at (lib_order_snaps plain_lib)"
    using plain_lib_ok by (simp add: lib_ok_def)
  from purge_safe [OF h o, of 99 1 1 None True]
  have "\<exists>k st'. purge_auto_older_than plain_lib 99 1 1 None True (demo_state\<lparr>db := d\<rparr>) = (Inr k, st')
      \<and> heads_ok (db st')"
    by (elim exE conjE) iprover
  then show ?thesis unfolding d_def [symmetric] Let_def .
qed

end
