(* ===== verification/Retention.thy ===== *)
theory Retention
  imports Snapshot_Purge
begin

text \<open>
  The retention runner (\<^verbatim>\<open>app/retention.py\<close>) and the policy endpoints
  (\<^verbatim>\<open>app/retention_policies.py\<close>): resolution of the policy of an account, deletion in
  batches, the sweep over all tables, and its two entry points (inside a request, and
  from the scheduler with the leader lock, its own session and the error record). One
  instant stands for all clock reads of a run. Starting and stopping the scheduler
  itself is left out.
\<close>

section \<open>Policies\<close>

record resolved_policy =
  keep_last_n_auto :: int
  auto_expire_days :: "int option"
  keep_labeled_forever :: bool

definition DEFAULT_POLICY :: resolved_policy where
  "DEFAULT_POLICY = \<lparr>keep_last_n_auto = 30, auto_expire_days = None, keep_labeled_forever = True\<rparr>"

definition resolve_policy :: "database \<Rightarrow> int \<Rightarrow> resolved_policy" where
  "resolve_policy d account_id =
     (case find (\<lambda>r. rp_account_id r = account_id \<and> rp_device_id r = None) (retention_policies d) of
        Some row \<Rightarrow> \<lparr>keep_last_n_auto = rp_keep_last_n_auto row, auto_expire_days = rp_auto_expire_days row,
                     keep_labeled_forever = rp_keep_labeled_forever row\<rparr>
      | None \<Rightarrow>
        (case global_policies d of
           Some g \<Rightarrow> \<lparr>keep_last_n_auto = gp_snapshot_keep_last_n g,
                      auto_expire_days = Some (gp_snapshot_retain_days g), keep_labeled_forever = True\<rparr>
         | None \<Rightarrow> DEFAULT_POLICY))"

section \<open>Batched deletion\<close>

lemma batched_delete_shrinks:
  assumes "map key (take batch (filter P rows)) \<noteq> []"
  shows "length (filter (\<lambda>r. key r \<notin> set (map key (take batch (filter P rows)))) rows) < length rows"
proof -
  from assms obtain x where "x \<in> set (take batch (filter P rows))"
    by (metis hd_in_set list.simps(8))
  then have "x \<in> set rows" "key x \<in> set (map key (take batch (filter P rows)))"
    using set_take_subset by fastforce+
  then show ?thesis by (intro length_filter_less) auto
qed

text \<open>
  The loop of \<open>_batched_delete\<close>: a page of keys, their deletion, and another round while
  the page was full. A batch size of 0 selects no key and ends at once.
\<close>

function batched_delete :: "nat \<Rightarrow> ('r \<Rightarrow> 'k) \<Rightarrow> ('r \<Rightarrow> bool) \<Rightarrow> 'r list \<Rightarrow> nat \<Rightarrow> nat \<times> 'r list" where
  "batched_delete batch key P rows tot =
     (let ids = map key (take batch (filter P rows)) in
      if ids = [] then (tot, rows)
      else (let kept = filter (\<lambda>r. key r \<notin> set ids) rows;
                tot' = tot + length (filter (\<lambda>r. key r \<in> set ids) rows) in
            if length ids < batch then (tot', kept) else batched_delete batch key P kept tot'))"
  by pat_completeness auto

termination
  by (relation "measure (\<lambda>(_, _, _, rows, _). length rows)")
     (auto simp: Let_def dest!: batched_delete_shrinks [simplified])

declare batched_delete.simps [simp del]

section \<open>The sweep\<close>

record retention_summary =
  sum_accounts :: nat
  sum_deleted :: nat
  sum_idempotency :: nat
  sum_revoked :: nat
  sum_audit :: nat
  sum_scheduler :: nat
  sum_webhook :: nat
  sum_sessions :: nat
  sum_skipped :: bool

fun purge_accounts ::
  "snap_lib \<Rightarrow> instant \<Rightarrow> int list \<Rightarrow> nat \<Rightarrow> app_state \<Rightarrow> (exn + nat) \<times> app_state" where
  "purge_accounts lib now [] tot st = (Inr tot, st)"
| "purge_accounts lib now (a # as) tot st =
     (let p = resolve_policy (db st) a in
      case purge_auto_older_than lib now a (keep_last_n_auto p) (auto_expire_days p) (keep_labeled_forever p) st of
        (Inl e, st') \<Rightarrow> (Inl e, st')
      | (Inr n, st') \<Rightarrow> purge_accounts lib now as (tot + n) st')"

definition day :: int where
  "day = 86400"

text \<open>The sweep of one table by age; \<open>days \<le> 0\<close> turns it off.\<close>

definition sweep_old ::
  "nat \<Rightarrow> instant \<Rightarrow> int \<Rightarrow> ('r \<Rightarrow> 'k) \<Rightarrow> ('r \<Rightarrow> instant) \<Rightarrow> 'r list \<Rightarrow> nat \<times> 'r list" where
  "sweep_old batch now days key at rows =
     (if 0 < days then batched_delete batch key (\<lambda>r. at r < now - days * day) rows 0 else (0, rows))"

definition revoke_idle :: "instant \<Rightarrow> int \<Rightarrow> admin_session list \<Rightarrow> nat \<times> admin_session list" where
  "revoke_idle now days rows =
     (if 0 < days then
        (let idle = (\<lambda>s. ses_last_seen_at s < now - days * day \<and> ses_revoked_at s = None) in
         (length (filter idle rows), map (\<lambda>s. if idle s then s\<lparr>ses_revoked_at := Some now\<rparr> else s) rows))
      else (0, rows))"

definition do_retention ::
  "snap_lib \<Rightarrow> nat \<Rightarrow> instant \<Rightarrow> app_state \<Rightarrow> (exn + retention_summary) \<times> app_state" where
  "do_retention lib batch now st =
     (let account_ids = map acc_id (accounts (db st)) in
      case purge_accounts lib now account_ids 0 st of
        (Inl e, st1) \<Rightarrow> (Inl e, st1)
      | (Inr deleted, st1) \<Rightarrow>
        (let d = db st1;
             (n_idem, idem) = batched_delete batch idem_key_hash (\<lambda>r. idem_expires_at r \<le> now)
                                (idempotency_records d) 0;
             (n_rev, rev_rows) = batched_delete batch rev_jti
                                (\<lambda>r. case rev_expires_at r of None \<Rightarrow> False | Some t \<Rightarrow> t \<le> now)
                                (revoked_tokens d) 0;
             gp = global_policies d;
             (n_aud, aud) = sweep_old batch now (case gp of None \<Rightarrow> 365 | Some g \<Rightarrow> gp_audit_retention_days g)
                                aud_id aud_created_at (audit_events d);
             (n_run, runs) = sweep_old batch now
                                (case gp of None \<Rightarrow> 90 | Some g \<Rightarrow> gp_scheduler_run_retention_days g)
                                run_id run_started_at (scheduler_runs d);
             (n_whd, whds) = sweep_old batch now
                                (case gp of None \<Rightarrow> 30 | Some g \<Rightarrow> gp_webhook_delivery_retention_days g)
                                whd_id whd_created_at (webhook_deliveries d);
             (n_ses, sess) = revoke_idle now (case gp of None \<Rightarrow> 0 | Some g \<Rightarrow> gp_admin_session_idle_days g)
                                (admin_sessions d)
         in (Inr \<lparr>sum_accounts = length account_ids, sum_deleted = deleted, sum_idempotency = n_idem,
                  sum_revoked = n_rev, sum_audit = n_aud, sum_scheduler = n_run, sum_webhook = n_whd,
                  sum_sessions = n_ses, sum_skipped = False\<rparr>,
             st1\<lparr>db := d\<lparr>idempotency_records := idem, revoked_tokens := rev_rows, audit_events := aud,
                          scheduler_runs := runs, webhook_deliveries := whds, admin_sessions := sess\<rparr>\<rparr>)))"

section \<open>Entry points\<close>

definition write_scheduler_run ::
  "(int list \<Rightarrow> int) \<Rightarrow> instant \<Rightarrow> string \<Rightarrow> instant \<Rightarrow> int option \<Rightarrow> json option \<Rightarrow> string option
     \<Rightarrow> database \<Rightarrow> database" where
  "write_scheduler_run alloc now job started ms summary err d =
     d\<lparr>scheduler_runs := row_add
        \<lparr>run_id = alloc (map run_id (scheduler_runs d)), run_job = job, run_started_at = started,
         run_finished_at = Some now, run_duration_ms = ms, run_summary = summary, run_error = err\<rparr>
        (scheduler_runs d)\<rparr>"

definition summary_json :: "retention_summary \<Rightarrow> json" where
  "summary_json s = JObj
     ([(''accounts'', JInt (int (sum_accounts s))), (''deleted'', JInt (int (sum_deleted s))),
      (''idempotency_purged'', JInt (int (sum_idempotency s))),
      (''revoked_tokens_purged'', JInt (int (sum_revoked s))),
      (''audit_events_purged'', JInt (int (sum_audit s))),
      (''scheduler_runs_purged'', JInt (int (sum_scheduler s))),
      (''webhook_deliveries_purged'', JInt (int (sum_webhook s))),
      (''admin_sessions_auto_revoked'', JInt (int (sum_sessions s)))]
      @ (if sum_skipped s then [(''skipped'', JBool True)] else []))"

definition skipped_summary :: retention_summary where
  "skipped_summary = \<lparr>sum_accounts = 0, sum_deleted = 0, sum_idempotency = 0, sum_revoked = 0, sum_audit = 0,
     sum_scheduler = 0, sum_webhook = 0, sum_sessions = 0, sum_skipped = True\<rparr>"

text \<open>Inside a request: the caller's session, flushed only.\<close>

definition run_retention_in ::
  "snap_lib \<Rightarrow> (int list \<Rightarrow> int) \<Rightarrow> (exn \<Rightarrow> string) \<Rightarrow> nat \<Rightarrow> instant \<Rightarrow> int \<Rightarrow> retention_summary handler" where
  "run_retention_in lib alloc exn_str batch now ms st =
     (case do_retention lib batch now st of
        (Inr s, st1) \<Rightarrow>
          (Inr s, st1\<lparr>db := write_scheduler_run alloc now ''retention'' now (Some ms) (Some (summary_json s)) None (db st1)\<rparr>)
      | (Inl e, st1) \<Rightarrow>
          (Inl e, st1\<lparr>db := write_scheduler_run alloc now ''retention'' now (Some ms) None (Some (exn_str e)) (db st1)\<rparr>))"

text \<open>
  From the scheduler: \<open>lock\<close> says whether this worker got the leader lock; the session
  is committed on success, rolled back on an error, which is recorded in a session of
  its own.
\<close>

definition run_retention_scheduled ::
  "snap_lib \<Rightarrow> (int list \<Rightarrow> int) \<Rightarrow> (exn \<Rightarrow> string) \<Rightarrow> nat \<Rightarrow> instant \<Rightarrow> int \<Rightarrow> bool \<Rightarrow> retention_summary handler" where
  "run_retention_scheduled lib alloc exn_str batch now ms lock st =
     (if \<not> lock then (Inr skipped_summary, st)
      else (case do_retention lib batch now st of
        (Inr s, st1) \<Rightarrow>
          (Inr s, commit (st1\<lparr>db := write_scheduler_run alloc now ''retention'' now (Some ms) (Some (summary_json s)) None (db st1)\<rparr>))
      | (Inl e, st1) \<Rightarrow>
          (let st2 = rollback st1 in
           (Inl e, commit (st2\<lparr>db := write_scheduler_run alloc now ''retention'' now (Some ms) None (Some (exn_str e)) (db st2)\<rparr>)))))"

section \<open>Policy endpoints\<close>

record policy_upsert =
  pu_device_id :: "string option"
  pu_keep_last_n_auto :: int
  pu_auto_expire_days :: "int option"
  pu_keep_labeled_forever :: bool
  pu_max_total_bytes :: "int option"

text \<open>The bounds of the request model; a violation is answered with 422.\<close>

definition policy_upsert_valid :: "policy_upsert \<Rightarrow> bool" where
  "policy_upsert_valid b \<longleftrightarrow> 1 \<le> pu_keep_last_n_auto b \<and> pu_keep_last_n_auto b \<le> 1000 \<and>
     (case pu_auto_expire_days b of None \<Rightarrow> True | Some k \<Rightarrow> 1 \<le> k \<and> k \<le> 3650) \<and>
     (case pu_max_total_bytes b of None \<Rightarrow> True | Some k \<Rightarrow> 0 \<le> k)"

definition assert_device_owned :: "database \<Rightarrow> account \<Rightarrow> string option \<Rightarrow> exn + unit" where
  "assert_device_owned d acc device_id =
     (case device_id of None \<Rightarrow> Inr ()
      | Some i \<Rightarrow>
        (case row_get dev_device_id (py_lower i) (device_configs d) of
           None \<Rightarrow> Inl (HTTPException 404 ''Device not found or not owned by this account'')
         | Some dev \<Rightarrow> if dev_user_id dev \<noteq> Some (acc_id acc)
                      then Inl (HTTPException 404 ''Device not found or not owned by this account'')
                      else Inr ()))"

definition list_policies ::
  "(retention_policy list \<Rightarrow> retention_policy list) \<Rightarrow> string option \<Rightarrow> account \<Rightarrow> database \<Rightarrow> retention_policy list" where
  "list_policies order device_id acc d =
     order (filter (\<lambda>r. rp_account_id r = acc_id acc \<and>
       (case device_id of None \<Rightarrow> True | Some i \<Rightarrow> rp_device_id r = Some (py_lower i))) (retention_policies d))"

definition apply_upsert :: "instant \<Rightarrow> policy_upsert \<Rightarrow> retention_policy \<Rightarrow> retention_policy" where
  "apply_upsert now b r =
     (let r' = r\<lparr>rp_keep_last_n_auto := pu_keep_last_n_auto b, rp_auto_expire_days := pu_auto_expire_days b,
                 rp_keep_labeled_forever := pu_keep_labeled_forever b, rp_max_total_bytes := pu_max_total_bytes b\<rparr>
      in if r' = r then r else r'\<lparr>rp_updated_at := now\<rparr>)"

definition upsert_detail :: "string option \<Rightarrow> policy_upsert \<Rightarrow> json" where
  "upsert_detail device_id b =
     JObj [(''device_id'', jopt_str device_id), (''keep_last_n_auto'', JInt (pu_keep_last_n_auto b)),
           (''auto_expire_days'', jopt_int (pu_auto_expire_days b)),
           (''keep_labeled_forever'', JBool (pu_keep_labeled_forever b)),
           (''max_total_bytes'', jopt_int (pu_max_total_bytes b))]"

definition upsert_policy ::
  "environment \<Rightarrow> instant \<Rightarrow> request \<Rightarrow> policy_upsert \<Rightarrow> account \<Rightarrow> retention_policy handler" where
  "upsert_policy env now req b acc st =
     (if \<not> policy_upsert_valid b then (Inl (HTTPException 422 ''validation''), st)
      else (let device_id = (if truthy (pu_device_id b) then map_option py_lower (pu_device_id b) else None) in
        case assert_device_owned (db st) acc device_id of Inl e \<Rightarrow> (Inl e, st)
        | Inr _ \<Rightarrow>
          (let scope = (\<lambda>r. rp_account_id r = acc_id acc \<and> rp_device_id r = device_id);
               (row, rows) = (case find scope (retention_policies (db st)) of
                 None \<Rightarrow>
                   (let r = apply_upsert now b
                       \<lparr>rp_id = env_alloc env (map rp_id (retention_policies (db st))), rp_account_id = acc_id acc,
                        rp_device_id = device_id, rp_keep_last_n_auto = 30, rp_auto_expire_days = None,
                        rp_keep_labeled_forever = True, rp_max_total_bytes = None, rp_updated_at = now\<rparr>
                    in (r, row_add r (retention_policies (db st))))
               | Some old \<Rightarrow>
                   (apply_upsert now b old, row_set rp_id (rp_id old) (apply_upsert now b) (retention_policies (db st))))
           in (Inr row, emit env now (Some acc) ''retention.policy_set'' (Some req) (Some ''retention_policy'')
                 (Some (show_int (rp_id row))) (Some (upsert_detail device_id b))
                 (st\<lparr>db := (db st)\<lparr>retention_policies := rows\<rparr>\<rparr>)))))"

definition delete_policy :: "environment \<Rightarrow> instant \<Rightarrow> request \<Rightarrow> int \<Rightarrow> account \<Rightarrow> unit handler" where
  "delete_policy env now req policy_id acc st =
     (case row_get rp_id policy_id (retention_policies (db st)) of
        None \<Rightarrow> (Inl (HTTPException 404 ''Policy not found''), st)
      | Some row \<Rightarrow>
        if rp_account_id row \<noteq> acc_id acc then (Inl (HTTPException 404 ''Policy not found''), st)
        else (let st1 = emit env now (Some acc) ''retention.policy_deleted'' (Some req) (Some ''retention_policy'')
                          (Some (show_int policy_id)) (Some (JObj [(''device_id'', jopt_str (rp_device_id row))])) st
              in (Inr (), st1\<lparr>db := (db st1)\<lparr>retention_policies :=
                    row_del rp_id policy_id (retention_policies (db st1))\<rparr>\<rparr>)))"

section \<open>Batched deletion is deletion\<close>

lemma filter_in_take: "distinct rows \<Longrightarrow> filter (\<lambda>r. r \<in> set (take b (filter P rows))) rows = take b (filter P rows)"
proof (induction rows arbitrary: b)
  case Nil
  then show ?case by simp
next
  case (Cons x rows)
  show ?case
  proof (cases "P x")
    case False
    have "x \<notin> set (take b (filter P rows))" using Cons.prems by (auto dest: in_set_takeD)
    with False Cons show ?thesis by simp
  next
    case True
    show ?thesis
    proof (cases b)
      case (Suc c)
      have "filter (\<lambda>r. r = x \<or> r \<in> set (take c (filter P rows))) rows =
          filter (\<lambda>r. r \<in> set (take c (filter P rows))) rows"
        using Cons.prems by (intro filter_cong) auto
      with True Suc Cons show ?thesis by simp
    qed simp
  qed
qed

lemma filter_page:
  assumes "pk key rows"
  shows "filter (\<lambda>r. key r \<in> set (map key (take b (filter P rows)))) rows = take b (filter P rows)"
    and "filter (\<lambda>r. key r \<notin> set (map key (take b (filter P rows)))) rows =
      filter (\<lambda>r. r \<notin> set (take b (filter P rows))) rows"
proof -
  have sub: "set (take b (filter P rows)) \<subseteq> set rows" using set_take_subset by fastforce
  have e: "key r \<in> set (map key (take b (filter P rows))) \<longleftrightarrow> r \<in> set (take b (filter P rows))"
    if "r \<in> set rows" for r
    using assms that sub by (auto simp: pk_def distinct_map inj_on_def)
  have d: "distinct rows" using assms by (simp add: pk_def distinct_map)
  show "filter (\<lambda>r. key r \<in> set (map key (take b (filter P rows)))) rows = take b (filter P rows)"
    using filter_in_take [OF d, of b P] e by (simp cong: filter_cong)
  show "filter (\<lambda>r. key r \<notin> set (map key (take b (filter P rows)))) rows =
      filter (\<lambda>r. r \<notin> set (take b (filter P rows))) rows"
    using e by (simp cong: filter_cong)
qed

lemma filter_rest:
  assumes "distinct rows"
  shows "filter P (filter (\<lambda>r. r \<notin> set (take b (filter P rows))) rows) = drop b (filter P rows)"
    and "filter (\<lambda>r. \<not> P r) (filter (\<lambda>r. r \<notin> set (take b (filter P rows))) rows) = filter (\<lambda>r. \<not> P r) rows"
proof -
  have nin: "\<not> P r \<Longrightarrow> r \<notin> set (take b (filter P rows))" for r by (auto dest: in_set_takeD)
  then show "filter (\<lambda>r. \<not> P r) (filter (\<lambda>r. r \<notin> set (take b (filter P rows))) rows) = filter (\<lambda>r. \<not> P r) rows"
    by (auto intro: filter_cong)
  have drop: "distinct xs \<Longrightarrow> filter (\<lambda>r. r \<notin> set (take b xs)) xs = drop b xs" for xs :: "'a list"
  proof -
    assume d: "distinct xs"
    have "filter (\<lambda>r. r \<notin> set (take b xs)) (take b xs @ drop b xs) = drop b xs"
      using d set_take_disj_set_drop_if_distinct [of xs b b] by (auto simp: filter_id_conv simp del: append_take_drop_id)
    then show ?thesis by simp
  qed
  have "filter P (filter (\<lambda>r. r \<notin> set (take b (filter P rows))) rows) =
      filter (\<lambda>r. r \<notin> set (take b (filter P rows))) (filter P rows)"
    by (simp add: conj_commute)
  also have "\<dots> = drop b (filter P rows)" using assms by (intro drop) simp
  finally show "filter P (filter (\<lambda>r. r \<notin> set (take b (filter P rows))) rows) = drop b (filter P rows)" .
qed

lemma batched_delete_eq:
  assumes "0 < batch" and "pk key rows"
  shows "batched_delete batch key P rows tot = (tot + length (filter P rows), filter (\<lambda>r. \<not> P r) rows)"
  using assms
proof (induction batch key P rows tot rule: batched_delete.induct)
  case (1 batch key P rows tot)
  define page where "page = take batch (filter P rows)"
  have dist: "distinct rows" using 1(3) by (simp add: pk_def distinct_map)
  show ?case
  proof (cases "page = []")
    case True
    with 1(2) have "filter P rows = []" by (simp add: page_def)
    then show ?thesis
      by (subst batched_delete.simps) (auto simp: filter_empty_conv filter_id_conv)
  next
    case ne: False
    note fp = filter_page [OF 1(3), of batch P, folded page_def]
    note fr = filter_rest [OF dist, of P batch, folded page_def]
    show ?thesis
    proof (cases "length page < batch")
      case True
      then have "page = filter P rows" by (simp add: page_def)
      then have "filter (\<lambda>r. r \<notin> set page) rows = filter (\<lambda>r. \<not> P r) rows" by (auto intro: filter_cong)
      with True ne fp \<open>page = filter P rows\<close> show ?thesis
        by (subst batched_delete.simps) (simp add: page_def [symmetric] Let_def)
    next
      case False
      have pk: "pk key (filter (\<lambda>r. r \<notin> set page) rows)" using 1(3) by (rule pk_filter)
      have "batched_delete batch key P rows tot = batched_delete batch key P (filter (\<lambda>r. r \<notin> set page) rows) (tot + length page)"
        using False ne fp by (subst batched_delete.simps) (simp add: page_def [symmetric] Let_def)
      also have "\<dots> = (tot + length page + length (drop batch (filter P rows)), filter (\<lambda>r. \<not> P r) rows)"
        using 1(1) [OF refl _ refl refl, folded page_def, unfolded fp] ne False pk 1(2)
        by (simp del: filter_filter add: fr)
      finally show ?thesis by (simp add: page_def)
    qed
  qed
qed

section \<open>The sweep succeeds\<close>

lemma purge_step:
  assumes "heads_ok (db st)"
  shows "\<exists>n A st'. purge_auto_older_than lib now a k days kl st = (Inr n, st') \<and> db st' = without A (db st)
    \<and> heads_ok (db st') \<and> (\<forall>dev. map_option snap_id (get_head (db st') dev) = map_option snap_id (get_head (db st) dev))"
proof -
  define c where "c = purge_candidates lib now (db st) a k days kl"
  from purge_eq [OF assms] obtain st' where
    p: "purge_auto_older_than lib now a k days kl st = (Inr (length c), st')"
    and w: "db st' = without (snap_id ` set c) (db st)" unfolding c_def by blast
  have "\<forall>h \<in> set (device_heads (db st)). head_current_snapshot_id h \<notin> snap_id ` set c"
    using candidates_not_head [OF assms] by (auto simp: c_def)
  from without_heads_ok [OF assms this] w have "heads_ok (db st')"
    "\<forall>dev. map_option snap_id (get_head (db st') dev) = map_option snap_id (get_head (db st) dev)"
    by (auto simp: option.map_comp o_def)
  with p w show ?thesis by blast
qed

lemma purge_accounts_ok:
  assumes "heads_ok (db st)"
  shows "\<exists>n A st'. purge_accounts lib now as tot st = (Inr n, st') \<and> db st' = without A (db st)
    \<and> heads_ok (db st') \<and> (\<forall>dev. map_option snap_id (get_head (db st') dev) = map_option snap_id (get_head (db st) dev))"
  using assms
proof (induction as arbitrary: tot st)
  case Nil
  then show ?case by (auto intro: exI [of _ "{}"])
next
  case (Cons a as)
  define p where "p = resolve_policy (db st) a"
  from purge_step [OF Cons.prems] obtain n A st1 where
    s1: "purge_auto_older_than lib now a (keep_last_n_auto p) (auto_expire_days p) (keep_labeled_forever p) st = (Inr n, st1)"
    "db st1 = without A (db st)" "heads_ok (db st1)"
    "\<forall>dev. map_option snap_id (get_head (db st1) dev) = map_option snap_id (get_head (db st) dev)" by blast
  from Cons.IH [OF s1(3), of "tot + n"] obtain m B st2 where
    s2: "purge_accounts lib now as (tot + n) st1 = (Inr m, st2)" "db st2 = without B (db st1)" "heads_ok (db st2)"
    "\<forall>dev. map_option snap_id (get_head (db st2) dev) = map_option snap_id (get_head (db st1) dev)" by blast
  have "purge_accounts lib now (a # as) tot st = (Inr m, st2)" using s1(1) s2(1) by (simp add: p_def Let_def)
  moreover have "db st2 = without (A \<union> B) (db st)" using s1(2) s2(2) by (simp add: without_without)
  ultimately show ?case using s2(3,4) s1(4) by metis
qed

lemma sweep_old_eq:
  "0 < batch \<Longrightarrow> pk key rows \<Longrightarrow> snd (sweep_old batch now days key at rows) =
     filter (\<lambda>r. days \<le> 0 \<or> now - days * day \<le> at r) rows"
  by (auto simp: sweep_old_def batched_delete_eq filter_id_conv intro: filter_cong)

definition sweep_pks :: "database \<Rightarrow> bool" where
  "sweep_pks d \<longleftrightarrow> pk idem_key_hash (idempotency_records d) \<and> pk rev_jti (revoked_tokens d) \<and>
     pk aud_id (audit_events d) \<and> pk run_id (scheduler_runs d) \<and> pk whd_id (webhook_deliveries d)"

lemma sweep_pks_without [simp]: "sweep_pks (without A d) = sweep_pks d"
  by (simp add: sweep_pks_def without_def)

text \<open>The sweep touches snapshots only as \<open>without\<close> does, and HEADs, devices and accounts not at all.\<close>

lemma do_retention_frame:
  assumes "heads_ok (db st)"
  obtains s A st' where "do_retention lib batch now st = (Inr s, st')"
    and "device_snapshots (db st') = device_snapshots (without A (db st))" and "heads_ok (db st')"
    and "device_heads (db st') = device_heads (db st)" and "device_configs (db st') = device_configs (db st)"
    and "accounts (db st') = accounts (db st)"
    and "personal_access_tokens (db st') = personal_access_tokens (db st)"
    and "\<forall>dev. map_option snap_id (get_head (db st') dev) = map_option snap_id (get_head (db st) dev)"
proof -
  from purge_accounts_ok [OF assms] obtain n A st1 where
    p: "purge_accounts lib now (map acc_id (accounts (db st))) 0 st = (Inr n, st1)"
    and w: "db st1 = without A (db st)" and h: "heads_ok (db st1)"
    and g: "\<forall>dev. map_option snap_id (get_head (db st1) dev) = map_option snap_id (get_head (db st) dev)"
    by blast
  define st' where "st' = snd (do_retention lib batch now st)"
  have ok: "\<exists>s. do_retention lib batch now st = (Inr s, st')"
    by (auto simp: st'_def do_retention_def p Let_def split: prod.splits)
  have same: "device_snapshots (db st') = device_snapshots (db st1)" "device_heads (db st') = device_heads (db st1)"
    "accounts (db st') = accounts (db st1)" "device_configs (db st') = device_configs (db st1)"
    "personal_access_tokens (db st') = personal_access_tokens (db st1)"
    by (simp_all add: st'_def do_retention_def p Let_def split: prod.splits)
  have "heads_ok (db st')" using h same heads_ok_cong by blast
  moreover have "\<forall>dev. map_option snap_id (get_head (db st') dev) = map_option snap_id (get_head (db st) dev)"
    using g get_head_cong [OF same(1,2)] by simp
  moreover note same [unfolded w]
  ultimately show thesis using ok that by (force simp: without_def)
qed

lemma do_retention_tables:
  assumes "heads_ok (db st)" and "do_retention lib batch now st = (r, st')"
  shows "revoked_tokens (db st') = snd (batched_delete batch rev_jti
        (\<lambda>r. case rev_expires_at r of None \<Rightarrow> False | Some t \<Rightarrow> t \<le> now) (revoked_tokens (db st)) 0)"
    and "idempotency_records (db st') = snd (batched_delete batch idem_key_hash (\<lambda>r. idem_expires_at r \<le> now)
        (idempotency_records (db st)) 0)"
    and "audit_events (db st') = snd (sweep_old batch now
        (case global_policies (db st) of None \<Rightarrow> 365 | Some g \<Rightarrow> gp_audit_retention_days g)
        aud_id aud_created_at (audit_events (db st)))"
proof -
  from purge_accounts_ok [OF assms(1)] obtain n A st1 where
    p: "purge_accounts lib now (map acc_id (accounts (db st))) 0 st = (Inr n, st1)"
    and w: "db st1 = without A (db st)" by blast
  have st': "st' = snd (do_retention lib batch now st)" using assms(2) by simp
  have t: "revoked_tokens (db st) = revoked_tokens (db st1)" "idempotency_records (db st) = idempotency_records (db st1)"
    "audit_events (db st) = audit_events (db st1)" "global_policies (db st) = global_policies (db st1)"
    by (simp_all add: w without_def)
  show "revoked_tokens (db st') = snd (batched_delete batch rev_jti
        (\<lambda>r. case rev_expires_at r of None \<Rightarrow> False | Some t \<Rightarrow> t \<le> now) (revoked_tokens (db st)) 0)"
    and "idempotency_records (db st') = snd (batched_delete batch idem_key_hash (\<lambda>r. idem_expires_at r \<le> now)
        (idempotency_records (db st)) 0)"
    and "audit_events (db st') = snd (sweep_old batch now
        (case global_policies (db st) of None \<Rightarrow> 365 | Some g \<Rightarrow> gp_audit_retention_days g)
        aud_id aud_created_at (audit_events (db st)))"
    unfolding t st' by (simp_all add: do_retention_def p Let_def split: prod.splits)
qed



text \<open>
  A device-specific policy has no effect on the sweep: the policy that is applied to an
  account, and so every row that is purged, is the same when all device overrides are
  dropped from the table.
\<close>
lemma device_override_ignored:
  "resolve_policy (d\<lparr>retention_policies := filter (\<lambda>r. rp_device_id r = None) (retention_policies d)\<rparr>) a
     = resolve_policy d a"
proof -
  have "find (\<lambda>r. rp_account_id r = a \<and> rp_device_id r = None) (filter (\<lambda>r. rp_device_id r = None) rows)
      = find (\<lambda>r. rp_account_id r = a \<and> rp_device_id r = None) rows" for rows :: "retention_policy list"
    by (induction rows) auto
  then show ?thesis by (simp add: resolve_policy_def split: option.splits)
qed

end
