(* ===== verification/Idempotency.thy ===== *)
theory Idempotency
  imports Snapshot_Store
begin

text \<open>
  The replay cache for mutating endpoints (\<^verbatim>\<open>app/idempotency.py\<close>): lookup, storage and
  the hash of the request. SHA-256 is the parameter \<open>sha\<close>. Rows that another
  transaction commits before the insert are the argument \<open>racing\<close>.
\<close>

definition IDEMPOTENCY_TTL_SECONDS :: int where
  "IDEMPOTENCY_TTL_SECONDS = 86400"

definition account_tag :: "int option \<Rightarrow> string" where
  "account_tag account_id = (case account_id of None \<Rightarrow> ''anon'' | Some a \<Rightarrow> if a = 0 then ''anon'' else show_int a)"

definition key_seed :: "int option \<Rightarrow> string \<Rightarrow> string \<Rightarrow> string \<Rightarrow> string" where
  "key_seed account_id http_method path key =
     account_tag account_id @ ''|'' @ py_upper http_method @ ''|'' @ path @ ''|'' @ key"

definition hash_key :: "(bytes \<Rightarrow> string) \<Rightarrow> int option \<Rightarrow> string \<Rightarrow> string \<Rightarrow> string \<Rightarrow> string" where
  "hash_key sha account_id http_method path key = sha (ascii_encode (key_seed account_id http_method path key))"

text \<open>The body as JSON (what \<open>model_dump\<close> gives); None is no body.\<close>

definition canonical_body_hash :: "(bytes \<Rightarrow> string) \<Rightarrow> json option \<Rightarrow> string" where
  "canonical_body_hash sha body = (case body of None \<Rightarrow> sha [] | Some j \<Rightarrow> sha (canonical_bytes j))"

record response =
  resp_status :: nat
  resp_body :: bytes
  resp_content_type :: string
  resp_replay :: bool

definition replay_if_present ::
  "(bytes \<Rightarrow> string) \<Rightarrow> instant \<Rightarrow> request \<Rightarrow> account option \<Rightarrow> json option \<Rightarrow> response option handler" where
  "replay_if_present sha now req acc body st =
     (if \<not> truthy (req_idempotency_key req) then (Inr None, st)
      else (let key = the (req_idempotency_key req) in
        if length key < 4 \<or> 128 < length key
        then (Inl (HTTPException 400 ''Idempotency-Key must be 4-128 characters''), st)
        else (let h = hash_key sha (map_option acc_id acc) (req_method req) (req_path req) key in
          case row_get idem_key_hash h (idempotency_records (db st)) of
            None \<Rightarrow> (Inr None, st)
          | Some row \<Rightarrow>
            if idem_expires_at row \<le> now
            then (Inr None, st\<lparr>db := (db st)\<lparr>idempotency_records :=
                    row_del idem_key_hash h (idempotency_records (db st))\<rparr>\<rparr>)
            else if body \<noteq> None \<and> idem_body_hash row \<noteq> None \<and>
                    Some (canonical_body_hash sha body) \<noteq> idem_body_hash row
            then (Inl (HTTPException 422 ''Idempotency-Key reused with a different request body''), st)
            else (Inr (Some \<lparr>resp_status = idem_status_code row, resp_body = idem_response_body row,
                             resp_content_type = idem_content_type row, resp_replay = True\<rparr>), st))))"

definition idem_row_ok :: "database \<Rightarrow> idempotency_record \<Rightarrow> bool" where
  "idem_row_ok d r \<longleftrightarrow> row_get idem_key_hash (idem_key_hash r) (idempotency_records d) = None \<and>
     (case idem_account_id r of None \<Rightarrow> True | Some a \<Rightarrow> row_get acc_id a (accounts d) \<noteq> None)"

definition see_records :: "idempotency_record list \<Rightarrow> app_state \<Rightarrow> app_state" where
  "see_records racing st =
     st\<lparr>db := (db st)\<lparr>idempotency_records := idempotency_records (db st) @ racing\<rparr>,
        committed := (committed st)\<lparr>idempotency_records := idempotency_records (committed st) @ racing\<rparr>\<rparr>"

definition persist ::
  "(bytes \<Rightarrow> string) \<Rightarrow> instant \<Rightarrow> idempotency_record list \<Rightarrow> request \<Rightarrow> account option \<Rightarrow> nat \<Rightarrow> bytes \<Rightarrow> string
     \<Rightarrow> json option \<Rightarrow> app_state \<Rightarrow> app_state" where
  "persist sha now racing req acc status_code body content_type request_body st =
     (if \<not> truthy (req_idempotency_key req) then st
      else (let key = the (req_idempotency_key req);
                row = \<lparr>idem_key_hash = hash_key sha (map_option acc_id acc) (req_method req) (req_path req) key,
                       idem_account_id = map_option acc_id acc, idem_method = py_upper (req_method req),
                       idem_path = req_path req,
                       idem_body_hash = (if request_body \<noteq> None then Some (canonical_body_hash sha request_body) else None),
                       idem_status_code = status_code, idem_response_body = body, idem_content_type = content_type,
                       idem_created_at = now, idem_expires_at = now + IDEMPOTENCY_TTL_SECONDS\<rparr>;
                st1 = see_records racing st in
            if idem_row_ok (db st1) row
            then st1\<lparr>db := (db st1)\<lparr>idempotency_records := row_add row (idempotency_records (db st1))\<rparr>\<rparr>
            else st1))"

text \<open>The stored body is printed with \<open>json.dumps\<close>; \<open>render\<close> is how the response class prints it.\<close>

definition wrap_json ::
  "(bytes \<Rightarrow> string) \<Rightarrow> (json \<Rightarrow> bytes) \<Rightarrow> instant \<Rightarrow> idempotency_record list \<Rightarrow> request \<Rightarrow> account option \<Rightarrow> json
     \<Rightarrow> nat \<Rightarrow> json option \<Rightarrow> app_state \<Rightarrow> response \<times> app_state" where
  "wrap_json sha render now racing req acc payload status_code request_body st =
     (\<lparr>resp_status = status_code, resp_body = render payload, resp_content_type = ''application/json'', resp_replay = False\<rparr>,
      persist sha now racing req acc status_code (ascii_encode (dumps_default payload)) ''application/json''
        request_body st)"

section \<open>Isolation of keys\<close>

lemma no_bar_upper: "CHR ''|'' \<notin> set s \<Longrightarrow> CHR ''|'' \<notin> set (py_upper s)"
proof -
  have "char_upper c = CHR ''|'' \<Longrightarrow> c = CHR ''|''" for c
  proof -
    assume a: "char_upper c = CHR ''|''"
    show "c = CHR ''|''"
    proof (cases "97 \<le> char_code c \<and> char_code c \<le> 122")
      case True
      then have "char_code (char_upper c) = char_code c - 32" 
        using char_code_char_of [of "char_code c - 32"] char_code_lt [of c] by (auto simp: char_upper_def)
      then have "char_code (CHR ''|'') = char_code c - 32" using a by simp
      moreover have "char_code (CHR ''|'') = 124" by (simp add: char_code_def)
      ultimately have False using True by linarith
      then show ?thesis ..
    next
      case False
      with a show ?thesis by (simp add: char_upper_def)
    qed
  qed
  then show "CHR ''|'' \<notin> set s \<Longrightarrow> CHR ''|'' \<notin> set (py_upper s)" 
    unfolding py_upper_def set_map by (metis imageE)
qed

lemma no_bar_tag: "CHR ''|'' \<notin> set (account_tag a)"
proof -
  have "CHR ''|'' \<notin> set (show_nat n)" for n
    using show_nat_digits [of "CHR ''|''" n] by (auto simp: is_digit_def char_code_def)
  then show ?thesis by (auto simp: account_tag_def show_int_def split: option.splits)
qed

lemma split_first: "c \<notin> set a \<Longrightarrow> c \<notin> set b \<Longrightarrow> a @ c # x = b @ c # y \<Longrightarrow> a = b \<and> x = y"
  by (induction a arbitrary: b) (auto simp: Cons_eq_append_conv append_eq_Cons_conv)

lemma key_seed_inj:
  assumes "key_seed a h p k = key_seed a' h' p' k'" and "CHR ''|'' \<notin> set h" and "CHR ''|'' \<notin> set h'"
  shows "account_tag a = account_tag a' \<and> py_upper h = py_upper h' \<and> p @ ''|'' @ k = p' @ ''|'' @ k'"
proof -
  have "account_tag a = account_tag a' \<and> py_upper h @ ''|'' @ p @ ''|'' @ k = py_upper h' @ ''|'' @ p' @ ''|'' @ k'"
    using assms(1) by (intro split_first [of "CHR ''|''"]) (simp_all add: no_bar_tag key_seed_def)
  moreover from this have "py_upper h = py_upper h' \<and> p @ ''|'' @ k = p' @ ''|'' @ k'"
    using assms(2,3) by (intro split_first [of "CHR ''|''"]) (simp_all add: no_bar_upper)
  ultimately show ?thesis by simp
qed

lemma show_int_inj: "show_int a = show_int b \<Longrightarrow> a = b"
  by (metis read_show_int)

lemma ascii_encode_inj: "ascii_encode a = ascii_encode b \<Longrightarrow> a = b"
proof -
  have "inj (\<lambda>c. of_nat (char_code c) :: 8 word)"
  proof (rule injI)
    fix c d assume "(of_nat (char_code c) :: 8 word) = of_nat (char_code d)"
    then have "unat (of_nat (char_code c) :: 8 word) = unat (of_nat (char_code d) :: 8 word)" by simp
    then show "c = d" using char_code_lt [of c] char_code_lt [of d] by (simp add: unat_byte char_eq_code)
  qed
  then show "ascii_encode a = ascii_encode b \<Longrightarrow> a = b"
    unfolding ascii_encode_def by (metis inj_map_eq_map)
qed

lemma account_tag_pos: "account_tag (Some a) = account_tag (Some b) \<Longrightarrow> 0 < a \<Longrightarrow> 0 < b \<Longrightarrow> a = b"
  by (auto simp: account_tag_def dest: show_int_inj)

lemma tag_not_anon: "0 < a \<Longrightarrow> account_tag (Some a) \<noteq> account_tag None"
proof -
  have "CHR ''a'' \<notin> set (show_nat n)" for n
    using show_nat_digits [of "CHR ''a''" n] by (auto simp: is_digit_def char_code_def)
  then show "0 < a \<Longrightarrow> account_tag (Some a) \<noteq> account_tag None"
    by (auto simp: account_tag_def show_int_def) (metis list.set_intros(1))
qed

text \<open>
  A stored response is replayed to its own request only: when the hash has no
  collisions, two requests share a record only if they come from the same account (or are
  both anonymous), use the same method and have the same path and key text.
\<close>
lemma hash_key_isolates:
  assumes "inj sha" and "CHR ''|'' \<notin> set h" and "CHR ''|'' \<notin> set h'"
    and "\<And>i. a = Some i \<or> a' = Some i \<Longrightarrow> 0 < i"
    and "hash_key sha a h p k = hash_key sha a' h' p' k'"
  shows "a = a' \<and> py_upper h = py_upper h' \<and> p @ ''|'' @ k = p' @ ''|'' @ k'"
proof -
  have "key_seed a h p k = key_seed a' h' p' k'"
    using assms(1,5) by (auto simp: hash_key_def dest: injD ascii_encode_inj)
  from key_seed_inj [OF this assms(2,3)] have
    r: "account_tag a = account_tag a'" "py_upper h = py_upper h' \<and> p @ ''|'' @ k = p' @ ''|'' @ k'" by auto
  have "a = a'"
    using r(1) assms(4) account_tag_pos tag_not_anon by (cases a; cases a') (metis, metis, metis, metis)
  with r show ?thesis by simp
qed

text \<open>Two accounts with the same key on the same path.\<close>
lemma hash_key_isolates_witness:
  "hash_key (map (\<lambda>w. char_of (unat w))) (Some 1) ''POST'' ''/x'' ''k''
     \<noteq> hash_key (map (\<lambda>w. char_of (unat w))) (Some 2) ''POST'' ''/x'' ''k''"
proof
  have i: "inj (map (\<lambda>w :: 8 word. char_of (unat w)))"
  proof (rule inj_mapI, rule injI)
    fix v w :: "8 word" assume "(char_of (unat v) :: char) = char_of (unat w)"
    moreover have "unat v < 256" "unat w < 256" using unsigned_less [of v] unsigned_less [of w] by simp_all
    ultimately have "unat v = unat w" by (metis char_code_char_of)
    then show "v = w" by (simp add: unsigned_word_eqI)
  qed
  assume "hash_key (map (\<lambda>w. char_of (unat w))) (Some 1) ''POST'' ''/x'' ''k''
     = hash_key (map (\<lambda>w. char_of (unat w))) (Some 2) ''POST'' ''/x'' ''k''"
  then have "Some (1 :: int) = Some 2"
    using hash_key_isolates [OF i, of "''POST''" "''POST''" "Some 1" "Some 2" "''/x''" "''k''" "''/x''" "''k''"] by fastforce
  then show False by simp
qed

section \<open>Replay\<close>

text \<open>
  C10: Exactly-once retries: after the first response to a key has been stored, a retry by
  the same account with the same body within 24 hours gets that very response and changes
  nothing; a retry with another body is refused with 422; a second writer never replaces
  the first response; and after 24 hours the key is free again.
\<close>
theorem replay_after_persist:
  assumes "req_idempotency_key req = Some key" and "4 \<le> length key" and "length key \<le> 128"
    and "row_get acc_id (acc_id acc) (accounts (db st)) \<noteq> None"
    and "row_get idem_key_hash (hash_key sha (Some (acc_id acc)) (req_method req) (req_path req) key)
           (idempotency_records (db st)) = None"
  shows "let st1 = persist sha now [] req (Some acc) code body ct (Some b) st;
             resp = \<lparr>resp_status = code, resp_body = body, resp_content_type = ct, resp_replay = True\<rparr>
         in (t < now + 86400 \<longrightarrow>
               replay_if_present sha t req (Some acc) (Some b') st1 =
                 (if sha (canonical_bytes b') = sha (canonical_bytes b) then (Inr (Some resp), st1)
                  else (Inl (HTTPException 422 ''Idempotency-Key reused with a different request body''), st1)))
          \<and> persist sha t [] req (Some acc) code' body' ct' (Some b') st1 = st1
          \<and> (now + 86400 \<le> t \<longrightarrow> fst (replay_if_present sha t req (Some acc) (Some b') st1) = Inr None)"
proof -
  define h where "h = hash_key sha (Some (acc_id acc)) (req_method req) (req_path req) key"
  define row where "row = \<lparr>idem_key_hash = h, idem_account_id = Some (acc_id acc), idem_method = py_upper (req_method req),
      idem_path = req_path req, idem_body_hash = Some (sha (canonical_bytes b)), idem_status_code = code,
      idem_response_body = body, idem_content_type = ct, idem_created_at = now, idem_expires_at = now + 86400\<rparr>"
  define st1 where "st1 = persist sha now [] req (Some acc) code body ct (Some b) st"
  have key: "key \<noteq> []" using assms(2) by auto
  have s0: "see_records [] s = s" for s by (simp add: see_records_def)
  have st1: "st1 = st\<lparr>db := (db st)\<lparr>idempotency_records := row_add row (idempotency_records (db st))\<rparr>\<rparr>"
    using assms key by (simp add: st1_def persist_def s0 idem_row_ok_def row_def h_def canonical_body_hash_def
        IDEMPOTENCY_TTL_SECONDS_def Let_def)
  have get: "row_get idem_key_hash h (idempotency_records (db st1)) = Some row"
    using assms(5) by (simp add: st1 row_get_add h_def [symmetric]) (simp add: row_def)
  have "replay_if_present sha t req (Some acc) (Some b') st1 =
      (if sha (canonical_bytes b') = sha (canonical_bytes b)
       then (Inr (Some \<lparr>resp_status = code, resp_body = body, resp_content_type = ct, resp_replay = True\<rparr>), st1)
       else (Inl (HTTPException 422 ''Idempotency-Key reused with a different request body''), st1))" if "t < now + 86400"
    using assms(1-3) key that get
    by (simp add: replay_if_present_def h_def [symmetric] Let_def canonical_body_hash_def) (simp add: row_def)
  moreover have "fst (replay_if_present sha t req (Some acc) (Some b') st1) = Inr None" if "now + 86400 \<le> t"
    using assms(1-3) key that get
    by (simp add: replay_if_present_def h_def [symmetric] Let_def) (simp add: row_def)
  moreover have "persist sha t [] req (Some acc) code' body' ct' (Some b') st1 = st1"
    using assms(1) key get by (simp add: persist_def s0 idem_row_ok_def h_def [symmetric] Let_def)
  ultimately show ?thesis unfolding st1_def Let_def by blast
qed

text \<open>A retry half an hour later.\<close>
theorem replay_after_persist_witness:
  "let sha = map (\<lambda>w. char_of (unat w));
       st1 = persist sha 1000 [] demo_request (Some demo_account) 201 [1, 2] ''application/json'' (Some JNull) demo_state
   in replay_if_present sha 2800 demo_request (Some demo_account) (Some JNull) st1 =
        (Inr (Some \<lparr>resp_status = 201, resp_body = [1, 2], resp_content_type = ''application/json'', resp_replay = True\<rparr>), st1)"
proof -
  have k: "req_idempotency_key demo_request = Some ''key-1''" by (simp add: demo_request_def)
  have a: "row_get acc_id (acc_id demo_account) (accounts (db demo_state)) \<noteq> None"
    by (simp add: demo_state_def demo_db_def row_get_def)
  have n: "row_get idem_key_hash x (idempotency_records (db demo_state)) = None" for x
    by (simp add: demo_state_def demo_db_def empty_db_def)
  show ?thesis
    using replay_after_persist [OF k _ _ a n, where t = 2800 and now = 1000 and b = JNull and b' = JNull
        and sha = "map (\<lambda>w. char_of (unat w))" and code = 201 and body = "[1, 2]" and ct = "''application/json''"]
    unfolding Let_def by simp
qed

end
