(* ===== verification/Pats.thy ===== *)
theory Pats
  imports Snapshot_Store
begin

text \<open>
  Personal access tokens (\<^verbatim>\<open>app/pats.py\<close>, \<^verbatim>\<open>app/api_pats.py\<close>): issue, revocation,
  rotation, authentication and the endpoints over them. bcrypt is the parameter
  \<open>bcrypt_lib\<close> (a check that raises counts as a mismatch, as in the code); the random
  part of a token and the salt are arguments.
\<close>

record bcrypt_lib =
  hashpw :: "string \<Rightarrow> string \<Rightarrow> string"
  checkpw :: "string \<Rightarrow> string \<Rightarrow> bool"

text \<open>What is relied on: a hash verifies the token it was made from, and no other token.\<close>

definition bcrypt_ok :: "bcrypt_lib \<Rightarrow> bool" where
  "bcrypt_ok bc \<longleftrightarrow> (\<forall>t t' salt. checkpw bc t (hashpw bc t' salt) = (t = t'))"

definition TOKEN_PREFIX :: string where
  "TOKEN_PREFIX = ''nks_pat_''"

definition PREFIX_PERSISTED_LEN :: nat where
  "PREFIX_PERSISTED_LEN = 10"

definition generate_token :: "string \<Rightarrow> string" where
  "generate_token rand = TOKEN_PREFIX @ rand"

definition pat_name_of :: "string \<Rightarrow> string" where
  "pat_name_of name = str_or (take 128 (py_strip name)) ''unnamed''"

definition issue ::
  "bcrypt_lib \<Rightarrow> (int list \<Rightarrow> int) \<Rightarrow> instant \<Rightarrow> string \<Rightarrow> string \<Rightarrow> int \<Rightarrow> string \<Rightarrow> instant option \<Rightarrow> bool
     \<Rightarrow> string list option \<Rightarrow> database \<Rightarrow> (personal_access_token \<times> string) \<times> database" where
  "issue bc alloc now rand salt account_id name expires_at read_only ip_allowlist d =
     (let plaintext = generate_token rand;
          row = \<lparr>pat_id = alloc (map pat_id (personal_access_tokens d)), pat_account_id = account_id,
                 pat_name = pat_name_of name, pat_token_hash = hashpw bc plaintext salt,
                 pat_token_prefix = take PREFIX_PERSISTED_LEN plaintext, pat_created_at = now,
                 pat_last_used_at = None, pat_last_used_ip = None, pat_last_used_ua = None,
                 pat_revoked_at = None, pat_expires_at = expires_at, pat_read_only = read_only,
                 pat_ip_allowlist = (if ip_allowlist = Some [] then None else ip_allowlist)\<rparr>
      in ((row, plaintext), d\<lparr>personal_access_tokens := row_add row (personal_access_tokens d)\<rparr>))"

definition pat_revoke :: "instant \<Rightarrow> int \<Rightarrow> int \<Rightarrow> database \<Rightarrow> bool \<times> database" where
  "pat_revoke now account_id token_id d =
     (case row_get pat_id token_id (personal_access_tokens d) of
        None \<Rightarrow> (False, d)
      | Some row \<Rightarrow>
        if pat_account_id row \<noteq> account_id then (False, d)
        else if pat_revoked_at row \<noteq> None then (True, d)
        else (True, d\<lparr>personal_access_tokens :=
               row_set pat_id token_id (pat_revoked_at_update (\<lambda>_. Some now)) (personal_access_tokens d)\<rparr>))"

definition rotate ::
  "bcrypt_lib \<Rightarrow> (int list \<Rightarrow> int) \<Rightarrow> instant \<Rightarrow> string \<Rightarrow> string \<Rightarrow> int \<Rightarrow> int \<Rightarrow> database
     \<Rightarrow> (int \<times> personal_access_token \<times> string) option \<times> database" where
  "rotate bc alloc now rand salt account_id token_id d =
     (case row_get pat_id token_id (personal_access_tokens d) of
        None \<Rightarrow> (None, d)
      | Some old \<Rightarrow>
        if pat_account_id old \<noteq> account_id then (None, d)
        else if pat_revoked_at old \<noteq> None then (None, d)
        else (let expires_at = (case pat_expires_at old of None \<Rightarrow> None
                                | Some t \<Rightarrow> if now < t then Some t else None);
                  d1 = d\<lparr>personal_access_tokens :=
                    row_set pat_id token_id (pat_revoked_at_update (\<lambda>_. Some now)) (personal_access_tokens d)\<rparr>;
                  ((row, plaintext), d2) = issue bc alloc now rand salt account_id (pat_name old) expires_at
                    (pat_read_only old) (pat_ip_allowlist old) d1
              in (Some (pat_id old, row, plaintext), d2)))"

definition list_for ::
  "(personal_access_token list \<Rightarrow> personal_access_token list) \<Rightarrow> int \<Rightarrow> database \<Rightarrow> personal_access_token list" where
  "list_for order account_id d = order (filter (\<lambda>r. pat_account_id r = account_id) (personal_access_tokens d))"

section \<open>Authentication\<close>

text \<open>The stamp of a use: time, address and the first 256 characters of the user agent.\<close>

definition stamp_use ::
  "environment \<Rightarrow> instant \<Rightarrow> request option \<Rightarrow> personal_access_token \<Rightarrow> personal_access_token" where
  "stamp_use env now req row =
     (case req of None \<Rightarrow> row\<lparr>pat_last_used_at := Some now\<rparr>
      | Some r \<Rightarrow>
        row\<lparr>pat_last_used_at := Some now,
            pat_last_used_ip := Some (client_ip (env_ip_address env) (env_trusted env) r),
            pat_last_used_ua := (case req_user_agent r of None \<Rightarrow> None
              | Some ua \<Rightarrow> if take 256 ua = [] then None else Some (take 256 ua))\<rparr>)"

definition pat_live :: "instant \<Rightarrow> personal_access_token \<Rightarrow> bool" where
  "pat_live now row = (case pat_expires_at row of None \<Rightarrow> True | Some t \<Rightarrow> now < t)"

text \<open>The loop over the candidates: the first live row whose hash matches decides.\<close>

definition try_authenticate_pat ::
  "bcrypt_lib \<Rightarrow> environment \<Rightarrow> instant \<Rightarrow> string \<Rightarrow> request option \<Rightarrow> database
     \<Rightarrow> (account \<times> personal_access_token) option \<times> database" where
  "try_authenticate_pat bc env now bearer req d =
     (if bearer = [] \<or> \<not> prefix TOKEN_PREFIX bearer then (None, d)
      else (case find (\<lambda>r. pat_token_prefix r = take PREFIX_PERSISTED_LEN bearer \<and> pat_revoked_at r = None \<and>
                          pat_live now r \<and> checkpw bc bearer (pat_token_hash r)) (personal_access_tokens d) of
        None \<Rightarrow> (None, d)
      | Some row \<Rightarrow>
        (case row_get acc_id (pat_account_id row) (accounts d) of
           None \<Rightarrow> (None, d)
         | Some acc \<Rightarrow>
           if acc_suspended_at acc \<noteq> None then (None, d)
           else (Some (acc, stamp_use env now req row),
                 d\<lparr>personal_access_tokens :=
                   row_set pat_id (pat_id row) (\<lambda>_. stamp_use env now req row) (personal_access_tokens d)\<rparr>))))"

section \<open>Endpoints\<close>

record token_create_request =
  tcr_name :: string
  tcr_ttl_days :: "int option"
  tcr_read_only :: bool
  tcr_ip_allowlist :: "string list option"

text \<open>The request model: name length, lifetime bounds and well-formed networks; else 422.\<close>

definition token_request_valid :: "(string \<Rightarrow> ip_net option) \<Rightarrow> token_create_request \<Rightarrow> bool" where
  "token_request_valid ip_network b \<longleftrightarrow> 1 \<le> length (tcr_name b) \<and> length (tcr_name b) \<le> 128 \<and>
     (case tcr_ttl_days b of None \<Rightarrow> True | Some k \<Rightarrow> 1 \<le> k \<and> k \<le> 365) \<and>
     (case tcr_ip_allowlist b of None \<Rightarrow> True | Some es \<Rightarrow> list_all (\<lambda>e. ip_network e \<noteq> None) es)"

definition pat_detail :: "environment \<Rightarrow> (string \<times> json) list \<Rightarrow> personal_access_token \<Rightarrow> json" where
  "pat_detail env extra row =
     JObj (extra @ [(''expires_at'', jopt_str (map_option (env_isoformat env) (pat_expires_at row))),
           (''read_only'', JBool (pat_read_only row)),
           (''ip_allowlist_count'', JInt (int (case pat_ip_allowlist row of None \<Rightarrow> 0 | Some es \<Rightarrow> length es)))])"

definition create_token ::
  "bcrypt_lib \<Rightarrow> (string \<Rightarrow> ip_net option) \<Rightarrow> environment \<Rightarrow> instant \<Rightarrow> string \<Rightarrow> string \<Rightarrow> request
     \<Rightarrow> token_create_request \<Rightarrow> account \<Rightarrow> (personal_access_token \<times> string) handler" where
  "create_token bc ip_network env now rand salt req b acc st =
     (if \<not> token_request_valid ip_network b then (Inl (HTTPException 422 ''validation''), st)
      else (let expires_at = (case tcr_ttl_days b of None \<Rightarrow> None
                              | Some k \<Rightarrow> if k = 0 then None else Some (now + k * 86400));
                ((row, plaintext), d1) = issue bc (env_alloc env) now rand salt (acc_id acc) (tcr_name b)
                  expires_at (tcr_read_only b) (tcr_ip_allowlist b) (db st);
                st1 = emit env now (Some acc) ''pat.created'' (Some req) (Some ''pat'') (Some (show_int (pat_id row)))
                  (Some (pat_detail env [(''name'', JStr (pat_name row)), (''prefix'', JStr (pat_token_prefix row))] row))
                  (st\<lparr>db := d1\<rparr>)
            in (Inr (row, plaintext), st1)))"

definition rotate_token ::
  "bcrypt_lib \<Rightarrow> environment \<Rightarrow> instant \<Rightarrow> string \<Rightarrow> string \<Rightarrow> request \<Rightarrow> int \<Rightarrow> account
     \<Rightarrow> (personal_access_token \<times> string) handler" where
  "rotate_token bc env now rand salt req token_id acc st =
     (case rotate bc (env_alloc env) now rand salt (acc_id acc) token_id (db st) of
        (None, d1) \<Rightarrow> (Inl (HTTPException 404 ''Token not found''), st\<lparr>db := d1\<rparr>)
      | (Some (old_id, row, plaintext), d1) \<Rightarrow>
        (Inr (row, plaintext),
         emit env now (Some acc) ''pat.rotated'' (Some req) (Some ''pat'') (Some (show_int (pat_id row)))
           (Some (pat_detail env [(''old_token_id'', JInt old_id), (''new_name'', JStr (pat_name row)),
              (''new_prefix'', JStr (pat_token_prefix row))] row)) (st\<lparr>db := d1\<rparr>)))"

definition revoke_token :: "environment \<Rightarrow> instant \<Rightarrow> request \<Rightarrow> int \<Rightarrow> account \<Rightarrow> unit handler" where
  "revoke_token env now req token_id acc st =
     (case pat_revoke now (acc_id acc) token_id (db st) of
        (False, d1) \<Rightarrow> (Inl (HTTPException 404 ''Token not found''), st\<lparr>db := d1\<rparr>)
      | (True, d1) \<Rightarrow>
        (Inr (), emit env now (Some acc) ''pat.revoked'' (Some req) (Some ''pat'') (Some (show_int token_id)) None
           (st\<lparr>db := d1\<rparr>)))"

section \<open>Soundness of authentication\<close>

definition pats_ok :: "database \<Rightarrow> bool" where
  "pats_ok d \<longleftrightarrow> pk pat_id (personal_access_tokens d)"

lemma try_authenticate_Some:
  assumes "try_authenticate_pat bc env now bearer req d = (Some (acc, row'), d')"
  shows "\<exists>row. row \<in> set (personal_access_tokens d) \<and> pat_revoked_at row = None \<and> pat_live now row
     \<and> checkpw bc bearer (pat_token_hash row) \<and> row' = stamp_use env now req row
     \<and> row_get acc_id (pat_account_id row) (accounts d) = Some acc \<and> acc_suspended_at acc = None
     \<and> accounts d' = accounts d \<and> prefix TOKEN_PREFIX bearer"
  using assms
  by (auto simp: try_authenticate_pat_def find_Some_iff in_set_conv_nth split: if_splits option.splits)

lemma stamp_use_fields [simp]:
  "pat_id (stamp_use env now req row) = pat_id row"
  "pat_account_id (stamp_use env now req row) = pat_account_id row"
  "pat_revoked_at (stamp_use env now req row) = pat_revoked_at row"
  "pat_expires_at (stamp_use env now req row) = pat_expires_at row"
  "pat_read_only (stamp_use env now req row) = pat_read_only row"
  "pat_ip_allowlist (stamp_use env now req row) = pat_ip_allowlist row"
  "pat_token_hash (stamp_use env now req row) = pat_token_hash row"
  by (simp_all add: stamp_use_def split: option.splits)

text \<open>
  C11: A personal access token authenticates only its owner: whenever a bearer value is
  accepted, there is a stored token row that is neither revoked nor expired and whose hash
  verifies that value, the account is the row's owner and is not suspended, and accepting
  it changes nothing but the row's use stamp.
\<close>
theorem pat_authentication_sound:
  assumes "try_authenticate_pat bc env now bearer req d = (Some (acc, row'), d')"
  shows "\<exists>row \<in> set (personal_access_tokens d). checkpw bc bearer (pat_token_hash row)
     \<and> pat_revoked_at row = None \<and> (\<forall>t. pat_expires_at row = Some t \<longrightarrow> now < t)
     \<and> acc \<in> set (accounts d) \<and> acc_id acc = pat_account_id row \<and> acc_suspended_at acc = None
     \<and> pat_read_only row' = pat_read_only row \<and> pat_ip_allowlist row' = pat_ip_allowlist row
     \<and> d' = d\<lparr>personal_access_tokens := personal_access_tokens d'\<rparr>"
proof -
  have frame: "d' = d\<lparr>personal_access_tokens := personal_access_tokens d'\<rparr>"
    using assms by (auto simp: try_authenticate_pat_def split: if_splits option.splits)
  from try_authenticate_Some [OF assms] obtain row where
    "row \<in> set (personal_access_tokens d)" "pat_revoked_at row = None" "pat_live now row"
    "checkpw bc bearer (pat_token_hash row)" "row' = stamp_use env now req row"
    "row_get acc_id (pat_account_id row) (accounts d) = Some acc" "acc_suspended_at acc = None" by blast
  with frame show ?thesis
    by (intro bexI [of _ row]) (auto simp: pat_live_def dest!: row_get_Some)
qed

definition demo_bcrypt :: bcrypt_lib where
  "demo_bcrypt = \<lparr>hashpw = (\<lambda>t s. t), checkpw = (=)\<rparr>"

lemma demo_bcrypt_ok: "bcrypt_ok demo_bcrypt"
  by (simp add: bcrypt_ok_def demo_bcrypt_def)

definition demo_env :: environment where
  "demo_env = \<lparr>env_ip_address = (\<lambda>_. None), env_trusted = TrustNets [],
    env_disable_webhooks = False, env_alloc = max_alloc, env_isoformat = show_int\<rparr>"

definition demo_pat_db :: database where
  "demo_pat_db = snd (issue demo_bcrypt max_alloc 0 ''abcdefgh'' ''s'' 1 ''cli'' (Some 500) True None demo_db)"

theorem pat_authentication_sound_witness:
  "\<exists>acc row d'. try_authenticate_pat demo_bcrypt demo_env 100 ''nks_pat_abcdefgh'' None demo_pat_db = (Some (acc, row), d')
     \<and> acc_id acc = 1 \<and> acc_suspended_at acc = None"
proof -
  have "fst (try_authenticate_pat demo_bcrypt demo_env 100 ''nks_pat_abcdefgh'' None demo_pat_db) \<noteq> None"
    by (simp add: try_authenticate_pat_def demo_pat_db_def issue_def demo_db_def empty_db_def row_add_def row_get_def
        demo_bcrypt_def TOKEN_PREFIX_def PREFIX_PERSISTED_LEN_def generate_token_def pat_live_def demo_account_def Let_def)
  then obtain acc row d' where
    e: "try_authenticate_pat demo_bcrypt demo_env 100 ''nks_pat_abcdefgh'' None demo_pat_db = (Some (acc, row), d')"
    by (cases "try_authenticate_pat demo_bcrypt demo_env 100 ''nks_pat_abcdefgh'' None demo_pat_db") auto
  have a: "accounts demo_pat_db = [demo_account]" by (simp add: demo_pat_db_def issue_def demo_db_def Let_def)
  show ?thesis using pat_authentication_sound [OF e] e a by (auto simp: demo_account_def)
qed

section \<open>Rotation and revocation\<close>

lemma issue_shape:
  "issue bc alloc now rand salt a n e ro al d =
     ((fst (fst (issue bc alloc now rand salt a n e ro al d)), generate_token rand),
      d\<lparr>personal_access_tokens := personal_access_tokens d @ [fst (fst (issue bc alloc now rand salt a n e ro al d))]\<rparr>)"
  by (simp add: issue_def row_add_def Let_def)

lemma rotate_Some:
  assumes "rotate bc alloc now rand salt aid i d = (Some (old_id, row, tok), d')"
  shows "\<exists>old. row_get pat_id i (personal_access_tokens d) = Some old \<and> pat_account_id old = aid
     \<and> pat_revoked_at old = None \<and> old_id = i
     \<and> d' = d\<lparr>personal_access_tokens := row_set pat_id i (pat_revoked_at_update (\<lambda>_. Some now)) (personal_access_tokens d) @ [row]\<rparr>
     \<and> row = fst (fst (issue bc alloc now rand salt aid (pat_name old)
          (case pat_expires_at old of None \<Rightarrow> None | Some t \<Rightarrow> if now < t then Some t else None)
          (pat_read_only old) (pat_ip_allowlist old)
          (d\<lparr>personal_access_tokens := row_set pat_id i (pat_revoked_at_update (\<lambda>_. Some now)) (personal_access_tokens d)\<rparr>)))
     \<and> tok = generate_token rand"
proof -
  from assms obtain old where old: "row_get pat_id i (personal_access_tokens d) = Some old" "pat_account_id old = aid"
    "pat_revoked_at old = None" by (auto simp: rotate_def split: option.splits if_splits)
  have "pat_id old = i" using row_get_Some [OF old(1)] by simp
  with assms old show ?thesis 
    by (subst (asm) rotate_def, simp add: Let_def, subst (asm) issue_shape) auto
qed

text \<open>
  Rotation hands over exactly the rights of the old token: the old row is revoked at
  that instant and every other row stays as it is, the new row belongs to the same
  account, is as read-only and as restricted to networks as the old one, and a future
  expiry is carried over unchanged. A token of another account, an unknown or an already
  revoked one is not rotated and nothing changes.
\<close>
lemma rotate_transfers_rights:
  assumes "pats_ok d"
  shows "(\<forall>old_id row tok d'. rotate bc alloc now rand salt aid i d = (Some (old_id, row, tok), d') \<longrightarrow>
      (\<exists>old. row_get pat_id i (personal_access_tokens d) = Some old \<and> pat_account_id old = aid
         \<and> old \<lparr>pat_revoked_at := Some now\<rparr> \<in> set (personal_access_tokens d')
         \<and> (\<forall>r \<in> set (personal_access_tokens d). pat_id r \<noteq> i \<longrightarrow> r \<in> set (personal_access_tokens d'))
         \<and> row \<in> set (personal_access_tokens d') \<and> pat_account_id row = aid \<and> pat_revoked_at row = None
         \<and> pat_read_only row = pat_read_only old
         \<and> (pat_ip_allowlist row = pat_ip_allowlist old \<or> pat_ip_allowlist old = Some [] \<and> pat_ip_allowlist row = None)
         \<and> (\<forall>t. pat_expires_at old = Some t \<and> now < t \<longrightarrow> pat_expires_at row = Some t)))
    \<and> (\<forall>d'. rotate bc alloc now rand salt aid i d = (None, d') \<longrightarrow> d' = d)
    \<and> (\<forall>old. row_get pat_id i (personal_access_tokens d) = Some old \<and> (pat_account_id old \<noteq> aid \<or> pat_revoked_at old \<noteq> None)
         \<longrightarrow> fst (rotate bc alloc now rand salt aid i d) = None)"
proof (intro conjI allI impI)
  fix old_id row tok d'
  assume r: "rotate bc alloc now rand salt aid i d = (Some (old_id, row, tok), d')"
  from rotate_Some [OF r] obtain old where
    old: "row_get pat_id i (personal_access_tokens d) = Some old" "pat_account_id old = aid" "pat_revoked_at old = None"
    and d': "personal_access_tokens d' = row_set pat_id i (pat_revoked_at_update (\<lambda>_. Some now)) (personal_access_tokens d) @ [row]"
    and row: "row = fst (fst (issue bc alloc now rand salt aid (pat_name old)
          (case pat_expires_at old of None \<Rightarrow> None | Some t \<Rightarrow> if now < t then Some t else None)
          (pat_read_only old) (pat_ip_allowlist old)
          (d\<lparr>personal_access_tokens := row_set pat_id i (pat_revoked_at_update (\<lambda>_. Some now)) (personal_access_tokens d)\<rparr>)))"
    by auto
  have o: "old \<in> set (personal_access_tokens d)" "pat_id old = i" using row_get_Some [OF old(1)] by auto
  have "old\<lparr>pat_revoked_at := Some now\<rparr> \<in> set (personal_access_tokens d')"
    using o unfolding d' by (auto simp: set_row_set image_iff intro!: bexI [of _ old])
  moreover have "\<forall>r \<in> set (personal_access_tokens d). pat_id r \<noteq> i \<longrightarrow> r \<in> set (personal_access_tokens d')"
    unfolding d' by (auto simp: set_row_set image_iff)
  moreover have "row \<in> set (personal_access_tokens d')" by (simp add: d')
  moreover have "pat_account_id row = aid \<and> pat_revoked_at row = None \<and> pat_read_only row = pat_read_only old
      \<and> (pat_ip_allowlist row = pat_ip_allowlist old \<or> pat_ip_allowlist old = Some [] \<and> pat_ip_allowlist row = None)
      \<and> (\<forall>t. pat_expires_at old = Some t \<and> now < t \<longrightarrow> pat_expires_at row = Some t)"
    by (auto simp: row issue_def Let_def)
  ultimately show "\<exists>old. row_get pat_id i (personal_access_tokens d) = Some old \<and> pat_account_id old = aid
         \<and> old \<lparr>pat_revoked_at := Some now\<rparr> \<in> set (personal_access_tokens d')
         \<and> (\<forall>r \<in> set (personal_access_tokens d). pat_id r \<noteq> i \<longrightarrow> r \<in> set (personal_access_tokens d'))
         \<and> row \<in> set (personal_access_tokens d') \<and> pat_account_id row = aid \<and> pat_revoked_at row = None
         \<and> pat_read_only row = pat_read_only old
         \<and> (pat_ip_allowlist row = pat_ip_allowlist old \<or> pat_ip_allowlist old = Some [] \<and> pat_ip_allowlist row = None)
         \<and> (\<forall>t. pat_expires_at old = Some t \<and> now < t \<longrightarrow> pat_expires_at row = Some t)"
    using old by blast
qed (auto simp: rotate_def issue_def Let_def split: option.splits if_splits)

lemma rotate_transfers_rights_witness:
  "\<exists>old_id row tok d'. rotate demo_bcrypt max_alloc 100 ''zzzz'' ''s'' 1 1 demo_pat_db = (Some (old_id, row, tok), d')
     \<and> pat_read_only row \<and> pat_expires_at row = Some 500"
proof -
  have ok: "pats_ok demo_pat_db" by (simp add: pats_ok_def demo_pat_db_def issue_def demo_db_def empty_db_def row_add_def pk_def Let_def)
  have t: "personal_access_tokens demo_pat_db = [fst (fst (issue demo_bcrypt max_alloc 0 ''abcdefgh'' ''s'' 1 ''cli'' (Some 500) True None demo_db))]"
    by (simp add: demo_pat_db_def issue_def demo_db_def empty_db_def row_add_def Let_def)
  have "fst (rotate demo_bcrypt max_alloc 100 ''zzzz'' ''s'' 1 1 demo_pat_db) \<noteq> None"
    by (simp add: rotate_def t row_get_def) (simp add: issue_def demo_db_def empty_db_def max_alloc_def Let_def)
  then obtain old_id row tok d' where
    e: "rotate demo_bcrypt max_alloc 100 ''zzzz'' ''s'' 1 1 demo_pat_db = (Some (old_id, row, tok), d')"
    by (cases "rotate demo_bcrypt max_alloc 100 ''zzzz'' ''s'' 1 1 demo_pat_db") auto
  from rotate_transfers_rights [OF ok, of demo_bcrypt max_alloc 100 "''zzzz''" "''s''" 1 1] e obtain old where
    "row_get pat_id 1 (personal_access_tokens demo_pat_db) = Some old" "pat_read_only row = pat_read_only old"
    "\<forall>t. pat_expires_at old = Some t \<and> 100 < t \<longrightarrow> pat_expires_at row = Some t" by blast
  with e t show ?thesis by (auto simp: row_get_def issue_def demo_db_def empty_db_def max_alloc_def Let_def split: if_splits)
qed

text \<open>
  Rotation can outlive its token: an unrevoked token that has already expired is
  rotated as well, and its replacement has no expiry at all.
\<close>
lemma rotate_expired_token_never_expires:
  assumes "row_get pat_id i (personal_access_tokens d) = Some old" and "pat_account_id old = aid"
    and "pat_revoked_at old = None" and "pat_expires_at old = Some t" and "t \<le> now"
  shows "\<exists>row d'. rotate bc alloc now rand salt aid i d = (Some (i, row, generate_token rand), d')
     \<and> pat_expires_at row = None"
  using assms row_get_Some [OF assms(1)] by (simp add: rotate_def issue_def Let_def)

theorem rotate_expired_token_never_expires_witness:
  "\<exists>row d'. rotate demo_bcrypt max_alloc 900 ''zzzz'' ''s'' 1 1 demo_pat_db = (Some (1, row, generate_token ''zzzz''), d')
     \<and> pat_expires_at row = None"
proof -
  have t: "personal_access_tokens demo_pat_db = [fst (fst (issue demo_bcrypt max_alloc 0 ''abcdefgh'' ''s'' 1 ''cli'' (Some 500) True None demo_db))]"
    by (simp add: demo_pat_db_def issue_def demo_db_def empty_db_def row_add_def Let_def)
  then obtain old where "row_get pat_id 1 (personal_access_tokens demo_pat_db) = Some old" "pat_account_id old = 1"
    "pat_revoked_at old = None" "pat_expires_at old = Some 500"
    by (auto simp: row_get_def issue_def demo_db_def empty_db_def max_alloc_def Let_def)
  then show ?thesis by (rule rotate_expired_token_never_expires) simp
qed

end
