(* ===== verification/Auth.thy ===== *)
theory Auth
  imports Pats Roles
begin

text \<open>
  Accounts and tokens (the first half of \<^verbatim>\<open>app/devices.py\<close>): JSON web tokens, the
  revocation check with its cache, login with lock-out, registration, logout and the two
  account dependencies; and \<open>require_role\<close> of \<^verbatim>\<open>app/permissions.py\<close>. The JWT library is
  the parameter \<open>jwt_lib\<close>; passwords go through bcrypt (\<^verbatim>\<open>hash_password\<close>,
  \<^verbatim>\<open>verify_password\<close> of \<^verbatim>\<open>app/auth.py\<close>).
\<close>

section \<open>Tokens\<close>

record claims =
  clm_sub :: string
  clm_email :: string
  clm_exp :: instant
  clm_jti :: string
  clm_tv :: "int option"

text \<open>
  \<open>jwt_decode\<close> gives None when the library raises: bad signature, wrong issuer, expired,
  or a required claim missing.
\<close>

record jwt_lib =
  jwt_encode :: "claims \<Rightarrow> string"
  jwt_decode :: "instant \<Rightarrow> string \<Rightarrow> claims option"

definition jwt_ok :: "jwt_lib \<Rightarrow> bool" where
  "jwt_ok jl \<longleftrightarrow> (\<forall>c t. jwt_decode jl t (jwt_encode jl c) = (if t < clm_exp c then Some c else None))"

definition JWT_EXPIRE_DAYS :: int where
  "JWT_EXPIRE_DAYS = 30"

definition create_jwt :: "jwt_lib \<Rightarrow> instant \<Rightarrow> string \<Rightarrow> int \<Rightarrow> string \<Rightarrow> int \<Rightarrow> string" where
  "create_jwt jl now jti account_id email token_version =
     jwt_encode jl \<lparr>clm_sub = show_int account_id, clm_email = email,
       clm_exp = now + JWT_EXPIRE_DAYS * 86400, clm_jti = jti, clm_tv = Some token_version\<rparr>"

text \<open>\<open>int(payload["sub"])\<close> on decimal text; None is \<open>ValueError\<close>.\<close>

definition parse_int :: "string \<Rightarrow> int option" where
  "parse_int s = (case s of [] \<Rightarrow> None
     | c # r \<Rightarrow>
       (if c = CHR ''-'' then (if r \<noteq> [] \<and> list_all is_digit r then Some (- int (read_nat r)) else None)
        else if list_all is_digit s then Some (int (read_nat s)) else None))"

section \<open>Revocation\<close>

definition is_revoked :: "int \<Rightarrow> string \<Rightarrow> app_state \<Rightarrow> bool \<times> app_state" where
  "is_revoked t jti st =
     (case cache_get t (revoked_cache st) jti of
        Some hit \<Rightarrow> (hit, st)
      | None \<Rightarrow>
        (let revoked = (row_get rev_jti jti (revoked_tokens (db st)) \<noteq> None) in
         (revoked, st\<lparr>revoked_cache := cache_set t (revoked_cache st) jti revoked None\<rparr>)))"

definition WRITE_METHODS :: "string list" where
  "WRITE_METHODS = [''POST'', ''PUT'', ''PATCH'', ''DELETE'']"

definition unauthorized :: "string \<Rightarrow> exn" where
  "unauthorized m = HTTPException 401 m"

text \<open>The JWT half of the account dependencies: Inl is the reason for refusal.\<close>

definition jwt_account :: "jwt_lib \<Rightarrow> instant \<Rightarrow> string \<Rightarrow> account handler" where
  "jwt_account jl now token st =
     (case jwt_decode jl now token of None \<Rightarrow> (Inl (unauthorized ''Invalid token''), st)
      | Some c \<Rightarrow>
        (case parse_int (clm_sub c) of None \<Rightarrow> (Inl (unauthorized ''Invalid token''), st)
         | Some account_id \<Rightarrow>
           (let (revoked, st1) = (if clm_jti c \<noteq> [] then is_revoked now (clm_jti c) st else (False, st)) in
            if revoked then (Inl (unauthorized ''Token has been revoked''), st1)
            else (case row_get acc_id account_id (accounts (db st1)) of
                    None \<Rightarrow> (Inl (unauthorized ''Account not found''), st1)
                  | Some acc \<Rightarrow>
                    if (case clm_tv c of None \<Rightarrow> 1 | Some v \<Rightarrow> v) \<noteq> acc_token_version acc
                    then (Inl (unauthorized ''Token has been revoked''), st1)
                    else (Inr acc, st1)))))"

text \<open>The address check of a token with an allowlist; malformed entries are skipped.\<close>

definition allowlist_admits ::
  "(string \<Rightarrow> ip_net option) \<Rightarrow> environment \<Rightarrow> request \<Rightarrow> string list option \<Rightarrow> bool" where
  "allowlist_admits ip_network env req allowlist =
     (case allowlist of None \<Rightarrow> True
      | Some cidrs \<Rightarrow>
        cidrs = [] \<or>
        (let host = client_ip (env_ip_address env) (env_trusted env) req in
         host \<noteq> [] \<and>
         (case env_ip_address env host of None \<Rightarrow> False
          | Some addr \<Rightarrow> list_ex (\<lambda>c. case ip_network c of None \<Rightarrow> False | Some n \<Rightarrow> ip_in_net addr n) cidrs)))"

definition get_current_account ::
  "jwt_lib \<Rightarrow> bcrypt_lib \<Rightarrow> (string \<Rightarrow> ip_net option) \<Rightarrow> environment \<Rightarrow> instant \<Rightarrow> request \<Rightarrow> string option
     \<Rightarrow> account handler" where
  "get_current_account jl bc ip_network env now req credentials st =
     (case credentials of None \<Rightarrow> (Inl (unauthorized ''Authentication required''), st)
      | Some token \<Rightarrow>
        if prefix TOKEN_PREFIX token then
          (case try_authenticate_pat bc env now token (Some req) (db st) of
             (None, d1) \<Rightarrow> (Inl (unauthorized ''Invalid token''), st\<lparr>db := d1\<rparr>)
           | (Some (acc, pat), d1) \<Rightarrow>
             (let st1 = st\<lparr>db := d1\<rparr> in
              if pat_read_only pat \<and> req_method req \<in> set WRITE_METHODS
              then (Inl (HTTPException 403 ''Read-only PAT cannot perform write operations''), st1)
              else if \<not> allowlist_admits ip_network env req (pat_ip_allowlist pat)
              then (Inl (unauthorized ''Invalid token''), st1)
              else (Inr acc, st1)))
        else jwt_account jl now token st)"

definition optional_account :: "jwt_lib \<Rightarrow> instant \<Rightarrow> string option \<Rightarrow> app_state \<Rightarrow> account option \<times> app_state" where
  "optional_account jl now credentials st =
     (case credentials of None \<Rightarrow> (None, st)
      | Some token \<Rightarrow>
        (case jwt_account jl now token st of (Inl _, st1) \<Rightarrow> (None, st1) | (Inr acc, st1) \<Rightarrow> (Some acc, st1)))"

section \<open>Login\<close>

definition record_failed_login :: "instant \<Rightarrow> account \<Rightarrow> int \<times> account" where
  "record_failed_login now acc =
     (let n = acc_failed_login_count acc + 1;
          lock_minutes = (if 15 \<le> n then 30 else if 10 \<le> n then 5 else if 5 \<le> n then 1 else (0 :: int));
          acc1 = acc\<lparr>acc_failed_login_count := n\<rparr>
      in (lock_minutes,
          if lock_minutes \<noteq> 0 then acc1\<lparr>acc_locked_until := Some (now + lock_minutes * 60)\<rparr> else acc1))"

text \<open>Writing an account's row back.\<close>

definition put_account :: "account \<Rightarrow> app_state \<Rightarrow> app_state" where
  "put_account acc st =
     st\<lparr>db := (db st)\<lparr>accounts := row_set acc_id (acc_id acc) (\<lambda>_. acc) (accounts (db st))\<rparr>\<rparr>"

definition find_email :: "string \<Rightarrow> database \<Rightarrow> account option" where
  "find_email email d = find (\<lambda>a. acc_email a = email) (accounts d)"

definition login ::
  "jwt_lib \<Rightarrow> bcrypt_lib \<Rightarrow> environment \<Rightarrow> instant \<Rightarrow> string \<Rightarrow> request \<Rightarrow> string \<Rightarrow> string \<Rightarrow> (string \<times> string) handler" where
  "login jl bc env now jti req email0 password st =
     (let email = py_lower (py_strip email0) in
      case find_email email (db st) of
        None \<Rightarrow> (Inl (unauthorized ''Invalid email or password''), st)
      | Some acc \<Rightarrow>
        if (case acc_locked_until acc of None \<Rightarrow> False | Some u \<Rightarrow> now < u) then
          (Inl (HTTPException 423 ''Account temporarily locked''),
           commit (emit env now (Some acc) ''login.locked_out'' (Some req) (Some ''account'')
             (Some (show_int (acc_id acc)))
             (Some (JObj [(''email'', JStr (acc_email acc)),
                (''locked_until'', jopt_str (map_option (env_isoformat env) (acc_locked_until acc)))])) st))
        else if \<not> checkpw bc password (acc_password_hash acc) then
          (let (lock_minutes, acc1) = record_failed_login now acc;
               st1 = put_account acc1 st;
               st2 = (if lock_minutes \<noteq> 0
                      then emit env now (Some acc1) ''login.lockout_armed'' (Some req) (Some ''account'')
                             (Some (show_int (acc_id acc1)))
                             (Some (JObj [(''email'', JStr (acc_email acc1)), (''lock_minutes'', JInt lock_minutes),
                                (''failed_login_count'', JInt (acc_failed_login_count acc1))])) st1
                      else st1)
           in (Inl (unauthorized ''Invalid email or password''), commit st2))
        else if acc_suspended_at acc \<noteq> None then (Inl (HTTPException 403 ''Account is suspended''), st)
        else if acc_role acc = ''readonly'' then (Inl (HTTPException 403 ''Account is disabled (read-only)''), st)
        else (let acc1 = acc\<lparr>acc_failed_login_count := 0, acc_locked_until := None, acc_last_login_at := Some now\<rparr>
              in (Inr (create_jwt jl now jti (acc_id acc1) email (acc_token_version acc1), email),
                  emit env now (Some acc1) ''login.ok'' (Some req) (Some ''account'') (Some (show_int (acc_id acc1)))
                    None (put_account acc1 st))))"

definition new_account :: "int \<Rightarrow> instant \<Rightarrow> string \<Rightarrow> string \<Rightarrow> account" where
  "new_account i now email hash =
     \<lparr>acc_id = i, acc_email = email, acc_password_hash = hash, acc_role = ''user'', acc_suspended_at = None,
      acc_token_version = 1, acc_created_at = now, acc_last_login_at = None, acc_failed_login_count = 0,
      acc_locked_until = None, acc_totp_enabled = False, acc_totp_secret = None,
      acc_totp_recovery_hashes = None, acc_totp_enabled_at = None\<rparr>"

definition register ::
  "jwt_lib \<Rightarrow> bcrypt_lib \<Rightarrow> environment \<Rightarrow> instant \<Rightarrow> string \<Rightarrow> string \<Rightarrow> request \<Rightarrow> string \<Rightarrow> string
     \<Rightarrow> (string \<times> string) handler" where
  "register jl bc env now jti salt req email0 password st =
     (if length password < 8 \<or> 128 < length password then (Inl (HTTPException 422 ''validation''), st)
      else (let email = py_lower (py_strip email0) in
        if find_email email (db st) \<noteq> None then (Inl (HTTPException 409 ''Email already registered''), st)
        else (let acc = new_account (env_alloc env (map acc_id (accounts (db st)))) now email (hashpw bc password salt);
                  st1 = st\<lparr>db := (db st)\<lparr>accounts := row_add acc (accounts (db st))\<rparr>\<rparr>
              in (Inr (create_jwt jl now jti (acc_id acc) email (acc_token_version acc), email),
                  emit env now (Some acc) ''account.registered'' (Some req) (Some ''account'')
                    (Some (show_int (acc_id acc)))
                    (Some (JObj [(''email'', JStr email), (''role'', JStr (acc_role acc))])) st1))))"

text \<open>The result of a logout: whether the token was put on the denylist.\<close>

definition logout :: "jwt_lib \<Rightarrow> instant \<Rightarrow> string option \<Rightarrow> bool handler" where
  "logout jl now credentials st =
     (case credentials of None \<Rightarrow> (Inl (unauthorized ''Authentication required''), st)
      | Some token \<Rightarrow>
        (case jwt_decode jl now token of None \<Rightarrow> (Inl (unauthorized ''Invalid token''), st)
         | Some c \<Rightarrow>
           if clm_jti c = [] then (Inr False, st)
           else (case (if row_get rev_jti (clm_jti c) (revoked_tokens (db st)) \<noteq> None then Inr st
                       else (case (if clm_sub c = [] then Some 0 else parse_int (clm_sub c)) of
                               None \<Rightarrow> Inl (ValueError ''invalid literal for int()'')
                             | Some i \<Rightarrow>
                               Inr (st\<lparr>db := (db st)\<lparr>revoked_tokens := row_add
                                 \<lparr>rev_jti = clm_jti c, rev_account_id = (if i = 0 then None else Some i),
                                  rev_reason = Some ''logout'', rev_revoked_at = now,
                                  rev_expires_at = Some (clm_exp c)\<rparr> (revoked_tokens (db st))\<rparr>\<rparr>)))
                 of Inl e \<Rightarrow> (Inl e, st)
                 | Inr st1 \<Rightarrow> (Inr True, st1\<lparr>revoked_cache := cache_invalidate (revoked_cache st1) (Some (clm_jti c))\<rparr>))))"

section \<open>Roles\<close>

definition emit_deny :: "environment \<Rightarrow> instant \<Rightarrow> request \<Rightarrow> account \<Rightarrow> string \<Rightarrow> role \<Rightarrow> app_state \<Rightarrow> app_state" where
  "emit_deny env now req acc actual required st =
     emit env now (Some acc) ''permission.denied'' (Some req) (Some ''route'') (Some (req_path req))
       (Some (JObj [(''required'', JStr (role_value required)), (''actual'', JStr actual)])) st"

definition require_role :: "environment \<Rightarrow> instant \<Rightarrow> request \<Rightarrow> role \<Rightarrow> account \<Rightarrow> account handler" where
  "require_role env now req required acc st =
     (if acc_suspended_at acc \<noteq> None
      then (Inl (HTTPException 403 ''Account is suspended''), emit_deny env now req acc ''suspended'' required st)
      else (let r = (case role_of (acc_role acc) of None \<Rightarrow> Readonly | Some r \<Rightarrow> r) in
            if \<not> implies r required
            then (Inl (HTTPException 403 ''Requires a higher role''), emit_deny env now req acc (role_value r) required st)
            else (Inr acc, st)))"

section \<open>Token lifetime\<close>

lemma parse_show_int: "parse_int (show_int i) = Some i"
proof (cases "i < 0")
  case True
  have "list_all is_digit (show_nat n)" for n using show_nat_digits by (simp add: list_all_iff)
  with True show ?thesis by (simp add: show_int_def parse_int_def)
next
  case False
  define n where "n = nat i"
  obtain c r where cr: "show_nat n = c # r" by (cases "show_nat n") auto
  have d: "list_all is_digit (show_nat n)" using show_nat_digits by (simp add: list_all_iff)
  then have "c \<noteq> CHR ''-''" using cr by (auto simp: is_digit_def char_code_def)
  then have "parse_int (show_nat n) = Some (int (read_nat (show_nat n)))"
    using cr d by (simp add: parse_int_def)
  with False show ?thesis by (simp add: show_int_def n_def)
qed

lemma is_revoked_db [simp]: "db (snd (is_revoked t jti st)) = db st"
  by (simp add: is_revoked_def Let_def split: option.splits)

lemma jwt_account_iff:
  assumes "jwt_ok jl" and "jti \<noteq> []"
  shows "(fst (jwt_account jl now (create_jwt jl t0 jti aid email v) st) = Inr acc \<longleftrightarrow>
      now < t0 + 30 * 86400 \<and> \<not> fst (is_revoked now jti st)
      \<and> row_get acc_id aid (accounts (db st)) = Some acc \<and> acc_token_version acc = v)
    \<and> ((\<exists>acc. fst (jwt_account jl now (create_jwt jl t0 jti aid email v) st) = Inr acc) \<or>
      is_http 401 (fst (jwt_account jl now (create_jwt jl t0 jti aid email v) st)))"
proof -
  have dec: "jwt_decode jl now (create_jwt jl t0 jti aid email v) =
      (if now < t0 + 30 * 86400 then Some \<lparr>clm_sub = show_int aid, clm_email = email, clm_exp = t0 + 30 * 86400,
         clm_jti = jti, clm_tv = Some v\<rparr> else None)"
    using assms(1) by (simp add: jwt_ok_def create_jwt_def JWT_EXPIRE_DAYS_def)
  obtain b st1 where r: "is_revoked now jti st = (b, st1)" by fastforce
  have db1: "db st1 = db st" using is_revoked_db [of now jti st] r by simp
  have "fst (jwt_account jl now (create_jwt jl t0 jti aid email v) st) = Inr acc \<longleftrightarrow>
      now < t0 + 30 * 86400 \<and> \<not> fst (is_revoked now jti st)
      \<and> row_get acc_id aid (accounts (db st)) = Some acc \<and> acc_token_version acc = v"
    using assms(2) by (auto simp: jwt_account_def dec parse_show_int r db1 split: option.splits if_splits)
  moreover have "(\<exists>acc. fst (jwt_account jl now (create_jwt jl t0 jti aid email v) st) = Inr acc) \<or>
      is_http 401 (fst (jwt_account jl now (create_jwt jl t0 jti aid email v) st))"
    using assms(2)
    by (auto simp: jwt_account_def dec parse_show_int r db1 is_http_def unauthorized_def split: option.splits)
  ultimately show ?thesis by blast
qed

text \<open>
  A token is accepted exactly while it should be: a JWT minted for an account at
  version \<open>v\<close> authenticates that account if and only if it is younger than 30 days, its id
  is not reported revoked, the account still exists and its token version is still \<open>v\<close>;
  in every other case the request is answered 401. So bumping the version kills every
  outstanding token of the account at once.
\<close>
lemma jwt_accepted_iff:
  assumes "jwt_ok jl" and "jti \<noteq> []"
  shows "(fst (jwt_account jl now (create_jwt jl t0 jti aid email v) st) = Inr acc \<longleftrightarrow>
      now < t0 + 30 * 86400 \<and> \<not> fst (is_revoked now jti st)
      \<and> row_get acc_id aid (accounts (db st)) = Some acc \<and> acc_token_version acc = v)
    \<and> ((\<exists>acc. fst (jwt_account jl now (create_jwt jl t0 jti aid email v) st) = Inr acc) \<or>
      is_http 401 (fst (jwt_account jl now (create_jwt jl t0 jti aid email v) st)))"
  by (rule jwt_account_iff [OF assms])

text \<open>A library that prints claims and reads them back.\<close>

definition demo_jwt :: "claims \<Rightarrow> jwt_lib" where
  "demo_jwt c0 = \<lparr>jwt_encode = (\<lambda>c. dumps (JList [JStr (clm_sub c), JStr (clm_email c), JInt (clm_exp c), JStr (clm_jti c),
       jopt_int (clm_tv c)])),
     jwt_decode = (\<lambda>t s. case loads s of
        Some (JList [JStr a, JStr b, JInt e, JStr j, v]) \<Rightarrow>
          (if t < e then Some \<lparr>clm_sub = a, clm_email = b, clm_exp = e, clm_jti = j,
             clm_tv = (case v of JInt i \<Rightarrow> Some i | _ \<Rightarrow> None)\<rparr> else None)
      | _ \<Rightarrow> None)\<rparr>"

lemma demo_jwt_ok: "jwt_ok (demo_jwt c0)"
proof -
  have "json_wf (JList [JStr a, JStr b, JInt e, JStr j, jopt_int v])" for a b e j v
    by (cases v) simp_all
  then have l: "loads (dumps (JList [JStr a, JStr b, JInt e, JStr j, jopt_int v])) =
      Some (JList [JStr a, JStr b, JInt e, JStr j, jopt_int v])" for a b e j v
    by (rule loads_dumps)
  have v: "(case jopt_int v of JInt i \<Rightarrow> Some i | _ \<Rightarrow> None) = v" for v by (cases v) simp_all
  show ?thesis by (simp add: jwt_ok_def demo_jwt_def l v del: dumps.simps)
qed

definition demo_claims :: claims where
  "demo_claims = \<lparr>clm_sub = [], clm_email = [], clm_exp = 0, clm_jti = [], clm_tv = None\<rparr>"

text \<open>A token of the demo account, and the same token after a version bump.\<close>
lemma jwt_accepted_iff_witness:
  "fst (jwt_account (demo_jwt demo_claims) 10 (create_jwt (demo_jwt demo_claims) 0 ''j'' 1 ''a@b.c'' 0) demo_state) = Inr demo_account
   \<and> fst (jwt_account (demo_jwt demo_claims) 10 (create_jwt (demo_jwt demo_claims) 0 ''j'' 1 ''a@b.c'' 1) demo_state) \<noteq> Inr demo_account"
proof -
  have a: "row_get acc_id 1 (accounts (db demo_state)) = Some demo_account"
    by (simp add: demo_state_def demo_db_def row_get_def demo_account_def)
  have r: "\<not> fst (is_revoked 10 ''j'' demo_state)"
    by (simp add: is_revoked_def demo_state_def demo_db_def empty_db_def)
  have v: "acc_token_version demo_account = 0" by (simp add: demo_account_def)
  show ?thesis
    using jwt_accepted_iff [OF demo_jwt_ok, of "''j''" demo_claims 10 0 1 "''a@b.c''" 0 demo_state demo_account]
      jwt_accepted_iff [OF demo_jwt_ok, of "''j''" demo_claims 10 0 1 "''a@b.c''" 1 demo_state demo_account] a r v
    by simp
qed

section \<open>Logout\<close>

lemma logout_revokes:
  assumes "logout jl now (Some tok) st = (Inr True, st')" and "jwt_decode jl now tok = Some c"
  shows "clm_jti c \<noteq> [] \<and> row_get rev_jti (clm_jti c) (revoked_tokens (db st')) \<noteq> None
    \<and> cache_get t (revoked_cache st') (clm_jti c) = None"
  using assms
  by (auto simp: logout_def cache_get_invalidate row_get_add split: if_splits sum.splits option.splits)

text \<open>
  Logging out takes effect. On the worker that served the logout the token is refused
  with 401 from the next request on, whatever the cache held; on any other worker, whose
  cache was filled from the database as it was at the time, the token is reported revoked
  at the latest one cache lifetime (30 seconds) after the denylist row became visible.
\<close>
lemma logout_takes_effect:
  "(logout jl now (Some tok) st = (Inr True, st') \<and> jwt_decode jl now tok = Some c
      \<and> jwt_decode jl t tok = Some c \<longrightarrow> is_http 401 (fst (jwt_account jl t tok st')))
   \<and> (ttlc.ok truth (revoked_cache w) \<and> (\<forall>t' \<ge> s. truth t' jti) \<and> s + cache_ttl (revoked_cache w) \<le> t
      \<and> row_get rev_jti jti (revoked_tokens (db w)) \<noteq> None \<longrightarrow> fst (is_revoked t jti w))
   \<and> (ttlc.ok truth (revoked_cache w) \<and> truth t jti = (row_get rev_jti jti (revoked_tokens (db w)) \<noteq> None)
      \<longrightarrow> ttlc.ok truth (revoked_cache (snd (is_revoked t jti w))))"
proof (intro conjI impI)
  assume a: "logout jl now (Some tok) st = (Inr True, st') \<and> jwt_decode jl now tok = Some c \<and> jwt_decode jl t tok = Some c"
  then have l: "clm_jti c \<noteq> []" "row_get rev_jti (clm_jti c) (revoked_tokens (db st')) \<noteq> None"
    "cache_get t (revoked_cache st') (clm_jti c) = None"
    using logout_revokes by blast+
  then have "fst (is_revoked t (clm_jti c) st')" by (simp add: is_revoked_def)
  then obtain st1 where "is_revoked t (clm_jti c) st' = (True, st1)" by (metis fst_conv old.prod.exhaust)
  with a l(1) show "is_http 401 (fst (jwt_account jl t tok st'))"
    by (auto simp: jwt_account_def is_http_def unauthorized_def split: option.splits)
next
  assume a: "ttlc.ok truth (revoked_cache w) \<and> (\<forall>t' \<ge> s. truth t' jti) \<and> s + cache_ttl (revoked_cache w) \<le> t
      \<and> row_get rev_jti jti (revoked_tokens (db w)) \<noteq> None"
  show "fst (is_revoked t jti w)"
  proof (cases "cache_get t (revoked_cache w) jti")
    case None
    with a show ?thesis by (simp add: is_revoked_def)
  next
    case (Some v)
    have "v = True"
      by (rule ttlc.staleness_bound [of truth "revoked_cache w" t jti v s True]) (use a Some in auto)
    with Some show ?thesis by (simp add: is_revoked_def)
  qed
next
  assume a: "ttlc.ok truth (revoked_cache w) \<and> truth t jti = (row_get rev_jti jti (revoked_tokens (db w)) \<noteq> None)"
  then have "ttlc.ok truth (cache_set t (revoked_cache w) jti (truth t jti) None)"
    using ttlc.ok_put [of truth "revoked_cache w" t jti] by blast
  with a show "ttlc.ok truth (revoked_cache (snd (is_revoked t jti w)))"
    by (auto simp: is_revoked_def Let_def split: option.splits)
qed

text \<open>A worker with an empty cache sees the denylist row at once.\<close>
lemma logout_takes_effect_witness:
  "fst (is_revoked 40 ''j'' (demo_state\<lparr>db := demo_db\<lparr>revoked_tokens := [\<lparr>rev_jti = ''j'', rev_account_id = None,
     rev_reason = None, rev_revoked_at = 0, rev_expires_at = None\<rparr>]\<rparr>\<rparr>))"
proof -
  let ?w = "demo_state\<lparr>db := demo_db\<lparr>revoked_tokens := [\<lparr>rev_jti = ''j'', rev_account_id = None,
     rev_reason = None, rev_revoked_at = 0, rev_expires_at = None\<rparr>]\<rparr>\<rparr>"
  have "ttlc.ok (\<lambda>t k. k = ''j'') (revoked_cache ?w)" by (simp add: demo_state_def)
  moreover have "cache_ttl (revoked_cache ?w) = 30" by (simp add: demo_state_def new_cache_def)
  moreover have "row_get rev_jti ''j'' (revoked_tokens (db ?w)) \<noteq> None" by (simp add: row_get_def)
  ultimately show ?thesis
    using logout_takes_effect [of "demo_jwt demo_claims" 0 "[]" demo_state demo_state demo_claims 40
        "\<lambda>t k. k = ''j''" ?w 10 "''j''"] by simp
qed

section \<open>Restricted tokens\<close>

text \<open>
  C12: The limits of a personal access token hold on every request: when a bearer value
  with the token prefix is accepted, it belongs to a live token of that account, the
  request is not a write if the token is read-only, and if the token names networks the
  trusted client address lies in one of them.
\<close>
theorem pat_limits_enforced:
  assumes "get_current_account jl bc ip_network env now req (Some tok) st = (Inr acc, st')"
    and "prefix TOKEN_PREFIX tok"
  shows "\<exists>row \<in> set (personal_access_tokens (db st)). checkpw bc tok (pat_token_hash row)
     \<and> pat_revoked_at row = None \<and> acc_id acc = pat_account_id row \<and> acc_suspended_at acc = None
     \<and> (pat_read_only row \<longrightarrow> req_method req \<notin> {''POST'', ''PUT'', ''PATCH'', ''DELETE''})
     \<and> (\<forall>cidrs. pat_ip_allowlist row = Some cidrs \<and> cidrs \<noteq> [] \<longrightarrow>
          (\<exists>addr c n. env_ip_address env (client_ip (env_ip_address env) (env_trusted env) req) = Some addr
             \<and> c \<in> set cidrs \<and> ip_network c = Some n \<and> ip_in_net addr n))"
proof -
  from assms obtain pat d1 where
    t: "try_authenticate_pat bc env now tok (Some req) (db st) = (Some (acc, pat), d1)"
    and ro: "\<not> (pat_read_only pat \<and> req_method req \<in> set WRITE_METHODS)"
    and al: "allowlist_admits ip_network env req (pat_ip_allowlist pat)"
    by (auto simp: get_current_account_def Let_def split: prod.splits option.splits if_splits)
  from try_authenticate_Some [OF t] obtain row where
    r: "row \<in> set (personal_access_tokens (db st))" "pat_revoked_at row = None" "checkpw bc tok (pat_token_hash row)"
    "pat = stamp_use env now (Some req) row" "row_get acc_id (pat_account_id row) (accounts (db st)) = Some acc"
    "acc_suspended_at acc = None" by blast
  have "acc_id acc = pat_account_id row" using row_get_Some [OF r(5)] by simp
  moreover have "\<exists>addr c n. env_ip_address env (client_ip (env_ip_address env) (env_trusted env) req) = Some addr
             \<and> c \<in> set cidrs \<and> ip_network c = Some n \<and> ip_in_net addr n"
    if "pat_ip_allowlist row = Some cidrs" "cidrs \<noteq> []" for cidrs
    using al that by (auto simp: r(4) allowlist_admits_def list_ex_iff Let_def split: option.splits)
  ultimately show ?thesis using r ro by (intro bexI [of _ row]) (auto simp: WRITE_METHODS_def)
qed

text \<open>A read-only token on a GET request.\<close>
theorem pat_limits_enforced_witness:
  "\<exists>acc st'. get_current_account (demo_jwt demo_claims) demo_bcrypt (\<lambda>_. None) demo_env 100 (demo_request\<lparr>req_method := ''GET''\<rparr>)
      (Some ''nks_pat_abcdefgh'') (demo_state\<lparr>db := demo_pat_db\<rparr>) = (Inr acc, st') \<and> acc_suspended_at acc = None"
proof -
  let ?r = "get_current_account (demo_jwt demo_claims) demo_bcrypt (\<lambda>_. None) demo_env 100 (demo_request\<lparr>req_method := ''GET''\<rparr>)
      (Some ''nks_pat_abcdefgh'') (demo_state\<lparr>db := demo_pat_db\<rparr>)"
  have "\<exists>acc st'. ?r = (Inr acc, st')"
    by (simp add: get_current_account_def try_authenticate_pat_def demo_pat_db_def issue_def demo_db_def empty_db_def
        row_add_def row_get_def demo_bcrypt_def TOKEN_PREFIX_def PREFIX_PERSISTED_LEN_def generate_token_def pat_live_def
        demo_account_def allowlist_admits_def WRITE_METHODS_def Let_def)
  then obtain acc st' where e: "?r = (Inr acc, st')" by blast
  have "prefix TOKEN_PREFIX ''nks_pat_abcdefgh''" by (simp add: TOKEN_PREFIX_def)
  from pat_limits_enforced [OF e this] e show ?thesis by blast
qed

section \<open>Lock-out\<close>

lemma row_get_put_account:
  "row_get acc_id (acc_id acc) (accounts (db st)) = Some old \<Longrightarrow>
     row_get acc_id (acc_id acc) (accounts (db (put_account acc st))) = Some acc"
  by (simp add: put_account_def row_get_replace)

lemma record_failed_login_fields:
  "acc_id (snd (record_failed_login now acc)) = acc_id acc"
  "acc_failed_login_count (snd (record_failed_login now acc)) = acc_failed_login_count acc + 1"
  by (simp_all add: record_failed_login_def Let_def)

text \<open>The lock a failure count arms, in minutes.\<close>

definition lock_for :: "int \<Rightarrow> int" where
  "lock_for n = (if 15 \<le> n then 30 else if 10 \<le> n then 5 else if 5 \<le> n then 1 else 0)"

lemma record_failed_login_eq:
  "record_failed_login now acc =
     (lock_for (acc_failed_login_count acc + 1),
      acc\<lparr>acc_failed_login_count := acc_failed_login_count acc + 1,
          acc_locked_until := (if lock_for (acc_failed_login_count acc + 1) = 0 then acc_locked_until acc
             else Some (now + lock_for (acc_failed_login_count acc + 1) * 60))\<rparr>)"
  by (simp add: record_failed_login_def lock_for_def Let_def)

lemma find_email_in: "find_email e d = Some a \<Longrightarrow> a \<in> set (accounts d) \<and> acc_email a = e"
  by (auto simp: find_email_def find_Some_iff)

text \<open>
  C13: Guessing passwords is slowed down and survives the error response. A wrong password
  on an account that is not locked is answered 401, and although the request fails, the
  committed database has the failure count increased by one and, from the 5th, 10th and
  15th failure on, a lock of 1, 5 and 30 minutes; while an account is locked every
  attempt, even with the right password, is answered 423 and changes no account. A right
  password on an unlocked, active account resets the count and yields a token that is
  accepted.
\<close>
theorem login_lockout:
  assumes "pk acc_id (accounts (db st))" and "find_email (py_lower (py_strip email)) (db st) = Some acc"
  shows "let (r, st') = get_session (login jl bc env now jti req email password) st;
             locked = (\<exists>u. acc_locked_until acc = Some u \<and> now < u);
             n = acc_failed_login_count acc + 1
    in (locked \<longrightarrow> is_http 423 r \<and> accounts (db st') = accounts (db st))
     \<and> (\<not> locked \<and> \<not> checkpw bc password (acc_password_hash acc) \<longrightarrow> is_http 401 r \<and> db st' = committed st'
         \<and> row_get acc_id (acc_id acc) (accounts (committed st')) =
             Some (acc\<lparr>acc_failed_login_count := n, acc_locked_until :=
                (if n < 5 then acc_locked_until acc
                 else Some (now + (if n < 10 then 60 else if n < 15 then 300 else 1800)))\<rparr>))
     \<and> (\<not> locked \<and> checkpw bc password (acc_password_hash acc) \<and> acc_suspended_at acc = None \<and> acc_role acc \<noteq> ''readonly''
         \<longrightarrow> r = Inr (create_jwt jl now jti (acc_id acc) (acc_email acc) (acc_token_version acc), acc_email acc)
           \<and> row_get acc_id (acc_id acc) (accounts (committed st')) =
               Some (acc\<lparr>acc_failed_login_count := 0, acc_locked_until := None, acc_last_login_at := Some now\<rparr>))"
proof -
  have a: "acc \<in> set (accounts (db st))" "acc_email acc = py_lower (py_strip email)"
    using find_email_in [OF assms(2)] by auto
  have g: "row_get acc_id (acc_id acc) (accounts (db st)) = Some acc" using row_get_in [OF assms(1) a(1)] .
  define r where "r = get_session (login jl bc env now jti req email password) st"
  define locked where "locked = (\<exists>u. acc_locked_until acc = Some u \<and> now < u)"
  have lk: "(case acc_locked_until acc of None \<Rightarrow> False | Some u \<Rightarrow> now < u) = locked"
    by (auto simp: locked_def split: option.splits)
  have "is_http 423 (fst r) \<and> accounts (db (snd r)) = accounts (db st)" if "locked"
    using that by (simp add: r_def get_session_def login_def assms(2) lk is_http_def rollback_def commit_def db_emit Let_def)
  moreover have "is_http 401 (fst r) \<and> db (snd r) = committed (snd r)
         \<and> row_get acc_id (acc_id acc) (accounts (committed (snd r))) =
             Some (acc\<lparr>acc_failed_login_count := acc_failed_login_count acc + 1, acc_locked_until :=
                (if acc_failed_login_count acc + 1 < 5 then acc_locked_until acc
                 else Some (now + (if acc_failed_login_count acc + 1 < 10 then 60
                   else if acc_failed_login_count acc + 1 < 15 then 300 else 1800)))\<rparr>)"
    if "\<not> locked" "\<not> checkpw bc password (acc_password_hash acc)"
  proof -
    define acc1 where "acc1 = snd (record_failed_login now acc)"
    have acc1: "acc1 = acc\<lparr>acc_failed_login_count := acc_failed_login_count acc + 1, acc_locked_until :=
                (if acc_failed_login_count acc + 1 < 5 then acc_locked_until acc
                 else Some (now + (if acc_failed_login_count acc + 1 < 10 then 60
                   else if acc_failed_login_count acc + 1 < 15 then 300 else 1800)))\<rparr>"
      by (simp add: acc1_def record_failed_login_eq lock_for_def)
    have "acc_id acc1 = acc_id acc" by (simp add: acc1)
    then have "row_get acc_id (acc_id acc) (accounts (db (put_account acc1 st))) = Some acc1"
      using row_get_put_account [of acc1 st acc] g by simp
    moreover have "accounts (committed (snd r)) = accounts (db (put_account acc1 st))" "is_http 401 (fst r)"
      "db (snd r) = committed (snd r)"
      using that by (simp_all add: r_def get_session_def login_def assms(2) lk is_http_def unauthorized_def rollback_def
          commit_def db_emit acc1_def Let_def split: prod.splits)
    ultimately show ?thesis by (simp add: acc1)
  qed
  moreover have "fst r = Inr (create_jwt jl now jti (acc_id acc) (acc_email acc) (acc_token_version acc), acc_email acc)
           \<and> row_get acc_id (acc_id acc) (accounts (committed (snd r))) =
               Some (acc\<lparr>acc_failed_login_count := 0, acc_locked_until := None, acc_last_login_at := Some now\<rparr>)"
    if "\<not> locked" "checkpw bc password (acc_password_hash acc)" "acc_suspended_at acc = None" "acc_role acc \<noteq> ''readonly''"
  proof -
    define acc1 where "acc1 = acc\<lparr>acc_failed_login_count := 0, acc_locked_until := None, acc_last_login_at := Some now\<rparr>"
    have "acc_id acc1 = acc_id acc" by (simp add: acc1_def)
    then have "row_get acc_id (acc_id acc) (accounts (db (put_account acc1 st))) = Some acc1"
      using row_get_put_account [of acc1 st acc] g by simp
    moreover have "accounts (committed (snd r)) = accounts (db (put_account acc1 st))"
      "fst r = Inr (create_jwt jl now jti (acc_id acc) (acc_email acc) (acc_token_version acc), acc_email acc)"
      using that a(2) by (simp_all add: r_def get_session_def login_def assms(2) lk commit_def db_emit acc1_def Let_def)
    ultimately show ?thesis by (simp add: acc1_def)
  qed
  ultimately show ?thesis unfolding Let_def case_prod_beta r_def [symmetric] locked_def [symmetric] by blast
qed

text \<open>The fifth wrong password locks the demo account for a minute.\<close>
theorem login_lockout_witness:
  "let st = demo_state\<lparr>db := demo_db\<lparr>accounts := [demo_account\<lparr>acc_failed_login_count := 4\<rparr>]\<rparr>\<rparr>
   in map_option acc_locked_until (row_get acc_id 1 (accounts (committed (snd
        (get_session (login (demo_jwt demo_claims) demo_bcrypt demo_env 1000 ''j'' demo_request ''A@b.c'' ''wrong'') st))))) = Some (Some 1060)"
proof -
  define st where "st = demo_state\<lparr>db := demo_db\<lparr>accounts := [demo_account\<lparr>acc_failed_login_count := 4\<rparr>]\<rparr>\<rparr>"
  define acc where "acc = demo_account\<lparr>acc_failed_login_count := 4\<rparr>"
  have e: "py_lower (py_strip ''A@b.c'') = ''a@b.c''" by code_simp
  have p: "pk acc_id (accounts (db st))" by (simp add: st_def pk_def)
  have f: "find_email (py_lower (py_strip ''A@b.c'')) (db st) = Some acc"
    by (simp add: e find_email_def st_def acc_def demo_account_def)
  have acc: "acc_locked_until acc = None" "acc_failed_login_count acc = 4" "acc_id acc = 1" "acc_password_hash acc = ''h''"
    by (simp_all add: acc_def demo_account_def)
  show ?thesis
    using login_lockout [OF p f, of "demo_jwt demo_claims" demo_bcrypt demo_env 1000 "''j''" demo_request "''wrong''"] acc
    unfolding st_def [symmetric] Let_def by (simp add: demo_bcrypt_def split: prod.splits)
qed

section \<open>Role checks\<close>

text \<open>
  A role check lets an account through exactly when it is not suspended and its role
  ranks at least as high as the required one; an unknown stored role counts as the lowest.
  Everything else is answered 403, and, because the denial is raised inside the request's
  transaction, the \<open>permission.denied\<close> row it flushed is not in the database afterwards.
\<close>
lemma require_role_decides:
  assumes "db st = committed st"
  shows "(fst (require_role env now req required acc st) = Inr acc \<longleftrightarrow>
      acc_suspended_at acc = None \<and> implies (case role_of (acc_role acc) of None \<Rightarrow> Readonly | Some r \<Rightarrow> r) required)
    \<and> (fst (require_role env now req required acc st) \<noteq> Inr acc \<longrightarrow> is_http 403 (fst (require_role env now req required acc st))
         \<and> (\<exists>ev. audit_events (db (snd (require_role env now req required acc st))) = audit_events (db st) @ [ev]
               \<and> aud_action ev = ''permission.denied'')
         \<and> audit_events (db (snd (get_session (require_role env now req required acc) st))) = audit_events (db st))"
  using assms
  by (simp add: require_role_def emit_deny_def get_session_def rollback_def db_emit row_add_def audit_row_def is_http_def Let_def)

lemma require_role_decides_witness:
  "is_http 403 (fst (require_role demo_env 5 demo_request Admin demo_account demo_state)) \<and>
   audit_events (db (snd (get_session (require_role demo_env 5 demo_request Admin demo_account) demo_state))) = []"
proof -
  have e: "db demo_state = committed demo_state" by (simp add: demo_state_def)
  have n: "\<not> implies (case role_of (acc_role demo_account) of None \<Rightarrow> Readonly | Some r \<Rightarrow> r) Admin" by code_simp
  have z: "audit_events (db demo_state) = []" by (simp add: demo_state_def demo_db_def empty_db_def)
  show ?thesis using require_role_decides [OF e, of demo_env 5 demo_request Admin demo_account] n z by simp
qed

end
