(* ===== verification/Devices.thy ===== *)
theory Devices
  imports Auth Retention Device_Ids
begin

text \<open>
  Devices and configuration sync: the device endpoints of \<^verbatim>\<open>app/devices.py\<close>, the sync
  endpoints of \<^verbatim>\<open>app/api_sync.py\<close> and the rotating sync snapshots of
  \<^verbatim>\<open>app/api_sync_snapshots.py\<close>. gzip and the order of equal timestamps are parameters.
  Deleting a device cascades; \<open>heads_first\<close> says whether the database removes the HEAD
  row before it checks the snapshots it refers to (the restricting foreign key).
\<close>

section \<open>Device endpoints\<close>

definition not_found :: "string \<Rightarrow> exn" where
  "not_found m = HTTPException 404 m"

definition own_device :: "database \<Rightarrow> account \<Rightarrow> string \<Rightarrow> device_config option" where
  "own_device d acc device_id =
     (case row_get dev_device_id device_id (device_configs d) of None \<Rightarrow> None
      | Some dev \<Rightarrow> if dev_user_id dev \<noteq> Some (acc_id acc) then None else Some dev)"

definition online :: "instant \<Rightarrow> instant option \<Rightarrow> bool" where
  "online now last_seen = (case last_seen of None \<Rightarrow> False | Some t \<Rightarrow> now - t < 300)"

record device_info =
  di_device :: device_config
  di_online :: bool
  di_is_current :: bool

definition list_devices ::
  "(device_config list \<Rightarrow> device_config list) \<Rightarrow> instant \<Rightarrow> string option \<Rightarrow> int \<Rightarrow> int \<Rightarrow> account \<Rightarrow> database
     \<Rightarrow> device_info list \<times> nat \<times> int \<times> int" where
  "list_devices order now current_device_id offset0 limit0 acc d =
     (let limit = max 1 (min limit0 200); offset = max 0 offset0;
          mine = (\<lambda>r. dev_user_id r = Some (acc_id acc));
          tot = count_query mine (device_configs d);
          devices = take (nat limit) (drop (nat offset) (order (filter mine (device_configs d))));
          current = py_lower (py_strip (case current_device_id of None \<Rightarrow> [] | Some s \<Rightarrow> s))
      in (map (\<lambda>r. \<lparr>di_device = r, di_online = online now (dev_last_seen_at r),
                    di_is_current = (current \<noteq> [] \<and> dev_device_id r = current)\<rparr>) devices,
          tot, limit, offset))"

text \<open>An attribute change on a device row; \<open>updated_at\<close> follows when the row really changes.\<close>

definition touch :: "instant \<Rightarrow> (device_config \<Rightarrow> device_config) \<Rightarrow> device_config \<Rightarrow> device_config" where
  "touch now f r = (if f r = r then r else (f r)\<lparr>dev_updated_at := now\<rparr>)"

definition update_device :: "instant \<Rightarrow> string \<Rightarrow> string option \<Rightarrow> account \<Rightarrow> string handler" where
  "update_device now device_id name acc st =
     (if (case name of None \<Rightarrow> False | Some n \<Rightarrow> 128 < length n) then (Inl (HTTPException 422 ''validation''), st)
      else (case own_device (db st) acc device_id of None \<Rightarrow> (Inl (not_found ''Device not found''), st)
        | Some dev \<Rightarrow>
          (Inr device_id,
           case name of None \<Rightarrow> st
           | Some n \<Rightarrow> st\<lparr>db := (db st)\<lparr>device_configs :=
               row_set dev_device_id device_id (touch now (dev_name_update (\<lambda>_. Some (JStr n)))) (device_configs (db st))\<rparr>\<rparr>)))"

definition delete_device_row :: "bool \<Rightarrow> string \<Rightarrow> database \<Rightarrow> exn + database" where
  "delete_device_row heads_first device_id d =
     (let ids = map snap_id (filter (\<lambda>s. snap_device_id s = device_id) (device_snapshots d)) in
      if list_ex (\<lambda>h. head_current_snapshot_id h \<in> set ids \<and> (head_device_id h \<noteq> device_id \<or> \<not> heads_first)) (device_heads d)
      then Inl IntegrityError
      else Inr (d\<lparr>device_configs := row_del dev_device_id device_id (device_configs d),
                  device_heads := filter (\<lambda>h. head_device_id h \<noteq> device_id) (device_heads d),
                  device_snapshots := map (nullify (set ids)) (filter (\<lambda>s. snap_device_id s \<noteq> device_id) (device_snapshots d)),
                  retention_policies := filter (\<lambda>r. rp_device_id r \<noteq> Some device_id) (retention_policies d)\<rparr>))"

definition delete_device :: "bool \<Rightarrow> string \<Rightarrow> account \<Rightarrow> string handler" where
  "delete_device heads_first device_id acc st =
     (case own_device (db st) acc device_id of None \<Rightarrow> (Inl (not_found ''Device not found''), st)
      | Some dev \<Rightarrow>
        (case delete_device_row heads_first device_id (db st) of
           Inl e \<Rightarrow> (Inl e, st)
         | Inr d \<Rightarrow> (Inr device_id, st\<lparr>db := d\<rparr>)))"

text \<open>The truth of a JSON value, as in \<open>device.payload or {}\<close>.\<close>

definition or_empty :: "json \<Rightarrow> json" where
  "or_empty j = (if json_truthy j then j else JObj [])"

definition get_device_config :: "string \<Rightarrow> account \<Rightarrow> (device_config \<times> json) handler" where
  "get_device_config device_id acc st =
     (case own_device (db st) acc device_id of None \<Rightarrow> (Inl (not_found ''Device not found''), st)
      | Some dev \<Rightarrow> (Inr (dev, or_empty (dev_payload dev)), st))"

definition push_config_to_device :: "instant \<Rightarrow> string \<Rightarrow> string \<Rightarrow> account \<Rightarrow> unit handler" where
  "push_config_to_device now device_id source_id acc st =
     (case own_device (db st) acc source_id of None \<Rightarrow> (Inl (not_found ''Source device not found''), st)
      | Some source \<Rightarrow>
        (case own_device (db st) acc device_id of None \<Rightarrow> (Inl (not_found ''Target device not found''), st)
         | Some target \<Rightarrow>
           (Inr (), st\<lparr>db := (db st)\<lparr>device_configs := row_set dev_device_id device_id
              (\<lambda>r. r\<lparr>dev_payload := dev_payload source, dev_updated_at := now\<rparr>) (device_configs (db st))\<rparr>\<rparr>)))"

section \<open>Sync snapshots\<close>

definition KEEP_PER_DEVICE :: nat where
  "KEEP_PER_DEVICE = 10"

text \<open>gzip with its inverse, the printing of a payload, and the order of the table.\<close>

record sync_lib =
  gzip :: "bytes \<Rightarrow> bytes"
  gunzip :: "bytes \<Rightarrow> bytes option"
  order_sync :: "sync_snapshot list \<Rightarrow> sync_snapshot list"

definition rotate_sync :: "sync_lib \<Rightarrow> string \<Rightarrow> int \<Rightarrow> database \<Rightarrow> database" where
  "rotate_sync sl device_id account_id d =
     (let old_ids = map ss_id (drop KEEP_PER_DEVICE (order_sync sl
            (filter (\<lambda>s. ss_device_id s = device_id \<and> ss_account_id s = account_id) (sync_snapshots d))))
      in d\<lparr>sync_snapshots := fold (row_del ss_id) old_ids (sync_snapshots d)\<rparr>)"

definition create_sync_snapshot ::
  "sync_lib \<Rightarrow> (int list \<Rightarrow> int) \<Rightarrow> instant \<Rightarrow> string \<Rightarrow> int \<Rightarrow> json \<Rightarrow> database \<Rightarrow> sync_snapshot \<times> database" where
  "create_sync_snapshot sl alloc now device_id account_id payload d =
     (let compressed = gzip sl (ascii_encode (dumps payload));
          snap = \<lparr>ss_id = alloc (map ss_id (sync_snapshots d)), ss_device_id = device_id, ss_account_id = account_id,
                  ss_created_at = now, ss_size_bytes = length compressed, ss_content_gzip = compressed\<rparr>
      in (snap, rotate_sync sl device_id account_id (d\<lparr>sync_snapshots := row_add snap (sync_snapshots d)\<rparr>)))"

definition require_snapshot :: "int \<Rightarrow> account \<Rightarrow> database \<Rightarrow> exn + sync_snapshot" where
  "require_snapshot snapshot_id acc d =
     (case row_get ss_id snapshot_id (sync_snapshots d) of None \<Rightarrow> Inl (not_found ''Snapshot not found'')
      | Some row \<Rightarrow> if ss_account_id row \<noteq> acc_id acc then Inl (not_found ''Snapshot not found'') else Inr row)"

definition decompress :: "sync_lib \<Rightarrow> sync_snapshot \<Rightarrow> exn + json" where
  "decompress sl row =
     (case gunzip sl (ss_content_gzip row) of None \<Rightarrow> Inl BackendError
      | Some raw \<Rightarrow> (case json_loads raw of None \<Rightarrow> Inl (ValueError ''JSONDecodeError'') | Some j \<Rightarrow> Inr j))"

definition list_sync_snapshots :: "sync_lib \<Rightarrow> string option \<Rightarrow> account \<Rightarrow> database \<Rightarrow> sync_snapshot list" where
  "list_sync_snapshots sl device_id acc d =
     take 50 (order_sync sl (filter (\<lambda>s. ss_account_id s = acc_id acc \<and>
       (case device_id of None \<Rightarrow> True | Some i \<Rightarrow> ss_device_id s = i)) (sync_snapshots d)))"

definition get_sync_snapshot :: "sync_lib \<Rightarrow> int \<Rightarrow> account \<Rightarrow> (sync_snapshot \<times> json) handler" where
  "get_sync_snapshot sl snapshot_id acc st =
     (case require_snapshot snapshot_id acc (db st) of Inl e \<Rightarrow> (Inl e, st)
      | Inr row \<Rightarrow> (case decompress sl row of Inl e \<Rightarrow> (Inl e, st) | Inr j \<Rightarrow> (Inr (row, j), st)))"

definition restore_sync_snapshot :: "sync_lib \<Rightarrow> int \<Rightarrow> account \<Rightarrow> (string \<times> instant \<times> json) handler" where
  "restore_sync_snapshot sl snapshot_id acc st =
     (case require_snapshot snapshot_id acc (db st) of Inl e \<Rightarrow> (Inl e, st)
      | Inr row \<Rightarrow> (case decompress sl row of Inl e \<Rightarrow> (Inl e, st)
          | Inr j \<Rightarrow> (Inr (ss_device_id row, ss_created_at row, j), st)))"

definition delete_sync_snapshot :: "int \<Rightarrow> account \<Rightarrow> unit handler" where
  "delete_sync_snapshot snapshot_id acc st =
     (case require_snapshot snapshot_id acc (db st) of Inl e \<Rightarrow> (Inl e, st)
      | Inr row \<Rightarrow> (Inr (), st\<lparr>db := (db st)\<lparr>sync_snapshots := row_del ss_id snapshot_id (sync_snapshots (db st))\<rparr>\<rparr>))"

section \<open>Configuration sync\<close>

text \<open>The metadata that a pushed payload carries about its device.\<close>

definition meta_name :: "json \<Rightarrow> device_config \<Rightarrow> device_config" where
  "meta_name p r =
     (case jget p ''settings'' of Some (JObj settings) \<Rightarrow>
        (case map_of settings ''sync.deviceName'' of Some n \<Rightarrow> r\<lparr>dev_name := Some n\<rparr> | None \<Rightarrow> r)
      | _ \<Rightarrow> r)"

definition meta_sites :: "json \<Rightarrow> device_config \<Rightarrow> device_config" where
  "meta_sites p r =
     (case jget p ''sites'' of Some (JList sites) \<Rightarrow> r\<lparr>dev_site_count := Some (length sites)\<rparr> | _ \<Rightarrow> r)"

definition meta_system :: "json \<Rightarrow> device_config \<Rightarrow> device_config" where
  "meta_system p r =
     (case jget p ''system'' of Some (JObj sys) \<Rightarrow>
        (case map_of sys ''os'' of Some (JObj os) \<Rightarrow>
           r\<lparr>dev_os := map_of os ''tag'', dev_arch := map_of os ''arch''\<rparr> | _ \<Rightarrow> r)
      | _ \<Rightarrow> r)"

definition extract_metadata :: "json \<Rightarrow> device_config \<Rightarrow> device_config" where
  "extract_metadata p r = meta_system p (meta_sites p (meta_name p r))"

definition pushed_row :: "instant \<Rightarrow> string \<Rightarrow> int \<Rightarrow> json \<Rightarrow> device_config option \<Rightarrow> device_config" where
  "pushed_row now device_id account_id payload row =
     (let r0 = (case row of
            None \<Rightarrow> \<lparr>dev_device_id = device_id, dev_user_id = None, dev_name = None, dev_os = None, dev_arch = None,
                     dev_site_count = None, dev_last_seen_at = None, dev_updated_at = now, dev_payload = payload\<rparr>
          | Some r \<Rightarrow> r\<lparr>dev_payload := payload, dev_updated_at := now\<rparr>);
          r1 = (if dev_user_id r0 = None then r0\<lparr>dev_user_id := Some account_id\<rparr> else r0);
          r2 = r1\<lparr>dev_last_seen_at := Some now\<rparr>
      in extract_metadata (or_empty payload) r2)"

definition put_device :: "device_config \<Rightarrow> database \<Rightarrow> database" where
  "put_device r d =
     (case row_get dev_device_id (dev_device_id r) (device_configs d) of
        None \<Rightarrow> d\<lparr>device_configs := row_add r (device_configs d)\<rparr>
      | Some _ \<Rightarrow> d\<lparr>device_configs := row_set dev_device_id (dev_device_id r) (\<lambda>_. r) (device_configs d)\<rparr>)"

text \<open>The previous payload is kept as a sync snapshot, then the row is written.\<close>

definition keep_previous ::
  "sync_lib \<Rightarrow> environment \<Rightarrow> instant \<Rightarrow> string \<Rightarrow> account \<Rightarrow> device_config option \<Rightarrow> app_state \<Rightarrow> app_state" where
  "keep_previous sl env now device_id acc row st =
     (case row of None \<Rightarrow> st
      | Some r \<Rightarrow>
        if json_truthy (dev_payload r)
        then st\<lparr>db := snd (create_sync_snapshot sl (env_alloc env) now device_id (acc_id acc) (dev_payload r) (db st))\<rparr>
        else st)"

definition upserted ::
  "sync_lib \<Rightarrow> environment \<Rightarrow> instant \<Rightarrow> string \<Rightarrow> json \<Rightarrow> account \<Rightarrow> app_state \<Rightarrow> app_state" where
  "upserted sl env now device_id payload acc st =
     (let row = row_get dev_device_id device_id (device_configs (db st));
          st1 = keep_previous sl env now device_id acc row st
      in st1\<lparr>db := put_device (pushed_row now device_id (acc_id acc) payload row) (db st1)\<rparr>)"

text \<open>A device that another account owns cannot be overwritten.\<close>

definition linked_elsewhere :: "database \<Rightarrow> string \<Rightarrow> account \<Rightarrow> bool" where
  "linked_elsewhere d device_id acc =
     (case row_get dev_device_id device_id (device_configs d) of None \<Rightarrow> False
      | Some r \<Rightarrow> dev_user_id r \<noteq> None \<and> dev_user_id r \<noteq> Some (acc_id acc))"

definition api_upsert_config ::
  "snap_lib \<Rightarrow> sync_lib \<Rightarrow> environment \<Rightarrow> instant \<Rightarrow> entropy \<Rightarrow> string \<Rightarrow> json \<Rightarrow> account option \<Rightarrow> device_config handler" where
  "api_upsert_config lib sl env now ent raw_id payload account st =
     (case normalize_device_id raw_id of Inl e \<Rightarrow> (Inl e, st)
      | Inr device_id \<Rightarrow>
        (case account of None \<Rightarrow> (Inl (unauthorized ''Authentication required to push device config''), st)
         | Some acc \<Rightarrow>
           if linked_elsewhere (db st) device_id acc
           then (Inl (HTTPException 403 ''Device is linked to another account''), st)
           else (let row = row_get dev_device_id device_id (device_configs (db st));
                     r' = pushed_row now device_id (acc_id acc) payload row
                 in case create_snapshot lib (env_alloc env) now ent [] device_id (Some (acc_id acc)) (or_empty payload)
                           ''auto'' None None False None (upserted sl env now device_id payload acc st) of
                      (Inr _, st3) \<Rightarrow> (Inr r', st3)
                    | (Inl (PayloadTooLarge n), st3) \<Rightarrow> (Inr r', st3)
                    | (Inl e, st3) \<Rightarrow> (Inl e, st3))))"

definition require_owned_row :: "string \<Rightarrow> account \<Rightarrow> bool \<Rightarrow> database \<Rightarrow> exn + device_config option" where
  "require_owned_row raw_id acc not_found_ok d =
     (case normalize_device_id raw_id of Inl e \<Rightarrow> Inl e
      | Inr device_id \<Rightarrow>
        (case row_get dev_device_id device_id (device_configs d) of
           None \<Rightarrow> if not_found_ok then Inr None else Inl (not_found ''No snapshot'')
         | Some row \<Rightarrow> if dev_user_id row \<noteq> Some (acc_id acc) then Inl (not_found ''No snapshot'') else Inr (Some row)))"

definition api_get_config :: "string \<Rightarrow> account \<Rightarrow> device_config handler" where
  "api_get_config device_id acc st =
     (case require_owned_row device_id acc False (db st) of
        Inl e \<Rightarrow> (Inl e, st) | Inr None \<Rightarrow> (Inl (not_found ''No snapshot''), st) | Inr (Some row) \<Rightarrow> (Inr row, st))"

text \<open>The status and the timestamp of the \<open>HEAD\<close> answer.\<close>

definition api_head_config :: "string \<Rightarrow> account \<Rightarrow> (nat \<times> instant option) handler" where
  "api_head_config device_id acc st =
     (case require_owned_row device_id acc True (db st) of
        Inl e \<Rightarrow> (Inl e, st) | Inr None \<Rightarrow> (Inr (404, None), st)
      | Inr (Some row) \<Rightarrow> (Inr (200, Some (dev_updated_at row)), st))"

definition api_exists_config :: "string \<Rightarrow> account \<Rightarrow> (string \<times> instant option \<times> bool) handler" where
  "api_exists_config device_id acc st =
     (case require_owned_row device_id acc True (db st) of
        Inl e \<Rightarrow> (Inl e, st)
      | Inr None \<Rightarrow> (case normalize_device_id device_id of Inl e \<Rightarrow> (Inl e, st) | Inr i \<Rightarrow> (Inr (i, None, False), st))
      | Inr (Some row) \<Rightarrow> (Inr (dev_device_id row, Some (dev_updated_at row), True), st))"

definition api_delete_config :: "bool \<Rightarrow> string \<Rightarrow> account \<Rightarrow> bool handler" where
  "api_delete_config heads_first device_id acc st =
     (case require_owned_row device_id acc True (db st) of
        Inl e \<Rightarrow> (Inl e, st) | Inr None \<Rightarrow> (Inr False, st)
      | Inr (Some row) \<Rightarrow>
        (case delete_device_row heads_first (dev_device_id row) (db st) of
           Inl e \<Rightarrow> (Inl e, st) | Inr d \<Rightarrow> (Inr True, st\<lparr>db := d\<rparr>)))"

section \<open>The push, case by case\<close>

lemma extract_metadata_keeps [simp]:
  "dev_device_id (extract_metadata p r) = dev_device_id r"
  "dev_user_id (extract_metadata p r) = dev_user_id r"
  "dev_payload (extract_metadata p r) = dev_payload r"
  "dev_last_seen_at (extract_metadata p r) = dev_last_seen_at r"
proof -
  have "dev_device_id (meta_name p r) = dev_device_id r" "dev_user_id (meta_name p r) = dev_user_id r"
    "dev_payload (meta_name p r) = dev_payload r" "dev_last_seen_at (meta_name p r) = dev_last_seen_at r" for r
    by (simp_all add: meta_name_def split: option.split json.split)
  moreover have "dev_device_id (meta_sites p r) = dev_device_id r" "dev_user_id (meta_sites p r) = dev_user_id r"
    "dev_payload (meta_sites p r) = dev_payload r" "dev_last_seen_at (meta_sites p r) = dev_last_seen_at r" for r
    by (simp_all add: meta_sites_def split: option.split json.split)
  moreover have "dev_device_id (meta_system p r) = dev_device_id r" "dev_user_id (meta_system p r) = dev_user_id r"
    "dev_payload (meta_system p r) = dev_payload r" "dev_last_seen_at (meta_system p r) = dev_last_seen_at r" for r
    by (simp_all add: meta_system_def split: option.split json.split)
  ultimately show "dev_device_id (extract_metadata p r) = dev_device_id r"
    "dev_user_id (extract_metadata p r) = dev_user_id r" "dev_payload (extract_metadata p r) = dev_payload r"
    "dev_last_seen_at (extract_metadata p r) = dev_last_seen_at r"
    by (simp_all add: extract_metadata_def)
qed

lemma pushed_row_id [simp]:
  "dev_device_id (pushed_row now device_id aid payload row) = (case row of None \<Rightarrow> device_id | Some r \<Rightarrow> dev_device_id r)"
  by (auto simp: pushed_row_def Let_def split: option.splits)

lemma pushed_row_fields:
  "dev_payload (pushed_row now device_id aid payload row) = payload"
  "dev_user_id (pushed_row now device_id aid payload row) =
     (case row of None \<Rightarrow> Some aid | Some r \<Rightarrow> if dev_user_id r = None then Some aid else dev_user_id r)"
  "dev_last_seen_at (pushed_row now device_id aid payload row) = Some now"
  by (auto simp: pushed_row_def Let_def split: option.splits)

lemma upsert_cases:
  assumes "api_upsert_config lib sl env now ent raw payload account st = (r, st')"
  obtains (refused) e where "r = Inl e" and "st' = st"
      and "is_http 400 r \<or> account = None \<and> is_http 401 r
        \<or> (\<exists>dev acc. normalize_device_id raw = Inr dev \<and> account = Some acc
             \<and> linked_elsewhere (db st) dev acc \<and> is_http 403 r)"
  | (pushed) dev acc rc where "normalize_device_id raw = Inr dev" and "account = Some acc"
      and "\<not> linked_elsewhere (db st) dev acc"
      and "create_snapshot lib (env_alloc env) now ent [] dev (Some (acc_id acc)) (or_empty payload) ''auto'' None None
             False None (upserted sl env now dev payload acc st) = (rc, st')"
      and "r = (case rc of Inr _ \<Rightarrow> Inr (pushed_row now dev (acc_id acc) payload
                  (row_get dev_device_id dev (device_configs (db st))))
                | Inl (PayloadTooLarge n) \<Rightarrow> Inr (pushed_row now dev (acc_id acc) payload
                  (row_get dev_device_id dev (device_configs (db st))))
                | Inl e \<Rightarrow> Inl e)"
proof (cases "normalize_device_id raw")
  case (Inl e)
  then have "is_http 400 (Inl e :: exn + device_config)"
    by (auto simp: normalize_device_id_def is_http_def Let_def split: if_splits)
  moreover from Inl assms have "r = Inl e" "st' = st" by (simp_all add: api_upsert_config_def)
  ultimately show thesis using refused by blast
next
  case dev: (Inr dev)
  show thesis
  proof (cases account)
    case None
    with assms dev have "is_http 401 r" "st' = st" "\<exists>e. r = Inl e"
      by (auto simp: api_upsert_config_def is_http_def unauthorized_def)
    with None refused show thesis by blast
  next
    case (Some acc)
    show thesis
    proof (cases "linked_elsewhere (db st) dev acc")
      case True
      with assms dev Some have "is_http 403 r" "st' = st" "\<exists>e. r = Inl e"
        by (auto simp: api_upsert_config_def is_http_def)
      with True dev Some refused show thesis by blast
    next
      case False
      obtain rc st3 where c: "create_snapshot lib (env_alloc env) now ent [] dev (Some (acc_id acc)) (or_empty payload)
          ''auto'' None None False None (upserted sl env now dev payload acc st) = (rc, st3)" by fastforce
      have "st3 = st' \<and> r = (case rc of Inr _ \<Rightarrow> Inr (pushed_row now dev (acc_id acc) payload
                  (row_get dev_device_id dev (device_configs (db st))))
                | Inl (PayloadTooLarge n) \<Rightarrow> Inr (pushed_row now dev (acc_id acc) payload
                  (row_get dev_device_id dev (device_configs (db st))))
                | Inl e \<Rightarrow> Inl e)"
        using assms dev Some False c by (auto simp: api_upsert_config_def Let_def split: sum.splits exn.splits)
      with pushed [OF dev Some False] c show thesis by simp
    qed
  qed
qed

end
