(* ===== verification/Backups.thy ===== *)
theory Backups
  imports Devices Idempotency
begin

text \<open>
  The backup endpoints (\<^verbatim>\<open>app/backups.py\<close>): listing, creating, comparing, reading,
  downloading, deleting, importing and restoring the versioned snapshots of a device,
  with the replay cache in front of the mutating ones.

  \<open>services\<close> bundles what the handlers are called with: the environment, the snapshot
  libraries, the rendering of the response class, the case folding of \<open>LIKE\<close> and the
  JSON-patch library. \<open>racing_keys\<close> and \<open>racing_records\<close> are the rows that other
  transactions commit meanwhile.
\<close>

record services =
  sv_env :: environment
  sv_lib :: snap_lib
  sv_render :: "json \<Rightarrow> bytes"
  sv_like :: "char \<Rightarrow> char"
  sv_patch :: "json \<Rightarrow> json \<Rightarrow> json list"
  sv_entropy :: entropy
  sv_now :: instant
  sv_racing_keys :: "encryption_key list"
  sv_racing_records :: "idempotency_record list"

abbreviation sv_client_ip :: "services \<Rightarrow> request \<Rightarrow> string" where
  "sv_client_ip sv \<equiv> client_ip (env_ip_address (sv_env sv)) (env_trusted (sv_env sv))"

section \<open>Schemas\<close>

definition opt_max_length :: "nat \<Rightarrow> string option \<Rightarrow> bool" where
  "opt_max_length n s = (case s of None \<Rightarrow> True | Some x \<Rightarrow> length x \<le> n)"

record create_request =
  cr_label :: "string option"
  cr_kind :: string
  cr_payload :: "json option"
  cr_encrypt :: bool

definition create_request_valid :: "create_request \<Rightarrow> bool" where
  "create_request_valid b \<longleftrightarrow> opt_max_length 128 (cr_label b) \<and> cr_kind b \<in> {''auto'', ''manual''} \<and>
     (case cr_payload b of None \<Rightarrow> True | Some (JObj _) \<Rightarrow> True | _ \<Rightarrow> False)"

definition create_request_dump :: "create_request \<Rightarrow> json" where
  "create_request_dump b = JObj [(''label'', jopt_str (cr_label b)), (''kind'', JStr (cr_kind b)),
     (''payload'', case cr_payload b of None \<Rightarrow> JNull | Some p \<Rightarrow> p), (''encrypt'', JBool (cr_encrypt b))]"

record import_request =
  im_schema :: string
  im_payload :: json
  im_label :: "string option"
  im_original_id :: "int option"
  im_original_device_id :: "string option"
  im_created_at :: "string option"
  im_kind :: "string option"
  im_checksum :: "string option"

definition import_request_valid :: "import_request \<Rightarrow> bool" where
  "import_request_valid b \<longleftrightarrow> im_schema b = ''nks-wdc-snapshot-v1'' \<and>
     (case im_payload b of JObj _ \<Rightarrow> True | _ \<Rightarrow> False) \<and> opt_max_length 128 (im_label b)"

definition import_request_dump :: "import_request \<Rightarrow> json" where
  "import_request_dump b = JObj [(''schema_'', JStr (im_schema b)), (''payload'', im_payload b),
     (''label'', jopt_str (im_label b)), (''original_id'', jopt_int (im_original_id b)),
     (''original_device_id'', jopt_str (im_original_device_id b)), (''created_at'', jopt_str (im_created_at b)),
     (''kind'', jopt_str (im_kind b)), (''checksum'', jopt_str (im_checksum b))]"

definition restore_request_dump :: "int \<Rightarrow> json" where
  "restore_request_dump snapshot_id = JObj [(''snapshot_id'', JInt snapshot_id)]"

section \<open>Helpers\<close>

definition owned_device :: "string \<Rightarrow> account \<Rightarrow> database \<Rightarrow> exn + device_config" where
  "owned_device device_id acc d =
     (case normalize_device_id device_id of Inl e \<Rightarrow> Inl e
      | Inr normalized \<Rightarrow>
        (case row_get dev_device_id normalized (device_configs d) of None \<Rightarrow> Inl (not_found ''Device not found'')
         | Some dev \<Rightarrow> if dev_user_id dev \<noteq> Some (acc_id acc) then Inl (not_found ''Device not found'') else Inr dev))"

definition snapshot_meta :: "environment \<Rightarrow> device_snapshot \<Rightarrow> json" where
  "snapshot_meta env s = JObj [(''id'', JInt (snap_id s)), (''device_id'', JStr (snap_device_id s)),
     (''created_at'', JStr (env_isoformat env (snap_created_at s))), (''label'', jopt_str (snap_label s)),
     (''kind'', JStr (snap_kind s)), (''size_bytes'', JInt (int (snap_size_bytes s))),
     (''checksum'', JStr (snap_checksum s)), (''compression'', jopt_str (snap_compression s)),
     (''parent_snapshot_id'', jopt_int (snap_parent s))]"

text \<open>The lookup the endpoints repeat: the snapshot of this device and this account, or 404.\<close>

definition own_snapshot :: "string \<Rightarrow> int \<Rightarrow> account \<Rightarrow> string \<Rightarrow> database \<Rightarrow> exn + device_snapshot" where
  "own_snapshot device_id snapshot_id acc msg d =
     (case row_get snap_id snapshot_id (device_snapshots d) of None \<Rightarrow> Inl (not_found msg)
      | Some s \<Rightarrow> if snap_device_id s \<noteq> py_lower device_id \<or> snap_account_id s \<noteq> Some (acc_id acc)
                  then Inl (not_found msg) else Inr s)"

definition detail_of :: "string \<Rightarrow> device_snapshot \<Rightarrow> json" where
  "detail_of device_id s = JObj [(''device_id'', JStr device_id), (''kind'', JStr (snap_kind s)),
     (''label'', jopt_str (snap_label s))]"

section \<open>Reading\<close>

definition list_backups ::
  "services \<Rightarrow> string \<Rightarrow> account \<Rightarrow> int \<Rightarrow> int \<Rightarrow> string option \<Rightarrow> string option
     \<Rightarrow> (device_snapshot list \<times> nat \<times> int option) handler" where
  "list_backups sv device_id acc offset limit kind label st =
     (if offset < 0 \<or> limit < 1 \<or> 200 < limit then (Inl (HTTPException 422 ''validation''), st)
      else (case owned_device device_id acc (db st) of Inl e \<Rightarrow> (Inl e, st)
        | Inr _ \<Rightarrow>
          (let (rows, tot) = list_snapshots (sv_lib sv) (sv_like sv) (db st) (py_lower device_id) (acc_id acc)
                               kind label offset limit
           in (Inr (rows, tot, map_option snap_id (get_head (db st) (py_lower device_id))), st))))"

definition diff_backups ::
  "services \<Rightarrow> string \<Rightarrow> int \<Rightarrow> int \<Rightarrow> account \<Rightarrow> (int \<times> int \<times> json list) handler" where
  "diff_backups sv device_id from_id to_id acc st =
     (case owned_device device_id acc (db st) of Inl e \<Rightarrow> (Inl e, st)
      | Inr _ \<Rightarrow>
        (case own_snapshot device_id from_id acc ''Snapshot not found'' (db st) of Inl e \<Rightarrow> (Inl e, st)
         | Inr a \<Rightarrow>
           (case own_snapshot device_id to_id acc ''Snapshot not found'' (db st) of Inl e \<Rightarrow> (Inl e, st)
            | Inr b \<Rightarrow>
              (case snapshot_diff (sv_lib sv) (sv_patch sv) a b True st of Inl e \<Rightarrow> (Inl e, st)
               | Inr patch \<Rightarrow> (Inr (from_id, to_id, patch), st)))))"

text \<open>A \<open>PermissionError\<close> of the decryption becomes 401.\<close>

definition readable_payload ::
  "services \<Rightarrow> string \<Rightarrow> int \<Rightarrow> account \<Rightarrow> string option \<Rightarrow> app_state \<Rightarrow> exn + device_snapshot \<times> json" where
  "readable_payload sv device_id snapshot_id acc passphrase st =
     (case owned_device device_id acc (db st) of Inl e \<Rightarrow> Inl e
      | Inr _ \<Rightarrow>
        (case own_snapshot device_id snapshot_id acc ''Snapshot not found'' (db st) of Inl e \<Rightarrow> Inl e
         | Inr s \<Rightarrow>
           (case unpack_payload (sv_lib sv) s True passphrase st of
              Inl (PermissionError m) \<Rightarrow> Inl (HTTPException 401 m)
            | Inl e \<Rightarrow> Inl e
            | Inr payload \<Rightarrow> Inr (s, payload))))"

definition get_backup ::
  "services \<Rightarrow> string \<Rightarrow> int \<Rightarrow> account \<Rightarrow> string option \<Rightarrow> (device_snapshot \<times> json) handler" where
  "get_backup sv device_id snapshot_id acc passphrase st =
     (readable_payload sv device_id snapshot_id acc passphrase st, st)"

definition envelope :: "environment \<Rightarrow> device_snapshot \<Rightarrow> json \<Rightarrow> json" where
  "envelope env s payload = JObj [(''schema'', JStr ''nks-wdc-snapshot-v1''), (''id'', JInt (snap_id s)),
     (''device_id'', JStr (snap_device_id s)), (''created_at'', JStr (env_isoformat env (snap_created_at s))),
     (''label'', jopt_str (snap_label s)), (''kind'', JStr (snap_kind s)),
     (''checksum'', JStr (snap_checksum s)), (''payload'', payload)]"

definition download_backup ::
  "services \<Rightarrow> string \<Rightarrow> int \<Rightarrow> account \<Rightarrow> string option \<Rightarrow> (bytes \<times> string) handler" where
  "download_backup sv device_id snapshot_id acc passphrase st =
     (case readable_payload sv device_id snapshot_id acc passphrase st of Inl e \<Rightarrow> (Inl e, st)
      | Inr (s, payload) \<Rightarrow>
        (Inr (ascii_encode (dumps_indent 0 (envelope (sv_env sv) s payload)),
              ''attachment; filename='' @ [dquote] @ ''snapshot-'' @ snap_device_id s @ ''-'' @ show_int (snap_id s)
                @ ''.json'' @ [dquote]), st))"

section \<open>Writing\<close>

definition too_large_message :: "snap_lib \<Rightarrow> nat \<Rightarrow> string" where
  "too_large_message lib n =
     ''Snapshot '' @ show_nat n @ '' bytes exceeds BLOB_THRESHOLD '' @ show_nat (lib_blob_threshold lib) @
     ''; configure NKS_WDC_BLOB_S3_* to enable external storage.''"

definition create_backup ::
  "services \<Rightarrow> string \<Rightarrow> create_request \<Rightarrow> request \<Rightarrow> account \<Rightarrow> string option \<Rightarrow> response handler" where
  "create_backup sv device_id body req acc passphrase st =
     (if \<not> create_request_valid body then (Inl (HTTPException 422 ''validation''), st)
      else (case replay_if_present (lib_sha256_hex (sv_lib sv)) (sv_now sv) req (Some acc)
                   (Some (create_request_dump body)) st of
        (Inl e, st0) \<Rightarrow> (Inl e, st0)
      | (Inr (Some cached), st0) \<Rightarrow> (Inr cached, st0)
      | (Inr None, st0) \<Rightarrow>
        (case owned_device device_id acc (db st0) of Inl e \<Rightarrow> (Inl e, st0)
         | Inr dev \<Rightarrow>
           (let payload = (case cr_payload body of Some p \<Rightarrow> p | None \<Rightarrow> or_empty (dev_payload dev)) in
            case create_snapshot (sv_lib sv) (env_alloc (sv_env sv)) (sv_now sv) (sv_entropy sv) (sv_racing_keys sv)
                   (py_lower device_id) (Some (acc_id acc)) payload (cr_kind body) (cr_label body)
                   (Some (sv_client_ip sv req)) (cr_encrypt body) passphrase st0 of
              (Inl (PayloadTooLarge n), st1) \<Rightarrow> (Inl (HTTPException 413 (too_large_message (sv_lib sv) n)), st1)
            | (Inl (ValueError m), st1) \<Rightarrow> (Inl (HTTPException 400 m), st1)
            | (Inl e, st1) \<Rightarrow> (Inl e, st1)
            | (Inr s, st1) \<Rightarrow>
              (let st2 = emit (sv_env sv) (sv_now sv) (Some acc) ''backup.created'' (Some req) (Some ''snapshot'')
                           (Some (show_int (snap_id s))) (Some (detail_of device_id s)) st1;
                   (r, st3) = wrap_json (lib_sha256_hex (sv_lib sv)) (sv_render sv) (sv_now sv)
                      (sv_racing_records sv) req (Some acc) (snapshot_meta (sv_env sv) s) 201
                      (Some (create_request_dump body)) st2
               in (Inr r, st3))))))"

definition delete_backup :: "services \<Rightarrow> string \<Rightarrow> int \<Rightarrow> request \<Rightarrow> account \<Rightarrow> unit handler" where
  "delete_backup sv device_id snapshot_id req acc st =
     (case owned_device device_id acc (db st) of Inl e \<Rightarrow> (Inl e, st)
      | Inr _ \<Rightarrow>
        (case own_snapshot device_id snapshot_id acc ''Snapshot not found'' (db st) of Inl e \<Rightarrow> (Inl e, st)
         | Inr s \<Rightarrow>
           if (case get_head (db st) (py_lower device_id) of None \<Rightarrow> False | Some h \<Rightarrow> snap_id h = snap_id s)
           then (Inl (HTTPException 409 ''Cannot delete the current HEAD - restore to another snapshot first''), st)
           else (let st1 = emit (sv_env sv) (sv_now sv) (Some acc) ''backup.deleted'' (Some req) (Some ''snapshot'')
                             (Some (show_int (snap_id s))) (Some (detail_of device_id s)) st
                 in case delete_snapshots [snap_id s] (db st1) of
                      Inl e \<Rightarrow> (Inl e, st1)
                    | Inr (_, d) \<Rightarrow> (Inr (), st1\<lparr>db := d\<rparr>))))"

definition py_str_opt :: "string option \<Rightarrow> string" where
  "py_str_opt s = (case s of None \<Rightarrow> ''None'' | Some x \<Rightarrow> x)"

definition import_label :: "import_request \<Rightarrow> string" where
  "import_label b =
     (if truthy (im_label b) then the (im_label b)
      else (case im_original_id b of
              Some i \<Rightarrow> ''imported-from-'' @ py_str_opt (im_original_device_id b) @ ''-#'' @ show_int i
            | None \<Rightarrow> ''imported-snapshot''))"

definition import_backup ::
  "services \<Rightarrow> string \<Rightarrow> import_request \<Rightarrow> request \<Rightarrow> account \<Rightarrow> response handler" where
  "import_backup sv device_id body req acc st =
     (if \<not> import_request_valid body then (Inl (HTTPException 422 ''validation''), st)
      else (case replay_if_present (lib_sha256_hex (sv_lib sv)) (sv_now sv) req (Some acc)
                   (Some (import_request_dump body)) st of
        (Inl e, st0) \<Rightarrow> (Inl e, st0)
      | (Inr (Some cached), st0) \<Rightarrow> (Inr cached, st0)
      | (Inr None, st0) \<Rightarrow>
        (case owned_device device_id acc (db st0) of Inl e \<Rightarrow> (Inl e, st0)
         | Inr _ \<Rightarrow>
           (let label = import_label body in
            case create_snapshot (sv_lib sv) (env_alloc (sv_env sv)) (sv_now sv) (sv_entropy sv) (sv_racing_keys sv)
                   (py_lower device_id) (Some (acc_id acc)) (im_payload body) ''import'' (Some label)
                   (Some (sv_client_ip sv req)) False None st0 of
              (Inl (PayloadTooLarge n), st1) \<Rightarrow> (Inl (HTTPException 413 (too_large_message (sv_lib sv) n)), st1)
            | (Inl e, st1) \<Rightarrow> (Inl e, st1)
            | (Inr s, st1) \<Rightarrow>
              (let st2 = emit (sv_env sv) (sv_now sv) (Some acc) ''backup.imported'' (Some req) (Some ''snapshot'')
                           (Some (show_int (snap_id s)))
                           (Some (JObj [(''device_id'', JStr device_id),
                              (''source_device_id'', jopt_str (im_original_device_id body)),
                              (''source_id'', jopt_int (im_original_id body)), (''label'', JStr label)])) st1;
                   (r, st3) = wrap_json (lib_sha256_hex (sv_lib sv)) (sv_render sv) (sv_now sv)
                      (sv_racing_records sv) req (Some acc) (snapshot_meta (sv_env sv) s) 201
                      (Some (import_request_dump body)) st2
               in (Inr r, st3))))))"

text \<open>The snapshot of the old HEAD that a restore takes first.\<close>

definition pre_restore ::
  "services \<Rightarrow> string \<Rightarrow> account \<Rightarrow> device_snapshot \<Rightarrow> device_snapshot option \<Rightarrow> unit handler" where
  "pre_restore sv device_id acc target current st =
     (case current of None \<Rightarrow> (Inr (), st)
      | Some c \<Rightarrow>
        if snap_id c = snap_id target then (Inr (), st)
        else (case unpack_payload (sv_lib sv) c True None st of Inl e \<Rightarrow> (Inl e, st)
          | Inr payload \<Rightarrow>
            (case create_snapshot (sv_lib sv) (env_alloc (sv_env sv)) (sv_now sv) (sv_entropy sv) (sv_racing_keys sv)
                    (py_lower device_id) (Some (acc_id acc)) payload ''pre_restore''
                    (Some (''pre-restore-to-#'' @ show_int (snap_id target))) None False None st of
               (Inl e, st1) \<Rightarrow> (Inl e, st1)
             | (Inr _, st1) \<Rightarrow> (Inr (), st1))))"

definition restore_backup ::
  "services \<Rightarrow> string \<Rightarrow> int \<Rightarrow> request \<Rightarrow> account \<Rightarrow> response handler" where
  "restore_backup sv device_id snapshot_id req acc st =
     (case replay_if_present (lib_sha256_hex (sv_lib sv)) (sv_now sv) req (Some acc)
             (Some (restore_request_dump snapshot_id)) st of
        (Inl e, st0) \<Rightarrow> (Inl e, st0)
      | (Inr (Some cached), st0) \<Rightarrow> (Inr cached, st0)
      | (Inr None, st0) \<Rightarrow>
        (case owned_device device_id acc (db st0) of Inl e \<Rightarrow> (Inl e, st0)
         | Inr _ \<Rightarrow>
           (case own_snapshot device_id snapshot_id acc ''Target snapshot not found'' (db st0) of Inl e \<Rightarrow> (Inl e, st0)
            | Inr target \<Rightarrow>
              (let current = get_head (db st0) (py_lower device_id) in
               case pre_restore sv device_id acc target current st0 of
                 (Inl e, st1) \<Rightarrow> (Inl e, st1)
               | (Inr _, st1) \<Rightarrow>
                 (case set_head (sv_now sv) (py_lower device_id) (snap_id target) ''restore'' (db st1) of
                    Inl e \<Rightarrow> (Inl e, st1)
                  | Inr d \<Rightarrow>
                    (let st2 = emit (sv_env sv) (sv_now sv) (Some acc) ''backup.restored'' (Some req) (Some ''snapshot'')
                                 (Some (show_int (snap_id target)))
                                 (Some (JObj [(''device_id'', JStr device_id),
                                    (''from_head'', jopt_int (map_option snap_id current))])) (st1\<lparr>db := d\<rparr>);
                         (r, st3) = wrap_json (lib_sha256_hex (sv_lib sv)) (sv_render sv) (sv_now sv)
                            (sv_racing_records sv) req (Some acc) (snapshot_meta (sv_env sv) target) 200
                            (Some (restore_request_dump snapshot_id)) st2
                     in (Inr r, st3)))))))"

end
