(* ===== verification/Store.thy ===== *)
theory Store
  imports Backups
begin

text \<open>
  The snapshot store behind all its endpoints: the integrity of the device, snapshot and
  HEAD tables as one invariant (\<open>store_inv\<close>), the endpoints as the steps of a transition
  system whose requests commit or roll back, and what the backup endpoints guarantee.
\<close>

section \<open>The invariant\<close>

text \<open>
  HEADs are live (\<open>heads_ok\<close>), rows have one lane and a known kind (\<open>rows_ok\<close>), and the
  references resolve: a snapshot's device exists, its parent exists, and device ids are
  in normal form.
\<close>

definition refs_ok :: "database \<Rightarrow> bool" where
  "refs_ok d \<longleftrightarrow>
     (\<forall>s \<in> set (device_snapshots d). snap_device_id s \<in> dev_device_id ` set (device_configs d)
        \<and> (\<forall>p. snap_parent s = Some p \<longrightarrow> p \<in> snap_id ` set (device_snapshots d)))
     \<and> pk dev_device_id (device_configs d)
     \<and> (\<forall>i \<in> dev_device_id ` set (device_configs d). valid_device_id i)"

definition store_inv :: "database \<Rightarrow> bool" where
  "store_inv d \<longleftrightarrow> heads_ok d \<and> rows_ok d \<and> refs_ok d"

lemma store_invI: "heads_ok d \<Longrightarrow> rows_ok d \<Longrightarrow> refs_ok d \<Longrightarrow> store_inv d"
  by (simp add: store_inv_def)

lemma store_invD [dest]:
  assumes "store_inv d"
  shows "heads_ok d" "rows_ok d" "refs_ok d"
  using assms by (simp_all add: store_inv_def)

text \<open>The part of the database the invariant speaks about.\<close>

definition dview :: "database \<Rightarrow> device_snapshot list \<times> device_head list \<times> device_config list" where
  "dview d = (device_snapshots d, device_heads d, device_configs d)"

lemma dview_eq: "dview d = dview d' \<longleftrightarrow> device_snapshots d = device_snapshots d' \<and>
    device_heads d = device_heads d' \<and> device_configs d = device_configs d'"
  by (simp add: dview_def)

lemma store_inv_dview: "dview d = dview d' \<Longrightarrow> store_inv d = store_inv d'"
  by (simp add: dview_eq store_inv_def heads_ok_def rows_ok_def refs_ok_def)

lemma get_head_dview: "dview d = dview d' \<Longrightarrow> get_head d dev = get_head d' dev"
  by (rule get_head_cong) (simp_all add: dview_eq)

lemma valid_not_raw: "valid_device_id (py_lower i) \<Longrightarrow> py_lower (py_strip i) = py_lower i"
  using valid_strip [of "py_lower i"] by (simp add: py_strip_lower)

section \<open>Frames\<close>

lemma dview_emit [simp]: "dview (db (emit env now actor action req rt rid detail st)) = dview (db st)"
  by (simp add: dview_eq frame_simps)

lemma replay_frame:
  assumes "replay_if_present sha now req acc body st = (r, st')"
  shows "\<exists>rs. st' = st\<lparr>db := (db st)\<lparr>idempotency_records := rs\<rparr>\<rparr>"
proof -
  have self: "\<exists>rs. st = st\<lparr>db := (db st)\<lparr>idempotency_records := rs\<rparr>\<rparr>"
    by (intro exI [of _ "idempotency_records (db st)"]) simp
  show ?thesis using assms self
    by (auto simp: replay_if_present_def Let_def split: if_splits option.splits)
qed

lemma replay_dview:
  assumes "replay_if_present sha now req acc body st = (r, st')"
  shows "dview (db st') = dview (db st)" "committed st' = committed st" "objects st' = objects st"
    "account_encryption_keys (db st') = account_encryption_keys (db st)" "accounts (db st') = accounts (db st)"
  using replay_frame [OF assms] by (auto simp: dview_def)

lemma persist_dview [simp]:
  "dview (db (persist sha now racing req acc c b ct rb st)) = dview (db st)"
  "dview (committed (persist sha now racing req acc c b ct rb st)) = dview (committed st)"
  "objects (persist sha now racing req acc c b ct rb st) = objects st"
  "account_encryption_keys (db (persist sha now racing req acc c b ct rb st)) = account_encryption_keys (db st)"
  by (auto simp: persist_def see_records_def dview_def Let_def)

lemma wrap_json_snd [simp]:
  "snd (wrap_json sha render now racing req acc p c rb st) =
     persist sha now racing req acc c (ascii_encode (dumps_default p)) ''application/json'' rb st"
  by (simp add: wrap_json_def)

lemma active_key_committed:
  "active_key lib now ent racing a pass st = (r, st') \<Longrightarrow> dview (committed st') = dview (committed st)"
  by (auto simp: active_key_def see_keys_def dview_def Let_def split: list.splits sum.splits if_splits option.splits)

lemma append_committed:
  "append_snapshot alloc now dev aid label kind p kid par ip st = (r, st') \<Longrightarrow> committed st' = committed st"
  by (auto simp: append_snapshot_def Let_def split: if_splits sum.splits)

lemma encrypted_pack_committed:
  "encrypted_pack lib now ent racing a pass raw c st = (r, st') \<Longrightarrow> dview (committed st') = dview (committed st)"
  by (auto simp: encrypted_pack_def Let_def split: prod.splits sum.splits dest: active_key_committed)

lemma create_committed:
  assumes "create_snapshot lib alloc now ent racing dev aid payload kind label ip encrypt pass st = (r, st')"
  shows "dview (committed st') = dview (committed st)"
proof (cases "dedups lib (db st) dev payload label encrypt pass")
  case True
  with create_dedup [OF True] assms show ?thesis by auto
next
  case False
  from create_pack_then_append [OF False] assms show ?thesis
    by (auto split: if_splits prod.splits sum.splits dest!: append_committed encrypted_pack_committed pack_from_raw_db)
qed

section \<open>Snapshots and HEADs keep the invariant\<close>

lemma set_head_inv:
  assumes "store_inv d" and "set_head now dev i by d = Inr d'"
    and "row_get snap_id i (device_snapshots d) = Some s" and "snap_device_id s = dev"
  shows "store_inv d'"
proof -
  from set_head_cases [OF assms(2)] obtain hs where "d' = d\<lparr>device_heads := hs\<rparr>" by blast
  moreover from set_head_ok [OF _ assms(2-4)] assms(1) have "heads_ok d'" by blast
  ultimately show ?thesis using assms(1) by (auto simp: store_inv_def rows_ok_def refs_ok_def)
qed

lemma add_snapshot_inv:
  assumes "store_inv d" and "snapshot_row_ok d s" and "row_get snap_id (snap_id s) (device_snapshots d) = None"
  shows "store_inv (d\<lparr>device_snapshots := row_add s (device_snapshots d)\<rparr>)"
proof (rule store_invI)
  show "heads_ok (d\<lparr>device_snapshots := row_add s (device_snapshots d)\<rparr>)"
    using heads_ok_add assms(1,3) by blast
  show "rows_ok (d\<lparr>device_snapshots := row_add s (device_snapshots d)\<rparr>)"
    using assms(1,2) by (auto simp: store_inv_def rows_ok_def snapshot_row_ok_def)
  show "refs_ok (d\<lparr>device_snapshots := row_add s (device_snapshots d)\<rparr>)"
    using assms(1,2) by (auto simp: store_inv_def refs_ok_def snapshot_row_ok_def row_get_None split: option.splits)
qed

lemma append_inv:
  assumes i: "store_inv (db st)" and f: "fresh_alloc alloc"
    and a: "append_snapshot alloc now dev aid label kind p kid par ip st = (r, st')"
  shows "store_inv (db st')"
proof -
  define s where "s = snapshot_row (alloc (map snap_id (device_snapshots (db st)))) now dev aid label kind p kid par ip"
  define d1 where "d1 = (db st)\<lparr>device_snapshots := row_add s (device_snapshots (db st))\<rparr>"
  have id: "snap_id s = alloc (map snap_id (device_snapshots (db st)))" and dv: "snap_device_id s = dev"
    by (simp_all add: s_def snapshot_row_def)
  have n: "row_get snap_id (snap_id s) (device_snapshots (db st)) = None" using f by (simp add: id fresh_row_get)
  have g: "row_get snap_id (snap_id s) (device_snapshots d1) = Some s" using n by (simp add: d1_def row_get_add)
  show ?thesis
  proof (cases "snapshot_row_ok (db st) s")
    case True
    have i1: "store_inv d1" unfolding d1_def by (rule add_snapshot_inv [OF i True n])
    from a True have "db st' = d1 \<or> set_head now dev (snap_id s) kind d1 = Inr (db st')"
      by (auto simp: append_snapshot_def s_def [symmetric] d1_def [symmetric] Let_def split: sum.splits)
    then show ?thesis using i1 set_head_inv [OF i1 _ g dv] by auto
  next
    case False
    with a i show ?thesis by (auto simp: append_snapshot_def s_def [symmetric] Let_def)
  qed
qed

text \<open>A snapshot that is not deduplicated is packed without touching the device tables, then appended.\<close>

lemma create_packed:
  assumes "\<not> dedups lib (db st) dev payload label encrypt pass"
    and "create_snapshot lib alloc now ent racing dev aid payload kind label ip encrypt pass st = (r, st')"
  shows "\<exists>st1. dview (db st1) = dview (db st) \<and> (st' = st1
     \<or> (\<exists>p kid par. append_snapshot alloc now dev aid label kind p kid par ip st1 = (r, st')))"
proof -
  have "dview (db st1) = dview (db st)"
    if "encrypted_pack lib now ent racing a pass raw c st = (x, st1)
      \<or> pack_from_raw lib u raw c pl aid' st = (y, st1)" for a raw c x st1 u pl aid' y
    using that by (auto simp: dview_eq dest: encrypted_pack_frame pack_from_raw_db)
  note pf = this [OF disjI1] this [OF disjI2]
  from create_pack_then_append [OF assms(1)] assms(2) show ?thesis
    by (auto split: if_splits prod.splits sum.splits dest!: pf)
qed

lemma create_inv:
  assumes "store_inv (db st)" and "fresh_alloc alloc"
    and "create_snapshot lib alloc now ent racing dev aid payload kind label ip encrypt pass st = (r, st')"
  shows "store_inv (db st')"
proof (cases "dedups lib (db st) dev payload label encrypt pass")
  case True
  with create_dedup [OF True] assms show ?thesis by auto
next
  case False
  from create_packed [OF False assms(3)] append_inv [OF _ assms(2)] store_inv_dview assms(1) show ?thesis by metis
qed

section \<open>Deletions keep the invariant\<close>

lemma nullify_fields [simp]:
  "lanes (nullify A s) = lanes s" "snap_kind (nullify A s) = snap_kind s"
  "snap_account_id (nullify A s) = snap_account_id s"
  "snap_parent (nullify A s) = Some p \<longleftrightarrow> snap_parent s = Some p \<and> p \<notin> A"
  by (auto simp: nullify_def lanes_def split: option.splits)

lemma without_inv:
  assumes "store_inv d" and "\<forall>h \<in> set (device_heads d). head_current_snapshot_id h \<notin> A"
  shows "store_inv (without A d)"
proof (rule store_invI)
  show "heads_ok (without A d)" using without_heads_ok [OF _ assms(2)] assms(1) by blast
  show "rows_ok (without A d)" using assms(1) by (auto simp: store_inv_def rows_ok_def without_def)
  show "refs_ok (without A d)" using assms(1) by (auto simp: store_inv_def refs_ok_def without_def image_iff)
qed

lemma heads_avoid:
  assumes "heads_ok d'" and "device_snapshots d' = device_snapshots (without A d)" and "device_heads d' = device_heads d"
  shows "\<forall>h \<in> set (device_heads d). head_current_snapshot_id h \<notin> A"
proof
  fix h assume "h \<in> set (device_heads d)"
  with assms(1,3) obtain s where "s \<in> set (device_snapshots d')" "snap_id s = head_current_snapshot_id h"
    by (auto simp: heads_ok_def)
  with assms(2) show "head_current_snapshot_id h \<notin> A" by (auto simp: without_def)
qed

lemma retention_inv:
  assumes "store_inv (db st)" and "do_retention lib batch now st = (r, st')"
  shows "store_inv (db st')"
proof -
  from assms(1) have h: "heads_ok (db st)" by blast
  obtain s A st1 where d: "do_retention lib batch now st = (Inr s, st1)"
    and f: "device_snapshots (db st1) = device_snapshots (without A (db st))" "heads_ok (db st1)"
      "device_heads (db st1) = device_heads (db st)" "device_configs (db st1) = device_configs (db st)"
    by (rule do_retention_frame [OF h])
  have "dview (db st1) = dview (without A (db st))" using f by (simp add: dview_eq without_def)
  moreover have "store_inv (without A (db st))"
    by (rule without_inv [OF assms(1) heads_avoid [OF f(2,1,3)]])
  ultimately have "store_inv (db st1)" using store_inv_dview [of "db st1" "without A (db st)"] by simp
  with d assms(2) show ?thesis by simp
qed

lemma purge_committed: "committed (snd (purge_accounts lib now as tot st)) = committed st"
proof (induction as arbitrary: tot st)
  case (Cons a as)
  have b: "committed (delete_blobs lib uris s) = committed s" for uris s
    unfolding delete_blobs_def
    by (induction uris arbitrary: s) (auto simp: blob_delete_def split: sum.splits prod.splits)
  define p where "p = resolve_policy (db st) a"
  obtain r st1 where e: "purge_auto_older_than lib now a (keep_last_n_auto p) (auto_expire_days p)
      (keep_labeled_forever p) st = (r, st1)" by fastforce
  then have "committed st1 = committed st"
    using b by (auto simp: purge_auto_older_than_def Let_def split: if_splits sum.splits)
  with Cons.IH e show ?case by (cases r) (simp_all add: p_def Let_def)
qed simp

lemma retention_committed: "do_retention lib batch now st = (r, st') \<Longrightarrow> committed st' = committed st"
  using purge_committed [of lib now "map acc_id (accounts (db st))" 0 st]
  by (auto simp: do_retention_def Let_def split: prod.splits sum.splits)

lemma delete_device_inv:
  assumes "store_inv d" and "delete_device_row hf dev d = Inr d'"
  shows "store_inv d'"
proof -
  define ids where "ids = snap_id ` {s \<in> set (device_snapshots d). snap_device_id s = dev}"
  have snaps: "device_snapshots d' = map (nullify ids) (filter (\<lambda>s. snap_device_id s \<noteq> dev) (device_snapshots d))"
    and heads: "device_heads d' = filter (\<lambda>h. head_device_id h \<noteq> dev) (device_heads d)"
    and devs: "device_configs d' = row_del dev_device_id dev (device_configs d)"
    using assms(2) by (auto simp: delete_device_row_def Let_def ids_def split: if_splits)
  note inv = assms(1) [unfolded store_inv_def heads_ok_def rows_ok_def refs_ok_def]
  show ?thesis
  proof (rule store_invI)
    have "pk snap_id (device_snapshots d')" using inv by (simp add: snaps pk_def o_def distinct_map_filter)
    moreover have "\<exists>s \<in> set (device_snapshots d'). snap_id s = head_current_snapshot_id h \<and> snap_device_id s = head_device_id h"
      if "h \<in> set (device_heads d')" for h
      using that inv by (auto simp: heads snaps) (metis (no_types, lifting) snap_id_nullify)
    ultimately show "heads_ok d'" using inv by (simp add: heads_ok_def heads pk_filter)
    show "rows_ok d'" using inv by (auto simp: rows_ok_def snaps)
    have "p \<in> snap_id ` set (device_snapshots d')"
      if "s \<in> set (device_snapshots d)" "snap_parent s = Some p" "p \<notin> ids" for s p
    proof -
      from inv that obtain t where "t \<in> set (device_snapshots d)" "snap_id t = p" by blast
      with that(3) have "nullify ids t \<in> set (device_snapshots d')" by (auto simp: ids_def snaps)
      with \<open>snap_id t = p\<close> show ?thesis by (metis image_eqI snap_id_nullify(1))
    qed
    then show "refs_ok d'" using inv by (auto simp: refs_ok_def snaps devs set_row_del pk_del)
  qed
qed

lemma devices_inv:
  assumes "store_inv d" and "map dev_device_id cs = map dev_device_id (device_configs d)"
  shows "store_inv (d\<lparr>device_configs := cs\<rparr>)"
proof -
  from assms(2) have "dev_device_id ` set cs = dev_device_id ` set (device_configs d)"
    by (metis list.set_map)
  with assms show ?thesis by (simp add: store_inv_def heads_ok_def rows_ok_def refs_ok_def pk_def)
qed

lemma ids_row_set: "(\<And>r. key (f r) = key r) \<Longrightarrow> map key (row_set key k f rows) = map key rows"
  by (simp add: row_set_def)

lemma put_device_inv:
  assumes "store_inv d" and "valid_device_id (dev_device_id r)"
  shows "store_inv (put_device r d)"
proof (cases "row_get dev_device_id (dev_device_id r) (device_configs d)")
  case None
  with assms show ?thesis
    by (auto simp: put_device_def store_inv_def heads_ok_def rows_ok_def refs_ok_def pk_add)
next
  case (Some r0)
  have "map dev_device_id (row_set dev_device_id (dev_device_id r) (\<lambda>_. r) (device_configs d)) =
      map dev_device_id (device_configs d)" by (simp add: row_set_def)
  with devices_inv [OF assms(1)] Some show ?thesis by (simp add: put_device_def)
qed

section \<open>Every endpoint keeps the invariant\<close>

text \<open>The invariant of a state: of the session's view and of the committed database.\<close>

definition state_inv :: "app_state \<Rightarrow> bool" where
  "state_inv st \<longleftrightarrow> store_inv (db st) \<and> store_inv (committed st)"

lemma state_inv_frame:
  "state_inv st \<Longrightarrow> dview (db st') = dview (db st) \<Longrightarrow> dview (committed st') = dview (committed st) \<Longrightarrow> state_inv st'"
  using store_inv_dview [of "db st'" "db st"] store_inv_dview [of "committed st'" "committed st"]
  by (simp add: state_inv_def)

lemma state_inv_emit [simp]: "state_inv (emit env now actor action req rt rid detail st) = state_inv st"
  using store_inv_dview [OF dview_emit] by (simp add: state_inv_def)

lemma state_inv_persist [simp]: "state_inv (persist sha now racing req acc c b ct rb st) = state_inv st"
  using store_inv_dview [OF persist_dview(1)] store_inv_dview [OF persist_dview(2)] by (simp add: state_inv_def)

lemma state_inv_replay:
  "state_inv st \<Longrightarrow> replay_if_present sha now req acc body st = (r, st') \<Longrightarrow> state_inv st'"
  by (erule state_inv_frame) (auto dest: replay_dview)

lemma state_inv_create:
  "state_inv st \<Longrightarrow> fresh_alloc alloc \<Longrightarrow>
     create_snapshot lib alloc now ent racing dev aid payload kind label ip encrypt pass st = (r, st') \<Longrightarrow> state_inv st'"
  using create_inv [of st] store_inv_dview [OF create_committed] by (metis state_inv_def)

lemma create_backup_inv:
  assumes "state_inv st" and "fresh_alloc (env_alloc (sv_env sv))"
    and "create_backup sv device_id body req acc pass st = (r, st')"
  shows "state_inv st'"
proof -
  obtain r0 st0 where r0: "replay_if_present (lib_sha256_hex (sv_lib sv)) (sv_now sv) req (Some acc)
      (Some (create_request_dump body)) st = (r0, st0)" by fastforce
  have i0: "state_inv st0" by (rule state_inv_replay [OF assms(1) r0])
  show ?thesis
    using assms(1,3) i0 r0
    by (auto simp: create_backup_def Let_def wrap_json_def split: if_splits sum.splits option.splits prod.splits exn.splits
        dest: state_inv_create [OF i0 assms(2)])
qed

lemma import_backup_inv:
  assumes "state_inv st" and "fresh_alloc (env_alloc (sv_env sv))"
    and "import_backup sv device_id body req acc st = (r, st')"
  shows "state_inv st'"
proof -
  obtain r0 st0 where r0: "replay_if_present (lib_sha256_hex (sv_lib sv)) (sv_now sv) req (Some acc)
      (Some (import_request_dump body)) st = (r0, st0)" by fastforce
  have i0: "state_inv st0" by (rule state_inv_replay [OF assms(1) r0])
  show ?thesis
    using assms(1,3) i0 r0
    by (auto simp: import_backup_def Let_def wrap_json_def split: if_splits sum.splits option.splits prod.splits exn.splits
        dest: state_inv_create [OF i0 assms(2)])
qed

lemma own_snapshot_Inr:
  assumes "own_snapshot device_id i acc m d = Inr s"
  shows "row_get snap_id i (device_snapshots d) = Some s" "snap_device_id s = py_lower device_id"
    "snap_account_id s = Some (acc_id acc)" "snap_id s = i"
  using assms row_get_Some [of snap_id i "device_snapshots d" s]
  by (auto simp: own_snapshot_def split: option.splits if_splits)

lemma head_row:
  assumes "heads_ok d" and "h \<in> set (device_heads d)" and "head_current_snapshot_id h = snap_id s"
    and "s \<in> set (device_snapshots d)"
  shows "get_head d (snap_device_id s) = Some s"
proof -
  from assms obtain t where t: "t \<in> set (device_snapshots d)" "snap_id t = snap_id s" "snap_device_id t = head_device_id h"
    by (auto simp: heads_ok_def)
  with assms(1,4) have "t = s" by (auto simp: heads_ok_def pk_def distinct_map inj_on_def)
  with t have "head_device_id h = snap_device_id s" by simp
  with assms show ?thesis by (auto simp: get_head_def heads_ok_def dest!: row_get_in [where key = head_device_id]
      intro: row_get_in)
qed

text \<open>Past its guards \<open>delete_backup\<close> meets no foreign key: the row goes and the invariant stays.\<close>

lemma delete_backup_ok:
  assumes i: "store_inv (db st)" and o: "own_snapshot device_id sid acc m (db st) = Inr s"
    and n: "\<not> (case get_head (db st) (py_lower device_id) of None \<Rightarrow> False | Some h \<Rightarrow> snap_id h = snap_id s)"
  shows "\<exists>k. delete_snapshots [snap_id s] (db st) = Inr (k, without {snap_id s} (db st))"
    and "store_inv (without {snap_id s} (db st))"
proof -
  note os = own_snapshot_Inr [OF o]
  have m: "s \<in> set (device_snapshots (db st))" using row_get_Some [OF os(1)] by blast
  have "head_current_snapshot_id h \<noteq> snap_id s" if "h \<in> set (device_heads (db st))" for h
  proof
    assume e: "head_current_snapshot_id h = snap_id s"
    from i have "heads_ok (db st)" by blast
    from head_row [OF this that e m] n os(2) show False by simp
  qed
  then show "\<exists>k. delete_snapshots [snap_id s] (db st) = Inr (k, without {snap_id s} (db st))"
    and "store_inv (without {snap_id s} (db st))"
    using without_inv [OF i, of "{snap_id s}"] by (auto simp: delete_snapshots_eq)
qed

lemma delete_backup_past_guards:
  assumes i: "store_inv (db st)" and own: "owned_device device_id acc (db st) = Inr dev"
    and o: "own_snapshot device_id sid acc ''Snapshot not found'' (db st) = Inr s"
    and n: "\<not> (case get_head (db st) (py_lower device_id) of None \<Rightarrow> False | Some h \<Rightarrow> snap_id h = snap_id s)"
  shows "delete_backup sv device_id sid req acc st =
    (let st1 = emit (sv_env sv) (sv_now sv) (Some acc) ''backup.deleted'' (Some req) (Some ''snapshot'')
                 (Some (show_int (snap_id s))) (Some (detail_of device_id s)) st
     in (Inr (), st1\<lparr>db := without {snap_id s} (db st1)\<rparr>))"
proof -
  define st1 where "st1 = emit (sv_env sv) (sv_now sv) (Some acc) ''backup.deleted'' (Some req) (Some ''snapshot'')
                             (Some (show_int (snap_id s))) (Some (detail_of device_id s)) st"
  have "dview (db st1) = dview (db st)" by (simp add: st1_def)
  with delete_backup_ok(1) [OF i o n] obtain k where
    "delete_snapshots [snap_id s] (db st1) = Inr (k, without {snap_id s} (db st1))"
    by (auto simp: delete_snapshots_eq dview_eq split: if_splits)
  with own o n show ?thesis by (simp add: delete_backup_def st1_def Let_def)
qed

lemma delete_backup_inv:
  assumes "state_inv st" and "delete_backup sv device_id sid req acc st = (r, st')"
  shows "state_inv st'"
proof -
  from assms(1) have i: "store_inv (db st)" by (simp add: state_inv_def)
  consider "st' = st" | s where "own_snapshot device_id sid acc ''Snapshot not found'' (db st) = Inr s"
      "\<not> (case get_head (db st) (py_lower device_id) of None \<Rightarrow> False | Some h \<Rightarrow> snap_id h = snap_id s)"
    using assms(2) by (auto simp: delete_backup_def Let_def split: sum.splits if_splits)
  then show ?thesis
  proof cases
    case 1
    with assms(1) show ?thesis by simp
  next
    case (2 s)
    show ?thesis
    proof (cases "owned_device device_id acc (db st)")
      case (Inl e)
      with assms show ?thesis by (simp add: delete_backup_def)
    next
      case (Inr dev)
      define st1 where "st1 = emit (sv_env sv) (sv_now sv) (Some acc) ''backup.deleted'' (Some req) (Some ''snapshot'')
                             (Some (show_int (snap_id s))) (Some (detail_of device_id s)) st"
      from delete_backup_past_guards [OF i Inr 2] assms(2) have st': "st' = st1\<lparr>db := without {snap_id s} (db st1)\<rparr>"
        by (simp add: st1_def Let_def)
      have "dview (without {snap_id s} (db st1)) = dview (without {snap_id s} (db st))"
        by (simp add: dview_def without_def st1_def frame_simps)
      with delete_backup_ok(2) [OF i 2] store_inv_dview have "store_inv (without {snap_id s} (db st1))" by blast
      with assms(1) show ?thesis by (simp add: state_inv_def st' st1_def)
    qed
  qed
qed

lemma row_get_append: "row_get key k rows = Some r \<Longrightarrow> row_get key k (rows @ xs) = Some r"
  by (simp add: row_get_def find_append)

lemma pre_restore_ok:
  assumes "heads_ok (db st)" and "fresh_alloc (env_alloc (sv_env sv))"
    and "pre_restore sv device_id acc target (get_head (db st) (py_lower device_id)) st = (Inr u, st1)"
  shows "(case get_head (db st) (py_lower device_id) of None \<Rightarrow> st1 = st
     | Some c \<Rightarrow> if snap_id c = snap_id target then st1 = st
         else (\<exists>payload p. unpack_payload (sv_lib sv) c True None st = Inr payload
           \<and> create_snapshot (sv_lib sv) (env_alloc (sv_env sv)) (sv_now sv) (sv_entropy sv) (sv_racing_keys sv)
               (py_lower device_id) (Some (acc_id acc)) payload ''pre_restore''
               (Some (''pre-restore-to-#'' @ show_int (snap_id target))) None False None st = (Inr p, st1)
           \<and> device_snapshots (db st1) = device_snapshots (db st) @ [p] \<and> snap_parent p = Some (snap_id c)
           \<and> snap_kind p \<in> set snapshot_kinds \<and> snap_account_id p = Some (acc_id acc)
           \<and> (\<forall>dev'. dev' \<noteq> py_lower device_id \<longrightarrow> get_head (db st1) dev' = get_head (db st) dev')))"
proof (cases "get_head (db st) (py_lower device_id)")
  case None
  with assms(3) show ?thesis by (simp add: pre_restore_def)
next
  case (Some c)
  show ?thesis
  proof (cases "snap_id c = snap_id target")
    case True
    with Some assms(3) show ?thesis by (simp add: pre_restore_def)
  next
    case False
    with Some assms(3) obtain payload p where
      u: "unpack_payload (sv_lib sv) c True None st = Inr payload"
      and cr: "create_snapshot (sv_lib sv) (env_alloc (sv_env sv)) (sv_now sv) (sv_entropy sv) (sv_racing_keys sv)
               (py_lower device_id) (Some (acc_id acc)) payload ''pre_restore''
               (Some (''pre-restore-to-#'' @ show_int (snap_id target))) None False None st = (Inr p, st1)"
      by (auto simp: pre_restore_def split: sum.splits prod.splits)
    have nd: "\<not> dedups (sv_lib sv) (db st) (py_lower device_id) payload
        (Some (''pre-restore-to-#'' @ show_int (snap_id target))) False None" by (simp add: dedups_def)
    from create_result [OF assms(1,2) cr] nd Some False u cr show ?thesis by auto
  qed
qed

lemma pre_restore_inv:
  "state_inv st \<Longrightarrow> fresh_alloc (env_alloc (sv_env sv)) \<Longrightarrow>
     pre_restore sv device_id acc target current st = (r, st1) \<Longrightarrow> state_inv st1"
  by (auto simp: pre_restore_def split: option.splits if_splits sum.splits prod.splits dest: state_inv_create)

lemma pre_restore_target:
  assumes "heads_ok (db st)" and "fresh_alloc (env_alloc (sv_env sv))"
    and "pre_restore sv device_id acc target (get_head (db st) (py_lower device_id)) st = (Inr u, st1)"
    and "row_get snap_id i (device_snapshots (db st)) = Some t"
  shows "row_get snap_id i (device_snapshots (db st1)) = Some t"
  using pre_restore_ok [OF assms(1-3)] assms(4) row_get_append [OF assms(4)]
  by (auto split: option.splits if_splits)

lemma restore_backup_inv:
  assumes "state_inv st" and f: "fresh_alloc (env_alloc (sv_env sv))"
    and r: "restore_backup sv device_id sid req acc st = (r, st')"
  shows "state_inv st'"
proof -
  obtain r0 st0 where r0: "replay_if_present (lib_sha256_hex (sv_lib sv)) (sv_now sv) req (Some acc)
      (Some (restore_request_dump sid)) st = (r0, st0)" by fastforce
  have i0: "state_inv st0" by (rule state_inv_replay [OF assms(1) r0])
  then have h0: "heads_ok (db st0)" by (auto simp: state_inv_def)
  have sh: "state_inv (st1\<lparr>db := d\<rparr>)"
    if "own_snapshot device_id sid acc m (db st0) = Inr t"
      and "pre_restore sv device_id acc t (get_head (db st0) (py_lower device_id)) st0 = (Inr u, st1)"
      and "set_head now (py_lower device_id) (snap_id t) by' (db st1) = Inr d" for m t u st1 now by' d
  proof -
    note o = own_snapshot_Inr [OF that(1)]
    have i1: "state_inv st1" by (rule pre_restore_inv [OF i0 f that(2)])
    have g: "row_get snap_id (snap_id t) (device_snapshots (db st1)) = Some t"
      using pre_restore_target [OF h0 f that(2) o(1)] o(4) by simp
    from set_head_inv [OF _ that(3) g o(2)] i1 show ?thesis by (simp add: state_inv_def)
  qed
  show ?thesis
    using assms(1) r i0 r0
    by (auto simp: restore_backup_def Let_def wrap_json_def split: sum.splits option.splits prod.splits
        dest: sh pre_restore_inv [OF i0 f])
qed

lemma dview_rotate [simp]: "dview (rotate_sync sl dev aid d) = dview d"
  by (simp add: rotate_sync_def dview_def Let_def)

lemma dview_create_sync [simp]:
  "dview (snd (create_sync_snapshot sl alloc now dev aid payload d)) = dview d"
  by (simp add: create_sync_snapshot_def Let_def) (simp add: dview_def)

lemma upsert_inv:
  assumes "state_inv st" and f: "fresh_alloc (env_alloc env)"
    and u: "api_upsert_config lib sl env now ent raw payload account st = (r, st')"
  shows "state_inv st'"
proof -
  from u show ?thesis
  proof (cases rule: upsert_cases)
    case (refused e)
    with assms(1) show ?thesis by simp
  next
    case (pushed dev acc rc)
    define row where "row = row_get dev_device_id dev (device_configs (db st))"
    define st1 where "st1 = keep_previous sl env now dev acc row st"
    have i1: "state_inv st1"
      by (rule state_inv_frame [OF assms(1)]) (auto simp: st1_def keep_previous_def split: option.splits)
    have "dev_device_id (pushed_row now dev (acc_id acc) payload row) = dev"
      using row_get_Some [of dev_device_id dev "device_configs (db st)"] by (auto simp: row_def split: option.splits)
    with pushed(1) have "valid_device_id (dev_device_id (pushed_row now dev (acc_id acc) payload row))"
      by (metis normalize_Inr)
    with i1 put_device_inv have "state_inv (upserted sl env now dev payload acc st)"
      by (simp del: pushed_row_id add: state_inv_def upserted_def Let_def row_def [symmetric] st1_def [symmetric])
    from state_inv_create [OF this f pushed(4)] show ?thesis .
  qed
qed

lemma delete_device_state_inv:
  "state_inv st \<Longrightarrow> delete_device_row hf dev (db st) = Inr d \<Longrightarrow> state_inv (st\<lparr>db := d\<rparr>)"
  by (auto simp: state_inv_def intro: delete_device_inv)

lemma touch_id [simp]: "(\<And>r. dev_device_id (f r) = dev_device_id r) \<Longrightarrow> dev_device_id (touch now f r) = dev_device_id r"
  by (simp add: touch_def)

lemma state_inv_devices:
  "state_inv st \<Longrightarrow> (\<And>r. dev_device_id (f r) = dev_device_id r) \<Longrightarrow>
     state_inv (st\<lparr>db := (db st)\<lparr>device_configs := row_set dev_device_id dev f (device_configs (db st))\<rparr>\<rparr>)"
  by (simp add: state_inv_def devices_inv ids_row_set)

section \<open>The endpoints as a transition system\<close>

datatype store_call =
    CreateBackup string create_request request account "string option"
  | DeleteBackup string int request account
  | ImportBackup string import_request request account
  | RestoreBackup string int request account
  | PushSync string json "account option"
  | DeleteSync string account
  | DeleteDevice string account
  | RenameDevice string "string option" account
  | PushToDevice string string account

text \<open>The handler of a call, with the results forgotten.\<close>

fun serve :: "services \<Rightarrow> sync_lib \<Rightarrow> bool \<Rightarrow> store_call \<Rightarrow> unit handler" where
  "serve sv sl hf (CreateBackup i b req acc pass) st = void (create_backup sv i b req acc pass st)"
| "serve sv sl hf (DeleteBackup i sid req acc) st = void (delete_backup sv i sid req acc st)"
| "serve sv sl hf (ImportBackup i b req acc) st = void (import_backup sv i b req acc st)"
| "serve sv sl hf (RestoreBackup i sid req acc) st = void (restore_backup sv i sid req acc st)"
| "serve sv sl hf (PushSync i payload account) st =
     void (api_upsert_config (sv_lib sv) sl (sv_env sv) (sv_now sv) (sv_entropy sv) i payload account st)"
| "serve sv sl hf (DeleteSync i acc) st = void (api_delete_config hf i acc st)"
| "serve sv sl hf (DeleteDevice i acc) st = void (delete_device hf i acc st)"
| "serve sv sl hf (RenameDevice i name acc) st = void (update_device (sv_now sv) i name acc st)"
| "serve sv sl hf (PushToDevice i src acc) st = void (push_config_to_device (sv_now sv) i src acc st)"

text \<open>
  A step is one request inside its session, which commits or rolls back, or one run of
  the scheduled retention job.
\<close>

inductive store_step :: "app_state \<Rightarrow> app_state \<Rightarrow> bool" where
  request: "fresh_alloc (env_alloc (sv_env sv)) \<Longrightarrow> store_step st (snd (get_session (serve sv sl hf c) st))"
| scheduled: "store_step st (snd (run_retention_scheduled lib alloc exn_str batch now ms lock st))"

inductive_cases store_stepE: "store_step st st'"

lemma serve_inv:
  assumes "state_inv st" and "fresh_alloc (env_alloc (sv_env sv))" and "serve sv sl hf c st = (r, st')"
  shows "state_inv st'"
proof (cases c)
  case (DeleteSync i acc)
  with assms show ?thesis
    by (auto simp: api_delete_config_def dest!: void_state split: sum.splits option.splits
        intro: delete_device_state_inv)
next
  case (DeleteDevice i acc)
  with assms show ?thesis
    by (auto simp: delete_device_def dest!: void_state split: sum.splits option.splits
        intro: delete_device_state_inv)
next
  case (RenameDevice i name acc)
  with assms show ?thesis
    by (auto simp: update_device_def dest!: void_state split: sum.splits option.splits if_splits
        intro: state_inv_devices)
next
  case (PushToDevice i src acc)
  with assms show ?thesis
    by (auto simp: push_config_to_device_def dest!: void_state split: sum.splits option.splits
        intro: state_inv_devices)
next
  case (CreateBackup i b req acc pass)
  with assms(3) obtain r0 where "create_backup sv i b req acc pass st = (r0, st')" by (auto dest: void_state)
  with create_backup_inv assms(1,2) show ?thesis by blast
next
  case (DeleteBackup i sid req acc)
  with assms(3) obtain r0 where "delete_backup sv i sid req acc st = (r0, st')" by (auto dest: void_state)
  with delete_backup_inv assms(1) show ?thesis by blast
next
  case (ImportBackup i b req acc)
  with assms(3) obtain r0 where "import_backup sv i b req acc st = (r0, st')" by (auto dest: void_state)
  with import_backup_inv assms(1,2) show ?thesis by blast
next
  case (RestoreBackup i sid req acc)
  with assms(3) obtain r0 where "restore_backup sv i sid req acc st = (r0, st')" by (auto dest: void_state)
  with restore_backup_inv assms(1,2) show ?thesis by blast
next
  case (PushSync i payload account)
  with assms(3) obtain r0 where
    "api_upsert_config (sv_lib sv) sl (sv_env sv) (sv_now sv) (sv_entropy sv) i payload account st = (r0, st')"
    by (auto dest: void_state)
  with upsert_inv assms(1,2) show ?thesis by blast
qed

lemma get_session_inv:
  assumes "state_inv st" and "\<And>r st'. h st = (r, st') \<Longrightarrow> state_inv st'"
  shows "state_inv (snd (get_session h st))"
proof -
  obtain r st' where h: "h st = (r, st')" by fastforce
  with assms(2) have "state_inv st'" by blast
  with h show ?thesis by (cases r) (simp_all add: get_session_def state_inv_def commit_def rollback_def)
qed

lemma scheduled_inv:
  assumes "state_inv st"
  shows "state_inv (snd (run_retention_scheduled lib alloc exn_str batch now ms lock st))"
proof -
  obtain r st1 where d: "do_retention lib batch now st = (r, st1)" by fastforce
  have i: "store_inv (db st1)" "committed st1 = committed st" "store_inv (committed st)"
    using retention_inv [OF _ d] retention_committed [OF d] assms by (auto simp: state_inv_def)
  have w: "store_inv (write_scheduler_run alloc now j t m s e x) = store_inv x" for j t m s e x
    by (rule store_inv_dview) (simp add: write_scheduler_run_def dview_def)
  show ?thesis
  proof (cases lock)
    case False
    with assms show ?thesis by (simp add: run_retention_scheduled_def)
  next
    case True
    with i d show ?thesis
      by (cases r) (simp_all add: run_retention_scheduled_def state_inv_def commit_def rollback_def w Let_def)
  qed
qed

lemma store_step_inv: "store_step st st' \<Longrightarrow> state_inv st \<Longrightarrow> state_inv st'"
proof (induction rule: store_step.induct)
  case (request sv st sl hf c)
  then show ?case using get_session_inv serve_inv by blast
next
  case (scheduled st lib alloc exn_str batch now ms lock)
  then show ?case by (rule scheduled_inv)
qed

interpretation store: inv_system store_step state_inv
  using store_step_inv by unfold_locales blast

section \<open>What the endpoints guarantee\<close>

text \<open>The invariant spelled out over the tables.\<close>

lemma state_inv_integrity:
  assumes "state_inv st"
  shows "\<forall>d \<in> {db st, committed st}.
    (\<forall>dev h. row_get head_device_id dev (device_heads d) = Some h \<longrightarrow>
       (\<exists>s. get_head d dev = Some s \<and> snap_device_id s = dev))
    \<and> (\<forall>s \<in> set (device_snapshots d). lanes s = 1 \<and> snap_kind s \<in> set snapshot_kinds
       \<and> snap_device_id s \<in> dev_device_id ` set (device_configs d)
       \<and> (\<forall>p. snap_parent s = Some p \<longrightarrow> p \<in> snap_id ` set (device_snapshots d)))
    \<and> (\<forall>r \<in> set (device_configs d). normalize_device_id (dev_device_id r) = Inr (dev_device_id r))"
proof -
  have "\<exists>s. get_head d dev = Some s \<and> snap_device_id s = dev"
    if "store_inv d" "row_get head_device_id dev (device_heads d) = Some h" for d dev h
    using heads_okD [OF _ that(2)] that by (auto simp: get_head_def)
  moreover have "normalize_device_id i = Inr i" if "valid_device_id i" for i
    using that by (simp add: normalize_Inr valid_strip valid_lower)
  moreover from assms have "store_inv (db st)" "store_inv (committed st)"
    by (simp_all add: state_inv_def)
  ultimately show ?thesis by (auto simp: store_inv_def rows_ok_def refs_ok_def)
qed

definition demo_services :: services where
  "demo_services = \<lparr>sv_env = demo_env, sv_lib = plain_lib, sv_render = (\<lambda>j. ascii_encode (dumps j)), sv_like = char_lower,
     sv_patch = (\<lambda>a b. []), sv_entropy = demo_entropy, sv_now = 1000, sv_racing_keys = [], sv_racing_records = []\<rparr>"

definition demo_body :: create_request where
  "demo_body = \<lparr>cr_label = None, cr_kind = ''manual'', cr_payload = Some (JObj [(''a'', JInt 1)]), cr_encrypt = False\<rparr>"

definition plain_request :: request where
  "plain_request = demo_request\<lparr>req_idempotency_key := None\<rparr>"

lemma demo_store_inv: "store_inv demo_db"
proof -
  have "valid_device_id ''dev''"
    by (simp add: valid_device_id_def is_id_char_def is_lower_alnum_def is_digit_def char_code_def)
  then show ?thesis
    by (simp add: demo_db_def empty_db_def store_inv_def heads_ok_def rows_ok_def refs_ok_def demo_device_def pk_def)
qed

lemma demo_state_inv: "state_inv demo_state"
  using demo_store_inv by (simp add: state_inv_def demo_state_def)

lemma demo_fresh: "fresh_alloc (env_alloc (sv_env demo_services))"
  by (simp add: demo_services_def demo_env_def fresh_max_alloc)

text \<open>
  Deleting a backup decides every case and never dangles: an unknown or foreign device or
  snapshot is refused with 400 or 404, the current HEAD with 409, all without any effect;
  otherwise the call succeeds (no foreign key is ever violated), removes exactly that
  row, clears it as a parent, moves no HEAD and appends one audit row.
\<close>
lemma delete_backup_decides:
  assumes "store_inv (db st)" and "delete_backup sv device_id sid req acc st = (r, st')"
  shows "(is_http 400 r \<or> is_http 404 r) \<and> st' = st
       \<and> ((\<exists>e. owned_device device_id acc (db st) = Inl e)
          \<or> (\<nexists>s. row_get snap_id sid (device_snapshots (db st)) = Some s \<and> snap_device_id s = py_lower device_id
                 \<and> snap_account_id s = Some (acc_id acc)))
    \<or> is_http 409 r \<and> st' = st \<and> map_option snap_id (get_head (db st) (py_lower device_id)) = Some sid
    \<or> r = Inr () \<and> map_option snap_id (get_head (db st) (py_lower device_id)) \<noteq> Some sid
       \<and> device_snapshots (db st') = map (nullify {sid}) (filter (\<lambda>s. snap_id s \<noteq> sid) (device_snapshots (db st)))
       \<and> device_heads (db st') = device_heads (db st)
       \<and> length (audit_events (db st')) = Suc (length (audit_events (db st)))"
proof (cases "owned_device device_id acc (db st)")
  case (Inl e)
  then have "is_http 400 (Inl e :: exn + unit) \<or> is_http 404 (Inl e :: exn + unit)"
    by (auto simp: owned_device_def normalize_device_id_def is_http_def not_found_def Let_def
        split: if_splits option.splits)
  with Inl assms(2) show ?thesis by (auto simp: delete_backup_def)
next
  case own: (Inr dev)
  show ?thesis
  proof (cases "own_snapshot device_id sid acc ''Snapshot not found'' (db st)")
    case (Inl e)
    then have "is_http 404 (Inl e :: exn + unit)" and
      "\<nexists>s. row_get snap_id sid (device_snapshots (db st)) = Some s \<and> snap_device_id s = py_lower device_id
                 \<and> snap_account_id s = Some (acc_id acc)"
      by (auto simp: own_snapshot_def is_http_def not_found_def split: option.splits if_splits)
    with Inl own assms(2) show ?thesis by (auto simp: delete_backup_def)
  next
    case s: (Inr s)
    note os = own_snapshot_Inr [OF s]
    show ?thesis
    proof (cases "map_option snap_id (get_head (db st) (py_lower device_id)) = Some sid")
      case True
      with own s os assms(2) show ?thesis by (auto simp: delete_backup_def is_http_def split: option.splits)
    next
      case False
      then have n: "\<not> (case get_head (db st) (py_lower device_id) of None \<Rightarrow> False | Some h \<Rightarrow> snap_id h = snap_id s)"
        using os by (auto split: option.splits)
      from delete_backup_past_guards [OF assms(1) own s n] assms(2) False os show ?thesis
        by (auto simp: Let_def without_def db_emit row_add_def)
    qed
  qed
qed

text \<open>Deleting an unknown snapshot of the demo device.\<close>
lemma delete_backup_decides_witness:
  "is_http 404 (fst (delete_backup demo_services ''dev'' 7 plain_request demo_account demo_state))
   \<and> snd (delete_backup demo_services ''dev'' 7 plain_request demo_account demo_state) = demo_state"
proof -
  have "owned_device ''dev'' demo_account (db demo_state) = Inr demo_device" by code_simp
  then have "fst (delete_backup demo_services ''dev'' 7 plain_request demo_account demo_state) =
      Inl (HTTPException 404 ''Snapshot not found'')"
    by (simp add: delete_backup_def own_snapshot_def not_found_def demo_state_def demo_db_def empty_db_def)
  moreover from demo_state_inv have "store_inv (db demo_state)" by (simp add: state_inv_def)
  ultimately show ?thesis
    using delete_backup_decides [OF _ prod.collapse [symmetric], of demo_state demo_services "''dev''" 7 plain_request
        demo_account]
    by (auto simp: is_http_def)
qed

end
