(* ===== verification/Store_Guarantees.thy ===== *)
theory Store_Guarantees
  imports Store
begin

text \<open>
  What a user of the backup endpoints relies on: a restore can be undone, and nothing a
  request of one account does reaches the devices of another.
\<close>

section \<open>Restore\<close>

lemma no_key_no_replay:
  "req_idempotency_key req = None \<Longrightarrow> replay_if_present sha now req acc body st = (Inr None, st)"
  by (simp add: replay_if_present_def)

lemma restore_past_guards:
  assumes "req_idempotency_key req = None" and "restore_backup sv device_id sid req acc st = (Inr r, st')"
  obtains t u st1 d where
    "own_snapshot device_id sid acc ''Target snapshot not found'' (db st) = Inr t"
    and "pre_restore sv device_id acc t (get_head (db st) (py_lower device_id)) st = (Inr u, st1)"
    and "set_head (sv_now sv) (py_lower device_id) (snap_id t) ''restore'' (db st1) = Inr d"
    and "dview (db st') = dview d" and "objects st' = objects st1"
proof -
  note n = no_key_no_replay [OF assms(1)]
  obtain t where t: "own_snapshot device_id sid acc ''Target snapshot not found'' (db st) = Inr t"
    using assms(2) by (auto simp: restore_backup_def n split: sum.splits)
  obtain pr st1 where p: "pre_restore sv device_id acc t (get_head (db st) (py_lower device_id)) st = (pr, st1)"
    by fastforce
  from assms(2) t p obtain u where u: "pr = Inr u"
    by (cases pr) (auto simp: restore_backup_def n Let_def split: sum.splits)
  from assms(2) t p u obtain d where d: "set_head (sv_now sv) (py_lower device_id) (snap_id t) ''restore'' (db st1) = Inr d"
    by (cases "set_head (sv_now sv) (py_lower device_id) (snap_id t) ''restore'' (db st1)")
       (auto simp: restore_backup_def n Let_def split: sum.splits)
  have "dview (db st') = dview d \<and> objects st' = objects st1"
    using assms(2) t p u d by (auto simp: restore_backup_def n Let_def wrap_json_def split: sum.splits)
  with that t p u d show thesis by blast
qed


definition two_snapshots :: app_state where
  "two_snapshots = demo_state\<lparr>db := demo_db\<lparr>device_snapshots := [demo_snap 1 10 None, demo_snap 2 20 None],
     device_heads := [\<lparr>head_device_id = ''dev'', head_current_snapshot_id = 2, head_updated_at = 20,
       head_updated_by = ''auto''\<rparr>]\<rparr>\<rparr>"

lemma two_snapshots_inv: "store_inv (db two_snapshots)"
  using demo_store_inv
  by (simp add: two_snapshots_def demo_snap_def store_inv_def heads_ok_def rows_ok_def refs_ok_def demo_db_def
      empty_db_def pk_def lanes_def snapshot_kinds_def demo_device_def)


section \<open>Accounts do not reach each other\<close>

text \<open>
  What a device is, as its owner sees it: its row, the id of its HEAD, and its snapshots
  (up to the parent reference, which a deletion may clear).
\<close>

definition device_rows :: "string \<Rightarrow> database \<Rightarrow> device_snapshot list" where
  "device_rows dev d = map (\<lambda>s. s\<lparr>snap_parent := None\<rparr>) (filter (\<lambda>s. snap_device_id s = dev) (device_snapshots d))"

definition same_device :: "string \<Rightarrow> database \<Rightarrow> database \<Rightarrow> bool" where
  "same_device dev d d' \<longleftrightarrow>
     row_get dev_device_id dev (device_configs d') = row_get dev_device_id dev (device_configs d)
     \<and> map_option snap_id (get_head d' dev) = map_option snap_id (get_head d dev)
     \<and> device_rows dev d' = device_rows dev d"

lemma same_device_trans [trans]: "same_device dev d e \<Longrightarrow> same_device dev e f \<Longrightarrow> same_device dev d f"
  by (simp add: same_device_def)

lemma same_device_dview: "dview d' = dview d \<Longrightarrow> same_device dev d d'"
  by (simp add: same_device_def get_head_dview [of d' d]) (simp add: device_rows_def dview_eq)

lemma same_device_cong: "dview d' = dview e \<Longrightarrow> same_device dev d d' = same_device dev d e"
  by (simp add: same_device_def get_head_dview [of d' e]) (simp add: device_rows_def dview_eq)

lemma same_device_refl [simp]: "same_device dev d d"
  by (simp add: same_device_def)

lemma set_head_same:
  assumes "set_head now i s by' d = Inr d'" and "dev \<noteq> i"
  shows "same_device dev d d'"
proof -
  from set_head_cases [OF assms(1)] obtain hs where d': "d' = d\<lparr>device_heads := hs\<rparr>"
    "\<forall>dev'. dev' \<noteq> i \<longrightarrow> row_get head_device_id dev' hs = row_get head_device_id dev' (device_heads d)" by blast
  with assms(2) have "get_head d' dev = get_head d dev" by (simp add: get_head_def split: option.splits)
  with d' show ?thesis by (simp add: same_device_def device_rows_def)
qed

lemma add_snapshot_same:
  "heads_ok d \<Longrightarrow> snap_device_id s \<noteq> dev \<Longrightarrow>
     same_device dev d (d\<lparr>device_snapshots := row_add s (device_snapshots d)\<rparr>)"
  using get_head_add [of d s dev] by (simp add: same_device_def device_rows_def row_add_def)

lemma append_same:
  assumes "heads_ok (db st)" and "append_snapshot alloc now i aid label kind p kid par ip st = (r, st')" and "dev \<noteq> i"
  shows "same_device dev (db st) (db st')"
proof -
  define s where "s = snapshot_row (alloc (map snap_id (device_snapshots (db st)))) now i aid label kind p kid par ip"
  define d1 where "d1 = (db st)\<lparr>device_snapshots := row_add s (device_snapshots (db st))\<rparr>"
  have "same_device dev (db st) d1" unfolding d1_def using assms(1,3)
    by (intro add_snapshot_same) (auto simp: s_def snapshot_row_def)
  moreover have "db st' = db st \<or> db st' = d1 \<or> set_head now i (snap_id s) kind d1 = Inr (db st')"
    using assms(2) by (auto simp: append_snapshot_def s_def [symmetric] d1_def [symmetric] Let_def
        split: if_splits sum.splits)
  ultimately show ?thesis using set_head_same [OF _ assms(3)] same_device_trans by auto
qed

lemma create_same:
  assumes "heads_ok (db st)" and "dev \<noteq> i"
    and "create_snapshot lib alloc now ent racing i aid payload kind label ip encrypt pass st = (r, st')"
  shows "same_device dev (db st) (db st')"
proof (cases "dedups lib (db st) i payload label encrypt pass")
  case True
  with create_dedup [OF True] assms show ?thesis by auto
next
  case False
  from create_packed [OF False assms(3)] obtain st1 where
    st1: "dview (db st1) = dview (db st)" "st' = st1
      \<or> (\<exists>p kid par. append_snapshot alloc now i aid label kind p kid par ip st1 = (r, st'))" by blast
  from assms(1) heads_ok_cong have h: "heads_ok (db st1)" using st1(1) unfolding dview_eq by blast
  have "same_device dev (db st) (db st1)" by (rule same_device_dview [OF st1(1)])
  with st1(2) append_same [OF h _ assms(2)] same_device_trans show ?thesis by blast
qed

lemma without_same:
  assumes "heads_ok d" and "\<forall>h \<in> set (device_heads d). head_current_snapshot_id h \<notin> A"
    and "\<And>s. s \<in> set (device_snapshots d) \<Longrightarrow> snap_id s \<in> A \<Longrightarrow> snap_device_id s \<noteq> dev"
  shows "same_device dev d (without A d)"
proof -
  have n: "(nullify A s)\<lparr>snap_parent := None\<rparr> = s\<lparr>snap_parent := None\<rparr>" for s
    by (simp add: nullify_def split: option.splits)
  have "filter (\<lambda>s. snap_id s \<notin> A \<and> snap_device_id s = dev) (device_snapshots d) =
      filter (\<lambda>s. snap_device_id s = dev) (device_snapshots d)"
    using assms(3) by (intro filter_cong) auto
  then have "device_rows dev (without A d) = device_rows dev d"
    by (simp add: device_rows_def without_def filter_map o_def n)
  moreover have "map_option snap_id (get_head (without A d) dev) = map_option snap_id (get_head d dev)"
    using without_heads_ok [OF assms(1,2)] by (simp add: option.map_comp o_def)
  moreover have "device_configs (without A d) = device_configs d" by (simp add: without_def)
  ultimately show ?thesis by (simp add: same_device_def)
qed

lemma delete_device_same:
  assumes "store_inv d" and "delete_device_row hf i d = Inr d'" and "dev \<noteq> i"
  shows "same_device dev d d'"
proof -
  define ids where "ids = snap_id ` {s \<in> set (device_snapshots d). snap_device_id s = i}"
  have snaps: "device_snapshots d' = map (nullify ids) (filter (\<lambda>s. snap_device_id s \<noteq> i) (device_snapshots d))"
    and heads: "device_heads d' = filter (\<lambda>h. head_device_id h \<noteq> i) (device_heads d)"
    and devs: "device_configs d' = row_del dev_device_id i (device_configs d)"
    using assms(2) by (auto simp: delete_device_row_def Let_def ids_def split: if_splits)
  have n: "(nullify ids s)\<lparr>snap_parent := None\<rparr> = s\<lparr>snap_parent := None\<rparr>" for s
    by (simp add: nullify_def split: option.splits)
  have f: "filter (\<lambda>s. snap_device_id s \<noteq> i \<and> snap_device_id s = dev) xs = filter (\<lambda>s. snap_device_id s = dev) xs" for xs
    using assms(3) by (intro filter_cong) auto
  have "device_rows dev d' = device_rows dev d" by (simp add: device_rows_def snaps filter_map o_def n f)
  moreover have "map_option snap_id (get_head d' dev) = map_option snap_id (get_head d dev)"
  proof (cases "row_get head_device_id dev (device_heads d)")
    case None
    then have "row_get head_device_id dev (device_heads d') = None" by (auto simp: heads row_get_None)
    with None show ?thesis by (simp add: get_head_def)
  next
    case (Some h)
    from assms(1) have hd: "heads_ok d" and hd': "heads_ok d'" using delete_device_inv [OF assms(1,2)] by blast+
    from Some assms(3) hd have h': "row_get head_device_id dev (device_heads d') = Some h"
      using row_get_Some [OF Some] by (simp add: heads row_get_filter heads_ok_def)
    from heads_okD [OF hd Some] heads_okD [OF hd' h'] obtain s s' where
      "row_get snap_id (head_current_snapshot_id h) (device_snapshots d) = Some s"
      "row_get snap_id (head_current_snapshot_id h) (device_snapshots d') = Some s'" by blast
    moreover from this have "snap_id s' = snap_id s" using row_get_Some [of snap_id] by metis
    ultimately show ?thesis using Some h' by (simp add: get_head_def)
  qed
  ultimately show ?thesis using assms(3) by (simp add: same_device_def devs row_get_del)
qed

lemma devices_same:
  "row_get dev_device_id dev cs = row_get dev_device_id dev (device_configs d) \<Longrightarrow>
     same_device dev d (d\<lparr>device_configs := cs\<rparr>)"
  by (simp add: same_device_def device_rows_def get_head_def split: option.splits)

lemma row_set_same:
  "(\<And>r. dev_device_id (f r) = dev_device_id r) \<Longrightarrow> dev \<noteq> i \<Longrightarrow>
     same_device dev d (d\<lparr>device_configs := row_set dev_device_id i f (device_configs d)\<rparr>)"
  by (rule devices_same) (simp add: row_get_set)

definition owner :: "database \<Rightarrow> string \<Rightarrow> int option" where
  "owner d dev = (case row_get dev_device_id dev (device_configs d) of None \<Rightarrow> None | Some r \<Rightarrow> dev_user_id r)"

fun caller :: "store_call \<Rightarrow> account option" where
  "caller (CreateBackup i b req acc pass) = Some acc"
| "caller (DeleteBackup i sid req acc) = Some acc"
| "caller (ImportBackup i b req acc) = Some acc"
| "caller (RestoreBackup i sid req acc) = Some acc"
| "caller (PushSync i payload account) = account"
| "caller (DeleteSync i acc) = Some acc"
| "caller (DeleteDevice i acc) = Some acc"
| "caller (RenameDevice i name acc) = Some acc"
| "caller (PushToDevice i src acc) = Some acc"

definition foreign :: "database \<Rightarrow> string \<Rightarrow> account \<Rightarrow> bool" where
  "foreign d dev acc \<longleftrightarrow> owner d dev \<noteq> None \<and> owner d dev \<noteq> Some (acc_id acc)"

lemma foreign_dview: "dview d' = dview d \<Longrightarrow> foreign d' dev acc = foreign d dev acc"
  by (simp add: foreign_def owner_def dview_eq)

text \<open>The ownership check of the raw id and the lower-cased id used afterwards agree on stored devices.\<close>

lemma owned_not_foreign:
  assumes "store_inv d" and "owned_device device_id acc d = Inr r" and "foreign d dev acc"
  shows "dev \<noteq> py_lower device_id"
proof
  assume e: "dev = py_lower device_id"
  from assms(3) obtain r' where r': "row_get dev_device_id dev (device_configs d) = Some r'"
    by (auto simp: foreign_def owner_def split: option.splits)
  with row_get_Some [OF r'] assms(1) have "valid_device_id dev" by (auto simp: store_inv_def refs_ok_def)
  with e have "normalize_device_id device_id = Inr dev" by (simp add: normalize_Inr valid_not_raw)
  with assms(2,3) r' show False by (auto simp: owned_device_def foreign_def owner_def split: if_splits)
qed

lemma own_device_not_foreign: "own_device d acc i = Some r \<Longrightarrow> foreign d dev acc \<Longrightarrow> dev \<noteq> i"
  by (auto simp: own_device_def foreign_def owner_def split: option.splits if_splits)

text \<open>The two creating endpoints and \<open>restore\<close> after the replay cache.\<close>

lemma same_device_frame [simp]:
  "same_device dev d (db (emit env now actor action rq rt rid detail s)) = same_device dev d (db s)"
  "same_device dev d (db (persist sha now racing req acc code b ct rb s)) = same_device dev d (db s)"
  by (rule same_device_cong, simp)+

lemma after_replay:
  assumes "replay_if_present sha now req account body st = (r0, st0)" and "store_inv (db st)" and "foreign (db st) dev acc"
  shows "store_inv (db st0)" "foreign (db st0) dev acc"
    "st' = st \<or> same_device dev (db st0) (db st') \<Longrightarrow> same_device dev (db st) (db st')"
proof -
  note v = replay_dview(1) [OF assms(1)]
  show "store_inv (db st0)" "foreign (db st0) dev acc"
    using store_inv_dview [OF v] foreign_dview [OF v] assms(2,3) by simp_all
  show "st' = st \<or> same_device dev (db st0) (db st') \<Longrightarrow> same_device dev (db st) (db st')"
    by (elim disjE) (simp_all add: same_device_trans [OF same_device_dview [OF v]])
qed

lemma create_owned_same:
  assumes "store_inv (db st)" and "foreign (db st) dev acc" and "owned_device i acc (db st) = Inr x"
    and "create_snapshot lib alloc now ent racing (py_lower i) aid payload kind label ip encrypt pw st = (y, st1)"
  shows "same_device dev (db st) (db st1)"
  using create_same [OF _ owned_not_foreign [OF assms(1,3,2)] assms(4)] assms(1) by blast

lemma create_backup_same:
  assumes "store_inv (db st)" and "create_backup sv i body req acc pass st = (r, st')" and "foreign (db st) dev acc"
  shows "same_device dev (db st) (db st')"
proof -
  obtain r0 st0 where r0: "replay_if_present (lib_sha256_hex (sv_lib sv)) (sv_now sv) req (Some acc)
      (Some (create_request_dump body)) st = (r0, st0)" by fastforce
  note ar = after_replay [OF r0 assms(1,3)]
  show ?thesis
    using assms(2) r0
    by (intro ar(3)) (auto simp: create_backup_def Let_def wrap_json_def
        split: if_splits sum.splits option.splits prod.splits exn.splits dest: create_owned_same [OF ar(1,2)])
qed

lemma import_backup_same:
  assumes "store_inv (db st)" and "import_backup sv i body req acc st = (r, st')" and "foreign (db st) dev acc"
  shows "same_device dev (db st) (db st')"
proof -
  obtain r0 st0 where r0: "replay_if_present (lib_sha256_hex (sv_lib sv)) (sv_now sv) req (Some acc)
      (Some (import_request_dump body)) st = (r0, st0)" by fastforce
  note ar = after_replay [OF r0 assms(1,3)]
  show ?thesis
    using assms(2) r0
    by (intro ar(3)) (auto simp: import_backup_def Let_def wrap_json_def
        split: if_splits sum.splits option.splits prod.splits exn.splits dest: create_owned_same [OF ar(1,2)])
qed

lemma pre_restore_same:
  "heads_ok (db st) \<Longrightarrow> dev \<noteq> py_lower i \<Longrightarrow> pre_restore sv i acc t c st = (r, st1) \<Longrightarrow>
     same_device dev (db st) (db st1)"
  by (auto simp: pre_restore_def split: option.splits if_splits sum.splits prod.splits dest: create_same)

lemma restore_backup_same:
  assumes "store_inv (db st)" and "restore_backup sv i sid req acc st = (r, st')" and "foreign (db st) dev acc"
  shows "same_device dev (db st) (db st')"
proof -
  obtain r0 st0 where r0: "replay_if_present (lib_sha256_hex (sv_lib sv)) (sv_now sv) req (Some acc)
      (Some (restore_request_dump sid)) st = (r0, st0)" by fastforce
  note ar = after_replay [OF r0 assms(1,3)]
  from ar(1) have h0: "heads_ok (db st0)" by blast
  have c: "same_device dev (db st0) (db st1)" if "owned_device i acc (db st0) = Inr x"
    "pre_restore sv i acc t c st0 = (y, st1)" for x y t c st1
    using pre_restore_same [OF h0 owned_not_foreign [OF ar(1) that(1) ar(2)] that(2)] .
  have s: "same_device dev (db st0) d" if "owned_device i acc (db st0) = Inr x"
    "pre_restore sv i acc t c st0 = (y, st1)" "set_head now (py_lower i) k b (db st1) = Inr d" for x y t c st1 now k b d
    using c [OF that(1,2)] set_head_same [OF that(3) owned_not_foreign [OF ar(1) that(1) ar(2)]] same_device_trans by blast
  show ?thesis
    using assms(2) r0
    by (intro ar(3)) (auto simp: restore_backup_def Let_def wrap_json_def
        split: sum.splits option.splits prod.splits dest: c s)
qed

lemma delete_backup_same:
  assumes "store_inv (db st)" and "delete_backup sv i sid req acc st = (r, st')" and "foreign (db st) dev acc"
  shows "same_device dev (db st) (db st')"
proof -
  consider "st' = st" | x s where "owned_device i acc (db st) = Inr x"
      "own_snapshot i sid acc ''Snapshot not found'' (db st) = Inr s"
      "\<not> (case get_head (db st) (py_lower i) of None \<Rightarrow> False | Some h \<Rightarrow> snap_id h = snap_id s)"
    using assms(2) by (auto simp: delete_backup_def Let_def split: sum.splits if_splits)
  then show ?thesis
  proof cases
    case (2 x s)
    from assms(1) have h: "heads_ok (db st)" by blast
    note os = own_snapshot_Inr [OF 2(2)]
    have dev: "dev \<noteq> py_lower i" by (rule owned_not_foreign [OF assms(1) 2(1) assms(3)])
    have ha: "\<forall>h \<in> set (device_heads (db st)). head_current_snapshot_id h \<notin> {snap_id s}"
      using delete_backup_ok(1) [OF assms(1) 2(2,3)] by (auto simp: delete_snapshots_eq split: if_splits)
    have "snap_device_id t \<noteq> dev" if "t \<in> set (device_snapshots (db st))" "snap_id t \<in> {snap_id s}" for t
      using dev os h that row_get_in [of snap_id _ t] by (simp add: heads_ok_def)
    from without_same [OF h ha this] have "same_device dev (db st) (without {snap_id s} (db st))" .
    moreover have "dview (db st') = dview (without {snap_id s} (db st))"
      using delete_backup_past_guards [OF assms(1) 2] assms(2)
      by (auto simp: Let_def dview_def without_def frame_simps)
    ultimately show ?thesis using same_device_dview same_device_trans by blast
  qed simp
qed

lemma put_device_same: "dev \<noteq> dev_device_id r \<Longrightarrow> same_device dev d (put_device r d)"
  by (auto simp: put_device_def row_get_add row_get_replace intro!: devices_same split: option.splits)

lemma upsert_same:
  assumes "store_inv (db st)" and "api_upsert_config lib sl env now ent raw payload (Some acc) st = (r, st')"
    and "foreign (db st) dev acc"
  shows "same_device dev (db st) (db st')"
  using assms(2)
proof (cases rule: upsert_cases)
  case (pushed i acc' rc)
  define row where "row = row_get dev_device_id i (device_configs (db st))"
  define st1 where "st1 = keep_previous sl env now i acc' row st"
  define d2 where "d2 = put_device (pushed_row now i (acc_id acc') payload row) (db st1)"
  have up: "upserted sl env now i payload acc' st = st1\<lparr>db := d2\<rparr>"
    by (simp add: upserted_def d2_def st1_def row_def Let_def)
  have n: "dev \<noteq> i" using pushed(2,3) assms(3)
    by (auto simp: linked_elsewhere_def foreign_def owner_def split: option.splits)
  have id: "dev_device_id (pushed_row now i (acc_id acc') payload row) = i"
    using row_get_Some [of dev_device_id i "device_configs (db st)"] by (auto simp: row_def split: option.splits)
  have v: "dview (db st1) = dview (db st)" by (auto simp: st1_def keep_previous_def split: option.splits)
  have i2: "store_inv d2" unfolding d2_def
    using put_device_inv store_inv_dview [OF v] assms(1) pushed(1) id by (metis normalize_Inr)
  have "same_device dev (db st) (db st1)" by (rule same_device_dview [OF v])
  also have "same_device dev (db st1) d2" unfolding d2_def by (rule put_device_same) (simp only: id n not_False_eq_True)
  also have "same_device dev d2 (db st')" using create_same [OF _ n pushed(4)] i2 by (auto simp: up)
  finally show ?thesis .
qed simp

text \<open>A request of the API leaves the devices of other accounts alone.\<close>

lemma account_isolation:
  assumes "store_inv (db st)" and "serve sv sl hf c st = (r, st')" and "caller c = Some acc"
    and "owner (db st) dev = Some other" and "other \<noteq> acc_id acc"
  shows "row_get dev_device_id dev (device_configs (db st')) = row_get dev_device_id dev (device_configs (db st))
    \<and> map_option snap_id (get_head (db st') dev) = map_option snap_id (get_head (db st) dev)
    \<and> device_rows dev (db st') = device_rows dev (db st)"
proof -
  have f: "foreign (db st) dev acc" using assms(4,5) by (simp add: foreign_def)
  have "same_device dev (db st) (db st')"
  proof (cases c)
    case (DeleteSync i a)
    with assms(2,3) show ?thesis
      by (auto simp: api_delete_config_def require_owned_row_def dest!: void_state split: sum.splits option.splits if_splits
          intro!: delete_device_same [OF assms(1)]) (use f row_get_Some in \<open>fastforce simp: foreign_def owner_def\<close>)+
  next
    case (DeleteDevice i a)
    with assms(2,3) own_device_not_foreign [OF _ f, of i] delete_device_same [OF assms(1), of hf i] show ?thesis
      by (auto simp: delete_device_def dest!: void_state split: sum.splits option.splits)
  next
    case (RenameDevice i name a)
    with assms(2,3) own_device_not_foreign [OF _ f, of i] show ?thesis
      by (auto simp: update_device_def dest!: void_state split: option.splits if_splits intro!: row_set_same)
  next
    case (PushToDevice i src a)
    with assms(2,3) own_device_not_foreign [OF _ f, of i] show ?thesis
      by (auto simp: push_config_to_device_def dest!: void_state split: option.splits intro!: row_set_same)
  qed (use assms(1-3) f create_backup_same delete_backup_same import_backup_same restore_backup_same upsert_same
      in \<open>force dest!: void_state\<close>)+
  then show ?thesis by (simp add: same_device_def)
qed

end
