(* ===== verification/Sync.thy ===== *)
theory Sync
  imports Store
begin

text \<open>
  What the sync endpoints guarantee: the rotation of sync snapshots, and what a push of a
  device's configuration leaves behind in the device row, the sync snapshots and the
  versioned store.
\<close>

section \<open>Rotation of sync snapshots\<close>

definition gzip_ok :: "sync_lib \<Rightarrow> bool" where
  "gzip_ok sl \<longleftrightarrow> (\<forall>b. gunzip sl (gzip sl b) = Some b) \<and> order_ok ss_created_at (order_sync sl)"

lemma fold_row_del: "fold (row_del key) ids rows = filter (\<lambda>r. key r \<notin> set ids) rows"
  by (induction ids arbitrary: rows) (auto simp: row_del_def intro: filter_cong)

lemma ss_decompress:
  "gzip_ok sl \<Longrightarrow> json_wf payload \<Longrightarrow> ss_content_gzip s = gzip sl (ascii_encode (dumps payload)) \<Longrightarrow>
     decompress sl s = Inr payload"
  using ascii_dumps [of payload] loads_dumps [of payload]
  by (simp add: decompress_def gzip_ok_def json_loads_def ascii_decode_encode)

text \<open>The rows of one device and account after a rotation are the first ten of the order.\<close>

lemma rotate_sync_rows:
  fixes sl device_id aid d
  defines "mine \<equiv> \<lambda>s :: sync_snapshot. ss_device_id s = device_id \<and> ss_account_id s = aid"
  defines "ys \<equiv> order_sync sl (filter mine (sync_snapshots d))"
  assumes "gzip_ok sl" and "pk ss_id (sync_snapshots d)"
  shows "sync_snapshots (rotate_sync sl device_id aid d) = filter (\<lambda>s. \<not> mine s \<or> s \<in> set (take 10 ys)) (sync_snapshots d)"
proof -
  have o: "order_ok ss_created_at (order_sync sl)" using assms(3) by (simp add: gzip_ok_def)
  have dist: "distinct (sync_snapshots d)" and inj: "inj_on ss_id (set (sync_snapshots d))"
    using assms(4) by (simp_all add: pk_def distinct_map)
  have sy: "set ys = {s \<in> set (sync_snapshots d). mine s}" using order_ok_set [OF o] by (auto simp: ys_def)
  have "distinct ys" using order_ok_distinct [OF o] dist by (simp add: ys_def)
  then have td: "set (take 10 ys) \<inter> set (drop 10 ys) = {}" by (simp add: set_take_disj_set_drop_if_distinct)
  have tu: "set ys = set (take 10 ys) \<union> set (drop 10 ys)" by (metis append_take_drop_id set_append)
  have "(ss_id s \<notin> ss_id ` set (drop 10 ys)) = (\<not> mine s \<or> s \<in> set (take 10 ys))" if "s \<in> set (sync_snapshots d)" for s
  proof -
    have "(ss_id s \<in> ss_id ` set (drop 10 ys)) = (s \<in> set (drop 10 ys))"
      using inj that tu sy by (auto dest: inj_onD)
    then show ?thesis using td tu sy that by blast
  qed
  then have "filter (\<lambda>s. ss_id s \<notin> set (map ss_id (drop 10 ys))) (sync_snapshots d) =
      filter (\<lambda>s. \<not> mine s \<or> s \<in> set (take 10 ys)) (sync_snapshots d)"
    by (intro filter_cong) simp_all
  then show ?thesis unfolding mine_def ys_def by (simp add: rotate_sync_def Let_def fold_row_del KEEP_PER_DEVICE_def)
qed

text \<open>
  Sync snapshots rotate: after a push has kept the previous payload, the device has at
  most ten sync snapshots for the account, none that was dropped is newer than one that
  was kept, the snapshots of every other device or account are untouched, and the stored
  payload reads back exactly; when it is newer than the others it is among the kept.
\<close>
lemma sync_rotation:
  assumes "gzip_ok sl" and "fresh_alloc alloc" and "pk ss_id (sync_snapshots d)" and "json_wf payload"
    and "create_sync_snapshot sl alloc now device_id aid payload d = (s, d')"
  shows "let mine = (\<lambda>r. ss_device_id r = device_id \<and> ss_account_id r = aid);
             before = filter mine (sync_snapshots d @ [s]); after = filter mine (sync_snapshots d')
         in length after \<le> 10 \<and> set after \<subseteq> set before
          \<and> (\<forall>x \<in> set before - set after. \<forall>y \<in> set after. ss_created_at x \<le> ss_created_at y)
          \<and> (length before \<le> 10 \<longrightarrow> after = before)
          \<and> ((\<forall>x \<in> set (sync_snapshots d). mine x \<longrightarrow> ss_created_at x < now) \<longrightarrow> s \<in> set after)
          \<and> filter (\<lambda>r. \<not> mine r) (sync_snapshots d') = filter (\<lambda>r. \<not> mine r) (sync_snapshots d)
          \<and> decompress sl s = Inr payload"
proof -
  define mine where "mine = (\<lambda>r :: sync_snapshot. ss_device_id r = device_id \<and> ss_account_id r = aid)"
  define rows where "rows = sync_snapshots d @ [s]"
  define ys where "ys = order_sync sl (filter mine rows)"
  have s: "ss_id s = alloc (map ss_id (sync_snapshots d))" "mine s" "ss_created_at s = now"
    "ss_content_gzip s = gzip sl (ascii_encode (dumps payload))"
    and d': "d' = rotate_sync sl device_id aid (d\<lparr>sync_snapshots := rows\<rparr>)"
    using assms(5) by (auto simp: create_sync_snapshot_def Let_def rows_def row_add_def mine_def)
  have pk: "pk ss_id rows"
    using pk_add [of ss_id s "sync_snapshots d"] fresh_row_get [OF assms(2), of ss_id] assms(3) s(1)
    by (simp add: rows_def row_add_def)
  then have dist: "distinct rows" by (simp add: pk_def distinct_map)
  have o: "order_ok ss_created_at (order_sync sl)" using assms(1) by (simp add: gzip_ok_def)
  have sy: "set ys = {r \<in> set rows. mine r}" "length ys = length (filter mine rows)"
    using order_ok_set [OF o] by (auto simp: ys_def)
  have so: "sorted_wrt (\<lambda>a b. ss_created_at b \<le> ss_created_at a) ys" using o by (simp add: order_ok_def ys_def)
  have tt: "set (take 10 ys) \<subseteq> set ys" by (rule set_take_subset)
  have r': "sync_snapshots d' = filter (\<lambda>r. \<not> mine r \<or> r \<in> set (take 10 ys)) rows"
    using rotate_sync_rows [OF assms(1), of "d\<lparr>sync_snapshots := rows\<rparr>" device_id aid] pk
    by (simp add: d' mine_def ys_def)
  then have after: "filter mine (sync_snapshots d') = filter (\<lambda>r. r \<in> set (take 10 ys)) rows"
    using tt sy(1) by (auto intro!: filter_cong)
  have sa: "set (filter mine (sync_snapshots d')) = set (take 10 ys)" unfolding after using tt sy(1) by auto
  have "length (filter mine (sync_snapshots d')) \<le> 10"
    using distinct_card [of "filter mine (sync_snapshots d')"] sa card_length [of "take 10 ys"] dist after by simp
  moreover have "ss_created_at x \<le> ss_created_at y" if "x \<in> set (filter mine rows) - set (take 10 ys)" "y \<in> set (take 10 ys)" for x y
  proof -
    have "x \<in> set (drop 10 ys)" using that(1) sy(1) by (metis (no_types, lifting) Diff_iff Un_iff append_take_drop_id mem_Collect_eq set_append set_filter)
    then show ?thesis using so that(2) by (metis append_take_drop_id sorted_wrt_append)
  qed
  moreover have "filter mine (sync_snapshots d') = filter mine rows" if "length (filter mine rows) \<le> 10"
    using that sy unfolding after by (auto intro!: filter_cong)
  moreover have "s \<in> set (take 10 ys)" if n: "\<forall>x \<in> set (sync_snapshots d). mine x \<longrightarrow> ss_created_at x < now"
  proof -
    obtain y zs where y: "ys = y # zs" using sy s(2) by (cases ys) (auto simp: rows_def)
    have "y = s"
    proof (rule ccontr)
      assume ne: "y \<noteq> s"
      with sy(1) y n have "ss_created_at y < now" by (auto simp: rows_def)
      moreover from ne sy(1) y s(2) have "s \<in> set zs" by (auto simp: rows_def)
      ultimately show False using so s(3) unfolding y by auto
    qed
    with y show ?thesis by simp
  qed
  moreover have "filter (\<lambda>r. \<not> mine r) (sync_snapshots d') = filter (\<lambda>r. \<not> mine r) (sync_snapshots d)"
    unfolding r' using s(2) by (auto simp: rows_def intro: filter_cong)
  ultimately show ?thesis
    using ss_decompress [OF assms(1,4) s(4)] sa tt sy(1)
    unfolding Let_def mine_def [symmetric] rows_def [symmetric] by auto
qed

text \<open>An eleventh snapshot of a device.\<close>

definition demo_sync :: sync_lib where
  "demo_sync = \<lparr>gzip = id, gunzip = Some, order_sync = newest_first ss_created_at\<rparr>"

lemma demo_sync_ok: "gzip_ok demo_sync"
  by (simp add: gzip_ok_def demo_sync_def newest_first_ok)

lemma sync_rotation_witness:
  "let d = empty_db\<lparr>sync_snapshots := map (\<lambda>i. \<lparr>ss_id = i, ss_device_id = ''dev'', ss_account_id = 1, ss_created_at = i,
         ss_size_bytes = 0, ss_content_gzip = []\<rparr>) [1..10]\<rparr>;
       (s, d') = create_sync_snapshot demo_sync max_alloc 99 ''dev'' 1 (JObj []) d
   in length (filter (\<lambda>r. ss_device_id r = ''dev'' \<and> ss_account_id r = 1) (sync_snapshots d')) \<le> 10
      \<and> decompress demo_sync s = Inr (JObj [])"
proof -
  define d where "d = empty_db\<lparr>sync_snapshots := map (\<lambda>i. \<lparr>ss_id = i, ss_device_id = ''dev'', ss_account_id = 1,
         ss_created_at = i, ss_size_bytes = 0, ss_content_gzip = []\<rparr>) [1..10]\<rparr>"
  obtain s d' where c: "create_sync_snapshot demo_sync max_alloc 99 ''dev'' 1 (JObj []) d = (s, d')" by fastforce
  have p: "pk ss_id (sync_snapshots d)" by (simp add: d_def pk_def o_def)
  have w: "json_wf (JObj [])" by simp
  from sync_rotation [OF demo_sync_ok fresh_max_alloc p w c] show ?thesis
    unfolding d_def [symmetric] using c by (simp add: Let_def)
qed

section \<open>The push\<close>

lemma create_configs:
  assumes "create_snapshot lib alloc now ent racing dev aid payload kind label ip encrypt pass st = (r, st')"
  shows "device_configs (db st') = device_configs (db st)"
proof (cases "dedups lib (db st) dev payload label encrypt pass")
  case True
  with create_dedup [OF True] assms show ?thesis by auto
next
  case False
  have "device_configs (db s') = device_configs (db s)"
    if "append_snapshot alloc now dev aid label kind p kid par ip s = (r, s')" for p kid par s s'
    using that by (auto simp: append_snapshot_def Let_def split: if_splits sum.splits dest!: set_head_cases)
  with create_packed [OF False assms] show ?thesis by (auto simp: dview_eq)
qed

text \<open>Whether the packed payload fits into the database.\<close>

definition fits :: "snap_lib \<Rightarrow> json \<Rightarrow> bool" where
  "fits lib payload \<longleftrightarrow> length (canonical_bytes payload) \<le> lib_inline_threshold lib
     \<or> length (lib_zstd lib (canonical_bytes payload)) \<le> lib_blob_threshold lib"

lemma create_fits:
  assumes "fits lib payload"
    and "create_snapshot lib alloc now ent racing dev aid payload kind label ip False None st = (Inl e, st')"
  shows "e = IntegrityError"
proof (cases "dedups lib (db st) dev payload label False None")
  case True
  with create_dedup [OF True] assms(2) show ?thesis by auto
next
  case False
  have "e' = IntegrityError"
    if "append_snapshot alloc now dev aid label kind p kid par ip s = (Inl e', s')" for p kid par s s' e'
    using that by (auto simp: append_snapshot_def set_head_def Let_def split: if_splits sum.splits option.splits)
  with create_pack_then_append [OF False] assms show ?thesis
    by (auto simp: fits_def pack_from_raw_def Let_def split: if_splits)
qed



end
