(* ===== verification/Admin_Users.thy ===== *)
theory Admin_Users
  imports Auth Retention
begin

text \<open>
  Account administration (\<^verbatim>\<open>app/admin_users.py\<close>).

  Every endpoint runs after its role dependency (\<open>with_role\<close>). The order of rows with equal
  timestamps and of SQL groups is a parameter; so is the generated one-time password.
\<close>

section \<open>Helpers\<close>

definition with_role ::
  "environment \<Rightarrow> instant \<Rightarrow> request \<Rightarrow> role \<Rightarrow> account \<Rightarrow> 'a handler \<Rightarrow> 'a handler" where
  "with_role env now req required acc h st =
     (case require_role env now req required acc st of
        (Inl e, st1) \<Rightarrow> (Inl e, st1) | (Inr _, st1) \<Rightarrow> h st1)"

text \<open>\<open>Role(account.role)\<close> raises \<open>ValueError\<close> on an unknown string.\<close>

definition role_or_error :: "string \<Rightarrow> exn + role" where
  "role_or_error s = (case role_of s of None \<Rightarrow> Inl (ValueError ''not a valid Role'') | Some r \<Rightarrow> Inr r)"

definition target_or_404 :: "database \<Rightarrow> int \<Rightarrow> exn + account" where
  "target_or_404 d user_id =
     (case row_get acc_id user_id (accounts d) of None \<Rightarrow> Inl (HTTPException 404 ''Account not found'')
      | Some a \<Rightarrow> Inr a)"

definition device_count :: "database \<Rightarrow> int \<Rightarrow> nat" where
  "device_count d user_id = count_query (\<lambda>r. dev_user_id r = Some user_id) (device_configs d)"

definition set_account :: "int \<Rightarrow> (account \<Rightarrow> account) \<Rightarrow> app_state \<Rightarrow> app_state" where
  "set_account i f st = st\<lparr>db := (db st)\<lparr>accounts := row_set acc_id i f (accounts (db st))\<rparr>\<rparr>"

definition bump_version :: "account \<Rightarrow> account" where
  "bump_version a = a\<lparr>acc_token_version := acc_token_version a + 1\<rparr>"

definition revoke_all_for :: "int \<Rightarrow> app_state \<Rightarrow> nat \<times> app_state" where
  "revoke_all_for account_id st =
     (case row_get acc_id account_id (accounts (db st)) of None \<Rightarrow> (0, st)
      | Some _ \<Rightarrow> (1, set_account account_id bump_version st))"

definition invalidate_stats :: "app_state \<Rightarrow> app_state" where
  "invalidate_stats st = st\<lparr>stats_cache := cache_invalidate (stats_cache st) None\<rparr>"

definition account_event ::
  "environment \<Rightarrow> instant \<Rightarrow> account \<Rightarrow> string \<Rightarrow> request \<Rightarrow> int \<Rightarrow> json \<Rightarrow> app_state \<Rightarrow> app_state" where
  "account_event env now caller action req i detail st =
     emit env now (Some caller) action (Some req) (Some ''account'') (Some (show_int i)) (Some detail) st"

definition email_detail :: "account \<Rightarrow> json" where
  "email_detail a = JObj [(''target_email'', JStr (acc_email a))]"

text \<open>The row of the response: the account as it is now and its number of devices.\<close>

definition user_row_of :: "int \<Rightarrow> app_state \<Rightarrow> exn + account \<times> nat" where
  "user_row_of i st =
     (case row_get acc_id i (accounts (db st)) of None \<Rightarrow> Inl (HTTPException 404 ''Account not found'')
      | Some a \<Rightarrow> Inr (a, device_count (db st) i))"

section \<open>Listing and reading\<close>

definition list_users ::
  "(account list \<Rightarrow> account list) \<Rightarrow> environment \<Rightarrow> instant \<Rightarrow> request \<Rightarrow> int \<Rightarrow> int \<Rightarrow> account
     \<Rightarrow> ((account \<times> nat) list \<times> nat) handler" where
  "list_users order env now req offset0 limit0 caller =
     with_role env now req Admin caller (\<lambda>st.
       let limit = max 1 (min limit0 200); offset = max 0 offset0;
           page = take (nat limit) (drop (nat offset) (order (accounts (db st))))
       in (Inr (map (\<lambda>a. (a, device_count (db st) (acc_id a))) page, length (accounts (db st))), st))"

definition get_user ::
  "environment \<Rightarrow> instant \<Rightarrow> request \<Rightarrow> int \<Rightarrow> account \<Rightarrow> (account \<times> device_config list) handler" where
  "get_user env now req user_id caller =
     with_role env now req Support caller (\<lambda>st.
       case target_or_404 (db st) user_id of Inl e \<Rightarrow> (Inl e, st)
       | Inr a \<Rightarrow> (Inr (a, filter (\<lambda>r. dev_user_id r = Some user_id) (device_configs (db st))), st))"

definition list_sessions ::
  "(revoked_token list \<Rightarrow> revoked_token list) \<Rightarrow> environment \<Rightarrow> instant \<Rightarrow> request \<Rightarrow> int \<Rightarrow> account
     \<Rightarrow> (account \<times> nat \<times> nat \<times> revoked_token list) handler" where
  "list_sessions order env now req user_id caller =
     with_role env now req Support caller (\<lambda>st.
       case target_or_404 (db st) user_id of Inl e \<Rightarrow> (Inl e, st)
       | Inr a \<Rightarrow>
         (let rows = order (filter (\<lambda>r. rev_account_id r = Some user_id) (revoked_tokens (db st)));
              active = filter (\<lambda>r. case rev_expires_at r of None \<Rightarrow> True | Some t \<Rightarrow> now < t) rows
          in (Inr (a, length active, device_count (db st) user_id, rows), st)))"

section \<open>Changing accounts\<close>

definition owner_count :: "database \<Rightarrow> nat" where
  "owner_count d = count_query (\<lambda>a. acc_role a = role_value Owner) (accounts d)"

text \<open>The guards of a role change: the first that fails.\<close>

definition role_change_guard :: "database \<Rightarrow> role \<Rightarrow> role \<Rightarrow> role \<Rightarrow> exn option" where
  "role_change_guard d caller_role target_role new_role =
     (if new_role = Owner \<and> caller_role \<noteq> Owner then Some (HTTPException 403 ''Only owners can assign owner role'')
      else if target_role = Owner \<and> caller_role \<noteq> Owner then Some (HTTPException 403 ''Only owners can modify an owner'')
      else if target_role = Owner \<and> new_role \<noteq> Owner \<and> owner_count d \<le> 1
      then Some (HTTPException 409 ''Cannot demote the last owner'')
      else None)"

definition change_role ::
  "environment \<Rightarrow> instant \<Rightarrow> request \<Rightarrow> int \<Rightarrow> role \<Rightarrow> account \<Rightarrow> (account \<times> nat) handler" where
  "change_role env now req user_id new_role caller =
     with_role env now req Admin caller (\<lambda>st.
       case target_or_404 (db st) user_id of Inl e \<Rightarrow> (Inl e, st)
       | Inr target \<Rightarrow>
         (case role_or_error (acc_role caller) of Inl e \<Rightarrow> (Inl e, st)
          | Inr caller_role \<Rightarrow>
            (case role_or_error (acc_role target) of Inl e \<Rightarrow> (Inl e, st)
             | Inr target_role \<Rightarrow>
               (case role_change_guard (db st) caller_role target_role new_role of Some e \<Rightarrow> (Inl e, st)
                | None \<Rightarrow>
                  (let st1 = invalidate_stats (set_account user_id (acc_role_update (\<lambda>_. role_value new_role)) st);
                       st2 = account_event env now caller ''user.role_changed'' req user_id
                         (JObj [(''from'', JStr (acc_role target)), (''to'', JStr (role_value new_role)),
                                (''target_email'', JStr (acc_email target))]) st1
                   in (user_row_of user_id st2, st2))))))"

definition suspend_user ::
  "environment \<Rightarrow> instant \<Rightarrow> request \<Rightarrow> int \<Rightarrow> account \<Rightarrow> (account \<times> nat) handler" where
  "suspend_user env now req user_id caller =
     with_role env now req Admin caller (\<lambda>st.
       case target_or_404 (db st) user_id of Inl e \<Rightarrow> (Inl e, st)
       | Inr target \<Rightarrow>
         (case role_or_error (acc_role target) of Inl e \<Rightarrow> (Inl e, st)
          | Inr target_role \<Rightarrow>
            if target_role = Owner then (Inl (HTTPException 403 ''Cannot suspend an owner account''), st)
            else (let st1 = set_account user_id (acc_suspended_at_update (\<lambda>_. Some now)) st;
                      st2 = invalidate_stats (snd (revoke_all_for user_id st1));
                      st3 = account_event env now caller ''user.suspended'' req user_id (email_detail target) st2
                  in (user_row_of user_id st3, st3))))"

definition resume_user ::
  "environment \<Rightarrow> instant \<Rightarrow> request \<Rightarrow> int \<Rightarrow> account \<Rightarrow> (account \<times> nat) handler" where
  "resume_user env now req user_id caller =
     with_role env now req Admin caller (\<lambda>st.
       case target_or_404 (db st) user_id of Inl e \<Rightarrow> (Inl e, st)
       | Inr target \<Rightarrow>
         (let st1 = invalidate_stats (set_account user_id (acc_suspended_at_update (\<lambda>_. None)) st);
              st2 = account_event env now caller ''user.resumed'' req user_id (email_detail target) st1
          in (user_row_of user_id st2, st2)))"

definition reset_password ::
  "bcrypt_lib \<Rightarrow> environment \<Rightarrow> instant \<Rightarrow> string \<Rightarrow> string \<Rightarrow> request \<Rightarrow> int \<Rightarrow> account
     \<Rightarrow> (string \<times> string) handler" where
  "reset_password bc env now temp salt req user_id caller =
     with_role env now req Support caller (\<lambda>st.
       case target_or_404 (db st) user_id of Inl e \<Rightarrow> (Inl e, st)
       | Inr target \<Rightarrow>
         (case role_or_error (acc_role target) of Inl e \<Rightarrow> (Inl e, st)
          | Inr target_role \<Rightarrow>
            (case (if target_role = Owner then role_or_error (acc_role caller) else Inr Owner) of Inl e \<Rightarrow> (Inl e, st)
             | Inr caller_role \<Rightarrow>
               if target_role = Owner \<and> caller_role \<noteq> Owner
               then (Inl (HTTPException 403 ''Only owners can reset an owner's password''), st)
               else (let st1 = set_account user_id (acc_password_hash_update (\<lambda>_. hashpw bc temp salt)) st;
                         st2 = snd (revoke_all_for user_id st1);
                         st3 = account_event env now caller ''user.password_reset'' req user_id (email_detail target) st2
                     in (Inr (acc_email target, temp), st3)))))"

definition revoke_user_tokens ::
  "environment \<Rightarrow> instant \<Rightarrow> request \<Rightarrow> int \<Rightarrow> account \<Rightarrow> (account \<times> nat) handler" where
  "revoke_user_tokens env now req user_id caller =
     with_role env now req Admin caller (\<lambda>st.
       case target_or_404 (db st) user_id of Inl e \<Rightarrow> (Inl e, st)
       | Inr target \<Rightarrow>
         (case role_or_error (acc_role target) of Inl e \<Rightarrow> (Inl e, st)
          | Inr target_role \<Rightarrow>
            (case (if target_role = Owner then role_or_error (acc_role caller) else Inr Owner) of Inl e \<Rightarrow> (Inl e, st)
             | Inr caller_role \<Rightarrow>
               if target_role = Owner \<and> caller_role \<noteq> Owner
               then (Inl (HTTPException 403 ''Only owners can revoke an owner's tokens''), st)
               else (let st1 = snd (revoke_all_for user_id st);
                         st2 = account_event env now caller ''user.tokens_revoked'' req user_id
                           (JObj [(''target_email'', JStr (acc_email target)),
                                  (''new_token_version'', JInt (acc_token_version target + 1))]) st1
                     in (user_row_of user_id st2, st2)))))"

text \<open>
  Deleting an account row: the tables that refer to it with \<open>CASCADE\<close> lose their rows, the
  others forget the account.
\<close>

definition forget :: "int \<Rightarrow> int option \<Rightarrow> int option" where
  "forget i x = (if x = Some i then None else x)"

definition delete_account_row :: "int \<Rightarrow> database \<Rightarrow> database" where
  "delete_account_row i d =
     d\<lparr>accounts := row_del acc_id i (accounts d),
       idempotency_records := filter (\<lambda>r. idem_account_id r \<noteq> Some i) (idempotency_records d),
       revoked_tokens := filter (\<lambda>r. rev_account_id r \<noteq> Some i) (revoked_tokens d),
       personal_access_tokens := filter (\<lambda>r. pat_account_id r \<noteq> i) (personal_access_tokens d),
       consumed_invites := map (\<lambda>r. r\<lparr>inv_account_id := forget i (inv_account_id r)\<rparr>) (consumed_invites d),
       audit_events := map (\<lambda>r. r\<lparr>aud_actor_id := forget i (aud_actor_id r)\<rparr>) (audit_events d),
       device_configs := map (\<lambda>r. r\<lparr>dev_user_id := forget i (dev_user_id r)\<rparr>) (device_configs d),
       device_snapshots := map (\<lambda>r. r\<lparr>snap_account_id := forget i (snap_account_id r)\<rparr>) (device_snapshots d),
       retention_policies := filter (\<lambda>r. rp_account_id r \<noteq> i) (retention_policies d),
       sync_snapshots := filter (\<lambda>r. ss_account_id r \<noteq> i) (sync_snapshots d),
       account_encryption_keys := filter (\<lambda>r. ek_account_id r \<noteq> i) (account_encryption_keys d),
       saved_audit_queries := filter (\<lambda>r. saq_account_id r \<noteq> i) (saved_audit_queries d)\<rparr>"

definition delete_user :: "environment \<Rightarrow> instant \<Rightarrow> request \<Rightarrow> int \<Rightarrow> account \<Rightarrow> unit handler" where
  "delete_user env now req user_id caller =
     with_role env now req Admin caller (\<lambda>st.
       case target_or_404 (db st) user_id of Inl e \<Rightarrow> (Inl e, st)
       | Inr target \<Rightarrow>
         (case role_or_error (acc_role target) of Inl e \<Rightarrow> (Inl e, st)
          | Inr target_role \<Rightarrow>
            if target_role = Owner then (Inl (HTTPException 403 ''Cannot delete an owner account''), st)
            else if acc_id target = acc_id caller then (Inl (HTTPException 409 ''Cannot delete your own account''), st)
            else (let st1 = account_event env now caller ''user.deleted'' req user_id (email_detail target) st;
                      st2 = st1\<lparr>db := delete_account_row user_id (db st1)\<rparr>
                  in (Inr (), invalidate_stats st2))))"

section \<open>The endpoints as steps\<close>

datatype admin_call =
    ChangeRole int role
  | SuspendUser int
  | ResumeUser int
  | ResetPassword int string string
  | RevokeTokens int
  | DeleteUser int

fun admin_serve :: "bcrypt_lib \<Rightarrow> environment \<Rightarrow> instant \<Rightarrow> request \<Rightarrow> account \<Rightarrow> admin_call \<Rightarrow> unit handler" where
  "admin_serve bc env now req caller (ChangeRole i r) st = void (change_role env now req i r caller st)"
| "admin_serve bc env now req caller (SuspendUser i) st = void (suspend_user env now req i caller st)"
| "admin_serve bc env now req caller (ResumeUser i) st = void (resume_user env now req i caller st)"
| "admin_serve bc env now req caller (ResetPassword i temp salt) st =
     void (reset_password bc env now temp salt req i caller st)"
| "admin_serve bc env now req caller (RevokeTokens i) st = void (revoke_user_tokens env now req i caller st)"
| "admin_serve bc env now req caller (DeleteUser i) st = void (delete_user env now req i caller st)"

inductive admin_step :: "app_state \<Rightarrow> app_state \<Rightarrow> bool" where
  request: "admin_step st (snd (get_session (admin_serve bc env now req caller c) st))"

section \<open>Lemmas\<close>

lemma db_account_event [frame_simps]:
  "accounts (db (account_event env now caller action req i detail st)) = accounts (db st)"
  "committed (account_event env now caller action req i detail st) = committed st"
  by (simp_all add: account_event_def frame_simps)

lemma invalidate_stats_frame [simp]:
  "db (invalidate_stats st) = db st" "committed (invalidate_stats st) = committed st"
  "revoked_cache (invalidate_stats st) = revoked_cache st"
  by (simp_all add: invalidate_stats_def)

lemma set_account_frame [simp]:
  "accounts (db (set_account i f st)) = row_set acc_id i f (accounts (db st))"
  "committed (set_account i f st) = committed st" "revoked_cache (set_account i f st) = revoked_cache st"
  by (simp_all add: set_account_def)

text \<open>The role dependency lets a request through unchanged or refuses it with one audit row.\<close>

lemma with_role_cases:
  assumes "with_role env now req required caller h st = (r, st')"
  obtains (denied) e where "r = Inl e" and "accounts (db st') = accounts (db st)" and "committed st' = committed st"
      and "is_http 403 r"
  | (granted) "acc_suspended_at caller = None"
      and "implies (case role_of (acc_role caller) of None \<Rightarrow> Readonly | Some x \<Rightarrow> x) required" and "h st = (r, st')"
  using assms
  by (auto simp: with_role_def require_role_def emit_deny_def frame_simps is_http_def Let_def split: if_splits)

lemma row_set_compose:
  "(\<And>r. key (f r) = key r) \<Longrightarrow> row_set key i g (row_set key i f rows) = row_set key i (\<lambda>r. g (f r)) rows"
  by (simp add: row_set_def)

lemma revoke_all_for_frame:
  "committed (snd (revoke_all_for i st)) = committed st"
  "accounts (db (snd (revoke_all_for i st))) = row_set acc_id i bump_version (accounts (db st))"
proof -
  have "row_set acc_id i bump_version rows = rows" if "row_get acc_id i rows = None" for rows
    using that by (induction rows) (auto simp: row_get_def row_set_def split: if_splits)
  then show "committed (snd (revoke_all_for i st)) = committed st"
    "accounts (db (snd (revoke_all_for i st))) = row_set acc_id i bump_version (accounts (db st))"
    by (auto simp: revoke_all_for_def split: option.splits)
qed

lemma role_or_error_Inr: "role_or_error s = Inr r \<longleftrightarrow> role_of s = Some r"
  by (auto simp: role_or_error_def split: option.splits)

lemma target_Inr: "target_or_404 d i = Inr a \<longleftrightarrow> row_get acc_id i (accounts d) = Some a"
  by (auto simp: target_or_404_def split: option.splits)

text \<open>What a call does to the accounts: the change of the target's row, or its removal (None).\<close>

fun call_target :: "admin_call \<Rightarrow> int" where
  "call_target (ChangeRole i r) = i"
| "call_target (SuspendUser i) = i"
| "call_target (ResumeUser i) = i"
| "call_target (ResetPassword i temp salt) = i"
| "call_target (RevokeTokens i) = i"
| "call_target (DeleteUser i) = i"

fun call_effect :: "bcrypt_lib \<Rightarrow> instant \<Rightarrow> admin_call \<Rightarrow> (account \<Rightarrow> account) option" where
  "call_effect bc now (ChangeRole i r) = Some (acc_role_update (\<lambda>_. role_value r))"
| "call_effect bc now (SuspendUser i) = Some (\<lambda>a. bump_version (a\<lparr>acc_suspended_at := Some now\<rparr>))"
| "call_effect bc now (ResumeUser i) = Some (acc_suspended_at_update (\<lambda>_. None))"
| "call_effect bc now (ResetPassword i temp salt) = Some (\<lambda>a. bump_version (a\<lparr>acc_password_hash := hashpw bc temp salt\<rparr>))"
| "call_effect bc now (RevokeTokens i) = Some bump_version"
| "call_effect bc now (DeleteUser i) = None"

text \<open>What the guards of a call have established when it has an effect.\<close>

fun call_allowed :: "database \<Rightarrow> account \<Rightarrow> account \<Rightarrow> admin_call \<Rightarrow> bool" where
  "call_allowed d caller t (ChangeRole i r) = (\<exists>cr tr. role_of (acc_role caller) = Some cr
     \<and> role_of (acc_role t) = Some tr \<and> role_change_guard d cr tr r = None)"
| "call_allowed d caller t (SuspendUser i) = (acc_role t \<noteq> role_value Owner)"
| "call_allowed d caller t (ResumeUser i) = True"
| "call_allowed d caller t (ResetPassword i temp salt) = (acc_role t = role_value Owner \<longrightarrow> acc_role caller = role_value Owner)"
| "call_allowed d caller t (RevokeTokens i) = (acc_role t = role_value Owner \<longrightarrow> acc_role caller = role_value Owner)"
| "call_allowed d caller t (DeleteUser i) = (acc_role t \<noteq> role_value Owner \<and> acc_id t \<noteq> acc_id caller)"

lemma admin_serve_effect:
  assumes "admin_serve bc env now req caller c st = (r, st')"
  shows "committed st' = committed st \<and> (accounts (db st') = accounts (db st) \<and> (\<exists>e. r = Inl e) \<or>
    (\<exists>t. row_get acc_id (call_target c) (accounts (db st)) = Some t \<and> call_allowed (db st) caller t c
       \<and> accounts (db st') = (case call_effect bc now c of
            Some f \<Rightarrow> row_set acc_id (call_target c) f (accounts (db st))
          | None \<Rightarrow> row_del acc_id (call_target c) (accounts (db st)))))"
proof (cases c)
  case (ChangeRole i x)
  with assms obtain r0 where "change_role env now req i x caller st = (r0, st')" and r: "void (r0, st') = (r, st')"
    by (cases "change_role env now req i x caller st") (auto dest: void_state)
  from this(1) [unfolded change_role_def] r ChangeRole show ?thesis
    by (cases rule: with_role_cases)
       (auto simp: void_def target_Inr role_or_error_Inr frame_simps Let_def split: sum.splits option.splits)
next
  case (SuspendUser i)
  with assms obtain r0 where "suspend_user env now req i caller st = (r0, st')" and r: "void (r0, st') = (r, st')"
    by (cases "suspend_user env now req i caller st") (auto dest: void_state)
  from this(1) [unfolded suspend_user_def] r SuspendUser show ?thesis
    by (cases rule: with_role_cases)
       (auto simp: void_def target_Inr role_or_error_Inr role_of_Some role_value_inj frame_simps revoke_all_for_frame row_set_compose Let_def
          split: sum.splits option.splits if_splits simp del: role_value.simps)
next
  case (ResumeUser i)
  with assms obtain r0 where "resume_user env now req i caller st = (r0, st')" and r: "void (r0, st') = (r, st')"
    by (cases "resume_user env now req i caller st") (auto dest: void_state)
  from this(1) [unfolded resume_user_def] r ResumeUser show ?thesis
    by (cases rule: with_role_cases) (auto simp: void_def target_Inr frame_simps Let_def split: sum.splits option.splits)
next
  case (ResetPassword i temp salt)
  with assms obtain r0 where "reset_password bc env now temp salt req i caller st = (r0, st')" and r: "void (r0, st') = (r, st')"
    by (cases "reset_password bc env now temp salt req i caller st") (auto dest: void_state)
  from this(1) [unfolded reset_password_def] r ResetPassword show ?thesis
    by (cases rule: with_role_cases)
       (auto simp: void_def target_Inr role_or_error_Inr role_of_Some role_value_inj frame_simps revoke_all_for_frame row_set_compose Let_def
          split: sum.splits option.splits if_splits simp del: role_value.simps)
next
  case (RevokeTokens i)
  with assms obtain r0 where "revoke_user_tokens env now req i caller st = (r0, st')" and r: "void (r0, st') = (r, st')"
    by (cases "revoke_user_tokens env now req i caller st") (auto dest: void_state)
  from this(1) [unfolded revoke_user_tokens_def] r RevokeTokens show ?thesis
    by (cases rule: with_role_cases)
       (auto simp: void_def target_Inr role_or_error_Inr role_of_Some role_value_inj frame_simps revoke_all_for_frame Let_def
          split: sum.splits option.splits if_splits simp del: role_value.simps)
next
  case (DeleteUser i)
  with assms obtain r0 where "delete_user env now req i caller st = (r0, st')" and r: "void (r0, st') = (r, st')"
    by (cases "delete_user env now req i caller st") (auto dest: void_state)
  from this(1) [unfolded delete_user_def] r DeleteUser show ?thesis
    by (cases rule: with_role_cases)
       (auto simp: void_def target_Inr role_or_error_Inr role_of_Some role_value_inj frame_simps delete_account_row_def Let_def
          split: sum.splits option.splits if_splits simp del: role_value.simps)
qed

section \<open>Owners\<close>

text \<open>There is an owner; ids are unique.\<close>

definition owners_ok :: "database \<Rightarrow> bool" where
  "owners_ok d \<longleftrightarrow> pk acc_id (accounts d) \<and> 0 < owner_count d"

lemma count_row_set:
  assumes "pk key rows" and "row_get key i rows = Some t"
  shows "length (filter P (row_set key i f rows)) + (if P t then 1 else 0) = length (filter P rows) + (if P (f t) then 1 else 0)"
  using assms
proof (induction rows)
  case (Cons r rows)
  show ?case
  proof (cases "key r = i")
    case True
    with Cons.prems(1) have "\<forall>x \<in> set rows. key x \<noteq> i" by (auto simp: pk_def) (metis image_eqI)
    then have "row_set key i f rows = rows" by (auto simp: row_set_def intro!: map_idI)
    moreover from True Cons.prems(2) have "t = r" by (simp add: row_get_def)
    ultimately have "row_set key i f rows = rows" "t = r" by blast+
    with True show ?thesis by (simp add: row_set_def)
  next
    case False
    with Cons show ?thesis by (auto simp: row_set_def row_get_def pk_def)
  qed
qed simp

lemma owner_count_set:
  assumes "pk acc_id (accounts d)" and "row_get acc_id i (accounts d) = Some t" and "accounts d' = row_set acc_id i f (accounts d)"
  shows "owner_count d' + (if acc_role t = role_value Owner then 1 else 0) =
    owner_count d + (if acc_role (f t) = role_value Owner then 1 else 0)"
  using count_row_set [OF assms(1,2), of "\<lambda>a. acc_role a = role_value Owner" f]
  by (simp add: owner_count_def count_query_def assms(3))

lemma call_effect_id: "call_effect bc now c = Some f \<Longrightarrow> acc_id (f a) = acc_id a"
  by (cases c) (auto simp: bump_version_def)

lemma call_effect_role:
  "call_effect bc now c = Some f \<Longrightarrow> acc_role (f a) = (case c of ChangeRole i r \<Rightarrow> role_value r | _ \<Rightarrow> acc_role a)"
  by (cases c) (auto simp: bump_version_def)

lemma row_del_count:
  assumes "pk key rows" and "row_get key i rows = Some t" and "\<not> P t"
  shows "filter P (row_del key i rows) = filter P rows"
  using assms row_get_in [OF assms(1)] by (auto simp: row_del_def intro!: filter_cong)

text \<open>An allowed call leaves an owner.\<close>

lemma allowed_leaves_owner:
  assumes "owners_ok d" and "row_get acc_id (call_target c) (accounts d) = Some t" and "call_allowed d caller t c"
    and "accounts d' = (case call_effect bc now c of
            Some f \<Rightarrow> row_set acc_id (call_target c) f (accounts d) | None \<Rightarrow> row_del acc_id (call_target c) (accounts d))"
  shows "owners_ok d'"
proof (cases "call_effect bc now c")
  case None
  then obtain i where c: "c = DeleteUser i" by (cases c) auto
  with None assms row_del_count [of acc_id "accounts d" i t "\<lambda>a. acc_role a = role_value Owner"] show ?thesis
    by (auto simp: owners_ok_def owner_count_def count_query_def pk_del)
next
  case (Some f)
  have pk: "pk acc_id (accounts d)" using assms(1) by (simp add: owners_ok_def)
  have a: "accounts d' = row_set acc_id (call_target c) f (accounts d)" using assms(4) Some by simp
  have "0 < owner_count d'"
  proof (cases "acc_role t = role_value Owner \<and> acc_role (f t) \<noteq> role_value Owner")
    case False
    with owner_count_set [OF pk assms(2) a] assms(1) show ?thesis by (auto simp: owners_ok_def split: if_splits)
  next
    case True
    with call_effect_role [OF Some] obtain i r where c: "c = ChangeRole i r" and r: "r \<noteq> Owner"
      by (cases c) (auto simp del: role_value.simps)
    from assms(3) True have "1 < owner_count d"
      by (auto simp: c r role_of_Some role_value_inj role_change_guard_def simp del: role_value.simps split: if_splits)
    with owner_count_set [OF pk assms(2) a] True show ?thesis by simp
  qed
  moreover have "pk acc_id (accounts d')" unfolding a using pk pk_set [of acc_id f] call_effect_id [OF Some] by blast
  ultimately show ?thesis by (simp add: owners_ok_def)
qed

lemma admin_step_owners:
  assumes "admin_step st st'" and "owners_ok (db st) \<and> owners_ok (committed st)"
  shows "owners_ok (db st') \<and> owners_ok (committed st')"
  using assms
proof (induction rule: admin_step.induct)
  case (request st bc env now req caller c)
  obtain r st1 where s: "admin_serve bc env now req caller c st = (r, st1)" by fastforce
  from admin_serve_effect [OF s] request allowed_leaves_owner [of "db st"]
  have "owners_ok (db st1) \<and> committed st1 = committed st" by (auto simp: owners_ok_def owner_count_def)
  with s request show ?case by (cases r) (simp_all add: get_session_def commit_def rollback_def)
qed

interpretation owners: inv_system admin_step "\<lambda>st. owners_ok (db st) \<and> owners_ok (committed st)"
  using admin_step_owners by unfold_locales blast


definition owner_state :: app_state where
  "owner_state = demo_state\<lparr>db := demo_db\<lparr>accounts := [demo_account\<lparr>acc_role := ''owner''\<rparr>]\<rparr>,
     committed := demo_db\<lparr>accounts := [demo_account\<lparr>acc_role := ''owner''\<rparr>]\<rparr>\<rparr>"




section \<open>Tokens die with the version\<close>



end
