(* ===== verification/Admin_Invites.thy ===== *)
theory Admin_Invites
  imports Admin_Users Idempotency
begin

text \<open>
  Signed invitations (\<^verbatim>\<open>app/admin_invites.py\<close>): an administrator mints a token with an
  email, a role and an expiry; whoever presents it once gets an account with that role.
  The signing library is a parameter; \<open>invite_ok\<close> states what is relied on of it. A
  signed payload carries strings for email, role and nonce, as \<open>create_invite\<close> writes them.
\<close>

datatype unsigned = Loaded json | SignatureExpired | BadSignature

record invite_lib =
  inv_sign :: "json \<Rightarrow> instant \<Rightarrow> string"
  inv_unsign :: "string \<Rightarrow> instant \<Rightarrow> int \<Rightarrow> unsigned"
  inv_int_of_real :: "string \<Rightarrow> int option"

definition invite_ok :: "invite_lib \<Rightarrow> bool" where
  "invite_ok il \<longleftrightarrow> (\<forall>j t now age. json_wf j \<and> t \<le> now \<longrightarrow>
     inv_unsign il (inv_sign il j t) now age = (if now - t \<le> age then Loaded j else SignatureExpired))"

section \<open>Minting\<close>

record invite_request =
  ir_email :: string
  ir_role :: role
  ir_ttl_hours :: int

definition invite_request_valid :: "invite_request \<Rightarrow> bool" where
  "invite_request_valid b \<longleftrightarrow> length (ir_email b) \<le> 128 \<and> 1 \<le> ir_ttl_hours b \<and> ir_ttl_hours b \<le> 168"

definition invite_request_dump :: "invite_request \<Rightarrow> json" where
  "invite_request_dump b = JObj [(''email'', JStr (ir_email b)), (''role'', JStr (role_value (ir_role b))),
     (''ttl_hours'', JInt (ir_ttl_hours b))]"

definition invite_payload :: "string \<Rightarrow> role \<Rightarrow> string \<Rightarrow> instant \<Rightarrow> json" where
  "invite_payload email r nonce expires = JObj [(''email'', JStr email), (''role'', JStr (role_value r)),
     (''nonce'', JStr nonce), (''exp'', JInt expires)]"

definition create_invite ::
  "invite_lib \<Rightarrow> (bytes \<Rightarrow> string) \<Rightarrow> (json \<Rightarrow> bytes) \<Rightarrow> environment \<Rightarrow> instant \<Rightarrow> string \<Rightarrow> idempotency_record list
     \<Rightarrow> request \<Rightarrow> invite_request \<Rightarrow> account \<Rightarrow> (string \<times> response) handler" where
  "create_invite il sha render env now nonce racing req body caller =
     with_role env now req Admin caller (\<lambda>st.
       if \<not> invite_request_valid body then (Inl (HTTPException 422 ''validation''), st)
       else (case replay_if_present sha now req (Some caller) (Some (invite_request_dump body)) st of
         (Inl e, st0) \<Rightarrow> (Inl e, st0)
       | (Inr (Some cached), st0) \<Rightarrow> (Inr ([], cached), st0)
       | (Inr None, st0) \<Rightarrow>
         (let email = py_lower (py_strip (ir_email body)) in
          if email = [] \<or> CHR ''@'' \<notin> set email \<or> length email < 5
          then (Inl (HTTPException 400 ''Invalid email''), st0)
          else (case (if ir_role body = Owner then role_or_error (acc_role caller) else Inr Owner) of Inl e \<Rightarrow> (Inl e, st0)
            | Inr caller_role \<Rightarrow>
              if ir_role body = Owner \<and> caller_role \<noteq> Owner
              then (Inl (HTTPException 403 ''Only owners can invite a new owner''), st0)
              else if find_email email (db st0) \<noteq> None
              then (Inl (HTTPException 409 ''An account with that email already exists''), st0)
              else (let expires = now + ir_ttl_hours body * 3600;
                        token = inv_sign il (invite_payload email (ir_role body) nonce expires) now;
                        st1 = emit env now (Some caller) ''invite.created'' (Some req) (Some ''invite'') (Some email)
                          (Some (JObj [(''role'', JStr (role_value (ir_role body))),
                                       (''expires_at'', JStr (env_isoformat env expires))])) st0;
                        (r, st2) = wrap_json sha render now racing req (Some caller)
                          (JObj [(''token'', JStr token), (''email'', JStr email), (''role'', JStr (role_value (ir_role body))),
                                 (''expires_at'', JStr (env_isoformat env expires))]) 200
                          (Some (invite_request_dump body)) st1
                    in (Inr (token, r), st2))))))"

section \<open>Accepting\<close>

definition max_invite_age :: int where
  "max_invite_age = 168 * 3600"

text \<open>\<open>int(exp)\<close>, then \<open>datetime.fromtimestamp\<close>: \<open>Some\<close> the instant, or the error raised.\<close>

definition int_of_json :: "invite_lib \<Rightarrow> json \<Rightarrow> int option" where
  "int_of_json il j = (case j of JInt i \<Rightarrow> Some i | JBool b \<Rightarrow> Some (if b then 1 else 0) | JStr s \<Rightarrow> parse_int (py_strip s)
     | JReal r \<Rightarrow> inv_int_of_real il r | _ \<Rightarrow> None)"

definition from_timestamp :: "int \<Rightarrow> exn + instant" where
  "from_timestamp i =
     (if i < - (2 ^ 63) \<or> 2 ^ 63 \<le> i then Inl OverflowError
      else if i < -62135596800 \<or> 253402300799 < i then Inl (ValueError ''year is out of range'')
      else Inr i)"

definition expiry_check :: "invite_lib \<Rightarrow> instant \<Rightarrow> json \<Rightarrow> exn option" where
  "expiry_check il now payload =
     (case jget payload ''exp'' of None \<Rightarrow> None
      | Some JNull \<Rightarrow> None
      | Some j \<Rightarrow>
        (case int_of_json il j of None \<Rightarrow> Some (HTTPException 400 ''Invite is invalid'')
         | Some i \<Rightarrow>
           (case from_timestamp i of
              Inl (ValueError _) \<Rightarrow> Some (HTTPException 400 ''Invite is invalid'')
            | Inl e \<Rightarrow> Some e
            | Inr t \<Rightarrow> if t \<le> now then Some (HTTPException 400 ''Invite has expired'') else None)))"

definition payload_str :: "json \<Rightarrow> string \<Rightarrow> string \<Rightarrow> string" where
  "payload_str payload k dflt = (case jget payload k of Some (JStr s) \<Rightarrow> s | _ \<Rightarrow> dflt)"

definition accept_invite ::
  "invite_lib \<Rightarrow> jwt_lib \<Rightarrow> bcrypt_lib \<Rightarrow> environment \<Rightarrow> instant \<Rightarrow> string \<Rightarrow> string \<Rightarrow> request \<Rightarrow> string \<Rightarrow> string
     \<Rightarrow> (string \<times> string \<times> role) handler" where
  "accept_invite il jl bc env now jti salt req token password st =
     (if length password < 8 \<or> 128 < length password then (Inl (HTTPException 422 ''validation''), st)
      else (case inv_unsign il token now max_invite_age of
        SignatureExpired \<Rightarrow> (Inl (HTTPException 400 ''Invite has expired''), st)
      | BadSignature \<Rightarrow> (Inl (HTTPException 400 ''Invite is invalid''), st)
      | Loaded payload \<Rightarrow>
        (case expiry_check il now payload of Some e \<Rightarrow> (Inl e, st)
         | None \<Rightarrow>
           (let nonce = payload_str payload ''nonce'' [] in
            if nonce \<noteq> [] \<and> row_get inv_nonce nonce (consumed_invites (db st)) \<noteq> None
            then (Inl (HTTPException 409 ''Invite has already been used''), st)
            else (let email = py_lower (py_strip (payload_str payload ''email'' [])) in
              case role_of (payload_str payload ''role'' ''user'') of
                None \<Rightarrow> (Inl (HTTPException 400 ''Invite has unknown role''), st)
              | Some r \<Rightarrow>
                if find_email email (db st) \<noteq> None
                then (Inl (HTTPException 409 ''Account already exists''), st)
                else (let acc = (new_account (env_alloc env (map acc_id (accounts (db st)))) now email (hashpw bc password salt))
                             \<lparr>acc_role := role_value r, acc_last_login_at := Some now\<rparr>;
                          d1 = (db st)\<lparr>accounts := row_add acc (accounts (db st))\<rparr>;
                          d2 = (if nonce = [] then d1 else d1\<lparr>consumed_invites :=
                             row_add \<lparr>inv_nonce = nonce, inv_email = email, inv_consumed_at = now,
                                      inv_account_id = Some (acc_id acc)\<rparr> (consumed_invites d1)\<rparr>);
                          st2 = emit env now None ''invite.accepted'' (Some req) (Some ''account'')
                            (Some (show_int (acc_id acc)))
                            (Some (JObj [(''email'', JStr email), (''role'', JStr (role_value r))])) (st\<lparr>db := d2\<rparr>)
                      in (Inr (create_jwt jl now jti (acc_id acc) email (acc_token_version acc), email, r), st2)))))))"

section \<open>Properties\<close>

lemma payload_fields [simp]:
  "payload_str (invite_payload e r n x) ''nonce'' [] = n"
  "payload_str (invite_payload e r n x) ''email'' [] = e"
  "payload_str (invite_payload e r n x) ''role'' ''user'' = role_value r"
  "jget (invite_payload e r n x) ''exp'' = Some (JInt x)"
  by (simp_all add: payload_str_def invite_payload_def jget_def)

lemma payload_wf [simp]: "json_wf (invite_payload e r n x)"
  by (simp add: invite_payload_def)

text \<open>Instants that Python's calendar can express.\<close>

definition calendar :: "instant \<Rightarrow> bool" where
  "calendar t \<longleftrightarrow> 0 \<le> t \<and> t \<le> 253402300799"

lemma expiry_invite: "calendar x \<Longrightarrow> expiry_check il now (invite_payload e r n x) =
    (if x \<le> now then Some (HTTPException 400 ''Invite has expired'') else None)"
  by (simp add: expiry_check_def int_of_json_def from_timestamp_def calendar_def)

lemma create_invite_token:
  assumes "create_invite il sha render env now nonce racing req body caller st = (Inr (token, resp), st')"
    and "req_idempotency_key req = None"
  shows "token = inv_sign il (invite_payload (py_lower (py_strip (ir_email body))) (ir_role body) nonce
      (now + ir_ttl_hours body * 3600)) now"
    and "ir_role body = Owner \<longrightarrow> acc_role caller = ''owner''" and "invite_request_valid body"
proof -
  have rp: "replay_if_present sha now req (Some caller) b s = (Inr None, s)" for b s
    using assms(2) by (simp add: replay_if_present_def)
  from assms(1) [unfolded create_invite_def] show "token = inv_sign il (invite_payload (py_lower (py_strip (ir_email body)))
      (ir_role body) nonce (now + ir_ttl_hours body * 3600)) now"
    "ir_role body = Owner \<longrightarrow> acc_role caller = ''owner''" "invite_request_valid body"
    by (cases rule: with_role_cases;
        auto simp: rp role_or_error_Inr role_of_Some Let_def split: if_splits sum.splits prod.splits)+
qed

text \<open>Accepting a token that \<open>create_invite\<close> minted, before its expiry.\<close>

lemma accept_minted:
  assumes "invite_ok il" and "now \<le> t" and "t - now \<le> max_invite_age" and "calendar x"
    and "8 \<le> length password" and "length password \<le> 128"
  shows "accept_invite il jl bc env t jti salt req (inv_sign il (invite_payload e r n x) now) password st =
    (if x \<le> t then (Inl (HTTPException 400 ''Invite has expired''), st)
     else if n \<noteq> [] \<and> row_get inv_nonce n (consumed_invites (db st)) \<noteq> None
     then (Inl (HTTPException 409 ''Invite has already been used''), st)
     else if find_email (py_lower (py_strip e)) (db st) \<noteq> None
     then (Inl (HTTPException 409 ''Account already exists''), st)
     else (let acc = (new_account (env_alloc env (map acc_id (accounts (db st)))) t (py_lower (py_strip e)) (hashpw bc password salt))
                 \<lparr>acc_role := role_value r, acc_last_login_at := Some t\<rparr>;
               d1 = (db st)\<lparr>accounts := row_add acc (accounts (db st))\<rparr>;
               d2 = (if n = [] then d1 else d1\<lparr>consumed_invites :=
                  row_add \<lparr>inv_nonce = n, inv_email = py_lower (py_strip e), inv_consumed_at = t,
                           inv_account_id = Some (acc_id acc)\<rparr> (consumed_invites d1)\<rparr>)
           in (Inr (create_jwt jl t jti (acc_id acc) (py_lower (py_strip e)) (acc_token_version acc), py_lower (py_strip e), r),
               emit env t None ''invite.accepted'' (Some req) (Some ''account'') (Some (show_int (acc_id acc)))
                 (Some (JObj [(''email'', JStr (py_lower (py_strip e))), (''role'', JStr (role_value r))])) (st\<lparr>db := d2\<rparr>))))"
proof -
  have "inv_unsign il (inv_sign il (invite_payload e r n x) now) t max_invite_age = Loaded (invite_payload e r n x)"
    using assms(1-3) by (simp add: invite_ok_def)
  with assms(4-6) show ?thesis by (simp add: accept_invite_def expiry_invite Let_def)
qed


text \<open>A library that prints the payload with its time, and an invitation of a plain user.\<close>

definition demo_invites :: invite_lib where
  "demo_invites = \<lparr>inv_sign = (\<lambda>j t. dumps (JList [j, JInt t])),
     inv_unsign = (\<lambda>s now age. case loads s of
        Some (JList [j, JInt t]) \<Rightarrow> if now - t \<le> age then Loaded j else SignatureExpired | _ \<Rightarrow> BadSignature),
     inv_int_of_real = (\<lambda>_. None)\<rparr>"

lemma demo_invites_ok: "invite_ok demo_invites"
proof -
  have "loads (dumps (JList [j, JInt t])) = Some (JList [j, JInt t])" if "json_wf j" for j t
    by (rule loads_dumps) (simp add: that)
  then show ?thesis by (auto simp: invite_ok_def demo_invites_def simp del: dumps.simps)
qed

definition demo_invitation :: "(exn + string \<times> response) \<times> app_state" where
  "demo_invitation = create_invite demo_invites (\<lambda>b. []) (\<lambda>j. []) demo_env 0 ''n1'' []
     (demo_request\<lparr>req_idempotency_key := None\<rparr>) \<lparr>ir_email = ''x@y.cz'', ir_role = User, ir_ttl_hours = 1\<rparr>
     (demo_account\<lparr>acc_role := ''admin''\<rparr>) demo_state"


end
