(* ===== verification/Generators.thy ===== *)
theory Generators
  imports Prelude "HOL-Library.Monad_Syntax"
begin

text \<open>
  The upstream scrapers (\<^verbatim>\<open>app/generators.py\<close>).

  The web is a parameter: \<open>web_text\<close> and \<open>web_json\<close> give the body of a successful GET as text
  and as parsed JSON (\<open>None\<close> where the request, \<open>raise_for_status\<close> or the JSON parser raises),
  \<open>web_head\<close> the status of a HEAD probe (\<open>None\<close> on a network error). Exceptions are values; a
  string operation on a JSON member of another type raises. Every generator has the type
  of a computation that may not return (\<open>run\<close>), because the walk over the pages of the
  binaries repository ends only when GitHub serves a short page.
\<close>

section \<open>Scraped data\<close>

record gen_download =
  gd_url :: string
  gd_os :: string
  gd_arch :: string
  gd_archive_type :: string
  gd_source :: string
  gd_headers :: "json option"
  gd_size_bytes :: "int option"
  gd_sha256 :: "string option"

record gen_release =
  gr_version :: string
  gr_major_minor :: string
  gr_channel :: string
  gr_released_at :: "string option"
  gr_downloads :: "gen_download list"

record web =
  web_text :: "string \<Rightarrow> string option"
  web_json :: "string \<Rightarrow> json option"
  web_head :: "string \<Rightarrow> nat option"

type_synonym 'a run = "(exn + 'a) option"

definition gen_dl :: "string \<Rightarrow> string \<Rightarrow> string \<Rightarrow> string \<Rightarrow> string \<Rightarrow> gen_download" where
  "gen_dl url os arch archive_type source =
     \<lparr>gd_url = url, gd_os = os, gd_arch = arch, gd_archive_type = archive_type, gd_source = source,
      gd_headers = None, gd_size_bytes = None, gd_sha256 = None\<rparr>"

section \<open>Python values and exceptions\<close>

definition bind_exn :: "exn + 'a \<Rightarrow> ('a \<Rightarrow> exn + 'b) \<Rightarrow> exn + 'b" where
  "bind_exn r f = (case r of Inl e \<Rightarrow> Inl e | Inr x \<Rightarrow> f x)"

text \<open>A loop whose body appends a value, skips (\<open>None\<close>) or raises.\<close>

fun gather :: "('a \<Rightarrow> exn + 'b option) \<Rightarrow> 'a list \<Rightarrow> exn + 'b list" where
  "gather f [] = Inr []"
| "gather f (x # xs) = bind_exn (f x) (\<lambda>y. bind_exn (gather f xs) (\<lambda>ys.
     Inr (case y of None \<Rightarrow> ys | Some z \<Rightarrow> z # ys)))"

text \<open>\<open>x.get(k, d)\<close>, iteration, \<open>k in x\<close> and the string methods on a JSON value.\<close>

definition dget :: "json \<Rightarrow> string \<Rightarrow> json \<Rightarrow> exn + json" where
  "dget j k d = (case j of JObj kvs \<Rightarrow> Inr (case map_of kvs k of None \<Rightarrow> d | Some v \<Rightarrow> v)
     | _ \<Rightarrow> Inl (PyError ''AttributeError''))"

fun json_iter :: "json \<Rightarrow> exn + json list" where
  "json_iter (JList js) = Inr js"
| "json_iter (JObj kvs) = Inr (map (\<lambda>(k, _). JStr k) kvs)"
| "json_iter (JStr s) = Inr (map (\<lambda>c. JStr [c]) s)"
| "json_iter _ = Inl (PyError ''TypeError'')"

definition contains :: "string \<Rightarrow> string \<Rightarrow> bool" where
  "contains sub s = list_ex (prefix sub) (suffixes s)"

fun json_in :: "string \<Rightarrow> json \<Rightarrow> exn + bool" where
  "json_in k (JList js) = Inr (JStr k \<in> set js)"
| "json_in k (JObj kvs) = Inr (k \<in> set (map fst kvs))"
| "json_in k (JStr s) = Inr (contains k s)"
| "json_in k _ = Inl (PyError ''TypeError'')"

definition as_str :: "json \<Rightarrow> exn + string" where
  "as_str j = (case j of JStr s \<Rightarrow> Inr s | _ \<Rightarrow> Inl (PyError ''AttributeError''))"

definition as_size :: "json \<Rightarrow> exn + int option" where
  "as_size j = (case j of JNull \<Rightarrow> Inr None | JInt i \<Rightarrow> Inr (Some i) | _ \<Rightarrow> Inl (PyError ''TypeError''))"

definition dget_str :: "json \<Rightarrow> string \<Rightarrow> exn + string" where
  "dget_str j k = bind_exn (dget j k (JStr [])) as_str"

text \<open>\<open>(x.get(k) or "")\<close>\<close>

definition dget_or_empty :: "json \<Rightarrow> string \<Rightarrow> exn + string" where
  "dget_or_empty j k = bind_exn (dget j k JNull) (\<lambda>v. if json_truthy v then as_str v else Inr [])"

section \<open>Versions\<close>

definition is_sep :: "char \<Rightarrow> bool" where
  "is_sep c = (c \<in> {CHR ''-'', CHR ''_'', CHR ''.''})"

fun drop_sep :: "string \<Rightarrow> string" where
  "drop_sep [] = []"
| "drop_sep (c # cs) = (if is_sep c then cs else c # cs)"

definition PRERELEASE_WORDS :: "string list" where
  "PRERELEASE_WORDS = [''alpha'', ''beta'', ''rc'']"

text \<open>
  \<open>_PRERELEASE_RE\<close> read from the end of the version: digits, at most one separator, one of the
  words in any case, at most one separator, and a digit before it. \<open>$\<close> also matches before
  a final newline.
\<close>

definition prerelease_end :: "string \<Rightarrow> bool" where
  "prerelease_end r =
     (let r1 = drop_sep (dropWhile is_digit r) in
      list_ex (\<lambda>w. prefix (rev w) (py_lower r1) \<and>
        (case drop_sep (drop (length w) r1) of [] \<Rightarrow> False | c # _ \<Rightarrow> is_digit c)) PRERELEASE_WORDS)"

definition is_prerelease_version :: "string \<Rightarrow> bool" where
  "is_prerelease_version version =
     (prerelease_end (rev version) \<or>
      (version \<noteq> [] \<and> last version = CHR 10 \<and> prerelease_end (rev (butlast version))))"

definition major_minor :: "string \<Rightarrow> string" where
  "major_minor version =
     (let parts = split_on (CHR ''.'') version in
      if 2 \<le> length parts then join_with ''.'' (take 2 parts) else version)"

section \<open>GitHub\<close>

definition github_releases_url :: "string \<Rightarrow> int \<Rightarrow> string" where
  "github_releases_url repo limit =
     ''https://api.github.com/repos/'' @ repo @ ''/releases?per_page='' @ show_int (min (limit * 3) 100)"

definition stable_release :: "json \<Rightarrow> exn + json option" where
  "stable_release rel =
     bind_exn (dget rel ''prerelease'' JNull) (\<lambda>p. if json_truthy p then Inr None else
     bind_exn (dget rel ''draft'' JNull) (\<lambda>d. if json_truthy d then Inr None else
     bind_exn (dget_or_empty rel ''tag_name'') (\<lambda>tag.
       Inr (if is_prerelease_version tag then None else Some rel))))"

definition github_releases :: "web \<Rightarrow> string \<Rightarrow> int \<Rightarrow> exn + json list" where
  "github_releases w repo limit =
     (case web_json w (github_releases_url repo limit) of None \<Rightarrow> Inr []
      | Some rels \<Rightarrow>
        bind_exn (json_iter rels) (\<lambda>rels.
        bind_exn (gather stable_release rels) (\<lambda>stable. Inr (py_take limit stable))))"

definition probe_wdc_binaries_asset :: "web \<Rightarrow> string \<Rightarrow> string \<Rightarrow> string \<Rightarrow> string \<Rightarrow> string option" where
  "probe_wdc_binaries_asset w app version platform ext =
     (let asset = app @ ''-'' @ version @ ''-'' @ platform @ ''.'' @ ext;
          url = ''https://github.com/nks-hub/webdev-console-binaries/releases/download/binaries-''
            @ app @ ''-'' @ version @ ''/'' @ asset
      in case web_head w url of None \<Rightarrow> None | Some s \<Rightarrow> if s < 400 then Some url else None)"

text \<open>
  \<open>_BINARIES_ASSET_PATTERN\<close>: no part before the platform can hold a dash, so the name has
  exactly four dash-separated parts, and the last is an architecture, a dot and an extension.
\<close>

definition ASSET_OS :: "string list" where
  "ASSET_OS = [''windows'', ''linux'', ''macos'']"

definition ASSET_ARCH_EXT :: "(string \<times> string) list" where
  "ASSET_ARCH_EXT = List.product [''x64'', ''x86'', ''arm64'', ''arm'']
     [''zip'', ''tar.gz'', ''tar.xz'', ''msi'', ''bin'', ''exe'']"

definition is_az :: "char \<Rightarrow> bool" where
  "is_az c = (97 \<le> char_code c \<and> char_code c \<le> 122)"

definition extract_triple_from_asset_name :: "string \<Rightarrow> (string \<times> string \<times> string) option" where
  "extract_triple_from_asset_name name =
     (case split_on (CHR ''-'') name of
        [p, v, os, tail] \<Rightarrow>
          if p \<noteq> [] \<and> list_all is_az p \<and> v \<noteq> [] \<and> os \<in> set ASSET_OS then
            (case find (\<lambda>(a, e). tail = a @ ''.'' @ e \<or> tail = a @ ''.'' @ e @ [CHR 10]) ASSET_ARCH_EXT of
               None \<Rightarrow> None | Some (a, e) \<Rightarrow> Some (os, a, e))
          else None
      | _ \<Rightarrow> None)"

definition OWN_BUILD_SOURCE :: string where
  "OWN_BUILD_SOURCE = ''nks-hub/webdev-console-binaries''"

definition binaries_asset :: "json \<Rightarrow> exn + gen_download option" where
  "binaries_asset asset =
     bind_exn (dget_str asset ''name'') (\<lambda>name.
       case extract_triple_from_asset_name name of None \<Rightarrow> Inr None
       | Some (os, arch, ext) \<Rightarrow>
         bind_exn (dget_str asset ''browser_download_url'') (\<lambda>url.
         bind_exn (dget asset ''size'' JNull) (\<lambda>sz. bind_exn (as_size sz) (\<lambda>size.
           Inr (Some ((gen_dl url os arch ext OWN_BUILD_SOURCE)\<lparr>gd_size_bytes := size\<rparr>))))))"

definition binaries_release :: "string \<Rightarrow> json \<Rightarrow> exn + gen_release option" where
  "binaries_release app rel =
     bind_exn (dget_str rel ''tag_name'') (\<lambda>tag.
       let tag_prefix = ''binaries-'' @ app @ ''-'' in
       if \<not> prefix tag_prefix tag then Inr None
       else (let version = drop (length tag_prefix) tag in
         bind_exn (dget rel ''assets'' (JList [])) (\<lambda>as. bind_exn (json_iter as) (\<lambda>as.
         bind_exn (gather binaries_asset as) (\<lambda>dls.
           Inr (if dls = [] then None else Some
             \<lparr>gr_version = version, gr_major_minor = major_minor version, gr_channel = ''stable'',
              gr_released_at = None, gr_downloads = dls\<rparr>))))))"

definition binaries_url :: "nat \<Rightarrow> string" where
  "binaries_url page = ''https://api.github.com/repos/nks-hub/webdev-console-binaries/releases?per_page=100&page=''
     @ show_nat page"

text \<open>One page: \<open>None\<close> where the walk stops before it (an error, no list, an empty list).\<close>

definition binaries_page :: "web \<Rightarrow> nat \<Rightarrow> json list option" where
  "binaries_page w page =
     (case web_json w (binaries_url page) of Some (JList (j # js)) \<Rightarrow> Some (j # js) | _ \<Rightarrow> None)"

partial_function (option) binaries_walk ::
    "web \<Rightarrow> string \<Rightarrow> int \<Rightarrow> nat \<Rightarrow> gen_release list \<Rightarrow> (exn + gen_release list) option" where
  "binaries_walk w app limit page acc =
     (if limit \<le> int (length acc) then Some (Inr acc)
      else (case binaries_page w page of None \<Rightarrow> Some (Inr acc)
        | Some data \<Rightarrow>
          (case gather (binaries_release app) data of Inl e \<Rightarrow> Some (Inl e)
           | Inr rels \<Rightarrow>
             if length data < 100 then Some (Inr (acc @ rels))
             else binaries_walk w app limit (Suc page) (acc @ rels))))"

definition generate_from_binaries_repo :: "web \<Rightarrow> string \<Rightarrow> int \<Rightarrow> gen_release list run" where
  "generate_from_binaries_repo w app limit = binaries_walk w app limit 1 []"

section \<open>Generators on GitHub releases\<close>

text \<open>\<open>(rel.get("published_at") or "")[:10] or None\<close>\<close>

definition released_at :: "json \<Rightarrow> exn + string option" where
  "released_at rel = bind_exn (dget_or_empty rel ''published_at'') (\<lambda>p.
     Inr (if take 10 p = [] then None else Some (take 10 p)))"

text \<open>The loop the GitHub generators share; \<open>pick\<close> turns a release's assets into downloads.\<close>

definition tagged_release :: "(string \<Rightarrow> json \<Rightarrow> exn + gen_download list) \<Rightarrow> json \<Rightarrow> exn + gen_release option" where
  "tagged_release pick rel =
     bind_exn (dget_str rel ''tag_name'') (\<lambda>t.
       let tag = dropWhile (\<lambda>c. c = CHR ''v'') t in
       if tag = [] then Inr None
       else bind_exn (pick tag rel) (\<lambda>dls.
         if dls = [] then Inr None
         else bind_exn (released_at rel) (\<lambda>d. Inr (Some
           \<lparr>gr_version = tag, gr_major_minor = major_minor tag, gr_channel = ''stable'',
            gr_released_at = d, gr_downloads = dls\<rparr>))))"

definition github_generator ::
  "(string \<Rightarrow> json \<Rightarrow> exn + gen_download list) \<Rightarrow> string \<Rightarrow> web \<Rightarrow> int \<Rightarrow> gen_release list run" where
  "github_generator pick repo w limit = Some
     (bind_exn (github_releases w repo limit) (gather (tagged_release pick)))"

text \<open>Downloads from the assets of a release, by the asset's name.\<close>

definition pick_asset ::
  "(json \<Rightarrow> exn + (string \<times> string \<times> string) option) \<Rightarrow> json \<Rightarrow> exn + gen_download option" where
  "pick_asset classify asset =
     bind_exn (dget asset ''name'' (JStr [])) (\<lambda>name.
     bind_exn (dget asset ''browser_download_url'' (JStr [])) (\<lambda>url.
       if \<not> json_truthy url then Inr None
       else bind_exn (classify name) (\<lambda>c. case c of None \<Rightarrow> Inr None
         | Some (os, arch, ty) \<Rightarrow> bind_exn (as_str url) (\<lambda>u. Inr (Some (gen_dl u os arch ty ''github''))))))"

definition pick_assets ::
  "(json \<Rightarrow> exn + (string \<times> string \<times> string) option) \<Rightarrow> string \<Rightarrow> json \<Rightarrow> exn + gen_download list" where
  "pick_assets classify tag rel =
     bind_exn (dget rel ''assets'' (JList [])) (\<lambda>as. bind_exn (json_iter as) (gather (pick_asset classify)))"

text \<open>An \<open>elif\<close> chain of \<open>endswith\<close> tests, and one of equality tests (which never raise).\<close>

fun first_suffix :: "(string \<times> 'a) list \<Rightarrow> string \<Rightarrow> 'a option" where
  "first_suffix [] name = None"
| "first_suffix ((s, x) # rest) name = (if suffix s name then Some x else first_suffix rest name)"

definition by_suffix :: "(string \<times> 'a) list \<Rightarrow> json \<Rightarrow> exn + 'a option" where
  "by_suffix tab j = bind_exn (as_str j) (\<lambda>name. Inr (first_suffix tab name))"

definition by_name :: "(string \<times> 'a) list \<Rightarrow> json \<Rightarrow> exn + 'a option" where
  "by_name tab j = Inr (case j of JStr name \<Rightarrow> map_of tab name | _ \<Rightarrow> None)"

definition cloudflared_asset :: "json \<Rightarrow> exn + (string \<times> string \<times> string) option" where
  "cloudflared_asset j = bind_exn (as_str j) (\<lambda>name. Inr (
     case first_suffix [(''-windows-amd64.exe'', (''windows'', ''x64'', ''exe'')),
                        (''-windows-386.exe'', (''windows'', ''x86'', ''exe''))] name of
       Some x \<Rightarrow> Some x
     | None \<Rightarrow>
       (case map_of [(''cloudflared-linux-amd64'', (''linux'', ''x64'', ''bin'')),
                     (''cloudflared-linux-arm64'', (''linux'', ''arm64'', ''bin''))] name of
          Some x \<Rightarrow> Some x
        | None \<Rightarrow> first_suffix [(''-darwin-amd64.tgz'', (''macos'', ''x64'', ''tgz'')),
                                 (''-darwin-arm64.tgz'', (''macos'', ''arm64'', ''tgz''))] name)))"

definition generate_cloudflared :: "web \<Rightarrow> int \<Rightarrow> gen_release list run" where
  "generate_cloudflared = github_generator (pick_assets cloudflared_asset) ''cloudflare/cloudflared''"

definition mailpit_asset :: "json \<Rightarrow> exn + (string \<times> string \<times> string) option" where
  "mailpit_asset = by_name [(''mailpit-windows-amd64.zip'', (''windows'', ''x64'', ''zip'')),
     (''mailpit-linux-amd64.tar.gz'', (''linux'', ''x64'', ''tar.gz'')),
     (''mailpit-darwin-arm64.tar.gz'', (''macos'', ''arm64'', ''tar.gz''))]"

definition generate_mailpit :: "web \<Rightarrow> int \<Rightarrow> gen_release list run" where
  "generate_mailpit = github_generator (pick_assets mailpit_asset) ''axllent/mailpit''"

definition caddy_asset :: "json \<Rightarrow> exn + (string \<times> string \<times> string) option" where
  "caddy_asset = by_suffix [(''_windows_amd64.zip'', (''windows'', ''x64'', ''zip'')),
     (''_linux_amd64.tar.gz'', (''linux'', ''x64'', ''tar.gz'')),
     (''_mac_arm64.tar.gz'', (''macos'', ''arm64'', ''tar.gz''))]"

definition generate_caddy :: "web \<Rightarrow> int \<Rightarrow> gen_release list run" where
  "generate_caddy = github_generator (pick_assets caddy_asset) ''caddyserver/caddy''"

definition mkcert_asset :: "json \<Rightarrow> exn + (string \<times> string \<times> string) option" where
  "mkcert_asset = by_suffix [(''-linux-amd64'', (''linux'', ''x64'', ''bin'')),
     (''-linux-arm64'', (''linux'', ''arm64'', ''bin'')), (''-darwin-amd64'', (''macos'', ''x64'', ''bin'')),
     (''-darwin-arm64'', (''macos'', ''arm64'', ''bin'')), (''-windows-amd64.exe'', (''windows'', ''x64'', ''exe'')),
     (''-windows-arm64.exe'', (''windows'', ''arm64'', ''exe''))]"

definition generate_mkcert :: "web \<Rightarrow> int \<Rightarrow> gen_release list run" where
  "generate_mkcert = github_generator (pick_assets mkcert_asset) ''FiloSottile/mkcert''"

text \<open>Redis stops at the first Windows archive of a release.\<close>

fun redis_assets :: "json list \<Rightarrow> exn + gen_download list" where
  "redis_assets [] = Inr []"
| "redis_assets (asset # rest) =
     bind_exn (dget asset ''name'' (JStr [])) (\<lambda>name.
     bind_exn (dget asset ''browser_download_url'' (JStr [])) (\<lambda>url.
       if \<not> json_truthy name \<or> \<not> json_truthy url then redis_assets rest
       else bind_exn (as_str name) (\<lambda>n.
         if contains ''Windows'' n \<and> suffix ''.zip'' n
         then bind_exn (as_str url) (\<lambda>u. Inr [gen_dl u ''windows'' ''x64'' ''zip'' ''github/redis-windows''])
         else redis_assets rest)))"

definition generate_redis :: "web \<Rightarrow> int \<Rightarrow> gen_release list run" where
  "generate_redis = github_generator (\<lambda>tag rel.
     bind_exn (dget rel ''assets'' (JList [])) (\<lambda>as. bind_exn (json_iter as) redis_assets))
     ''redis-windows/redis-windows''"

definition generate_composer :: "web \<Rightarrow> int \<Rightarrow> gen_release list run" where
  "generate_composer = github_generator (\<lambda>tag rel.
     let phar_url = ''https://getcomposer.org/download/'' @ tag @ ''/composer.phar'' in
     Inr (map (\<lambda>os. gen_dl phar_url os ''x64'' ''phar'' ''getcomposer.org'') [''windows'', ''linux'', ''macos'']))
     ''composer/composer''"

section \<open>Scraped listings\<close>

text \<open>
  The regular expressions of the listings are sequences of literals and digit runs, each
  run followed by a character that is no digit, so matching needs no backtracking. A
  matcher takes the text at a position to its groups and the text after the match;
  \<open>finditer\<close> finds the matches from left to right without overlap.
\<close>

definition lit :: "string \<Rightarrow> string \<Rightarrow> string option" where
  "lit p s = (if prefix p s then Some (drop (length p) s) else None)"

definition lit_nocase :: "string \<Rightarrow> string \<Rightarrow> string option" where
  "lit_nocase p s = (if prefix (py_lower p) (py_lower s) then Some (drop (length p) s) else None)"

definition digits1 :: "string \<Rightarrow> (string \<times> string) option" where
  "digits1 s = (let d = takeWhile is_digit s in if d = [] then None else Some (d, dropWhile is_digit s))"

definition dotted3 :: "string \<Rightarrow> (string list \<times> string) option" where
  "dotted3 s = do {
     (a, s1) \<leftarrow> digits1 s; s2 \<leftarrow> lit ''.'' s1;
     (b, s3) \<leftarrow> digits1 s2; s4 \<leftarrow> lit ''.'' s3;
     (c, s5) \<leftarrow> digits1 s4; Some ([a, b, c], s5) }"

definition dotted :: "string list \<Rightarrow> string" where
  "dotted ws = join_with ''.'' ws"

function finditer :: "(string \<Rightarrow> ('g \<times> string) option) \<Rightarrow> string \<Rightarrow> 'g list" where
  "finditer m [] = []"
| "finditer m (c # cs) =
     (case m (c # cs) of
        Some (g, rest) \<Rightarrow> if length rest \<le> length cs then g # finditer m rest else finditer m cs
      | None \<Rightarrow> finditer m cs)"
  by pat_completeness auto
termination
  by (relation "measure (\<lambda>(m, s). length s)") auto

definition href :: string where
  "href = ''href='' @ [CHR 34]"

definition php_match :: "string \<Rightarrow> ((string \<times> string) \<times> string) option" where
  "php_match s = do {
     s1 \<leftarrow> lit (href @ ''php-'') s; (v, s2) \<leftarrow> dotted3 s1;
     s3 \<leftarrow> lit ''-nts-Win32-vs'' s2; (d, s4) \<leftarrow> digits1 s3;
     s5 \<leftarrow> lit (''-x64.zip'' @ [CHR 34]) s4;
     Some ((''php-'' @ dotted v @ ''-nts-Win32-vs'' @ d @ ''-x64.zip'', dotted v), s5) }"

definition PHP_ROWS :: "string list" where
  "PHP_ROWS = [''https://windows.php.net/downloads/releases/'',
     ''https://windows.php.net/downloads/releases/archives/'']"

definition single_release :: "string \<Rightarrow> string \<Rightarrow> string \<Rightarrow> gen_release" where
  "single_release version url source =
     \<lparr>gr_version = version, gr_major_minor = major_minor version, gr_channel = ''stable'',
      gr_released_at = None, gr_downloads = [gen_dl url ''windows'' ''x64'' ''zip'' source]\<rparr>"

text \<open>\<open>by_version\<close> is a dict in insertion order; the first encounter of a version stays.\<close>

definition php_row :: "web \<Rightarrow> string \<Rightarrow> gen_release list \<Rightarrow> gen_release list" where
  "php_row w list_url by_version =
     (case web_text w list_url of None \<Rightarrow> by_version
      | Some html \<Rightarrow>
        foldl (\<lambda>acc (filename, version).
          if version \<in> set (map gr_version acc) then acc
          else acc @ [single_release version (list_url @ filename) ''php.net'']) by_version (finditer php_match html))"

definition semver_key :: "string \<Rightarrow> nat list" where
  "semver_key version = map read_nat (split_on (CHR ''.'') version)"

definition generate_php :: "web \<Rightarrow> int \<Rightarrow> gen_release list run" where
  "generate_php w limit = Some (Inr (py_take limit
     (sort_desc (\<lambda>r. semver_key (gr_version r)) (fold (php_row w) PHP_ROWS []))))"

definition mariadb_match :: "string \<Rightarrow> (nat list \<times> string) option" where
  "mariadb_match s = do {
     s1 \<leftarrow> lit_nocase (href @ ''mariadb-'') s; (v, s2) \<leftarrow> dotted3 s1;
     s3 \<leftarrow> lit (''/'' @ [CHR 34]) s2; Some (map read_nat v, s3) }"

definition mariadb_downloads :: "web \<Rightarrow> string \<Rightarrow> string \<Rightarrow> gen_download list" where
  "mariadb_downloads w version url =
     gen_dl url ''windows'' ''x64'' ''zip'' ''mariadb.org'' #
     (case probe_wdc_binaries_asset w ''mariadb'' version ''macos-arm64'' ''tar.gz'' of None \<Rightarrow> []
      | Some macos_url \<Rightarrow> [gen_dl macos_url ''macos'' ''arm64'' ''tar.gz'' OWN_BUILD_SOURCE])"

fun mariadb_loop :: "web \<Rightarrow> int \<Rightarrow> nat list list \<Rightarrow> gen_release list \<Rightarrow> gen_release list" where
  "mariadb_loop w limit [] acc = acc"
| "mariadb_loop w limit (v # vs) acc =
     (if limit \<le> int (length acc) then acc
      else (let version = dotted (map show_nat v);
                url = ''https://archive.mariadb.org/mariadb-'' @ version @ ''/winx64-packages/mariadb-'' @ version @ ''-winx64.zip''
            in case web_head w url of None \<Rightarrow> mariadb_loop w limit vs acc
               | Some s \<Rightarrow> if 400 \<le> s then mariadb_loop w limit vs acc
                 else mariadb_loop w limit vs (acc @
                   [\<lparr>gr_version = version, gr_major_minor = major_minor version, gr_channel = ''stable'',
                     gr_released_at = None, gr_downloads = mariadb_downloads w version url\<rparr>])))"

definition generate_mariadb :: "web \<Rightarrow> int \<Rightarrow> gen_release list run" where
  "generate_mariadb w limit =
     (case web_text w ''https://archive.mariadb.org/'' of None \<Rightarrow> Some (Inr [])
      | Some html \<Rightarrow>
        (let parsed = sort_desc (\<lambda>v. v) (rev (remdups (rev (finditer mariadb_match html))));
             found = mariadb_loop w limit parsed []
         in map_option (\<lambda>r. bind_exn r (\<lambda>more. Inr (found @ more)))
              (generate_from_binaries_repo w ''mariadb'' limit)))"

definition nginx_match :: "string \<Rightarrow> ((string \<times> string) \<times> string) option" where
  "nginx_match s = do {
     s1 \<leftarrow> lit href s;
     s2 \<leftarrow> lit ''nginx-'' (case lit ''/download/'' s1 of Some r \<Rightarrow> r | None \<Rightarrow> s1);
     (v, s3) \<leftarrow> dotted3 s2; s4 \<leftarrow> lit (''.zip'' @ [CHR 34]) s3;
     Some ((''nginx-'' @ dotted v @ ''.zip'', dotted v), s4) }"

fun nginx_loop :: "int \<Rightarrow> (string \<times> string) list \<Rightarrow> gen_release list \<Rightarrow> gen_release list" where
  "nginx_loop limit [] acc = acc"
| "nginx_loop limit ((filename, version) # ms) acc =
     (if version \<in> set (map gr_version acc) then nginx_loop limit ms acc
      else (let acc' = acc @ [single_release version (''https://nginx.org/download/'' @ filename) ''nginx.org'']
            in if limit \<le> int (length acc') then acc' else nginx_loop limit ms acc'))"

definition generate_nginx :: "web \<Rightarrow> int \<Rightarrow> gen_release list run" where
  "generate_nginx w limit = Some (Inr
     (case web_text w ''https://nginx.org/en/download.html'' of None \<Rightarrow> []
      | Some html \<Rightarrow> nginx_loop limit (finditer nginx_match html) []))"

definition generate_apache :: "web \<Rightarrow> int \<Rightarrow> gen_release list run" where
  "generate_apache w limit = generate_from_binaries_repo w ''apache'' limit"

definition generate_mysql :: "web \<Rightarrow> int \<Rightarrow> gen_release list run" where
  "generate_mysql w limit = generate_from_binaries_repo w ''mysql'' limit"

definition generate_postgresql :: "web \<Rightarrow> int \<Rightarrow> gen_release list run" where
  "generate_postgresql w limit = generate_from_binaries_repo w ''postgresql'' limit"

section \<open>Node.js\<close>

definition NODE_FILES :: "(string \<times> string \<times> string \<times> string \<times> string) list" where
  "NODE_FILES = [(''win-x64-zip'', ''win-x64'', ''windows'', ''x64'', ''zip''),
     (''linux-x64'', ''linux-x64'', ''linux'', ''x64'', ''tar.xz''),
     (''osx-arm64-tar'', ''darwin-arm64'', ''macos'', ''arm64'', ''tar.gz''),
     (''osx-x64-tar'', ''darwin-x64'', ''macos'', ''x64'', ''tar.gz'')]"

definition node_download :: "string \<Rightarrow> json \<Rightarrow> string \<times> string \<times> string \<times> string \<times> string \<Rightarrow> exn + gen_download option" where
  "node_download version_raw files =
     (\<lambda>(tag, platform, os, arch, ty). bind_exn (json_in tag files) (\<lambda>b. Inr (if b then Some (gen_dl
        (''https://nodejs.org/dist/'' @ version_raw @ ''/node-'' @ version_raw @ ''-'' @ platform @ ''.'' @ ty)
        os arch ty ''nodejs.org'') else None)))"

definition node_release :: "json \<Rightarrow> exn + gen_release option" where
  "node_release entry =
     bind_exn (dget_str entry ''version'') (\<lambda>version_raw.
       if \<not> prefix ''v'' version_raw then Inr None
       else (let version = drop 1 version_raw in
         bind_exn (dget entry ''files'' (JList [])) (\<lambda>files.
         bind_exn (gather (node_download version_raw files) NODE_FILES) (\<lambda>dls.
           if dls = [] then Inr None
           else bind_exn (dget entry ''lts'' JNull) (\<lambda>lts. Inr (Some
             \<lparr>gr_version = version, gr_major_minor = major_minor version,
              gr_channel = (if json_truthy lts then ''lts'' else ''stable''),
              gr_released_at = None, gr_downloads = dls\<rparr>))))))"

fun node_loop :: "int \<Rightarrow> json list \<Rightarrow> gen_release list \<Rightarrow> exn + gen_release list" where
  "node_loop limit [] acc = Inr acc"
| "node_loop limit (entry # rest) acc =
     (if limit \<le> int (length acc) then Inr acc
      else bind_exn (node_release entry) (\<lambda>r.
        node_loop limit rest (case r of None \<Rightarrow> acc | Some g \<Rightarrow> acc @ [g])))"

definition generate_node :: "web \<Rightarrow> int \<Rightarrow> gen_release list run" where
  "generate_node w limit = Some
     (case web_json w ''https://nodejs.org/dist/index.json'' of None \<Rightarrow> Inr []
      | Some data \<Rightarrow> bind_exn (json_iter data) (\<lambda>es. node_loop limit es []))"

section \<open>The registry\<close>

definition GENERATORS :: "(string \<times> (web \<Rightarrow> int \<Rightarrow> gen_release list run)) list" where
  "GENERATORS =
     [(''cloudflared'', generate_cloudflared), (''mailpit'', generate_mailpit), (''caddy'', generate_caddy),
      (''redis'', generate_redis), (''php'', generate_php), (''apache'', generate_apache),
      (''nginx'', generate_nginx), (''mariadb'', generate_mariadb), (''mysql'', generate_mysql),
      (''postgresql'', generate_postgresql), (''mkcert'', generate_mkcert), (''node'', generate_node),
      (''composer'', generate_composer)]"

definition run_generator :: "web \<Rightarrow> string \<Rightarrow> int \<Rightarrow> gen_release list option" where
  "run_generator w app_id limit =
     (case map_of GENERATORS (py_lower app_id) of None \<Rightarrow> Some []
      | Some gen \<Rightarrow>
        (case gen w limit of None \<Rightarrow> None | Some (Inl _) \<Rightarrow> Some [] | Some (Inr rs) \<Rightarrow> Some rs))"

section \<open>The pre-release pattern\<close>

definition opt_sep :: "string \<Rightarrow> bool" where
  "opt_sep s \<longleftrightarrow> s = [] \<or> (\<exists>c. s = [c] \<and> is_sep c)"

text \<open>
  The pattern as the regular expression reads: a digit, an optional separator, a word in any
  case, an optional separator, digits, and the end of the string or a final newline.
\<close>

definition prerelease_re :: "string \<Rightarrow> bool" where
  "prerelease_re v \<longleftrightarrow> (\<exists>p s1 w s2 ds nl. v = p @ s1 @ w @ s2 @ ds @ nl \<and> p \<noteq> [] \<and> is_digit (last p) \<and>
     opt_sep s1 \<and> py_lower w \<in> set PRERELEASE_WORDS \<and> opt_sep s2 \<and> list_all is_digit ds \<and> nl \<in> {[], [CHR 10]})"

lemma sep_not_digit: "is_sep c \<Longrightarrow> \<not> is_digit c"
  by (auto simp: is_sep_def is_digit_def char_code_def)

lemma word_ends:
  assumes "py_lower w \<in> set PRERELEASE_WORDS"
  shows "w \<noteq> []" and "\<not> is_digit (last w)" and "\<not> is_sep (last w)"
proof -
  show ne: "w \<noteq> []" using assms by (auto simp: PRERELEASE_WORDS_def py_lower_def)
  have "char_lower (last w) = last (py_lower w)" using ne by (simp add: py_lower_def last_map)
  also have "last (py_lower w) \<in> {CHR ''a'', CHR ''c''}"
    using assms by (auto simp: PRERELEASE_WORDS_def)
  finally have l: "char_lower (last w) \<in> {CHR ''a'', CHR ''c''}" .
  have "\<not> is_digit c \<and> \<not> is_sep c" if "char_lower c \<in> {CHR ''a'', CHR ''c''}" for c
  proof -
    have "char_lower c = c" if "is_digit c" using that by (simp add: char_lower_def is_digit_def)
    moreover have "char_lower c = c" if "is_sep c"
      using that by (auto simp: char_lower_def is_sep_def char_code_def)
    moreover have "\<not> is_digit (CHR ''a'')" "\<not> is_digit (CHR ''c'')" "\<not> is_sep (CHR ''a'')" "\<not> is_sep (CHR ''c'')"
      by (simp_all add: is_digit_def is_sep_def char_code_def)
    ultimately show ?thesis using that by force
  qed
  with l show "\<not> is_digit (last w)" and "\<not> is_sep (last w)" by blast+
qed

lemma drop_sep_opt: "opt_sep s \<Longrightarrow> r \<noteq> [] \<Longrightarrow> \<not> is_sep (hd r) \<Longrightarrow> drop_sep (s @ r) = r"
  by (cases r) (auto simp: opt_sep_def)

lemma drop_sep_split: obtains s where "opt_sep s" and "r = s @ drop_sep r"
proof (cases r)
  case Nil
  then show ?thesis using that [of "[]"] by (simp add: opt_sep_def)
next
  case (Cons c cs)
  then show ?thesis using that [of "if is_sep c then [c] else []"] by (simp add: opt_sep_def)
qed

lemma rev_opt_sep [simp]: "rev s = s" if "opt_sep s"
  using that by (auto simp: opt_sep_def)

lemma prerelease_end_intro:
  assumes "p \<noteq> []" "is_digit (last p)" "opt_sep s1" "py_lower w \<in> set PRERELEASE_WORDS" "opt_sep s2" "list_all is_digit ds"
  shows "prerelease_end (rev (p @ s1 @ w @ s2 @ ds))"
proof -
  note w = word_ends [OF assms(4)]
  have hw: "hd (rev w) = last w" "rev w \<noteq> []" using w(1) by (simp_all add: hd_rev)
  have "\<not> is_digit (hd (s2 @ rev w @ s1 @ rev p))"
    using assms(5) w hw by (auto simp: opt_sep_def sep_not_digit)
  then have "dropWhile is_digit (rev ds @ s2 @ rev w @ s1 @ rev p) = s2 @ rev w @ s1 @ rev p"
    using assms(6) w hw by (subst dropWhile_append2) (auto simp: list_all_iff intro!: dropWhile_hd_id)
  moreover have "drop_sep (s2 @ rev w @ s1 @ rev p) = rev w @ s1 @ rev p"
    using assms(5) w hw by (intro drop_sep_opt) auto
  moreover have "drop_sep (s1 @ rev p) = rev p"
    using assms(1-3) by (intro drop_sep_opt) (auto simp: hd_rev dest: sep_not_digit)
  moreover have "prefix (rev (py_lower w)) (py_lower (rev w @ s1 @ rev p))"
    by (simp add: py_lower_def rev_map)
  moreover have "case rev p of [] \<Rightarrow> False | c # _ \<Rightarrow> is_digit c"
    using assms(1,2) by (auto simp: neq_Nil_conv hd_rev [symmetric] split: list.split)
  ultimately show ?thesis
    using assms(3,4,5) by (auto simp: prerelease_end_def Let_def list_ex_iff intro!: bexI [of _ "py_lower w"])
qed

lemma prerelease_end_elim:
  assumes "prerelease_end (rev v)"
  obtains p s1 w s2 ds where "v = p @ s1 @ w @ s2 @ ds" "p \<noteq> []" "is_digit (last p)" "opt_sep s1"
    "py_lower w \<in> set PRERELEASE_WORDS" "opt_sep s2" "list_all is_digit ds"
proof -
  define r0 where "r0 = dropWhile is_digit (rev v)"
  define r1 where "r1 = drop_sep r0"
  from assms obtain u where u: "u \<in> set PRERELEASE_WORDS" "prefix (rev u) (py_lower r1)"
    and d: "case drop_sep (drop (length u) r1) of [] \<Rightarrow> False | c # _ \<Rightarrow> is_digit c"
    by (auto simp: prerelease_end_def Let_def list_ex_iff r1_def r0_def)
  define w where "w = rev (take (length u) r1)"
  have "take (length u) (py_lower r1) = rev u" using u(2) by (auto simp: prefix_def)
  then have w: "py_lower w = u" by (simp add: w_def py_lower_def rev_map [symmetric] take_map)
  obtain s2 where s2: "opt_sep s2" "r0 = s2 @ r1" using drop_sep_split [of r0] r1_def by metis
  obtain s1 where s1: "opt_sep s1" "drop (length u) r1 = s1 @ drop_sep (drop (length u) r1)"
    using drop_sep_split by metis
  define p where "p = rev (drop_sep (drop (length u) r1))"
  have p: "p \<noteq> []" "is_digit (last p)" using d by (auto simp: p_def last_rev split: list.splits)
  have r1: "r1 = rev w @ s1 @ rev p"
    using s1(2) append_take_drop_id [of "length u" r1] by (simp add: w_def p_def)
  define ds where "ds = rev (takeWhile is_digit (rev v))"
  have "rev v = rev ds @ s2 @ rev w @ s1 @ rev p"
    using s2(2) r1 takeWhile_dropWhile_id [of is_digit "rev v"] by (simp add: ds_def r0_def)
  then have "rev (rev v) = rev (rev ds @ s2 @ rev w @ s1 @ rev p)" by simp
  then have "v = p @ s1 @ w @ s2 @ ds" using s1(1) s2(1) by simp
  moreover have "list_all is_digit ds" by (auto simp: ds_def list_all_iff dest: set_takeWhileD)
  ultimately show ?thesis using that p s1(1) s2(1) u(1) w by blast
qed

lemma is_prerelease_iff: "is_prerelease_version v \<longleftrightarrow> prerelease_re v"
proof
  assume "is_prerelease_version v"
  then obtain u nl where "v = u @ nl" "nl \<in> {[], [CHR 10]}" "prerelease_end (rev u)"
  proof (cases "prerelease_end (rev v)")
    case False
    with \<open>is_prerelease_version v\<close> have "v \<noteq> [] \<and> last v = CHR 10 \<and> prerelease_end (rev (butlast v))"
      by (simp add: is_prerelease_version_def)
    with that [of "butlast v" "[CHR 10]"] show ?thesis by (metis append_butlast_last_id insertCI)
  qed (simp add: that [of v "[]"])
  then show "prerelease_re v"
    unfolding prerelease_re_def by (elim prerelease_end_elim) (metis append.assoc)
next
  assume "prerelease_re v"
  then obtain p s1 w s2 ds nl where v: "v = p @ s1 @ w @ s2 @ ds @ nl" and nl: "nl \<in> {[], [CHR 10]}"
    and ok: "p \<noteq> []" "is_digit (last p)" "opt_sep s1" "py_lower w \<in> set PRERELEASE_WORDS" "opt_sep s2" "list_all is_digit ds"
    unfolding prerelease_re_def by blast
  have "v = (p @ s1 @ w @ s2 @ ds) @ nl" using v by simp
  with nl prerelease_end_intro [OF ok] show "is_prerelease_version v"
    unfolding is_prerelease_version_def by (auto simp only: append_Nil2 butlast_snoc last_snoc)
qed

text \<open>
  C22: the reading from the end is the regular expression: \<open>is_prerelease_version\<close> holds of
  exactly the versions that end, up to a final newline, in a digit, an optional separator,
  one of the words in any case, an optional separator and digits.
\<close>

theorem is_prerelease_version_re: "is_prerelease_version v \<longleftrightarrow> prerelease_re v"
  by (rule is_prerelease_iff)

end
