(* ===== verification/Catalog.thy ===== *)
theory Catalog
  imports Generators Audit_Trail "HOL-Library.Product_Lexorder"
begin

text \<open>
  The catalog's service layer (\<^verbatim>\<open>app/service.py\<close> and the documents of
  \<^verbatim>\<open>app/schemas.py\<close>): the public document assembled from the tables, the edits of the
  administration, and the merge of scraped releases.

  Rows are inserted with the table's constraints checked (primary key, \<open>UNIQUE\<close>, foreign
  key); a violation is \<open>IntegrityError\<close>. The order of a relationship is the one its
  \<open>order_by\<close> declares, ties in insertion order. \<open>INFO\<close> logging is left out.
\<close>

section \<open>Documents\<close>

record download_doc =
  dd_url :: string
  dd_os :: string
  dd_arch :: string
  dd_archive_type :: string
  dd_source :: string
  dd_headers :: "json option"
  dd_sha256 :: "string option"
  dd_size_bytes :: "int option"

record release_doc =
  rd_version :: string
  rd_major_minor :: string
  rd_channel :: string
  rd_released_at :: "string option"
  rd_downloads :: "download_doc list"

record app_doc =
  ad_name :: string
  ad_display_name :: string
  ad_category :: string
  ad_description :: string
  ad_homepage :: "string option"
  ad_license :: "string option"
  ad_releases :: "release_doc list"

record catalog_document =
  cd_schema_version :: string
  cd_generated_at :: "string option"
  cd_apps :: "(string \<times> app_doc) list"

section \<open>Reading the tables\<close>

definition MIRROR_ONLY_APPS :: "string list" where
  "MIRROR_ONLY_APPS = [''apache'', ''mysql'']"

definition MIRROR_URL_PREFIX :: string where
  "MIRROR_URL_PREFIX = ''https://github.com/'' @ OWN_BUILD_SOURCE @ ''/releases/download/''"

definition MIN_DOWNLOAD_BYTES :: int where
  "MIN_DOWNLOAD_BYTES = 100000"

definition SUPERSEDED_BY_OWN_BUILDS :: "string list" where
  "SUPERSEDED_BY_OWN_BUILDS = [''php.net'']"

text \<open>The relationships \<open>App.releases\<close> and \<open>Release.downloads\<close> in their declared order.\<close>

definition app_releases :: "database \<Rightarrow> string \<Rightarrow> release_row list" where
  "app_releases d a = sort_desc rel_version (filter (\<lambda>r. rel_app_id r = a) (releases d))"

definition rel_downloads :: "database \<Rightarrow> int \<Rightarrow> download_row list" where
  "rel_downloads d rid = sort_key (\<lambda>x. (dl_os x, dl_arch x)) (filter (\<lambda>x. dl_release_id x = rid) (downloads d))"

definition offerable :: "string \<Rightarrow> download_row \<Rightarrow> bool" where
  "offerable aid x \<longleftrightarrow> (aid \<notin> set MIRROR_ONLY_APPS \<or> prefix MIRROR_URL_PREFIX (dl_url x)) \<and>
     (case dl_size_bytes x of None \<Rightarrow> True | Some n \<Rightarrow> MIN_DOWNLOAD_BYTES \<le> n)"

definition offerable_downloads :: "string \<Rightarrow> download_row list \<Rightarrow> download_row list" where
  "offerable_downloads aid ds = filter (offerable aid) ds"

text \<open>\<open>re.findall(r"\d+")\<close>: the maximal runs of digits.\<close>

fun digit_runs :: "string \<Rightarrow> string \<Rightarrow> string list" where
  "digit_runs run [] = (if run = [] then [] else [run])"
| "digit_runs run (c # cs) =
     (if is_digit c then digit_runs (run @ [c]) cs
      else if run = [] then digit_runs [] cs else run # digit_runs [] cs)"

definition version_key :: "string \<Rightarrow> nat list" where
  "version_key version = map read_nat (digit_runs [] version)"

text \<open>\<open>Optional[dict[str, str]]\<close>, which pydantic checks when the document is built.\<close>

definition headers_valid :: "json option \<Rightarrow> bool" where
  "headers_valid h = (case h of None \<Rightarrow> True | Some JNull \<Rightarrow> True
     | Some (JObj kvs) \<Rightarrow> list_all (\<lambda>(k, v). case v of JStr _ \<Rightarrow> True | _ \<Rightarrow> False) kvs | Some _ \<Rightarrow> False)"

definition download_to_schema :: "download_row \<Rightarrow> exn + download_doc" where
  "download_to_schema x =
     (if headers_valid (dl_headers x) then Inr
        \<lparr>dd_url = dl_url x, dd_os = dl_os x, dd_arch = dl_arch x, dd_archive_type = dl_archive_type x,
         dd_source = dl_source x, dd_headers = dl_headers x, dd_sha256 = dl_sha256 x, dd_size_bytes = dl_size_bytes x\<rparr>
      else Inl (PyError ''ValidationError''))"

text \<open>One release of the loop in \<open>_app_to_schema\<close>; \<open>None\<close> where the loop skips it.\<close>

definition release_to_schema :: "database \<Rightarrow> string \<Rightarrow> release_row \<Rightarrow> exn + release_doc option" where
  "release_to_schema d aid r =
     (if rel_channel r = ''stable'' \<and> is_prerelease_version (rel_version r) then Inr None
      else (let ds = rel_downloads d (rel_id r); offered = offerable_downloads aid ds in
        if ds \<noteq> [] \<and> offered = [] then Inr None
        else bind_exn (gather (\<lambda>x. bind_exn (download_to_schema x) (\<lambda>y. Inr (Some y))) offered) (\<lambda>docs. Inr (Some
          \<lparr>rd_version = rel_version r, rd_major_minor = rel_major_minor r, rd_channel = rel_channel r,
           rd_released_at = rel_released_at r, rd_downloads = docs\<rparr>))))"

definition app_to_schema :: "database \<Rightarrow> app_row \<Rightarrow> exn + app_doc" where
  "app_to_schema d a =
     bind_exn (gather (release_to_schema d (app_id a)) (sort_desc (\<lambda>r. version_key (rel_version r)) (app_releases d (app_id a))))
       (\<lambda>rels. Inr
         \<lparr>ad_name = app_id a, ad_display_name = str_or (app_display_name a) (app_id a),
          ad_category = str_or (app_category a) ''other'', ad_description = app_description a,
          ad_homepage = app_homepage a, ad_license = app_license a, ad_releases = rels\<rparr>)"

definition catalog_apps :: "database \<Rightarrow> exn + (string \<times> app_doc) list" where
  "catalog_apps d = gather (\<lambda>a. bind_exn (app_to_schema d a) (\<lambda>x. Inr (Some (app_id a, x)))) (apps d)"

definition build_catalog_document :: "environment \<Rightarrow> instant \<Rightarrow> database \<Rightarrow> exn + catalog_document" where
  "build_catalog_document env now d =
     bind_exn (catalog_apps d) (\<lambda>docs. Inr
       \<lparr>cd_schema_version = ''1'', cd_generated_at = Some (env_isoformat env now), cd_apps = docs\<rparr>)"

definition get_app :: "database \<Rightarrow> string \<Rightarrow> app_row option" where
  "get_app d aid = row_get app_id (py_lower aid) (apps d)"

definition get_app_document :: "database \<Rightarrow> string \<Rightarrow> exn + app_doc option" where
  "get_app_document d aid = (case get_app d aid of None \<Rightarrow> Inr None
     | Some a \<Rightarrow> bind_exn (app_to_schema d a) (\<lambda>x. Inr (Some x)))"

definition list_apps :: "database \<Rightarrow> app_row list" where
  "list_apps d = sort_key app_id (apps d)"

section \<open>Constraints\<close>

definition platform :: "download_row \<Rightarrow> string \<times> string \<times> string" where
  "platform x = (dl_os x, dl_arch x, dl_archive_type x)"

definition insert_app :: "app_row \<Rightarrow> database \<Rightarrow> exn + database" where
  "insert_app a d = (if row_get app_id (app_id a) (apps d) \<noteq> None then Inl IntegrityError
     else Inr (d\<lparr>apps := row_add a (apps d)\<rparr>))"

definition insert_release :: "release_row \<Rightarrow> database \<Rightarrow> exn + database" where
  "insert_release r d =
     (if row_get app_id (rel_app_id r) (apps d) = None \<or> row_get rel_id (rel_id r) (releases d) \<noteq> None \<or>
         list_ex (\<lambda>x. rel_app_id x = rel_app_id r \<and> rel_version x = rel_version r) (releases d)
      then Inl IntegrityError else Inr (d\<lparr>releases := row_add r (releases d)\<rparr>))"

definition insert_download :: "download_row \<Rightarrow> database \<Rightarrow> exn + database" where
  "insert_download x d =
     (if row_get rel_id (dl_release_id x) (releases d) = None \<or> row_get dl_id (dl_id x) (downloads d) \<noteq> None \<or>
         list_ex (\<lambda>y. dl_release_id y = dl_release_id x \<and> platform y = platform x) (downloads d)
      then Inl IntegrityError else Inr (d\<lparr>downloads := row_add x (downloads d)\<rparr>))"

text \<open>Deletes cascade from an application to its releases and from a release to its downloads.\<close>

definition drop_releases :: "(release_row \<Rightarrow> bool) \<Rightarrow> database \<Rightarrow> database" where
  "drop_releases P d =
     (let gone = map rel_id (filter P (releases d)) in
      d\<lparr>releases := filter (\<lambda>r. \<not> P r) (releases d),
        downloads := filter (\<lambda>x. dl_release_id x \<notin> set gone) (downloads d)\<rparr>)"

section \<open>Edits\<close>

definition invalidate_catalog :: "app_state \<Rightarrow> app_state" where
  "invalidate_catalog st = st\<lparr>catalog_cache := cache_invalidate (catalog_cache st) None\<rparr>"

text \<open>\<open>db.commit()\<close> of an edit, then \<open>_invalidate_catalog_cache()\<close>.\<close>

definition commit_edit :: "database \<Rightarrow> app_state \<Rightarrow> app_state" where
  "commit_edit d st = invalidate_catalog (commit (st\<lparr>db := d\<rparr>))"

definition create_app ::
  "instant \<Rightarrow> string \<Rightarrow> string \<Rightarrow> string \<Rightarrow> string \<Rightarrow> string option \<Rightarrow> string option \<Rightarrow> app_row handler" where
  "create_app now aid0 display_name category description homepage license st =
     (let aid = py_lower (py_strip aid0) in
      if aid = [] then (Inl (ValueError ''app id must be non-empty''), st)
      else (let row = \<lparr>app_id = aid, app_display_name = str_or display_name aid, app_category = category,
                app_description = description, app_homepage = homepage, app_license = license,
                app_created_at = now, app_updated_at = now\<rparr>
            in case insert_app row (db st) of Inl e \<Rightarrow> (Inl e, st) | Inr d \<Rightarrow> (Inr row, commit_edit d st)))"

text \<open>\<open>x or None\<close> where a value is given; \<open>updated_at\<close> moves when a column changes.\<close>

definition set_if :: "'a option \<Rightarrow> 'a \<Rightarrow> 'a" where
  "set_if v old = (case v of None \<Rightarrow> old | Some x \<Rightarrow> x)"

definition set_or_none :: "string option \<Rightarrow> string option \<Rightarrow> string option" where
  "set_or_none v old = (case v of None \<Rightarrow> old | Some x \<Rightarrow> if x = [] then None else Some x)"

definition updated_app ::
  "instant \<Rightarrow> string option \<Rightarrow> string option \<Rightarrow> string option \<Rightarrow> string option \<Rightarrow> string option \<Rightarrow> app_row \<Rightarrow> app_row" where
  "updated_app now display_name category description homepage license a =
     (let b = a\<lparr>app_display_name := set_if display_name (app_display_name a), app_category := set_if category (app_category a),
                app_description := set_if description (app_description a), app_homepage := set_or_none homepage (app_homepage a),
                app_license := set_or_none license (app_license a)\<rparr>
      in if b = a then a else b\<lparr>app_updated_at := now\<rparr>)"

definition update_app ::
  "instant \<Rightarrow> string \<Rightarrow> string option \<Rightarrow> string option \<Rightarrow> string option \<Rightarrow> string option \<Rightarrow> string option
     \<Rightarrow> app_row option handler" where
  "update_app now aid display_name category description homepage license st =
     (case get_app (db st) aid of None \<Rightarrow> (Inr None, st)
      | Some a \<Rightarrow>
        (let b = updated_app now display_name category description homepage license a in
         (Inr (Some b), commit_edit ((db st)\<lparr>apps := row_set app_id (app_id a) (\<lambda>_. b) (apps (db st))\<rparr>) st)))"

definition delete_app :: "string \<Rightarrow> bool handler" where
  "delete_app aid st =
     (case get_app (db st) aid of None \<Rightarrow> (Inr False, st)
      | Some a \<Rightarrow>
        (let d = drop_releases (\<lambda>r. rel_app_id r = app_id a) (db st) in
         (Inr True, commit_edit (d\<lparr>apps := row_del app_id (app_id a) (apps d)\<rparr>) st)))"

definition new_release ::
  "environment \<Rightarrow> instant \<Rightarrow> database \<Rightarrow> string \<Rightarrow> string \<Rightarrow> string \<Rightarrow> string \<Rightarrow> string option \<Rightarrow> release_row" where
  "new_release env now d aid version mm channel at =
     \<lparr>rel_id = env_alloc env (map rel_id (releases d)), rel_app_id = aid, rel_version = version,
      rel_major_minor = str_or mm (major_minor version), rel_channel = channel, rel_released_at = at,
      rel_created_at = now\<rparr>"

definition add_release ::
  "environment \<Rightarrow> instant \<Rightarrow> string \<Rightarrow> string \<Rightarrow> string \<Rightarrow> string \<Rightarrow> string option \<Rightarrow> release_row option handler" where
  "add_release env now aid version mm channel at st =
     (case get_app (db st) aid of None \<Rightarrow> (Inr None, st)
      | Some a \<Rightarrow>
        (let r = new_release env now (db st) (app_id a) version mm channel at in
         case insert_release r (db st) of Inl e \<Rightarrow> (Inl e, st) | Inr d \<Rightarrow> (Inr (Some r), commit_edit d st)))"

definition delete_release :: "int \<Rightarrow> bool handler" where
  "delete_release rid st =
     (case row_get rel_id rid (releases (db st)) of None \<Rightarrow> (Inr False, st)
      | Some r \<Rightarrow> (Inr True, commit_edit (drop_releases (\<lambda>x. rel_id x = rid) (db st)) st))"

definition new_download ::
  "environment \<Rightarrow> database \<Rightarrow> int \<Rightarrow> string \<Rightarrow> string \<Rightarrow> string \<Rightarrow> string \<Rightarrow> string \<Rightarrow> json option \<Rightarrow> int option \<Rightarrow> download_row" where
  "new_download env d rid url os arch ty source headers sz =
     \<lparr>dl_id = env_alloc env (map dl_id (downloads d)), dl_release_id = rid, dl_url = url, dl_os = os, dl_arch = arch,
      dl_archive_type = ty, dl_source = source, dl_headers = headers, dl_sha256 = None, dl_size_bytes = sz\<rparr>"

definition add_download ::
  "environment \<Rightarrow> int \<Rightarrow> string \<Rightarrow> string \<Rightarrow> string \<Rightarrow> string \<Rightarrow> string \<Rightarrow> json option \<Rightarrow> download_row option handler" where
  "add_download env rid url os arch ty source headers st =
     (case row_get rel_id rid (releases (db st)) of None \<Rightarrow> (Inr None, st)
      | Some r \<Rightarrow>
        (let x = new_download env (db st) (rel_id r) url os arch ty source headers None in
         case insert_download x (db st) of Inl e \<Rightarrow> (Inl e, st) | Inr d \<Rightarrow> (Inr (Some x), commit_edit d st)))"

definition delete_download :: "int \<Rightarrow> bool handler" where
  "delete_download did st =
     (case row_get dl_id did (downloads (db st)) of None \<Rightarrow> (Inr False, st)
      | Some x \<Rightarrow> (Inr True, commit_edit ((db st)\<lparr>downloads := row_del dl_id did (downloads (db st))\<rparr>) st))"

section \<open>The merge of scraped releases\<close>

definition url_is_alive :: "web \<Rightarrow> string \<Rightarrow> bool" where
  "url_is_alive w url = (case web_head w url of None \<Rightarrow> False | Some s \<Rightarrow> 200 \<le> s \<and> s < 300)"

definition triple :: "gen_download \<Rightarrow> string \<times> string \<times> string" where
  "triple gd = (gd_os gd, gd_arch gd, gd_archive_type gd)"

text \<open>
  The local variables of \<open>apply_generated_releases\<close>: the session's rows, the releases by
  version, the platforms seen per release (\<open>triples_per_rel\<close>), the ids of the downloads
  each release's collection held when it was first read (the collection is read once and
  rows added later do not enter it), and the counters.
\<close>

record merge =
  mg_db :: database
  mg_by_version :: "(string \<times> int) list"
  mg_seen :: "(int \<times> (string \<times> string \<times> string) list) list"
  mg_loaded :: "(int \<times> int list) list"
  mg_inserted :: nat
  mg_added :: nat
  mg_healed :: nat
  mg_refreshed :: nat

text \<open>\<open>_seen_triples\<close>: read the release's downloads on first touch.\<close>

definition seen_triples :: "int \<Rightarrow> merge \<Rightarrow> (string \<times> string \<times> string) list \<times> merge" where
  "seen_triples rid m =
     (case map_of (mg_seen m) rid of Some bucket \<Rightarrow> (bucket, m)
      | None \<Rightarrow>
        (let ds = rel_downloads (mg_db m) rid; bucket = map platform ds in
         (bucket, m\<lparr>mg_seen := (rid, bucket) # mg_seen m, mg_loaded := (rid, map dl_id ds) # mg_loaded m\<rparr>)))"

definition existing_download :: "int \<Rightarrow> string \<times> string \<times> string \<Rightarrow> merge \<Rightarrow> download_row option" where
  "existing_download rid t m =
     find (\<lambda>x. platform x = t) (List.map_filter (\<lambda>i. row_get dl_id i (downloads (mg_db m)))
       (case map_of (mg_loaded m) rid of None \<Rightarrow> [] | Some ids \<Rightarrow> ids))"

definition set_download :: "int \<Rightarrow> (download_row \<Rightarrow> download_row) \<Rightarrow> merge \<Rightarrow> merge" where
  "set_download i f m = m\<lparr>mg_db := (mg_db m)\<lparr>downloads := row_set dl_id i f (downloads (mg_db m))\<rparr>\<rparr>"

definition size_differs :: "gen_download \<Rightarrow> download_row \<Rightarrow> bool" where
  "size_differs gd x \<longleftrightarrow> dl_url x = gd_url gd \<and> gd_size_bytes gd \<noteq> None \<and> dl_size_bytes x \<noteq> gd_size_bytes gd"

definition refresh_size :: "gen_download \<Rightarrow> download_row \<Rightarrow> merge \<Rightarrow> merge" where
  "refresh_size gd x m =
     (if size_differs gd x
      then (set_download (dl_id x) (\<lambda>y. y\<lparr>dl_size_bytes := gd_size_bytes gd\<rparr>) m)\<lparr>mg_refreshed := mg_refreshed m + 1\<rparr>
      else m)"

text \<open>The two conditions under which the stored entry gives way to the scraped one.\<close>

definition superseded :: "string \<Rightarrow> gen_download \<Rightarrow> download_row \<Rightarrow> bool" where
  "superseded aid gd x \<longleftrightarrow> gd_source gd = OWN_BUILD_SOURCE \<and>
     (dl_source x \<in> set SUPERSEDED_BY_OWN_BUILDS \<or>
      (aid \<in> set MIRROR_ONLY_APPS \<and> \<not> prefix MIRROR_URL_PREFIX (dl_url x)))"

definition should_heal :: "web \<Rightarrow> string \<Rightarrow> gen_download \<Rightarrow> download_row \<Rightarrow> bool" where
  "should_heal w aid gd x \<longleftrightarrow> url_is_alive w (gd_url gd) \<and>
     (superseded aid gd x \<or> (dl_url x \<noteq> gd_url gd \<and> \<not> url_is_alive w (dl_url x)))"

definition take_over :: "gen_download \<Rightarrow> download_row \<Rightarrow> download_row" where
  "take_over gd x = x\<lparr>dl_url := gd_url gd, dl_source := gd_source gd, dl_headers := gd_headers gd,
     dl_size_bytes := gd_size_bytes gd\<rparr>"

definition heal_url :: "web \<Rightarrow> bool \<Rightarrow> bool \<Rightarrow> string \<Rightarrow> gen_download \<Rightarrow> download_row \<Rightarrow> merge \<Rightarrow> merge" where
  "heal_url w heal is_new aid gd x m =
     (if heal \<and> \<not> is_new \<and> should_heal w aid gd x
      then (set_download (dl_id x) (take_over gd) m)\<lparr>mg_healed := mg_healed m + 1\<rparr> else m)"

definition merge_download ::
  "environment \<Rightarrow> web \<Rightarrow> bool \<Rightarrow> bool \<Rightarrow> string \<Rightarrow> int \<Rightarrow> gen_download \<Rightarrow> merge \<Rightarrow> exn + merge" where
  "merge_download env w heal is_new aid rid gd m0 =
     (let (bucket, m) = seen_triples rid m0; t = triple gd in
      if t \<in> set bucket then
        Inr (case existing_download rid t m of None \<Rightarrow> m
          | Some x \<Rightarrow> heal_url w heal is_new aid gd x (refresh_size gd x m))
      else (let row = new_download env (mg_db m) rid (gd_url gd) (gd_os gd) (gd_arch gd) (gd_archive_type gd)
                        (gd_source gd) (gd_headers gd) (gd_size_bytes gd)
            in case insert_download row (mg_db m) of Inl e \<Rightarrow> Inl e
               | Inr d \<Rightarrow> Inr (m\<lparr>mg_db := d, mg_seen := (rid, t # bucket) # mg_seen m,
                                 mg_added := mg_added m + (if is_new then 0 else 1)\<rparr>)))"

fun merge_downloads ::
  "environment \<Rightarrow> web \<Rightarrow> bool \<Rightarrow> bool \<Rightarrow> string \<Rightarrow> int \<Rightarrow> gen_download list \<Rightarrow> merge \<Rightarrow> exn + merge" where
  "merge_downloads env w heal is_new aid rid [] m = Inr m"
| "merge_downloads env w heal is_new aid rid (gd # gds) m =
     bind_exn (merge_download env w heal is_new aid rid gd m) (merge_downloads env w heal is_new aid rid gds)"

text \<open>The release of a scraped version: the known one, or a new row.\<close>

definition merge_release ::
  "environment \<Rightarrow> instant \<Rightarrow> string \<Rightarrow> gen_release \<Rightarrow> merge \<Rightarrow> exn + (int \<times> bool \<times> merge)" where
  "merge_release env now aid g m =
     (case map_of (mg_by_version m) (gr_version g) of Some rid \<Rightarrow> Inr (rid, False, m)
      | None \<Rightarrow>
        (let r = new_release env now (mg_db m) aid (gr_version g) (gr_major_minor g) (gr_channel g) (gr_released_at g) in
         bind_exn (insert_release r (mg_db m)) (\<lambda>d. Inr (rel_id r, True,
           m\<lparr>mg_db := d, mg_by_version := (gr_version g, rel_id r) # mg_by_version m,
             mg_inserted := mg_inserted m + 1\<rparr>))))"

fun merge_releases ::
  "environment \<Rightarrow> web \<Rightarrow> instant \<Rightarrow> bool \<Rightarrow> string \<Rightarrow> gen_release list \<Rightarrow> merge \<Rightarrow> exn + merge" where
  "merge_releases env w now heal aid [] m = Inr m"
| "merge_releases env w now heal aid (g # gs) m =
     bind_exn (merge_release env now aid g m) (\<lambda>(rid, is_new, m1).
     bind_exn (merge_downloads env w heal is_new aid rid (gr_downloads g) (snd (seen_triples rid m1)))
       (merge_releases env w now heal aid gs))"

definition merge_start :: "string \<Rightarrow> database \<Rightarrow> merge" where
  "merge_start aid d =
     \<lparr>mg_db = d, mg_by_version = rev (map (\<lambda>r. (rel_version r, rel_id r)) (app_releases d aid)),
      mg_seen = [], mg_loaded = [], mg_inserted = 0, mg_added = 0, mg_healed = 0, mg_refreshed = 0\<rparr>"

definition apply_generated_releases ::
  "environment \<Rightarrow> web \<Rightarrow> instant \<Rightarrow> string \<Rightarrow> gen_release list \<Rightarrow> bool \<Rightarrow> bool \<Rightarrow> nat handler" where
  "apply_generated_releases env w now aid0 gens replace heal st =
     (case get_app (db st) aid0 of None \<Rightarrow> (Inr 0, st)
      | Some a \<Rightarrow>
        (let aid = app_id a;
             st1 = (if replace then commit (st\<lparr>db := drop_releases (\<lambda>r. rel_app_id r = aid) (db st)\<rparr>) else st)
         in case merge_releases env w now heal aid gens (merge_start aid (db st1)) of Inl e \<Rightarrow> (Inl e, st1)
            | Inr m \<Rightarrow>
              (let st2 = commit (st1\<lparr>db := mg_db m\<rparr>) in
               (Inr (mg_inserted m),
                if mg_inserted m \<noteq> 0 \<or> mg_added m \<noteq> 0 \<or> mg_healed m \<noteq> 0 \<or> mg_refreshed m \<noteq> 0 \<or> replace
                then invalidate_catalog st2 else st2))))"

end
