(* ===== verification/Catalog_Merge.thy ===== *)
theory Catalog_Merge
  imports Catalog
begin

text \<open>
  The merge of scraped releases implements an abstract merge. \<open>catalog_view\<close> reads the
  tables as a map from versions to platforms to offers, forgetting row identifiers, the
  session's dictionaries and the counters; \<open>merge_spec\<close> is the merge on such maps. The
  refinement (\<open>merge_releases_view\<close>) holds for tables that satisfy their constraints
  (\<open>catalog_inv\<close>), which the merge keeps; in particular it never runs into a \<open>UNIQUE\<close>
  or foreign key violation.
\<close>

section \<open>The constraints as an invariant\<close>

definition rel_key :: "release_row \<Rightarrow> string \<times> string" where
  "rel_key r = (rel_app_id r, rel_version r)"

definition dl_key :: "download_row \<Rightarrow> int \<times> string \<times> string \<times> string" where
  "dl_key x = (dl_release_id x, platform x)"

definition catalog_inv :: "database \<Rightarrow> bool" where
  "catalog_inv d \<longleftrightarrow> pk app_id (apps d) \<and> pk rel_id (releases d) \<and> pk rel_key (releases d) \<and>
     pk dl_id (downloads d) \<and> pk dl_key (downloads d) \<and>
     (\<forall>r \<in> set (releases d). rel_app_id r \<in> app_id ` set (apps d)) \<and>
     (\<forall>x \<in> set (downloads d). dl_release_id x \<in> rel_id ` set (releases d))"

lemma catalog_invD:
  assumes "catalog_inv d"
  shows "pk app_id (apps d)" and "pk rel_id (releases d)" and "pk rel_key (releases d)" and "pk dl_id (downloads d)"
    and "pk dl_key (downloads d)" and "r \<in> set (releases d) \<Longrightarrow> rel_app_id r \<in> app_id ` set (apps d)"
    and "x \<in> set (downloads d) \<Longrightarrow> dl_release_id x \<in> rel_id ` set (releases d)"
  using assms by (auto simp: catalog_inv_def)

lemma row_get_iff: "pk key rows \<Longrightarrow> row_get key k rows = Some r \<longleftrightarrow> r \<in> set rows \<and> key r = k"
  using row_get_in row_get_Some by metis

lemma row_get_ex: "row_get key k rows \<noteq> None \<longleftrightarrow> list_ex (\<lambda>x. key x = k) rows"
  unfolding row_get_None list_ex_iff by blast

lemma insert_release_eq:
  "insert_release r d =
     (if row_get app_id (rel_app_id r) (apps d) = None \<or> row_get rel_id (rel_id r) (releases d) \<noteq> None \<or>
         row_get rel_key (rel_key r) (releases d) \<noteq> None
      then Inl IntegrityError else Inr (d\<lparr>releases := row_add r (releases d)\<rparr>))"
proof -
  have "list_ex (\<lambda>x. rel_app_id x = rel_app_id r \<and> rel_version x = rel_version r) (releases d) \<longleftrightarrow>
      row_get rel_key (rel_key r) (releases d) \<noteq> None"
    unfolding row_get_ex by (simp add: rel_key_def)
  then show ?thesis by (simp add: insert_release_def)
qed

lemma insert_download_eq:
  "insert_download x d =
     (if row_get rel_id (dl_release_id x) (releases d) = None \<or> row_get dl_id (dl_id x) (downloads d) \<noteq> None \<or>
         row_get dl_key (dl_key x) (downloads d) \<noteq> None
      then Inl IntegrityError else Inr (d\<lparr>downloads := row_add x (downloads d)\<rparr>))"
proof -
  have "list_ex (\<lambda>y. dl_release_id y = dl_release_id x \<and> platform y = platform x) (downloads d) \<longleftrightarrow>
      row_get dl_key (dl_key x) (downloads d) \<noteq> None"
    unfolding row_get_ex by (simp add: dl_key_def)
  then show ?thesis by (simp add: insert_download_def)
qed

lemma insert_release_inv: "insert_release r d = Inr d' \<Longrightarrow> catalog_inv d \<Longrightarrow> catalog_inv d'"
  by (auto simp: insert_release_eq catalog_inv_def pk_add row_get_None split: if_splits)

lemma insert_download_inv: "insert_download x d = Inr d' \<Longrightarrow> catalog_inv d \<Longrightarrow> catalog_inv d'"
  by (auto simp: insert_download_eq catalog_inv_def pk_add row_get_None split: if_splits)

lemma set_download_inv:
  assumes "catalog_inv d" and "\<And>x. dl_id (f x) = dl_id x" and "\<And>x. dl_key (f x) = dl_key x"
  shows "catalog_inv (d\<lparr>downloads := row_set dl_id i f (downloads d)\<rparr>)"
proof -
  have "map dl_key (row_set dl_id i f (downloads d)) = map dl_key (downloads d)"
    using assms(3) by (simp add: row_set_def)
  then have "pk dl_key (row_set dl_id i f (downloads d)) = pk dl_key (downloads d)" by (simp add: pk_def)
  moreover have "dl_release_id (f x) = dl_release_id x" for x using assms(3) [of x] by (simp add: dl_key_def)
  ultimately show ?thesis using assms(1,2) by (auto simp: catalog_inv_def pk_set set_row_set)
qed

lemma drop_releases_inv: "catalog_inv d \<Longrightarrow> catalog_inv (drop_releases P d)"
  by (simp add: catalog_inv_def drop_releases_def Let_def pk_filter) blast

section \<open>The abstract merge\<close>

record offer =
  of_url :: string
  of_source :: string
  of_headers :: "json option"
  of_size :: "int option"

definition offer_of :: "download_row \<Rightarrow> offer" where
  "offer_of x = \<lparr>of_url = dl_url x, of_source = dl_source x, of_headers = dl_headers x, of_size = dl_size_bytes x\<rparr>"

definition gen_offer :: "gen_download \<Rightarrow> offer" where
  "gen_offer gd = \<lparr>of_url = gd_url gd, of_source = gd_source gd, of_headers = gd_headers gd, of_size = gd_size_bytes gd\<rparr>"

text \<open>When a scraped entry may replace a stored one, and what becomes of the stored one.\<close>

definition replaces :: "web \<Rightarrow> string \<Rightarrow> gen_download \<Rightarrow> offer \<Rightarrow> bool" where
  "replaces w aid gd off \<longleftrightarrow> url_is_alive w (gd_url gd) \<and>
     (gd_source gd = OWN_BUILD_SOURCE \<and> (of_source off \<in> set SUPERSEDED_BY_OWN_BUILDS \<or>
        (aid \<in> set MIRROR_ONLY_APPS \<and> \<not> prefix MIRROR_URL_PREFIX (of_url off))) \<or>
      of_url off \<noteq> gd_url gd \<and> \<not> url_is_alive w (of_url off))"

definition revise :: "web \<Rightarrow> bool \<Rightarrow> string \<Rightarrow> gen_download \<Rightarrow> offer \<Rightarrow> offer" where
  "revise w heal aid gd off =
     (if heal \<and> replaces w aid gd off then gen_offer gd
      else if of_url off = gd_url gd \<and> gd_size_bytes gd \<noteq> None then off\<lparr>of_size := gd_size_bytes gd\<rparr>
      else off)"

type_synonym offers = "string \<times> string \<times> string \<rightharpoonup> offer"

text \<open>
  One scraped download: a new platform is added; a platform that was there before the
  merge is revised; one that this merge added is left alone.
\<close>

definition put_offer :: "web \<Rightarrow> bool \<Rightarrow> string \<Rightarrow> offers \<Rightarrow> gen_download \<Rightarrow> offers \<Rightarrow> offers" where
  "put_offer w heal aid old gd P =
     (case P (triple gd) of None \<Rightarrow> P(triple gd \<mapsto> gen_offer gd)
      | Some off \<Rightarrow> if old (triple gd) = None then P else P(triple gd \<mapsto> revise w heal aid gd off))"

definition offers_at :: "(string \<rightharpoonup> offers) \<Rightarrow> string \<Rightarrow> offers" where
  "offers_at cat v = (case cat v of None \<Rightarrow> Map.empty | Some P \<Rightarrow> P)"

definition put_release :: "web \<Rightarrow> bool \<Rightarrow> string \<Rightarrow> (string \<rightharpoonup> offers) \<Rightarrow> gen_release \<Rightarrow> (string \<rightharpoonup> offers) \<Rightarrow> (string \<rightharpoonup> offers)" where
  "put_release w heal aid start g cat =
     cat(gr_version g \<mapsto> fold (put_offer w heal aid (offers_at start (gr_version g))) (gr_downloads g)
           (offers_at cat (gr_version g)))"

definition merge_spec :: "web \<Rightarrow> bool \<Rightarrow> string \<Rightarrow> gen_release list \<Rightarrow> (string \<rightharpoonup> offers) \<Rightarrow> (string \<rightharpoonup> offers)" where
  "merge_spec w heal aid gens start = fold (put_release w heal aid start) gens start"

section \<open>The tables as such a map\<close>

definition offers :: "database \<Rightarrow> int \<Rightarrow> offers" where
  "offers d rid t = map_option offer_of (row_get dl_key (rid, t) (downloads d))"

definition catalog_view :: "database \<Rightarrow> string \<Rightarrow> string \<rightharpoonup> offers" where
  "catalog_view d a v = map_option (\<lambda>r. offers d (rel_id r)) (row_get rel_key (a, v) (releases d))"


lemma offers_add:
  "row_get dl_key (dl_key x) (downloads d) = None \<Longrightarrow>
     offers (d\<lparr>downloads := row_add x (downloads d)\<rparr>) rid t =
       (if dl_key x = (rid, t) then Some (offer_of x) else offers d rid t)"
  by (auto simp: offers_def table_simps split: option.splits)

lemma offers_cong: "downloads d' = downloads d \<Longrightarrow> offers d' = offers d"
  by (simp add: offers_def fun_eq_iff)

lemma pk_inj: "pk key rows \<Longrightarrow> x \<in> set rows \<Longrightarrow> y \<in> set rows \<Longrightarrow> key x = key y \<Longrightarrow> x = y"
  by (simp add: pk_def distinct_map inj_on_def)

lemma row_get_set_id:
  assumes "pk dl_id rows" and "x \<in> set rows" and "\<And>y. dl_key (f y) = dl_key y" and "pk dl_key rows"
  shows "row_get dl_key k (row_set dl_id (dl_id x) f rows) =
    (if k = dl_key x then Some (f x) else row_get dl_key k rows)"
proof -
  have "dl_id y = dl_id x \<longleftrightarrow> dl_key y = dl_key x" if "y \<in> set rows" for y
    using pk_inj [OF assms(1) that assms(2)] pk_inj [OF assms(4) that assms(2)] by blast
  then have "row_set dl_id (dl_id x) f rows = row_set dl_key (dl_key x) f rows"
    by (simp add: row_set_def)
  then show ?thesis using row_get_set [of dl_key f, OF assms(3)] row_get_in [OF assms(4,2)] by simp
qed

lemma offers_set:
  assumes "catalog_inv d" and "x \<in> set (downloads d)" and "\<And>y. dl_key (f y) = dl_key y"
  shows "offers (d\<lparr>downloads := row_set dl_id (dl_id x) f (downloads d)\<rparr>) rid t =
    (if (rid, t) = dl_key x then Some (offer_of (f x)) else offers d rid t)"
  using row_get_set_id [OF catalog_invD(4) [OF assms(1)] assms(2) assms(3) catalog_invD(5) [OF assms(1)]]
  by (simp add: offers_def)

section \<open>The loop invariant\<close>

text \<open>Which row carries which key: the rows of the start never change theirs.\<close>

definition row_keys :: "database \<Rightarrow> (int \<times> int \<times> string \<times> string \<times> string) set" where
  "row_keys d = (\<lambda>x. (dl_id x, dl_key x)) ` set (downloads d)"

definition merge_inv :: "string \<Rightarrow> database \<Rightarrow> merge \<Rightarrow> bool" where
  "merge_inv aid start m \<longleftrightarrow> catalog_inv (mg_db m) \<and> aid \<in> app_id ` set (apps (mg_db m)) \<and> row_keys start \<subseteq> row_keys (mg_db m) \<and>
     (\<forall>v. map_of (mg_by_version m) v = map_option rel_id (row_get rel_key (aid, v) (releases (mg_db m)))) \<and>
     (\<forall>rid ts. map_of (mg_seen m) rid = Some ts \<longrightarrow> set ts = {t. \<exists>i. (i, rid, t) \<in> row_keys (mg_db m)}) \<and>
     (\<forall>rid ids. map_of (mg_loaded m) rid = Some ids \<longrightarrow> set ids = {i. \<exists>t. (i, rid, t) \<in> row_keys start}) \<and>
     (\<forall>rid. map_of (mg_seen m) rid = None \<longleftrightarrow> map_of (mg_loaded m) rid = None) \<and>
     (\<forall>rid i t. map_of (mg_seen m) rid = None \<longrightarrow> (i, rid, t) \<in> row_keys (mg_db m) \<longrightarrow> (i, rid, t) \<in> row_keys start)"

lemma merge_invD:
  assumes "merge_inv aid start m"
  shows "catalog_inv (mg_db m)" and "aid \<in> app_id ` set (apps (mg_db m))" and "row_keys start \<subseteq> row_keys (mg_db m)"
    and "map_of (mg_by_version m) v = map_option rel_id (row_get rel_key (aid, v) (releases (mg_db m)))"
    and "map_of (mg_seen m) rid = Some ts \<Longrightarrow> set ts = {t. \<exists>i. (i, rid, t) \<in> row_keys (mg_db m)}"
    and "map_of (mg_loaded m) rid = Some ids \<Longrightarrow> set ids = {i. \<exists>t. (i, rid, t) \<in> row_keys start}"
    and "map_of (mg_seen m) rid = None \<longleftrightarrow> map_of (mg_loaded m) rid = None"
    and "map_of (mg_seen m) rid = None \<Longrightarrow> (i, rid, t) \<in> row_keys (mg_db m) \<Longrightarrow> (i, rid, t) \<in> row_keys start"
  using assms unfolding merge_inv_def by blast+

lemma row_keys_add: "row_keys (d\<lparr>downloads := row_add x (downloads d)\<rparr>) = insert (dl_id x, dl_key x) (row_keys d)"
  by (simp add: row_keys_def)

lemma row_keys_set:
  "(\<And>x. dl_id (f x) = dl_id x) \<Longrightarrow> (\<And>x. dl_key (f x) = dl_key x) \<Longrightarrow>
     row_keys (d\<lparr>downloads := row_set dl_id i f (downloads d)\<rparr>) = row_keys d"
proof -
  assume "\<And>x. dl_id (f x) = dl_id x" and "\<And>x. dl_key (f x) = dl_key x"
  then have "map (\<lambda>x. (dl_id x, dl_key x)) (row_set dl_id i f (downloads d)) = map (\<lambda>x. (dl_id x, dl_key x)) (downloads d)"
    by (simp add: row_set_def)
  from arg_cong [OF this, of set] show ?thesis by (simp add: row_keys_def)
qed

lemma rel_downloads_set: "set (rel_downloads d rid) = {x \<in> set (downloads d). dl_release_id x = rid}"
  by (simp add: rel_downloads_def)

text \<open>Touching a release keeps the invariant and reads its platforms.\<close>

lemma seen_triples_inv:
  assumes "merge_inv aid start m" and "seen_triples rid m = (bucket, m')"
  shows "merge_inv aid start m'" and "mg_db m' = mg_db m" and "map_of (mg_seen m') rid = Some bucket"
    and "mg_by_version m' = mg_by_version m"
proof -
  have "merge_inv aid start m' \<and> mg_db m' = mg_db m \<and> map_of (mg_seen m') rid = Some bucket \<and>
      mg_by_version m' = mg_by_version m"
  proof (cases "map_of (mg_seen m) rid")
    case (Some b)
    with assms show ?thesis by (simp add: seen_triples_def)
  next
    case None
    let ?ds = "rel_downloads (mg_db m) rid"
    have m': "bucket = map platform ?ds"
      "m' = m\<lparr>mg_seen := (rid, bucket) # mg_seen m, mg_loaded := (rid, map dl_id ?ds) # mg_loaded m\<rparr>"
      using assms(2) None by (auto simp: seen_triples_def Let_def)
    have rows: "(i, rid, t) \<in> row_keys (mg_db m) \<longleftrightarrow> (\<exists>x \<in> set ?ds. dl_id x = i \<and> platform x = t)" for i t
      by (force simp: row_keys_def rel_downloads_set dl_key_def)
    have same: "(i, rid, t) \<in> row_keys (mg_db m) \<longleftrightarrow> (i, rid, t) \<in> row_keys start" for i t
      using merge_invD(3,8) [OF assms(1)] None by blast
    have "set bucket = {t. \<exists>i. (i, rid, t) \<in> row_keys (mg_db m)}" unfolding m'(1) set_map rows by blast
    moreover have "set (map dl_id ?ds) = {i. \<exists>t. (i, rid, t) \<in> row_keys start}"
      unfolding same [symmetric] set_map rows by blast
    ultimately show ?thesis
      using assms(1) unfolding merge_inv_def m'(2) by (simp add: m'(1))
  qed
  then show "merge_inv aid start m'" and "mg_db m' = mg_db m" and "map_of (mg_seen m') rid = Some bucket"
    and "mg_by_version m' = mg_by_version m" by simp_all
qed

text \<open>The loaded row of a platform is the session's row, where the start had one.\<close>

lemma row_keys_get: "pk dl_key (downloads d) \<Longrightarrow> (\<exists>i. (i, k) \<in> row_keys d) \<longleftrightarrow> row_get dl_key k (downloads d) \<noteq> None"
  unfolding row_get_None row_keys_def by auto

lemma find_unique:
  "(\<And>x y. x \<in> set xs \<Longrightarrow> y \<in> set xs \<Longrightarrow> P x \<Longrightarrow> P y \<Longrightarrow> x = y) \<Longrightarrow> find P xs = Some x \<longleftrightarrow> x \<in> set xs \<and> P x"
  by (induction xs) auto

lemma set_map_filter_iff: "x \<in> set (List.map_filter f xs) \<longleftrightarrow> (\<exists>y \<in> set xs. f y = Some x)"
  by (induction xs) (auto simp: List.map_filter_simps split: option.splits)

lemma existing_download_eq:
  assumes inv: "merge_inv aid start m" and touched: "map_of (mg_seen m) rid \<noteq> None" and start: "catalog_inv start"
  shows "existing_download rid t m =
    (if offers start rid t = None then None else row_get dl_key (rid, t) (downloads (mg_db m)))"
proof -
  let ?rows = "downloads (mg_db m)"
  obtain ids where ids: "map_of (mg_loaded m) rid = Some ids" using merge_invD(7) [OF inv, of rid] touched by (metis not_None_eq)
  let ?loaded = "List.map_filter (\<lambda>i. row_get dl_id i ?rows) ids"
  have pks: "pk dl_id ?rows" "pk dl_key ?rows" using catalog_invD [OF merge_invD(1) [OF inv]] by blast+
  have loaded: "x \<in> set ?loaded \<longleftrightarrow> x \<in> set ?rows \<and> dl_id x \<in> set ids" for x
    unfolding set_map_filter_iff row_get_iff [OF pks(1)] by blast
  have old: "dl_id x \<in> set ids \<longleftrightarrow> (\<exists>t. (dl_id x, rid, t) \<in> row_keys start)" for x
    using merge_invD(6) [OF inv ids] by blast
  have key: "dl_key x = k" if "x \<in> set ?rows" "(dl_id x, k) \<in> row_keys start" for x k
  proof -
    from that(2) merge_invD(3) [OF inv] obtain y where "y \<in> set ?rows" "dl_id y = dl_id x" "dl_key y = k"
      by (auto simp: row_keys_def)
    with pk_inj [OF pks(1) _ that(1)] show ?thesis by blast
  qed
  have plat: "dl_key x = (rid, t) \<longleftrightarrow> platform x = t" if "x \<in> set ?loaded" for x
    using that loaded old key by (force simp: dl_key_def)
  have "existing_download rid t m = Some x \<longleftrightarrow> x \<in> set ?loaded \<and> platform x = t" for x
    unfolding existing_download_def ids option.case
    by (rule find_unique) (metis pk_inj [OF pks(2)] loaded plat)
  also have "\<dots> x \<longleftrightarrow> x \<in> set ?rows \<and> dl_key x = (rid, t) \<and> offers start rid t \<noteq> None" for x
  proof
    assume "x \<in> set ?loaded \<and> platform x = t"
    moreover then obtain t' where "(dl_id x, rid, t') \<in> row_keys start" "x \<in> set ?rows" using loaded old by blast
    ultimately show "x \<in> set ?rows \<and> dl_key x = (rid, t) \<and> offers start rid t \<noteq> None"
      using key [of x "(rid, t')"] plat row_keys_get [OF catalog_invD(5) [OF start], of "(rid, t)"]
      by (auto simp: offers_def dl_key_def)
  next
    assume x: "x \<in> set ?rows \<and> dl_key x = (rid, t) \<and> offers start rid t \<noteq> None"
    then obtain i where i: "(i, rid, t) \<in> row_keys start"
      using row_keys_get [OF catalog_invD(5) [OF start], of "(rid, t)"] by (auto simp: offers_def)
    with merge_invD(3) [OF inv] obtain y where "y \<in> set ?rows" "dl_id y = i" "dl_key y = (rid, t)"
      by (auto simp: row_keys_def)
    with x pk_inj [OF pks(2)] have "dl_id x = i" by metis
    with i old [of x] have "dl_id x \<in> set ids" by blast
    with x loaded show "x \<in> set ?loaded \<and> platform x = t" by (simp add: dl_key_def)
  qed
  finally have "existing_download rid t m = Some x \<longleftrightarrow>
      (if offers start rid t = None then None else row_get dl_key (rid, t) ?rows) = Some x" for x
    using row_get_iff [OF pks(2)] by simp
  then show ?thesis by (metis option.exhaust)
qed

section \<open>The steps refine the abstract merge\<close>

definition revised_row :: "web \<Rightarrow> bool \<Rightarrow> string \<Rightarrow> gen_download \<Rightarrow> download_row \<Rightarrow> download_row \<Rightarrow> download_row" where
  "revised_row w heal aid gd x y =
     (let z = (if size_differs gd x then y\<lparr>dl_size_bytes := gd_size_bytes gd\<rparr> else y) in
      if heal \<and> should_heal w aid gd x then take_over gd z else z)"

lemma revised_row_keys [simp]:
  "dl_id (revised_row w heal aid gd x y) = dl_id y" "dl_key (revised_row w heal aid gd x y) = dl_key y"
  by (simp_all add: revised_row_def Let_def take_over_def dl_key_def platform_def)

lemma offer_of_revised: "offer_of (revised_row w heal aid gd x x) = revise w heal aid gd (offer_of x)"
proof -
  have "should_heal w aid gd x \<longleftrightarrow> replaces w aid gd (offer_of x)"
    by (auto simp: should_heal_def superseded_def replaces_def offer_of_def)
  then show ?thesis
    by (auto simp: revised_row_def revise_def take_over_def size_differs_def gen_offer_def offer_of_def Let_def)
qed

lemma row_set_ident: "row_set key i (\<lambda>y. y) rows = rows"
  by (simp add: row_set_def)

lemma heal_refresh_db:
  assumes "\<not> is_new"
  shows "mg_db (heal_url w heal is_new aid gd x (refresh_size gd x m)) =
    (mg_db m)\<lparr>downloads := row_set dl_id (dl_id x) (revised_row w heal aid gd x) (downloads (mg_db m))\<rparr>"
proof -
  have compose: "row_set dl_id i g (row_set dl_id i f rows) = row_set dl_id i (\<lambda>y. g (f y)) rows"
    if "\<And>y. dl_id (f y) = dl_id y" for i f g and rows :: "download_row list"
    using that by (simp add: row_set_def)
  have same: "(mg_db m)\<lparr>downloads := downloads (mg_db m)\<rparr> = mg_db m" by simp
  show ?thesis
    unfolding heal_url_def refresh_size_def set_download_def revised_row_def [abs_def]
    using assms
    by (cases "size_differs gd x"; cases heal; cases "should_heal w aid gd x") (simp_all add: compose row_set_ident same Let_def)
qed

lemma heal_refresh_frame [simp]:
  "mg_seen (heal_url w heal is_new aid gd x (refresh_size gd x m)) = mg_seen m"
  "mg_loaded (heal_url w heal is_new aid gd x (refresh_size gd x m)) = mg_loaded m"
  "mg_by_version (heal_url w heal is_new aid gd x (refresh_size gd x m)) = mg_by_version m"
  "mg_inserted (heal_url w heal is_new aid gd x (refresh_size gd x m)) = mg_inserted m"
  by (simp_all add: heal_url_def refresh_size_def set_download_def)

text \<open>What a step of the loop over a release's downloads promises.\<close>

definition download_step ::
  "web \<Rightarrow> bool \<Rightarrow> string \<Rightarrow> database \<Rightarrow> int \<Rightarrow> gen_download list \<Rightarrow> merge \<Rightarrow> merge \<Rightarrow> bool" where
  "download_step w heal aid start rid gds m m' \<longleftrightarrow> merge_inv aid start m' \<and> map_of (mg_seen m') rid \<noteq> None \<and>
     releases (mg_db m') = releases (mg_db m) \<and> apps (mg_db m') = apps (mg_db m) \<and> mg_inserted m' = mg_inserted m \<and>
     offers (mg_db m') rid = fold (put_offer w heal aid (offers start rid)) gds (offers (mg_db m) rid) \<and>
     (\<forall>rid'. rid' \<noteq> rid \<longrightarrow> offers (mg_db m') rid' = offers (mg_db m) rid')"

lemma merge_download_step:
  assumes inv: "merge_inv aid start m" and start: "catalog_inv start" and touched: "map_of (mg_seen m) rid \<noteq> None"
    and rid: "rid \<in> rel_id ` set (releases (mg_db m))" and alloc: "fresh_alloc (env_alloc env)"
    and fresh: "is_new \<Longrightarrow> offers start rid = Map.empty"
  shows "\<exists>m'. merge_download env w heal is_new aid rid gd m = Inr m' \<and> download_step w heal aid start rid [gd] m m'"
proof -
  let ?t = "triple gd" and ?d = "mg_db m"
  note ci = catalog_invD [OF merge_invD(1) [OF inv]]
  obtain bucket where b: "map_of (mg_seen m) rid = Some bucket" using touched by blast
  then have st: "seen_triples rid m = (bucket, m)" by (simp add: seen_triples_def)
  have mem: "t \<in> set bucket \<longleftrightarrow> offers ?d rid t \<noteq> None" for t
    using merge_invD(5) [OF inv b] row_keys_get [OF ci(5), of "(rid, t)"] by (simp add: offers_def)
  show ?thesis
  proof (cases "?t \<in> set bucket")
    case True
    then obtain x where x: "row_get dl_key (rid, ?t) (downloads ?d) = Some x" using mem [of ?t] by (auto simp: offers_def)
    then have x': "x \<in> set (downloads ?d)" "dl_key x = (rid, ?t)" by (auto dest: row_get_Some)
    show ?thesis
    proof (cases "offers start rid ?t")
      case None
      then have "merge_download env w heal is_new aid rid gd m = Inr m"
        using True existing_download_eq [OF inv touched start, of ?t] by (simp add: merge_download_def st)
      with None x touched inv show ?thesis by (simp add: download_step_def put_offer_def offers_def)
    next
      case (Some off)
      then have old: "\<not> is_new" using fresh by auto
      let ?m' = "heal_url w heal is_new aid gd x (refresh_size gd x m)"
      have "merge_download env w heal is_new aid rid gd m = Inr ?m'"
        using True existing_download_eq [OF inv touched start, of ?t] Some x by (simp add: merge_download_def st)
      moreover note db' = heal_refresh_db [OF old, of w heal aid gd x m]
      have keys: "row_keys (mg_db ?m') = row_keys ?d" unfolding db' by (rule row_keys_set) simp_all
      have "merge_inv aid start ?m'"
        using inv set_download_inv [OF merge_invD(1) [OF inv], of "revised_row w heal aid gd x" "dl_id x"]
        unfolding merge_inv_def keys by (simp add: db')
      moreover have "offers (mg_db ?m') rid' t = (if (rid', t) = (rid, ?t) then Some (revise w heal aid gd (offer_of x))
          else offers ?d rid' t)" for rid' t
        unfolding db' offers_set [OF merge_invD(1) [OF inv] x'(1) revised_row_keys(2)] by (simp add: x'(2) offer_of_revised)
      ultimately show ?thesis
        using Some x touched db' by (auto simp: download_step_def put_offer_def fun_eq_iff offers_def)
    qed
  next
    case False
    let ?row = "new_download env ?d rid (gd_url gd) (gd_os gd) (gd_arch gd) (gd_archive_type gd) (gd_source gd)
        (gd_headers gd) (gd_size_bytes gd)"
    let ?d' = "?d\<lparr>downloads := row_add ?row (downloads ?d)\<rparr>"
    let ?m' = "m\<lparr>mg_db := ?d', mg_seen := (rid, ?t # bucket) # mg_seen m, mg_added := mg_added m + (if is_new then 0 else 1)\<rparr>"
    have row: "dl_release_id ?row = rid" "dl_key ?row = (rid, ?t)" "offer_of ?row = gen_offer gd"
      by (simp_all add: new_download_def dl_key_def platform_def triple_def offer_of_def gen_offer_def)
    have free: "row_get dl_key (rid, ?t) (downloads ?d) = None" using False mem by (simp add: offers_def)
    have ins: "insert_download ?row ?d = Inr ?d'"
      using rid free fresh_row_get [OF alloc, of dl_id "downloads ?d"] row
      by (simp add: insert_download_eq row_get_None) (simp add: new_download_def row_get_None)
    then have result: "merge_download env w heal is_new aid rid gd m = Inr ?m'"
      using False by (simp add: merge_download_def st Let_def)
    have "row_keys ?d' = insert (dl_id ?row, rid, ?t) (row_keys ?d)" by (simp only: row_keys_add row)
    moreover have "map_of (mg_loaded m) rid \<noteq> None" using merge_invD(7) [OF inv, of rid] b by simp
    ultimately have "merge_inv aid start ?m'"
      using inv insert_download_inv [OF ins merge_invD(1) [OF inv]] b unfolding merge_inv_def by auto
    moreover have "offers ?d' rid' t = (if (rid', t) = (rid, ?t) then Some (gen_offer gd) else offers ?d rid' t)" for rid' t
      using offers_add [of ?row ?d rid' t] free row by (auto simp: row)
    ultimately show ?thesis
      using free result by (auto simp: download_step_def put_offer_def fun_eq_iff offers_def)
  qed
qed

lemma merge_downloads_step:
  assumes "merge_inv aid start m" and "catalog_inv start" and "map_of (mg_seen m) rid \<noteq> None"
    and "rid \<in> rel_id ` set (releases (mg_db m))" and "fresh_alloc (env_alloc env)"
    and "is_new \<Longrightarrow> offers start rid = Map.empty"
  shows "\<exists>m'. merge_downloads env w heal is_new aid rid gds m = Inr m' \<and> download_step w heal aid start rid gds m m'"
  using assms
proof (induction gds arbitrary: m)
  case Nil
  then show ?case by (auto simp: download_step_def)
next
  case (Cons gd gds)
  obtain m1 where m1: "merge_download env w heal is_new aid rid gd m = Inr m1" "download_step w heal aid start rid [gd] m m1"
    using merge_download_step [OF Cons.prems] by blast
  from m1(2) have "\<exists>m'. merge_downloads env w heal is_new aid rid gds m1 = Inr m' \<and> download_step w heal aid start rid gds m1 m'"
    using Cons.prems by (intro Cons.IH) (auto simp: download_step_def)
  with m1 show ?case by (auto simp: bind_exn_def download_step_def)
qed

section \<open>Releases\<close>

text \<open>The release of a version has, at the start, the offers the start's view gives it.\<close>

definition release_inv :: "string \<Rightarrow> database \<Rightarrow> merge \<Rightarrow> bool" where
  "release_inv aid start m \<longleftrightarrow> merge_inv aid start m \<and>
     (\<forall>v r. row_get rel_key (aid, v) (releases (mg_db m)) = Some r \<longrightarrow>
        offers start (rel_id r) = offers_at (catalog_view start aid) v)"

lemma offers_unknown:
  assumes "catalog_inv d" and "rid \<notin> rel_id ` set (releases d)"
  shows "offers d rid = Map.empty"
proof
  fix t
  have "row_get dl_key (rid, t) (downloads d) = None"
    unfolding row_get_None using assms(2) catalog_invD(7) [OF assms(1)] by (auto simp: dl_key_def)
  then show "offers d rid t = None" by (simp add: offers_def)
qed

lemma start_offers_unknown:
  assumes inv: "merge_inv aid start m" and start: "catalog_inv start" and "offers (mg_db m) rid = Map.empty"
  shows "offers start rid = Map.empty"
proof
  fix t
  have "row_get dl_key (rid, t) (downloads (mg_db m)) = None" using fun_cong [OF assms(3), of t] by (simp add: offers_def)
  then show "offers start rid t = None"
    using row_keys_get [OF catalog_invD(5) [OF start], of "(rid, t)"] merge_invD(3) [OF inv]
      row_keys_get [OF catalog_invD(5) [OF merge_invD(1) [OF inv]], of "(rid, t)"]
    by (auto simp: offers_def)
qed

definition release_step :: "string \<Rightarrow> database \<Rightarrow> string \<Rightarrow> int \<Rightarrow> bool \<Rightarrow> merge \<Rightarrow> merge \<Rightarrow> bool" where
  "release_step aid start v rid is_new m m1 \<longleftrightarrow> release_inv aid start m1 \<and> offers (mg_db m1) = offers (mg_db m) \<and>
     (\<exists>r. row_get rel_key (aid, v) (releases (mg_db m1)) = Some r \<and> rel_id r = rid) \<and>
     (\<forall>k. k \<noteq> (aid, v) \<longrightarrow> row_get rel_key k (releases (mg_db m1)) = row_get rel_key k (releases (mg_db m))) \<and>
     offers (mg_db m) rid = offers_at (catalog_view (mg_db m) aid) v \<and> (is_new \<longrightarrow> offers start rid = Map.empty) \<and>
     mg_inserted m1 = mg_inserted m + (if catalog_view (mg_db m) aid v = None then 1 else 0)"

lemma merge_release_step:
  assumes inv: "release_inv aid start m" and start: "catalog_inv start" and alloc: "fresh_alloc (env_alloc env)"
    and fresh: "\<And>v. catalog_view (mg_db m) aid v = None \<Longrightarrow> catalog_view start aid v = None"
  shows "\<exists>rid is_new m1. merge_release env now aid g m = Inr (rid, is_new, m1) \<and>
    release_step aid start (gr_version g) rid is_new m m1"
proof -
  let ?v = "gr_version g" and ?d = "mg_db m"
  have mi: "merge_inv aid start m" using inv by (simp add: release_inv_def)
  note ci = catalog_invD [OF merge_invD(1) [OF mi]]
  show ?thesis
  proof (cases "row_get rel_key (aid, ?v) (releases ?d)")
    case (Some r)
    then have "merge_release env now aid g m = Inr (rel_id r, False, m)"
      using merge_invD(4) [OF mi] by (simp add: merge_release_def)
    with Some inv show ?thesis by (auto simp: release_step_def catalog_view_def offers_at_def)
  next
    case None
    let ?r = "new_release env now ?d aid ?v (gr_major_minor g) (gr_channel g) (gr_released_at g)"
    let ?d' = "?d\<lparr>releases := row_add ?r (releases ?d)\<rparr>"
    let ?m1 = "m\<lparr>mg_db := ?d', mg_by_version := (?v, rel_id ?r) # mg_by_version m, mg_inserted := mg_inserted m + 1\<rparr>"
    have r: "rel_app_id ?r = aid" "rel_key ?r = (aid, ?v)" by (simp_all add: new_release_def rel_key_def)
    have id: "row_get rel_id (rel_id ?r) (releases ?d) = None"
      using fresh_row_get [OF alloc, of rel_id "releases ?d"] by (simp add: new_release_def)
    have ins: "insert_release ?r ?d = Inr ?d'"
      using merge_invD(2) [OF mi] None id r by (simp add: insert_release_eq row_get_None)
    have result: "merge_release env now aid g m = Inr (rel_id ?r, True, ?m1)"
      using None merge_invD(4) [OF mi] ins by (simp add: merge_release_def Let_def bind_exn_def)
    have empty: "offers ?d (rel_id ?r) = Map.empty"
      using id by (intro offers_unknown merge_invD(1) [OF mi]) (simp add: row_get_None)
    note empty0 = start_offers_unknown [OF mi start empty]
    have get: "row_get rel_key k (row_add ?r (releases ?d)) = (if k = (aid, ?v) then Some ?r else row_get rel_key k (releases ?d))" for k
      using None by (auto simp: table_simps r split: option.splits)
    have "row_keys ?d' = row_keys ?d" by (simp add: row_keys_def)
    then have "merge_inv aid start ?m1"
      using mi insert_release_inv [OF ins merge_invD(1) [OF mi]] unfolding merge_inv_def by (simp add: get)
    moreover have "offers start (rel_id ?r) = offers_at (catalog_view start aid) ?v"
      using empty0 fresh [of ?v] None by (simp add: offers_at_def catalog_view_def)
    ultimately have "release_inv aid start ?m1" using inv unfolding release_inv_def by (simp add: get)
    then have "release_step aid start ?v (rel_id ?r) True m ?m1"
      using get empty empty0 None offers_cong [of ?d' ?d] by (simp add: release_step_def offers_at_def catalog_view_def)
    with result show ?thesis by blast
  qed
qed

lemma release_inv_steps:
  assumes "release_inv aid start m1" and "download_step w heal aid start rid gds m1 m2"
  shows "release_inv aid start m2"
  using assms by (simp add: release_inv_def download_step_def)

text \<open>One scraped release, read on the view.\<close>

lemma view_step:
  assumes rs: "release_step aid start v rid is_new m m1" and ds: "download_step w heal aid start rid gds m1' m2"
    and m1': "mg_db m1' = mg_db m1"
  shows "catalog_view (mg_db m2) aid = (catalog_view (mg_db m) aid)
      (v \<mapsto> fold (put_offer w heal aid (offers_at (catalog_view start aid) v)) gds (offers_at (catalog_view (mg_db m) aid) v))"
    and "a \<noteq> aid \<Longrightarrow> catalog_view (mg_db m2) a = catalog_view (mg_db m) a"
proof -
  have inv: "merge_inv aid start m2" using ds by (simp add: download_step_def)
  obtain r where r: "row_get rel_key (aid, v) (releases (mg_db m2)) = Some r" "rel_id r = rid"
    using rs ds m1' by (auto simp: release_step_def download_step_def)
  have o0: "offers start rid = offers_at (catalog_view start aid) v"
    using rs r ds m1' by (auto simp: release_step_def release_inv_def download_step_def)
  have other: "catalog_view (mg_db m2) a v' = catalog_view (mg_db m) a v'" if "(a, v') \<noteq> (aid, v)" for a v'
  proof -
    have same: "row_get rel_key (a, v') (releases (mg_db m2)) = row_get rel_key (a, v') (releases (mg_db m))"
      using rs ds m1' that by (simp add: release_step_def download_step_def)
    have "offers (mg_db m2) (rel_id r') = offers (mg_db m) (rel_id r')"
      if r': "row_get rel_key (a, v') (releases (mg_db m2)) = Some r'" for r'
    proof -
      have "rel_id r' \<noteq> rid"
        using r r' \<open>(a, v') \<noteq> (aid, v)\<close> pk_inj [OF catalog_invD(2) [OF merge_invD(1) [OF inv]]]
        by (metis row_get_Some)
      then show ?thesis using rs ds m1' by (simp add: release_step_def download_step_def)
    qed
    then show ?thesis by (cases "row_get rel_key (a, v') (releases (mg_db m2))") (simp_all add: catalog_view_def same)
  qed
  have "catalog_view (mg_db m2) aid v =
      Some (fold (put_offer w heal aid (offers_at (catalog_view start aid) v)) gds (offers_at (catalog_view (mg_db m) aid) v))"
    using rs ds m1' r o0 by (auto simp: catalog_view_def release_step_def download_step_def)
  with other show "catalog_view (mg_db m2) aid = (catalog_view (mg_db m) aid)
      (v \<mapsto> fold (put_offer w heal aid (offers_at (catalog_view start aid) v)) gds (offers_at (catalog_view (mg_db m) aid) v))"
    by (auto simp: fun_eq_iff)
  show "a \<noteq> aid \<Longrightarrow> catalog_view (mg_db m2) a = catalog_view (mg_db m) a" using other by (auto simp: fun_eq_iff)
qed

lemma card_new_version:
  "card (set (v # vs) - D) = (if v \<in> D then 0 else 1) + card (set vs - insert v D)"
proof -
  have "set (v # vs) - D = (if v \<in> D then {} else {v}) \<union> (set vs - insert v D)" by auto
  then show ?thesis by (simp add: card_insert_if)
qed

lemma merge_releases_view:
  assumes "release_inv aid start m" and "catalog_inv start" and "fresh_alloc (env_alloc env)"
    and "\<And>v. catalog_view (mg_db m) aid v = None \<Longrightarrow> catalog_view start aid v = None"
  shows "\<exists>m'. merge_releases env w now heal aid gens m = Inr m' \<and> catalog_inv (mg_db m') \<and>
    catalog_view (mg_db m') aid = fold (put_release w heal aid (catalog_view start aid)) gens (catalog_view (mg_db m) aid) \<and>
    (\<forall>a. a \<noteq> aid \<longrightarrow> catalog_view (mg_db m') a = catalog_view (mg_db m) a) \<and>
    mg_inserted m' = mg_inserted m + card (set (map gr_version gens) - dom (catalog_view (mg_db m) aid))"
  using assms
proof (induction gens arbitrary: m)
  case Nil
  then show ?case by (auto simp: release_inv_def merge_inv_def)
next
  case (Cons g gens)
  let ?v = "gr_version g"
  obtain rid is_new m1 where m1: "merge_release env now aid g m = Inr (rid, is_new, m1)"
    and rs: "release_step aid start ?v rid is_new m m1" using merge_release_step [OF Cons.prems] by blast
  obtain bucket m1' where m1': "seen_triples rid m1 = (bucket, m1')" by fastforce
  have "merge_inv aid start m1" using rs by (simp add: release_step_def release_inv_def)
  note touch = seen_triples_inv [OF this m1']
  have rid: "rid \<in> rel_id ` set (releases (mg_db m1'))"
    using rs touch(2) by (auto simp: release_step_def dest: row_get_Some)
  obtain m2 where m2: "merge_downloads env w heal is_new aid rid (gr_downloads g) m1' = Inr m2"
    and ds: "download_step w heal aid start rid (gr_downloads g) m1' m2"
    using merge_downloads_step [OF touch(1) Cons.prems(2) _ rid Cons.prems(3), of is_new w heal "gr_downloads g"] touch(3) rs
    by (auto simp: release_step_def)
  note view = view_step [OF rs ds touch(2)]
  have "release_inv aid start m1'" using rs touch(1,2) by (simp add: release_step_def release_inv_def)
  note inv2 = release_inv_steps [OF this ds]
  have keep: "catalog_view (mg_db m2) aid v = None \<Longrightarrow> catalog_view start aid v = None" for v
    using Cons.prems(4) [of v] by (auto simp: view(1) split: if_splits)
  obtain m' where m': "merge_releases env w now heal aid gens m2 = Inr m'" "catalog_inv (mg_db m')"
    "catalog_view (mg_db m') aid = fold (put_release w heal aid (catalog_view start aid)) gens (catalog_view (mg_db m2) aid)"
    "\<forall>a. a \<noteq> aid \<longrightarrow> catalog_view (mg_db m') a = catalog_view (mg_db m2) a"
    "mg_inserted m' = mg_inserted m2 + card (set (map gr_version gens) - dom (catalog_view (mg_db m2) aid))"
    using Cons.IH [OF inv2 Cons.prems(2,3) keep] by blast
  have "mg_inserted m2 = mg_inserted m1" using ds m1' by (auto simp: download_step_def seen_triples_def Let_def split: option.splits)
  then have "mg_inserted m2 = mg_inserted m + (if ?v \<in> dom (catalog_view (mg_db m) aid) then 0 else 1)"
    using rs by (simp add: release_step_def domIff)
  moreover have "dom (catalog_view (mg_db m2) aid) = insert ?v (dom (catalog_view (mg_db m) aid))" by (simp add: view(1))
  ultimately have "mg_inserted m' = mg_inserted m + card (set (map gr_version (g # gens)) - dom (catalog_view (mg_db m) aid))"
    using m'(5) card_new_version [of ?v "map gr_version gens"] by simp
  moreover have "merge_releases env w now heal aid (g # gens) m = Inr m'"
    using m1 m1' m2 m'(1) by (simp add: bind_exn_def)
  moreover have "put_release w heal aid (catalog_view start aid) g (catalog_view (mg_db m) aid) = catalog_view (mg_db m2) aid"
    by (simp only: put_release_def view(1))
  ultimately show ?case
    using m'(2,3,4) view(2) by simp
qed

section \<open>The whole operation\<close>

lemma view_drop:
  assumes "catalog_inv d"
  shows "catalog_view (drop_releases (\<lambda>r. rel_app_id r = aid) d) a = (if a = aid then Map.empty else catalog_view d a)"
proof
  fix v
  let ?d' = "drop_releases (\<lambda>r. rel_app_id r = aid) d"
  have rel: "row_get rel_key (a, v) (releases ?d') = (if a = aid then None else row_get rel_key (a, v) (releases d))"
    by (auto simp: drop_releases_def Let_def row_get_filter [OF catalog_invD(3) [OF assms]] rel_key_def
        dest!: row_get_Some split: option.splits)
  have "offers ?d' (rel_id r) = offers d (rel_id r)" if "row_get rel_key (a, v) (releases d) = Some r" "a \<noteq> aid" for r
  proof -
    have "rel_id r' \<noteq> rel_id r" if "r' \<in> set (releases d)" "rel_app_id r' = aid" for r'
      using that \<open>row_get rel_key (a, v) (releases d) = Some r\<close> \<open>a \<noteq> aid\<close> pk_inj [OF catalog_invD(2) [OF assms], of r' r]
      by (auto simp: rel_key_def dest: row_get_Some)
    then show ?thesis
      by (auto simp: offers_def fun_eq_iff drop_releases_def Let_def row_get_filter [OF catalog_invD(5) [OF assms]]
          dl_key_def dest!: row_get_Some split: option.splits)
  qed
  then show "catalog_view ?d' a v = (if a = aid then Map.empty else catalog_view d a) v"
    using rel by (cases "row_get rel_key (a, v) (releases d)") (simp_all add: catalog_view_def)
qed

lemma merge_start_inv:
  assumes inv: "catalog_inv d" and aid: "aid \<in> app_id ` set (apps d)"
  shows "release_inv aid d (merge_start aid d)"
proof -
  let ?rs = "app_releases d aid"
  have set_rs: "set ?rs = {r \<in> set (releases d). rel_app_id r = aid}" by (simp add: app_releases_def sort_desc_def)
  have "distinct (map rel_key ?rs)"
    using catalog_invD(3) [OF inv]
    by (simp add: app_releases_def sort_desc_def pk_def rev_map [symmetric] distinct_map distinct_filter inj_on_def)
  then have "distinct (map rel_version ?rs)"
    unfolding distinct_map inj_on_def rel_key_def using set_rs by auto
  then have dist: "distinct (map fst (rev (map (\<lambda>r. (rel_version r, rel_id r)) ?rs)))"
    by (simp add: rev_map comp_def flip: rev_map)
  have "map_of (rev (map (\<lambda>r. (rel_version r, rel_id r)) ?rs)) v = Some i \<longleftrightarrow>
      map_option rel_id (row_get rel_key (aid, v) (releases d)) = Some i" for v i
    using row_get_iff [OF catalog_invD(3) [OF inv], of "(aid, v)"] set_rs
    unfolding map_of_eq_Some_iff [OF dist] by (force simp: rel_key_def)
  then have "map_of (rev (map (\<lambda>r. (rel_version r, rel_id r)) ?rs)) v = map_option rel_id (row_get rel_key (aid, v) (releases d))" for v
    by (metis option.exhaust)
  then show ?thesis
    using inv aid by (auto simp: release_inv_def merge_inv_def merge_start_def catalog_view_def offers_at_def)
qed

lemma merge_refines:
  fixes replace :: bool
  assumes "catalog_inv (db st)" and "fresh_alloc (env_alloc env)" and "get_app (db st) aid0 = Some a"
  defines "start \<equiv> if replace then Map.empty else catalog_view (db st) (app_id a)"
  shows "\<exists>n st'. apply_generated_releases env w now aid0 gens replace heal st = (Inr n, st') \<and>
    catalog_view (db st') (app_id a) = merge_spec w heal (app_id a) gens start \<and>
    (\<forall>b. b \<noteq> app_id a \<longrightarrow> catalog_view (db st') b = catalog_view (db st) b) \<and>
    catalog_inv (db st') \<and> committed st' = db st' \<and> n = card (set (map gr_version gens) - dom start)"
proof -
  let ?aid = "app_id a"
  define d where "d = (if replace then drop_releases (\<lambda>r. rel_app_id r = ?aid) (db st) else db st)"
  have d: "catalog_inv d" "?aid \<in> app_id ` set (apps d)" "catalog_view d ?aid = start"
    "\<And>b. b \<noteq> ?aid \<Longrightarrow> catalog_view d b = catalog_view (db st) b"
    using assms(1,3) drop_releases_inv [OF assms(1)] view_drop [OF assms(1), of ?aid]
    by (auto simp: d_def start_def get_app_def drop_releases_def Let_def dest!: row_get_Some)
  have start0: "mg_db (merge_start ?aid d) = d" "mg_inserted (merge_start ?aid d) = 0" by (simp_all add: merge_start_def)
  obtain m where m: "merge_releases env w now heal ?aid gens (merge_start ?aid d) = Inr m" "catalog_inv (mg_db m)"
    "catalog_view (mg_db m) ?aid = merge_spec w heal ?aid gens start"
    "\<forall>b. b \<noteq> ?aid \<longrightarrow> catalog_view (mg_db m) b = catalog_view d b"
    "mg_inserted m = card (set (map gr_version gens) - dom start)"
    using merge_releases_view [OF merge_start_inv [OF d(1,2)] d(1) assms(2), of w now heal gens]
    unfolding start0 d(3) merge_spec_def by auto
  have "db (if replace then commit (st\<lparr>db := drop_releases (\<lambda>r. rel_app_id r = ?aid) (db st)\<rparr>) else st) = d"
    by (simp add: d_def commit_def)
  then show ?thesis
    using m d(4) assms(3)
    by (auto simp: apply_generated_releases_def Let_def commit_def invalidate_catalog_def)
qed

text \<open>
  C24: the merge of scraped releases refines the abstract merge. On tables that satisfy
  their constraints it never raises; the application's view afterwards is the abstract
  merge of the scraped releases into its view before (into the empty one with \<open>replace\<close>),
  no other application's view changes, the constraints still hold, everything is
  committed, and the number returned is the number of versions that were not there.
\<close>

theorem apply_generated_releases_refines:
  fixes replace :: bool
  assumes "catalog_inv (db st)" and "fresh_alloc (env_alloc env)" and "get_app (db st) aid0 = Some a"
  defines "start \<equiv> if replace then Map.empty else catalog_view (db st) (app_id a)"
  shows "\<exists>n st'. apply_generated_releases env w now aid0 gens replace heal st = (Inr n, st') \<and>
    catalog_view (db st') (app_id a) = merge_spec w heal (app_id a) gens start \<and>
    (\<forall>b. b \<noteq> app_id a \<longrightarrow> catalog_view (db st') b = catalog_view (db st) b) \<and>
    catalog_inv (db st') \<and> committed st' = db st' \<and> n = card (set (map gr_version gens) - dom start)"
  unfolding start_def by (rule merge_refines [OF assms(1-3)])

text \<open>An application with one release, to which a scrape adds a platform and a version.\<close>

definition demo_app :: app_row where
  "demo_app = \<lparr>app_id = ''php'', app_display_name = ''PHP'', app_category = ''lang'', app_description = [],
     app_homepage = None, app_license = None, app_created_at = 0, app_updated_at = 0\<rparr>"

definition demo_catalog :: database where
  "demo_catalog = empty_db\<lparr>apps := [demo_app],
     releases := [\<lparr>rel_id = 1, rel_app_id = ''php'', rel_version = ''8.3.1'', rel_major_minor = ''8.3'',
       rel_channel = ''stable'', rel_released_at = None, rel_created_at = 0\<rparr>],
     downloads := [\<lparr>dl_id = 1, dl_release_id = 1, dl_url = ''https://old'', dl_os = ''windows'', dl_arch = ''x64'',
       dl_archive_type = ''zip'', dl_source = ''manual'', dl_headers = None, dl_sha256 = None, dl_size_bytes = None\<rparr>]\<rparr>"

definition demo_scrape :: "gen_release list" where
  "demo_scrape = [single_release ''8.3.1'' ''https://new'' ''php.net'', single_release ''8.3.2'' ''https://new2'' ''php.net'']"

lemma demo_catalog_inv: "catalog_inv demo_catalog"
  by (simp add: catalog_inv_def demo_catalog_def demo_app_def empty_db_def pk_def)

definition catalog_env :: environment where
  "catalog_env = \<lparr>env_ip_address = (\<lambda>_. None), env_trusted = TrustNets [], env_disable_webhooks = True,
     env_alloc = max_alloc, env_isoformat = show_int\<rparr>"

definition catalog_server :: app_state where
  "catalog_server = \<lparr>db = demo_catalog, committed = demo_catalog, audit_bus = new_bus, webhook_pool = [],
     revoked_cache = new_cache 30, stats_cache = new_cache 30, catalog_cache = new_cache 30,
     security_events = (\<lambda>_. 0), objects = Map.empty\<rparr>"

definition offline_web :: web where
  "offline_web = \<lparr>web_text = (\<lambda>_. None), web_json = (\<lambda>_. None), web_head = (\<lambda>_. None)\<rparr>"

lemma demo_get_app: "get_app (db catalog_server) ''php'' = Some demo_app"
  by (simp add: catalog_server_def get_app_def demo_catalog_def demo_app_def py_lower_def char_lower_def char_code_def row_get_def)

text \<open>The scrape of the example adds exactly one version, and the stored URL stays.\<close>

theorem apply_generated_releases_refines_witness:
  "\<exists>st' P. apply_generated_releases catalog_env offline_web 9 ''php'' demo_scrape False False catalog_server = (Inr 1, st') \<and>
     catalog_view (db st') ''php'' ''8.3.1'' = Some P \<and> map_option of_url (P (''windows'', ''x64'', ''zip'')) = Some ''https://old''"
proof -
  have view: "catalog_view (db catalog_server) ''php'' = [''8.3.1'' \<mapsto> offers demo_catalog 1]"
    by (auto simp: fun_eq_iff catalog_view_def catalog_server_def demo_catalog_def row_get_def rel_key_def)
  have "offers demo_catalog 1 (''windows'', ''x64'', ''zip'') =
      Some \<lparr>of_url = ''https://old'', of_source = ''manual'', of_headers = None, of_size = None\<rparr>"
    by (simp add: offers_def demo_catalog_def row_get_def dl_key_def platform_def offer_of_def)
  moreover have "fresh_alloc (env_alloc catalog_env)" by (simp add: catalog_env_def fresh_max_alloc)
  moreover have "catalog_inv (db catalog_server)" by (simp add: catalog_server_def demo_catalog_inv)
  moreover have "set (map gr_version demo_scrape) - {''8.3.1''} = {''8.3.2''}"
    by (auto simp: demo_scrape_def single_release_def)
  ultimately show ?thesis
    using apply_generated_releases_refines [of catalog_server catalog_env "''php''" demo_app offline_web 9 demo_scrape False False]
    by (auto simp: demo_get_app view merge_spec_def demo_scrape_def single_release_def put_release_def put_offer_def
        triple_def gen_dl_def offers_at_def revise_def demo_app_def)
qed

section \<open>What the merge never does\<close>

text \<open>A stored entry that works and that no own build supersedes.\<close>

definition settled :: "web \<Rightarrow> string \<Rightarrow> offer \<Rightarrow> bool" where
  "settled w aid off \<longleftrightarrow> url_is_alive w (of_url off) \<and> of_source off \<notin> set SUPERSEDED_BY_OWN_BUILDS \<and>
     (aid \<in> set MIRROR_ONLY_APPS \<longrightarrow> prefix MIRROR_URL_PREFIX (of_url off))"

definition same_source :: "offer \<Rightarrow> offer \<Rightarrow> bool" where
  "same_source x y \<longleftrightarrow> of_url x = of_url y \<and> of_source x = of_source y \<and> of_headers x = of_headers y"

lemma same_source_refl [simp]: "same_source x x"
  by (simp add: same_source_def)

text \<open>How an entry may change: kept up to its size, or given a URL that answered a probe.\<close>

definition allowed_change :: "web \<Rightarrow> bool \<Rightarrow> string \<Rightarrow> offer \<Rightarrow> offer \<Rightarrow> bool" where
  "allowed_change w heal aid old new \<longleftrightarrow>
     same_source old new \<or> (heal \<and> \<not> settled w aid old \<and> url_is_alive w (of_url new))"

lemma revise_allowed:
  assumes "allowed_change w heal aid old off"
  shows "allowed_change w heal aid old (revise w heal aid gd off)"
  using assms
  by (auto simp: allowed_change_def revise_def replaces_def settled_def same_source_def gen_offer_def)

lemma put_offer_allowed:
  assumes "P t = Some off" and "allowed_change w heal aid old off"
  shows "\<exists>off'. put_offer w heal aid start gd P t = Some off' \<and> allowed_change w heal aid old off'"
  using assms revise_allowed by (auto simp: put_offer_def split: option.splits)

lemma put_offers_allowed:
  "P t = Some off \<Longrightarrow> allowed_change w heal aid old off \<Longrightarrow>
     \<exists>off'. fold (put_offer w heal aid start) gds P t = Some off' \<and> allowed_change w heal aid old off'"
proof (induction gds arbitrary: P off)
  case (Cons gd gds)
  then show ?case using put_offer_allowed [of P t off w heal aid old start gd, OF Cons.prems] by (metis fold_simps(2))
qed auto

lemma merge_allowed:
  "cat v = Some P \<Longrightarrow> P t = Some off \<Longrightarrow> allowed_change w heal aid old off \<Longrightarrow>
     \<exists>P' off'. fold (put_release w heal aid start) gens cat v = Some P' \<and> P' t = Some off' \<and> allowed_change w heal aid old off'"
proof (induction gens arbitrary: cat P off)
  case (Cons g gens)
  have "\<exists>P' off'. put_release w heal aid start g cat v = Some P' \<and> P' t = Some off' \<and> allowed_change w heal aid old off'"
    using put_offers_allowed [of P t off w heal aid old, OF Cons.prems(2,3)] Cons.prems by (auto simp: put_release_def offers_at_def)
  with Cons.IH show ?case by (metis fold_simps(2))
qed auto

text \<open>
  C25: without \<open>replace\<close> the merge never loses a stored download, and what it may change of
  one is narrow: its URL, source and headers stay unless healing was asked for, the entry
  did not both work and stand on its own (it was dead, or superseded by an own build), and
  the new URL answered a probe.
\<close>

theorem stored_downloads_kept:
  assumes "catalog_inv (db st)" and "fresh_alloc (env_alloc env)" and "get_app (db st) aid0 = Some a"
    and "catalog_view (db st) (app_id a) v = Some P" and "P t = Some old"
  shows "\<exists>P' new. catalog_view (db (snd (apply_generated_releases env w now aid0 gens False heal st))) (app_id a) v = Some P' \<and>
    P' t = Some new \<and> allowed_change w heal (app_id a) old new"
proof -
  have "allowed_change w heal (app_id a) old old" by (simp add: allowed_change_def)
  from merge_allowed [of "catalog_view (db st) (app_id a)" v P t old, OF assms(4,5) this] merge_refines [OF assms(1-3), where replace = False and w = w and now = now and gens = gens and heal = heal]
  show ?thesis by (auto simp: merge_spec_def)
qed

theorem stored_downloads_kept_witness:
  "\<exists>P' new. catalog_view (db (snd (apply_generated_releases catalog_env offline_web 9 ''php'' demo_scrape False True catalog_server)))
     ''php'' ''8.3.1'' = Some P' \<and> P' (''windows'', ''x64'', ''zip'') = Some new \<and> of_url new = ''https://old''"
proof -
  have view: "catalog_view (db catalog_server) (app_id demo_app) ''8.3.1'' = Some (offers demo_catalog 1)"
    by (simp add: catalog_view_def catalog_server_def demo_catalog_def row_get_def rel_key_def demo_app_def)
  have "offers demo_catalog 1 (''windows'', ''x64'', ''zip'') =
      Some \<lparr>of_url = ''https://old'', of_source = ''manual'', of_headers = None, of_size = None\<rparr>"
    by (simp add: offers_def demo_catalog_def row_get_def dl_key_def platform_def offer_of_def)
  moreover have "fresh_alloc (env_alloc catalog_env)" by (simp add: catalog_env_def fresh_max_alloc)
  moreover have "catalog_inv (db catalog_server)" by (simp add: catalog_server_def demo_catalog_inv)
  ultimately show ?thesis
    using stored_downloads_kept [OF _ _ demo_get_app view, of catalog_env _ _ offline_web 9 demo_scrape True]
    by (fastforce simp: allowed_change_def same_source_def url_is_alive_def offline_web_def demo_app_def)
qed

end
