(* ===== verification/Generator_Facts.thy ===== *)
theory Generator_Facts
  imports Generators
begin

text \<open>
  What the catalog relies on of the scrapers: the GitHub generators publish at most the
  requested number of stable releases, each with a version and downloads; the binaries
  repository yields only assets of known platforms, under the label of the project's own builds; and every
  generator returns, without raising, once the page walk meets a short page.
\<close>

lemma bind_exn_Inr: "bind_exn r f = Inr y \<longleftrightarrow> (\<exists>x. r = Inr x \<and> f x = Inr y)"
  by (auto simp: bind_exn_def split: sum.splits)

lemma gather_Inr: "gather f xs = Inr ys \<Longrightarrow> y \<in> set ys \<Longrightarrow> \<exists>x \<in> set xs. f x = Inr (Some y)"
  by (induction xs arbitrary: ys) (auto simp: bind_exn_Inr split: option.splits)

lemma gather_all:
  assumes "gather f xs = Inr ys" and "\<And>x y. f x = Inr (Some y) \<Longrightarrow> P y" and "y \<in> set ys"
  shows "P y"
  using gather_Inr [OF assms(1,3)] assms(2) by blast

lemma find_in_set: "find P xs = Some x \<Longrightarrow> x \<in> set xs"
  by (auto simp: find_Some_iff)

lemma gather_length: "gather f xs = Inr ys \<Longrightarrow> length ys \<le> length xs"
  by (induction xs arbitrary: ys) (fastforce simp: bind_exn_Inr split: option.splits)+

lemma py_take_length: "0 \<le> n \<Longrightarrow> length (py_take n xs) \<le> nat n"
  by (simp add: py_take_def)

lemma set_py_take: "x \<in> set (py_take n xs) \<Longrightarrow> x \<in> set xs"
  by (auto simp: py_take_def dest: in_set_takeD split: if_splits)

section \<open>GitHub generators\<close>

lemma prerelease_drop_v:
  assumes "is_prerelease_version (dropWhile P t)"
  shows "is_prerelease_version t"
proof -
  from assms obtain p s1 w s2 ds nl where v: "dropWhile P t = p @ s1 @ w @ s2 @ ds @ nl" and "p \<noteq> []" "is_digit (last p)"
    "opt_sep s1" "py_lower w \<in> set PRERELEASE_WORDS" "opt_sep s2" "list_all is_digit ds" "nl \<in> {[], [CHR 10]}"
    unfolding is_prerelease_iff prerelease_re_def by blast
  moreover from v have "t = (takeWhile P t @ p) @ s1 @ w @ s2 @ ds @ nl"
    using takeWhile_dropWhile_id [of P t] by simp
  ultimately show ?thesis
    unfolding is_prerelease_iff prerelease_re_def by (metis Nil_is_append_conv last_appendR)
qed

lemma stable_release_tag:
  assumes "stable_release rel0 = Inr (Some rel)" and "dget_str rel ''tag_name'' = Inr t"
  shows "\<not> is_prerelease_version t"
proof -
  from assms(1) obtain u where u: "dget_or_empty rel ''tag_name'' = Inr u" "\<not> is_prerelease_version u"
    by (auto simp: stable_release_def bind_exn_Inr split: if_splits)
  have "\<not> is_prerelease_version []" by (simp add: is_prerelease_version_def prerelease_end_def PRERELEASE_WORDS_def)
  then show ?thesis
    using u assms(2)
    by (auto simp: dget_str_def dget_or_empty_def bind_exn_Inr dget_def as_str_def
        split: json.splits option.splits if_splits)
qed

lemma github_releases_stable:
  assumes "github_releases w repo limit = Inr rels" and "0 \<le> limit"
  shows "length rels \<le> nat limit"
    and "rel \<in> set rels \<Longrightarrow> dget_str rel ''tag_name'' = Inr t \<Longrightarrow> \<not> is_prerelease_version t"
  using assms
  by (auto simp: github_releases_def bind_exn_Inr py_take_length split: option.splits
      dest!: set_py_take gather_Inr dest: stable_release_tag)

lemma tagged_release_Some:
  assumes "tagged_release pick rel = Inr (Some g)"
  obtains t where "dget_str rel ''tag_name'' = Inr t" and "gr_version g = dropWhile (\<lambda>c. c = CHR ''v'') t"
    and "gr_version g \<noteq> []" and "gr_channel g = ''stable''" and "gr_downloads g \<noteq> []"
  using assms by (auto simp: tagged_release_def bind_exn_Inr Let_def simp del: dropWhile_eq_Nil_conv split: if_splits)

definition stable_listing :: "int \<Rightarrow> gen_release list \<Rightarrow> bool" where
  "stable_listing limit rs \<longleftrightarrow> length rs \<le> nat limit \<and> (\<forall>g \<in> set rs. gr_version g \<noteq> [] \<and>
     \<not> is_prerelease_version (gr_version g) \<and> gr_channel g = ''stable'' \<and> gr_downloads g \<noteq> [])"

lemma github_generator_stable:
  assumes "github_generator pick repo w limit = Some (Inr rs)" and "0 \<le> limit"
  shows "stable_listing limit rs"
proof -
  from assms(1) obtain rels where rels: "github_releases w repo limit = Inr rels" "gather (tagged_release pick) rels = Inr rs"
    by (auto simp: github_generator_def bind_exn_Inr)
  have "gr_version g \<noteq> [] \<and> \<not> is_prerelease_version (gr_version g) \<and> gr_channel g = ''stable'' \<and> gr_downloads g \<noteq> []"
    if g: "g \<in> set rs" for g
  proof -
    from gather_Inr [OF rels(2) g] obtain rel where rel: "rel \<in> set rels" "tagged_release pick rel = Inr (Some g)" by blast
    from rel(2) show ?thesis
      by (elim tagged_release_Some)
         (metis prerelease_drop_v github_releases_stable(2) [OF rels(1) assms(2) rel(1)])
  qed
  then show ?thesis
    using github_releases_stable(1) [OF rels(1) assms(2)] gather_length [OF rels(2)]
    by (simp add: stable_listing_def)
qed

definition GITHUB_APPS :: "string list" where
  "GITHUB_APPS = [''cloudflared'', ''mailpit'', ''caddy'', ''redis'', ''mkcert'', ''composer'']"

lemma github_app:
  assumes "app \<in> set GITHUB_APPS"
  obtains pick repo where "map_of GENERATORS (py_lower app) = Some (github_generator pick repo)"
  using assms
  by (auto simp: GITHUB_APPS_def GENERATORS_def py_lower_def char_lower_def char_code_def
      generate_cloudflared_def generate_mailpit_def generate_caddy_def generate_redis_def generate_mkcert_def
      generate_composer_def)

text \<open>
  For each application that is scraped from GitHub releases, whatever GitHub answers,
  the generator returns at most \<open>limit\<close> releases, none of them an alpha, beta or release
  candidate, all on the stable channel, each with a version and at least one download;
  an answer it cannot read gives no release and no exception.
\<close>

lemma github_generators_stable:
  assumes "app \<in> set GITHUB_APPS" and "0 \<le> limit"
  shows "\<exists>rs. run_generator w app limit = Some rs \<and> stable_listing limit rs"
proof -
  obtain pick repo where "map_of GENERATORS (py_lower app) = Some (github_generator pick repo)"
    using assms(1) by (rule github_app)
  moreover obtain r where r: "github_generator pick repo w limit = Some r" by (simp add: github_generator_def)
  moreover have "stable_listing limit []" by (simp add: stable_listing_def)
  ultimately show ?thesis
    using github_generator_stable [OF _ assms(2)] by (cases r) (auto simp: run_generator_def)
qed

definition offline :: web where
  "offline = \<lparr>web_text = (\<lambda>_. None), web_json = (\<lambda>_. None), web_head = (\<lambda>_. None)\<rparr>"

text \<open>A web with one composer release and one release candidate.\<close>

definition composer_web :: web where
  "composer_web = offline\<lparr>web_json := (\<lambda>_. Some (JList
     [JObj [(''tag_name'', JStr ''2.9.0-RC1'')], JObj [(''tag_name'', JStr ''2.8.1'')]]))\<rparr>"

lemma github_generators_stable_witness:
  "\<exists>rs. run_generator composer_web ''composer'' 5 = Some rs \<and> stable_listing 5 rs"
  using github_generators_stable [of "''composer''" 5 composer_web] by (simp add: GITHUB_APPS_def)

section \<open>The page walk\<close>

definition own_asset :: "gen_download \<Rightarrow> bool" where
  "own_asset d \<longleftrightarrow> gd_source d = OWN_BUILD_SOURCE \<and> gd_os d \<in> set ASSET_OS \<and>
     (gd_arch d, gd_archive_type d) \<in> set ASSET_ARCH_EXT"

definition own_release :: "gen_release \<Rightarrow> bool" where
  "own_release g \<longleftrightarrow> gr_downloads g \<noteq> [] \<and> (\<forall>d \<in> set (gr_downloads g). own_asset d)"

lemma extract_triple_known:
  "extract_triple_from_asset_name name = Some (os, arch, ext) \<Longrightarrow> os \<in> set ASSET_OS"
  "extract_triple_from_asset_name name = Some (os, arch, ext) \<Longrightarrow> (arch, ext) \<in> set ASSET_ARCH_EXT"
  by (auto simp: extract_triple_from_asset_name_def split: list.splits if_splits option.splits dest!: find_in_set)

lemma binaries_asset_own: "binaries_asset a = Inr (Some d) \<Longrightarrow> own_asset d"
  by (auto simp: binaries_asset_def bind_exn_Inr own_asset_def gen_dl_def extract_triple_known split: option.splits)

lemma binaries_release_own: "binaries_release app rel = Inr (Some g) \<Longrightarrow> own_release g"
  by (auto simp: binaries_release_def bind_exn_Inr Let_def own_release_def split: if_splits
      elim!: gather_all [where P = own_asset] intro: binaries_asset_own)

lemma binaries_page_own: "gather (binaries_release app) data = Inr rels \<Longrightarrow> \<forall>g \<in> set rels. own_release g"
  using gather_all [of "binaries_release app" data rels own_release] binaries_release_own by blast

definition page_ends :: "web \<Rightarrow> nat \<Rightarrow> bool" where
  "page_ends w page = (case binaries_page w page of None \<Rightarrow> True | Some data \<Rightarrow> length data < 100)"

lemma binaries_walk_returns:
  assumes "page_ends w (page + n)" and "\<forall>g \<in> set acc. own_release g"
  shows "\<exists>r. binaries_walk w app limit page acc = Some r \<and> (\<forall>rs. r = Inr rs \<longrightarrow> (\<forall>g \<in> set rs. own_release g))"
  using assms
proof (induction n arbitrary: page acc)
  case 0
  then show ?case
    by (subst binaries_walk.simps)
       (auto simp: page_ends_def split: option.splits sum.splits dest!: binaries_page_own)
next
  case (Suc n)
  have step: "\<exists>r. binaries_walk w app limit (Suc page) (acc @ rels) = Some r \<and>
      (\<forall>rs. r = Inr rs \<longrightarrow> (\<forall>g \<in> set rs. own_release g))" if "gather (binaries_release app) data = Inr rels" for rels data
    using Suc.IH [of "Suc page" "acc @ rels"] Suc.prems binaries_page_own [OF that] by fastforce
  then show ?case
    using Suc.prems(2)
    by (subst binaries_walk.simps)
       (auto split: option.splits sum.splits dest!: binaries_page_own)
qed

lemma binaries_repo_returns:
  assumes "page_ends w page" and "1 \<le> page"
  shows "\<exists>r. generate_from_binaries_repo w app limit = Some r \<and> (\<forall>rs. r = Inr rs \<longrightarrow> (\<forall>g \<in> set rs. own_release g))"
  using binaries_walk_returns [of w 1 "page - 1" "[]" app limit] assms
  by (simp add: generate_from_binaries_repo_def)

lemma generator_returns:
  assumes "page_ends w page" and "1 \<le> page" and "(k, gen) \<in> set GENERATORS"
  shows "\<exists>r. gen w limit = Some r"
proof -
  have "\<exists>r. generate_from_binaries_repo w app limit = Some r" for app
    using binaries_repo_returns [OF assms(1,2)] by blast
  then show ?thesis
  using assms(3)
  by (auto simp: GENERATORS_def generate_cloudflared_def generate_mailpit_def generate_caddy_def generate_redis_def
      generate_mkcert_def generate_composer_def github_generator_def generate_php_def generate_apache_def
      generate_nginx_def generate_mariadb_def generate_mysql_def generate_postgresql_def generate_node_def Let_def
      split: option.splits)
qed

lemma run_generator_Some:
  assumes "page_ends w page" and "1 \<le> page"
  shows "\<exists>rs. run_generator w app limit = Some rs"
proof (cases "map_of GENERATORS (py_lower app)")
  case (Some gen)
  then obtain r where "gen w limit = Some r" using generator_returns [OF assms] map_of_SomeD by fast
  with Some show ?thesis by (cases r) (simp_all add: run_generator_def)
qed (simp add: run_generator_def)

text \<open>
  C23: if some page of the binaries repository is missing, empty or short, then every
  generator returns without raising, for every application and limit; the walk over the pages returns as
  well, and each release it yields has downloads, all labelled as own builds and for a
  known platform.
\<close>

theorem run_generator_returns:
  assumes "page_ends w page" and "1 \<le> page"
  shows "(\<exists>rs. run_generator w app limit = Some rs) \<and>
    (\<exists>r. generate_from_binaries_repo w app limit = Some r \<and> (\<forall>rs. r = Inr rs \<longrightarrow> (\<forall>g \<in> set rs. own_release g)))"
  using run_generator_Some [OF assms] binaries_repo_returns [OF assms] by blast

text \<open>A repository with one release of one build on its first page.\<close>

definition apache_web :: web where
  "apache_web = offline\<lparr>web_json := (\<lambda>_. Some (JList [JObj [(''tag_name'', JStr ''binaries-apache-2.4.63''),
     (''assets'', JList [JObj [(''name'', JStr ''apache-2.4.63-windows-x64.zip''),
        (''browser_download_url'', JStr ''https://example.org/a.zip''), (''size'', JInt 12000000)]])]]))\<rparr>"

theorem run_generator_returns_witness:
  "page_ends apache_web 1 \<and> (\<exists>rs. run_generator apache_web ''apache'' 5 = Some rs)"
proof -
  have "page_ends apache_web 1"
    by (simp add: page_ends_def binaries_page_def apache_web_def)
  then show ?thesis using run_generator_returns [of apache_web 1 "''apache''" 5] by blast
qed

end
