(* ===== verification/Catalog_Api.thy ===== *)
theory Catalog_Api
  imports Catalog_Merge Generator_Facts "HOL-Library.AList"
begin

text \<open>
  The public endpoint (\<^verbatim>\<open>app/api_catalog.py\<close>) with its in-process cache, and the
  file-backed store (\<^verbatim>\<open>app/catalog.py\<close>). The JSON rendering of a document and the
  digest are parameters. The cache is shared with the edits of the service layer, which
  invalidate it: the invariant of this theory is that a cached page always shows the
  current tables.
\<close>

section \<open>The endpoint\<close>

record catalog_lib =
  cl_dump :: "catalog_document \<Rightarrow> string"
  cl_dump_content :: "string \<Rightarrow> (string \<times> app_doc) list \<Rightarrow> string"
  cl_sha256_hex :: "string \<Rightarrow> string"

record catalog_response =
  cr_status :: nat
  cr_etag :: string
  cr_body :: "string option"

definition etag_of :: "catalog_lib \<Rightarrow> catalog_document \<Rightarrow> string" where
  "etag_of cl doc = [CHR 34] @ take 16 (cl_sha256_hex cl (cl_dump_content cl (cd_schema_version doc) (cd_apps doc))) @ [CHR 34]"

definition stable_entry :: "int \<Rightarrow> catalog_entry ttl_cache \<Rightarrow> (string \<times> string option) option" where
  "stable_entry t c = (case cache_get t c ''stable'' of Some (Stable e g) \<Rightarrow> Some (e, g) | _ \<Rightarrow> None)"

text \<open>The refresh after a miss: reuse the timestamp of equal content, store the page.\<close>

definition refresh_page ::
  "catalog_lib \<Rightarrow> int \<Rightarrow> catalog_document \<Rightarrow> catalog_entry ttl_cache \<Rightarrow> (string \<times> string) \<times> catalog_entry ttl_cache" where
  "refresh_page cl t doc c =
     (let etag = etag_of cl doc;
          (gen, c1) = (case stable_entry t c of
              Some (e, g) \<Rightarrow> if e = etag then (g, c)
                else (cd_generated_at doc, cache_set t c ''stable'' (Stable etag (cd_generated_at doc)) (Some (24 * 3600)))
            | None \<Rightarrow> (cd_generated_at doc, cache_set t c ''stable'' (Stable etag (cd_generated_at doc)) (Some (24 * 3600))));
          body = cl_dump cl (doc\<lparr>cd_generated_at := gen\<rparr>)
      in ((etag, body), cache_set t c1 ''catalog'' (Page etag body) None))"

definition respond :: "string option \<Rightarrow> string \<times> string \<Rightarrow> catalog_response" where
  "respond if_none_match = (\<lambda>(etag, body).
     if if_none_match = Some etag then \<lparr>cr_status = 304, cr_etag = etag, cr_body = None\<rparr>
     else \<lparr>cr_status = 200, cr_etag = etag, cr_body = Some body\<rparr>)"

definition api_get_catalog ::
  "catalog_lib \<Rightarrow> environment \<Rightarrow> int \<Rightarrow> instant \<Rightarrow> string option \<Rightarrow> catalog_response handler" where
  "api_get_catalog cl env t now if_none_match st =
     (case cache_get t (catalog_cache st) ''catalog'' of
        Some (Page etag body) \<Rightarrow> (Inr (respond if_none_match (etag, body)), st)
      | _ \<Rightarrow>
        (case build_catalog_document env now (db st) of Inl e \<Rightarrow> (Inl e, st)
         | Inr doc \<Rightarrow>
           (let (page, c) = refresh_page cl t doc (catalog_cache st)
            in (Inr (respond if_none_match page), st\<lparr>catalog_cache := c\<rparr>))))"

definition api_get_app :: "string \<Rightarrow> app_doc handler" where
  "api_get_app name st =
     (case get_app_document (db st) name of Inl e \<Rightarrow> (Inl e, st)
      | Inr None \<Rightarrow> (Inl (HTTPException 404 (''Unknown app '' @ name)), st)
      | Inr (Some doc) \<Rightarrow> (Inr doc, st))"

section \<open>The operations as steps\<close>

datatype catalog_call =
    CreateApp string string string string "string option" "string option"
  | UpdateApp string "string option" "string option" "string option" "string option" "string option"
  | DeleteApp string
  | AddRelease string string string string "string option"
  | DeleteRelease int
  | AddDownload int string string string string string "json option"
  | DeleteDownload int
  | ApplyGenerated string "gen_release list" bool bool
  | GetCatalog int "string option"

fun catalog_serve :: "catalog_lib \<Rightarrow> environment \<Rightarrow> web \<Rightarrow> instant \<Rightarrow> catalog_call \<Rightarrow> unit handler" where
  "catalog_serve cl env w now (CreateApp a dn c ds h l) st = void (create_app now a dn c ds h l st)"
| "catalog_serve cl env w now (UpdateApp a dn c ds h l) st = void (update_app now a dn c ds h l st)"
| "catalog_serve cl env w now (DeleteApp a) st = void (delete_app a st)"
| "catalog_serve cl env w now (AddRelease a v mm ch at) st = void (add_release env now a v mm ch at st)"
| "catalog_serve cl env w now (DeleteRelease i) st = void (delete_release i st)"
| "catalog_serve cl env w now (AddDownload i u os ar ty s h) st = void (add_download env i u os ar ty s h st)"
| "catalog_serve cl env w now (DeleteDownload i) st = void (delete_download i st)"
| "catalog_serve cl env w now (ApplyGenerated a gens rep heal) st = void (apply_generated_releases env w now a gens rep heal st)"
| "catalog_serve cl env w now (GetCatalog t inm) st = void (api_get_catalog cl env t now inm st)"

inductive catalog_step :: "catalog_lib \<Rightarrow> app_state \<Rightarrow> app_state \<Rightarrow> bool" for cl where
  call: "fresh_alloc (env_alloc env) \<Longrightarrow> catalog_step cl st (snd (get_session (catalog_serve cl env w now c) st))"

section \<open>The invariant\<close>

text \<open>A page of the cache, live or not, was rendered from the tables as they are now.\<close>

definition page_current :: "catalog_lib \<Rightarrow> app_state \<Rightarrow> bool" where
  "page_current cl st \<longleftrightarrow> (\<forall>e. cache_store (catalog_cache st) ''catalog'' = Some e \<longrightarrow>
     (\<exists>docs gen. catalog_apps (db st) = Inr docs \<and> ttl_value e =
        Page (etag_of cl \<lparr>cd_schema_version = ''1'', cd_generated_at = gen, cd_apps = docs\<rparr>)
             (cl_dump cl \<lparr>cd_schema_version = ''1'', cd_generated_at = gen, cd_apps = docs\<rparr>)))"

definition catalog_ok :: "catalog_lib \<Rightarrow> app_state \<Rightarrow> bool" where
  "catalog_ok cl st \<longleftrightarrow> committed st = db st \<and> catalog_inv (db st) \<and> page_current cl st"

lemma page_current_invalidate: "page_current cl (invalidate_catalog st)"
  by (simp add: page_current_def invalidate_catalog_def cache_invalidate_def)

lemma commit_edit_ok: "catalog_inv d \<Longrightarrow> catalog_ok cl (commit_edit d st)"
  unfolding catalog_ok_def commit_edit_def
  by (simp add: page_current_invalidate) (simp add: invalidate_catalog_def commit_def)

lemma insert_app_inv: "insert_app a d = Inr d' \<Longrightarrow> catalog_inv d \<Longrightarrow> catalog_inv d'"
  by (auto simp: insert_app_def catalog_inv_def pk_add split: if_splits)

lemma update_app_inv:
  assumes "catalog_inv d" and "app_id b = app_id a"
  shows "catalog_inv (d\<lparr>apps := row_set app_id (app_id a) (\<lambda>_. b) (apps d)\<rparr>)"
proof -
  have "map app_id (row_set app_id (app_id a) (\<lambda>_. b) (apps d)) = map app_id (apps d)"
    using assms(2) by (simp add: row_set_def)
  then have "pk app_id (row_set app_id (app_id a) (\<lambda>_. b) (apps d)) \<longleftrightarrow> pk app_id (apps d)"
    and "app_id ` set (row_set app_id (app_id a) (\<lambda>_. b) (apps d)) = app_id ` set (apps d)"
    by (simp_all only: pk_def) (metis list.set_map)
  then show ?thesis using assms(1) by (simp add: catalog_inv_def)
qed

lemma delete_app_inv:
  assumes "catalog_inv d"
  shows "catalog_inv ((drop_releases (\<lambda>r. rel_app_id r = aid) d)\<lparr>apps := row_del app_id aid (apps d)\<rparr>)"
  using drop_releases_inv [OF assms, of "\<lambda>r. rel_app_id r = aid"] assms
  by (auto simp: catalog_inv_def drop_releases_def Let_def pk_del set_row_del)

lemma delete_download_inv:
  "catalog_inv d \<Longrightarrow> catalog_inv (d\<lparr>downloads := row_del dl_id i (downloads d)\<rparr>)"
  by (auto simp: catalog_inv_def pk_del set_row_del row_del_def intro: pk_filter)

section \<open>A merge that counts nothing changes nothing\<close>

definition merge_quiet :: "merge \<Rightarrow> merge \<Rightarrow> bool" where
  "merge_quiet m m' \<longleftrightarrow>
     (mg_inserted m' = 0 \<and> mg_added m' = 0 \<and> mg_healed m' = 0 \<and> mg_refreshed m' = 0 \<longrightarrow>
      mg_inserted m = 0 \<and> mg_added m = 0 \<and> mg_healed m = 0 \<and> mg_refreshed m = 0 \<and> mg_db m' = mg_db m)"

lemma merge_quiet_trans: "merge_quiet m m1 \<Longrightarrow> merge_quiet m1 m2 \<Longrightarrow> merge_quiet m m2"
  by (auto simp: merge_quiet_def)

lemma seen_triples_quiet: "merge_quiet m (snd (seen_triples rid m)) \<and> mg_inserted (snd (seen_triples rid m)) = mg_inserted m"
  by (auto simp: merge_quiet_def seen_triples_def Let_def split: option.splits)

lemma merge_download_quiet:
  assumes "merge_download env w heal is_new aid rid gd m = Inr m'" and "is_new \<Longrightarrow> mg_inserted m \<noteq> 0"
  shows "merge_quiet m m' \<and> mg_inserted m' = mg_inserted m"
proof -
  obtain bucket m1 where m1: "seen_triples rid m = (bucket, m1)" by fastforce
  have q: "merge_quiet m m1" "mg_inserted m1 = mg_inserted m" using seen_triples_quiet [of m rid] m1 by auto
  have "merge_quiet m1 m' \<and> mg_inserted m' = mg_inserted m1"
    using assms q(2)
    by (auto simp: merge_download_def m1 Let_def merge_quiet_def heal_url_def refresh_size_def set_download_def
        split: if_splits option.splits sum.splits)
  with q merge_quiet_trans show ?thesis by metis
qed

lemma merge_downloads_quiet:
  "merge_downloads env w heal is_new aid rid gds m = Inr m' \<Longrightarrow> (is_new \<Longrightarrow> mg_inserted m \<noteq> 0) \<Longrightarrow>
     merge_quiet m m' \<and> mg_inserted m' = mg_inserted m"
proof (induction gds arbitrary: m)
  case (Cons gd gds)
  then obtain m1 where m1: "merge_download env w heal is_new aid rid gd m = Inr m1"
    "merge_downloads env w heal is_new aid rid gds m1 = Inr m'" by (auto simp: bind_exn_def split: sum.splits)
  from merge_download_quiet [OF m1(1) Cons.prems(2)] Cons.IH [OF m1(2)] Cons.prems(2)
  show ?case by (auto intro: merge_quiet_trans)
qed (simp add: merge_quiet_def)

lemma merge_releases_quiet:
  "merge_releases env w now heal aid gens m = Inr m' \<Longrightarrow> merge_quiet m m' \<and> mg_inserted m \<le> mg_inserted m'"
proof (induction gens arbitrary: m)
  case (Cons g gens)
  then obtain rid is_new m1 m2 where steps: "merge_release env now aid g m = Inr (rid, is_new, m1)"
    "merge_downloads env w heal is_new aid rid (gr_downloads g) (snd (seen_triples rid m1)) = Inr m2"
    "merge_releases env w now heal aid gens m2 = Inr m'" by (auto simp: bind_exn_def split: sum.splits)
  have rel: "(is_new \<longrightarrow> mg_inserted m1 \<noteq> 0) \<and> merge_quiet m m1 \<and> mg_inserted m \<le> mg_inserted m1"
    using steps(1) by (auto simp: merge_release_def merge_quiet_def Let_def bind_exn_def split: option.splits sum.splits)
  have "merge_quiet (snd (seen_triples rid m1)) m2 \<and> mg_inserted m2 = mg_inserted m1"
    using merge_downloads_quiet [OF steps(2)] rel seen_triples_quiet [of m1 rid] by simp
  with rel seen_triples_quiet [of m1 rid] Cons.IH [OF steps(3)] show ?case by (auto intro: merge_quiet_trans)
qed (simp add: merge_quiet_def)

section \<open>Every operation keeps the invariant\<close>

text \<open>An operation commits consistent tables, or leaves them and the page as they were.\<close>

definition kept :: "catalog_lib \<Rightarrow> app_state \<Rightarrow> app_state \<Rightarrow> bool" where
  "kept cl st st' \<longleftrightarrow> catalog_ok cl st' \<or> committed st' = committed st \<and> db st' = db st \<and> page_current cl st'"

lemma kept_refl: "page_current cl st \<Longrightarrow> kept cl st st"
  by (simp add: kept_def)

lemma kept_edit: "catalog_inv d \<Longrightarrow> kept cl st (commit_edit d st')"
  by (simp add: kept_def commit_edit_ok)

lemma apply_kept:
  assumes inv: "catalog_inv (db st)" and page: "page_current cl st" and alloc: "fresh_alloc (env_alloc env)"
    and run: "apply_generated_releases env w now aid0 gens rep heal st = (r, st')"
  shows "kept cl st st'"
proof (cases "get_app (db st) aid0")
  case None
  with run page show ?thesis by (simp add: apply_generated_releases_def kept_refl)
next
  case (Some a)
  from merge_refines [OF inv alloc Some, where replace = rep and w = w and now = now and gens = gens and heal = heal] run
  obtain n where st': "catalog_inv (db st')" "committed st' = db st'" and n: "r = Inr n" by auto
  show ?thesis
  proof (cases "page_current cl st'")
    case False
    then have "\<not> rep" and "catalog_cache st' = catalog_cache st" and "db st' = db st"
      using run Some n merge_releases_quiet [of env w now heal "app_id a" gens "merge_start (app_id a) (db st)"]
      by (auto simp: apply_generated_releases_def Let_def commit_def page_current_invalidate merge_quiet_def merge_start_def
          split: sum.splits if_splits)
    with page have "page_current cl st'" by (simp add: page_current_def)
    with False show ?thesis by blast
  qed (use st' in \<open>simp add: catalog_ok_def kept_def\<close>)
qed

lemma refresh_page_store:
  assumes "refresh_page cl t doc c = ((etag, body), c')"
  obtains gen e where "etag = etag_of cl doc" and "body = cl_dump cl (doc\<lparr>cd_generated_at := gen\<rparr>)"
    and "cache_store c' ''catalog'' = Some e" and "ttl_value e = Page etag body"
proof -
  define hit where "hit = (case stable_entry t c of Some (e, g) \<Rightarrow> e = etag_of cl doc | None \<Rightarrow> False)"
  define gen where "gen = (if hit then snd (the (stable_entry t c)) else cd_generated_at doc)"
  have "etag = etag_of cl doc" "body = cl_dump cl (doc\<lparr>cd_generated_at := gen\<rparr>)"
    "\<exists>e. cache_store c' ''catalog'' = Some e \<and> ttl_value e = Page etag body"
    using assms by (auto simp: refresh_page_def Let_def cache_set_def gen_def hit_def split: option.splits if_splits)
  then show ?thesis using that by blast
qed

lemma etag_of_generated_at [simp]: "etag_of cl (doc\<lparr>cd_generated_at := g\<rparr>) = etag_of cl doc"
  by (simp add: etag_of_def)

lemma get_catalog_kept:
  assumes "page_current cl st" and "api_get_catalog cl env t now inm st = (r, st')"
  shows "kept cl st st'"
proof (cases "st' = st")
  case False
  then obtain doc page c where doc: "build_catalog_document env now (db st) = Inr doc"
    and page: "refresh_page cl t doc (catalog_cache st) = (page, c)" and st': "st' = st\<lparr>catalog_cache := c\<rparr>"
    using assms(2) by (auto simp: api_get_catalog_def Let_def split: option.splits catalog_entry.splits sum.splits prod.splits)
  obtain docs where docs: "catalog_apps (db st) = Inr docs"
    "doc = \<lparr>cd_schema_version = ''1'', cd_generated_at = Some (env_isoformat env now), cd_apps = docs\<rparr>"
    using doc by (auto simp: build_catalog_document_def bind_exn_def split: sum.splits)
  have "page_current cl st'"
    using page docs by (cases page) (auto simp: st' page_current_def etag_of_def elim!: refresh_page_store)
  then show ?thesis by (auto simp: kept_def st')
qed (use assms in \<open>simp add: kept_refl\<close>)

lemma catalog_serve_kept:
  assumes inv: "catalog_inv (db st)" and page: "page_current cl st"
    and alloc: "fresh_alloc (env_alloc env)" and run: "catalog_serve cl env w now c st = (r, st')"
  shows "kept cl st st'"
proof -
  note ok = kept_refl [OF page]
  show ?thesis
  proof (cases c)
    case (CreateApp a dn ca ds h l)
    with run ok inv show ?thesis
      by (auto simp: void_def create_app_def Let_def insert_app_inv kept_edit split: prod.splits sum.splits if_splits)
  next
    case (UpdateApp a dn ca ds h l)
    have "app_id (updated_app now dn ca ds h l x) = app_id x" for x by (simp add: updated_app_def Let_def)
    with UpdateApp run ok inv show ?thesis
      by (auto simp: void_def update_app_def Let_def update_app_inv kept_edit split: prod.splits sum.splits option.splits)
  next
    case (DeleteApp a)
    have "apps (drop_releases P d) = apps d" for P d by (simp add: drop_releases_def Let_def)
    with DeleteApp run ok inv show ?thesis
      by (auto simp: void_def delete_app_def Let_def delete_app_inv kept_edit split: prod.splits sum.splits option.splits)
  next
    case (AddRelease a v mm ch at)
    with run ok inv show ?thesis
      by (auto simp: void_def add_release_def Let_def insert_release_inv kept_edit split: prod.splits sum.splits option.splits)
  next
    case (DeleteRelease i)
    with run ok inv show ?thesis
      by (auto simp: void_def delete_release_def drop_releases_inv kept_edit split: prod.splits sum.splits option.splits)
  next
    case (AddDownload i u os ar ty s h)
    with run ok inv show ?thesis
      by (auto simp: void_def add_download_def Let_def insert_download_inv kept_edit split: prod.splits sum.splits option.splits)
  next
    case (DeleteDownload i)
    with run ok inv show ?thesis
      by (auto simp: void_def delete_download_def delete_download_inv kept_edit split: prod.splits sum.splits option.splits)
  next
    case (ApplyGenerated a gens rep heal)
    with run apply_kept [OF inv page alloc] show ?thesis by (auto dest: void_state)
  next
    case (GetCatalog t inm)
    with run get_catalog_kept [OF page] show ?thesis by (auto dest: void_state)
  qed
qed

lemma apply_ok:
  assumes "catalog_ok cl st" "fresh_alloc (env_alloc env)" "apply_generated_releases env w now aid0 gens rep heal st = (r, st')"
  shows "catalog_ok cl st'"
  using apply_kept [where cl = cl, OF _ _ assms(2,3)] assms(1) by (auto simp: kept_def catalog_ok_def)

lemma catalog_serve_ok:
  assumes "catalog_ok cl st" "fresh_alloc (env_alloc env)" "catalog_serve cl env w now c st = (r, st')"
  shows "catalog_ok cl st'"
  using catalog_serve_kept [where cl = cl, OF _ _ assms(2,3)] assms(1) by (auto simp: kept_def catalog_ok_def)

lemma catalog_step_ok:
  assumes "catalog_ok cl st" and "catalog_step cl st st'"
  shows "catalog_ok cl st'"
  using assms(2)
proof cases
  case (call env w now c)
  obtain r st1 where run: "catalog_serve cl env w now c st = (r, st1)" by fastforce
  with catalog_serve_ok [OF assms(1) call(2)] have "catalog_ok cl st1" by blast
  moreover then have "st1\<lparr>db := committed st1\<rparr> = st1" and "st1\<lparr>committed := db st1\<rparr> = st1" by (simp_all add: catalog_ok_def)
  ultimately show ?thesis using call(1) run by (cases r) (simp_all add: get_session_def rollback_def commit_def)
qed

interpretation catalog: inv_system "catalog_step cl" "catalog_ok cl" for cl
  by unfold_locales (rule catalog_step_ok)

lemma served_current:
  assumes "page_current cl st" and "catalog_apps (db st) = Inr docs"
  shows "\<exists>gen st'. let doc = \<lparr>cd_schema_version = ''1'', cd_generated_at = gen, cd_apps = docs\<rparr> in
    api_get_catalog cl env t now inm st =
      (Inr (if inm = Some (etag_of cl doc) then \<lparr>cr_status = 304, cr_etag = etag_of cl doc, cr_body = None\<rparr>
            else \<lparr>cr_status = 200, cr_etag = etag_of cl doc, cr_body = Some (cl_dump cl doc)\<rparr>), st') \<and>
    db st' = db st"
proof (cases "\<exists>etag body. cache_get t (catalog_cache st) ''catalog'' = Some (Page etag body)")
  case True
  then obtain etag body where hit: "cache_get t (catalog_cache st) ''catalog'' = Some (Page etag body)" by blast
  then obtain e where "cache_store (catalog_cache st) ''catalog'' = Some e" "ttl_value e = Page etag body"
    by (auto simp: cache_get_def split: option.splits if_splits)
  with hit assms show ?thesis
    by (auto simp: page_current_def api_get_catalog_def respond_def Let_def)
next
  case False
  let ?doc = "\<lparr>cd_schema_version = ''1'', cd_generated_at = Some (env_isoformat env now), cd_apps = docs\<rparr>"
  have "build_catalog_document env now (db st) = Inr ?doc" using assms(2) by (simp add: build_catalog_document_def bind_exn_def)
  moreover obtain etag body c where page: "refresh_page cl t ?doc (catalog_cache st) = ((etag, body), c)" by (metis surj_pair)
  ultimately have "api_get_catalog cl env t now inm st = (Inr (respond inm (etag, body)), st\<lparr>catalog_cache := c\<rparr>)"
    using False by (auto simp: api_get_catalog_def split: option.splits catalog_entry.splits)
  with page show ?thesis by (auto simp: respond_def Let_def etag_of_def elim!: refresh_page_store)
qed

text \<open>
  C26: the catalog is served current. After any sequence of edits, merges and reads, from
  a consistent start, the endpoint answers with the content of the tables as they are
  now, cached or not: its ETag is the digest of that content, a client that presents this
  ETag gets 304 without a body, any other client gets 200 with the rendered content, and
  the tables are not touched.
\<close>

theorem catalog_served_current:
  assumes "(catalog_step cl)\<^sup>*\<^sup>* st0 st" and "catalog_ok cl st0" and "catalog_apps (db st) = Inr docs"
  shows "\<exists>gen st'. let doc = \<lparr>cd_schema_version = ''1'', cd_generated_at = gen, cd_apps = docs\<rparr> in
    api_get_catalog cl env t now inm st =
      (Inr (if inm = Some (etag_of cl doc) then \<lparr>cr_status = 304, cr_etag = etag_of cl doc, cr_body = None\<rparr>
            else \<lparr>cr_status = 200, cr_etag = etag_of cl doc, cr_body = Some (cl_dump cl doc)\<rparr>), st') \<and>
    db st' = db st"
proof -
  have "catalog_ok cl st" using catalog.reach_inv [OF assms(1,2)] .
  then show ?thesis using assms(3) by (intro served_current) (simp_all add: catalog_ok_def)
qed

definition demo_catalog_lib :: catalog_lib where
  "demo_catalog_lib = \<lparr>cl_dump = (\<lambda>d. show_nat (length (cd_apps d))), cl_dump_content = (\<lambda>v as. show_nat (length as)),
     cl_sha256_hex = (\<lambda>s. s)\<rparr>"

lemma download_table_empty: "downloads (d\<lparr>downloads := []\<rparr>) = []"
  by simp

text \<open>The example: the only download is deleted, and the page is read.\<close>

theorem catalog_served_current_witness:
  "\<exists>st docs gen st'. (catalog_step demo_catalog_lib)\<^sup>*\<^sup>* catalog_server st \<and> downloads (db st) = [] \<and> catalog_apps (db st) = Inr docs \<and>
     api_get_catalog demo_catalog_lib catalog_env 5 5 None st = (Inr \<lparr>cr_status = 200,
       cr_etag = etag_of demo_catalog_lib \<lparr>cd_schema_version = ''1'', cd_generated_at = gen, cd_apps = docs\<rparr>,
       cr_body = Some (cl_dump demo_catalog_lib \<lparr>cd_schema_version = ''1'', cd_generated_at = gen, cd_apps = docs\<rparr>)\<rparr>, st')"
proof -
  let ?st = "snd (get_session (catalog_serve demo_catalog_lib catalog_env offline_web 0 (DeleteDownload 1)) catalog_server)"
  have alloc: "fresh_alloc (env_alloc catalog_env)" by (simp add: catalog_env_def fresh_max_alloc)
  then have reach: "(catalog_step demo_catalog_lib)\<^sup>*\<^sup>* catalog_server ?st" by (blast intro: r_into_rtranclp call)
  have ok: "catalog_ok demo_catalog_lib catalog_server"
    using demo_catalog_inv by (simp add: catalog_ok_def page_current_def catalog_server_def new_cache_def)
  have d: "db ?st = demo_catalog\<lparr>downloads := []\<rparr>"
    by (simp add: get_session_def void_def delete_download_def catalog_server_def commit_edit_def invalidate_catalog_def
        commit_def demo_catalog_def row_get_def row_del_def)
  have "is_prerelease_version ''8.3.1'' = False"
    by (simp add: is_prerelease_version_def prerelease_end_def PRERELEASE_WORDS_def is_digit_def char_code_def is_sep_def py_lower_def
        char_lower_def)
  then obtain docs where docs: "catalog_apps (db ?st) = Inr docs"
    by (auto simp: d catalog_apps_def demo_catalog_def app_to_schema_def app_releases_def sort_desc_def demo_app_def
        release_to_schema_def rel_downloads_def offerable_downloads_def bind_exn_def Let_def)
  then show ?thesis
    using catalog_served_current [OF reach ok docs, of catalog_env 5 5 None] reach d
    unfolding Let_def by (simp only: option.distinct if_False) (metis download_table_empty)
qed

section \<open>What the document shows\<close>

lemma gather_eq: "gather f xs = Inr ys \<Longrightarrow> ys = List.map_filter (\<lambda>x. case f x of Inr z \<Rightarrow> z | Inl _ \<Rightarrow> None) xs"
  by (induction xs arbitrary: ys) (auto simp: bind_exn_Inr List.map_filter_simps split: option.splits)

lemma gather_total: "gather f xs = Inr ys \<Longrightarrow> x \<in> set xs \<Longrightarrow> \<exists>z. f x = Inr z"
  by (induction xs arbitrary: ys) (auto simp: bind_exn_Inr)

lemma sorted_map_filter:
  assumes "sorted_wrt R xs" and "\<And>x y x' y'. f x = Some x' \<Longrightarrow> f y = Some y' \<Longrightarrow> R x y \<Longrightarrow> R' x' y'"
  shows "sorted_wrt R' (List.map_filter f xs)"
  using assms(1)
proof (induction xs)
  case (Cons x xs)
  show ?case
  proof (cases "f x")
    case (Some x')
    have "R' x' y'" if "y' \<in> set (List.map_filter f xs)" for y'
      using that Cons.prems assms(2) [OF Some] by (auto simp: set_map_filter_iff)
    with Some Cons show ?thesis by (simp add: List.map_filter_simps)
  qed (use Cons in \<open>simp add: List.map_filter_simps\<close>)
qed (simp add: List.map_filter_simps)

lemma sort_desc_sorted: "sorted_wrt (\<lambda>x y. key y \<le> key x) (sort_desc key xs)"
  using sorted_sort_key [of key "rev xs"] by (simp add: sort_desc_def sorted_wrt_rev sorted_map)

lemma set_sort_desc [simp]: "set (sort_desc key xs) = set xs"
  by (simp add: sort_desc_def)

text \<open>A release the document shows, and the download rows it offers.\<close>

definition shown :: "database \<Rightarrow> string \<Rightarrow> release_row \<Rightarrow> bool" where
  "shown d aid r \<longleftrightarrow> \<not> (rel_channel r = ''stable'' \<and> is_prerelease_version (rel_version r)) \<and>
     (\<forall>x \<in> set (downloads d). dl_release_id x = rel_id r \<longrightarrow>
        (\<exists>y \<in> set (downloads d). dl_release_id y = rel_id r \<and> offerable aid y))"

definition describes :: "database \<Rightarrow> string \<Rightarrow> release_row \<Rightarrow> release_doc \<Rightarrow> bool" where
  "describes d aid r rd \<longleftrightarrow> rd_version rd = rel_version r \<and> rd_channel rd = rel_channel r \<and>
     (\<lambda>x. (dd_url x, dd_os x, dd_arch x, dd_archive_type x, dd_size_bytes x)) ` set (rd_downloads rd) =
     (\<lambda>x. (dl_url x, dl_os x, dl_arch x, dl_archive_type x, dl_size_bytes x)) `
       {x \<in> set (downloads d). dl_release_id x = rel_id r \<and> offerable aid x}"

lemma offered_docs:
  assumes "gather (\<lambda>x. bind_exn (download_to_schema x) (\<lambda>y. Inr (Some y))) xs = Inr docs"
  shows "(\<lambda>x. (dd_url x, dd_os x, dd_arch x, dd_archive_type x, dd_size_bytes x)) ` set docs =
     (\<lambda>x. (dl_url x, dl_os x, dl_arch x, dl_archive_type x, dl_size_bytes x)) ` set xs"
  using assms
proof (induction xs arbitrary: docs)
  case (Cons x xs)
  then obtain y ys where y: "download_to_schema x = Inr y" and docs: "docs = y # ys"
    and ys: "gather (\<lambda>x. bind_exn (download_to_schema x) (\<lambda>y. Inr (Some y))) xs = Inr ys"
    by (auto simp: bind_exn_Inr)
  from y have "(dd_url y, dd_os y, dd_arch y, dd_archive_type y, dd_size_bytes y) =
      (dl_url x, dl_os x, dl_arch x, dl_archive_type x, dl_size_bytes x)"
    by (auto simp: download_to_schema_def split: if_splits)
  with Cons.IH [OF ys] show ?case by (simp add: docs)
qed simp

lemma release_to_schema_cases:
  assumes "release_to_schema d aid r = Inr res"
  shows "if shown d aid r then \<exists>rd. res = Some rd \<and> describes d aid r rd else res = None"
proof -
  have none: "rel_downloads d (rel_id r) \<noteq> [] \<and> offerable_downloads aid (rel_downloads d (rel_id r)) = [] \<longleftrightarrow>
      \<not> (\<forall>x \<in> set (downloads d). dl_release_id x = rel_id r \<longrightarrow>
        (\<exists>y \<in> set (downloads d). dl_release_id y = rel_id r \<and> offerable aid y))"
    by (auto simp: offerable_downloads_def filter_empty_conv rel_downloads_set set_empty [symmetric] simp del: set_empty)
  have offered: "set (offerable_downloads aid (rel_downloads d (rel_id r))) =
      {x \<in> set (downloads d). dl_release_id x = rel_id r \<and> offerable aid x}"
    by (auto simp: offerable_downloads_def rel_downloads_set)
  show ?thesis
    using assms none
    by (auto simp: release_to_schema_def Let_def bind_exn_Inr shown_def describes_def offered [symmetric]
        split: if_splits dest!: offered_docs)
qed

text \<open>
  The public document of an application is complete and safe to install from. Its
  releases are in descending numeric version order; they are exactly the stored ones
  except the pre-releases that claim the stable channel and those all of whose downloads
  were withdrawn; and each offers exactly the stored downloads that are plausible
  archives and, for the mirror-only applications, come from the mirror.
\<close>

lemma app_document_exact:
  assumes "app_to_schema d a = Inr doc"
  shows "sorted_wrt (\<lambda>x y. version_key (rd_version y) \<le> version_key (rd_version x)) (ad_releases doc) \<and>
    (\<forall>rd \<in> set (ad_releases doc). \<exists>r \<in> set (releases d). rel_app_id r = app_id a \<and> shown d (app_id a) r \<and> describes d (app_id a) r rd) \<and>
    (\<forall>r \<in> set (releases d). rel_app_id r = app_id a \<and> shown d (app_id a) r \<longrightarrow>
      (\<exists>rd \<in> set (ad_releases doc). describes d (app_id a) r rd))"
proof -
  let ?rs = "sort_desc (\<lambda>r. version_key (rel_version r)) (app_releases d (app_id a))"
  let ?f = "\<lambda>x. case release_to_schema d (app_id a) x of Inr z \<Rightarrow> z | Inl _ \<Rightarrow> None"
  have g: "gather (release_to_schema d (app_id a)) ?rs = Inr (ad_releases doc)"
    using assms by (auto simp: app_to_schema_def bind_exn_Inr)
  note eq = gather_eq [OF g]
  have f: "?f r = Some rd \<Longrightarrow> shown d (app_id a) r \<and> describes d (app_id a) r rd" for r rd
    using release_to_schema_cases [of d "app_id a" r] by (auto split: sum.splits if_splits)
  have total: "\<exists>z. release_to_schema d (app_id a) r = Inr z" if "r \<in> set ?rs" for r
    using gather_total [OF g that] .
  have "sorted_wrt (\<lambda>x y. version_key (rd_version y) \<le> version_key (rd_version x)) (ad_releases doc)"
    unfolding eq by (rule sorted_map_filter [OF sort_desc_sorted]) (auto dest!: f simp: describes_def)
  moreover have "\<exists>r \<in> set (releases d). rel_app_id r = app_id a \<and> shown d (app_id a) r \<and> describes d (app_id a) r rd"
    if "rd \<in> set (ad_releases doc)" for rd
    using that f unfolding eq set_map_filter_iff by (auto simp: app_releases_def)
  moreover have "\<exists>rd \<in> set (ad_releases doc). describes d (app_id a) r rd"
    if r: "r \<in> set (releases d)" "rel_app_id r = app_id a" "shown d (app_id a) r" for r
  proof -
    have "r \<in> set ?rs" using r by (simp add: app_releases_def)
    moreover from total [OF this] r(3) obtain rd where "release_to_schema d (app_id a) r = Inr (Some rd)" "describes d (app_id a) r rd"
      using release_to_schema_cases [of d "app_id a" r] by auto
    ultimately have "rd \<in> set (ad_releases doc)" unfolding eq set_map_filter_iff by (intro bexI [of _ r]) simp_all
    with \<open>describes d (app_id a) r rd\<close> show ?thesis by blast
  qed
  ultimately show ?thesis by blast
qed

lemma app_document_exact_witness:
  "\<exists>doc rd. app_to_schema demo_catalog demo_app = Inr doc \<and> rd \<in> set (ad_releases doc) \<and> rd_version rd = ''8.3.1''"
proof -
  have "is_prerelease_version ''8.3.1'' = False"
    by (simp add: is_prerelease_version_def prerelease_end_def PRERELEASE_WORDS_def is_digit_def char_code_def is_sep_def py_lower_def
        char_lower_def)
  moreover from this obtain doc where doc: "app_to_schema demo_catalog demo_app = Inr doc"
    by (auto simp: demo_catalog_def app_to_schema_def app_releases_def sort_desc_def demo_app_def
        release_to_schema_def rel_downloads_def offerable_downloads_def offerable_def MIRROR_ONLY_APPS_def bind_exn_def Let_def
        download_to_schema_def headers_valid_def)
  ultimately show ?thesis
    using app_document_exact [OF doc]
    by (auto simp: demo_catalog_def demo_app_def shown_def describes_def offerable_def MIRROR_ONLY_APPS_def)
qed

section \<open>The file-backed store\<close>

text \<open>
  \<open>CatalogStore\<close>: the directory is the list of its JSON files, stem and parsed content
  (\<open>None\<close> where reading or parsing fails), or \<open>None\<close> where it does not exist; the
  validation of a document is a parameter. The lock makes each operation atomic.
\<close>

record catalog_store =
  cs_doc :: catalog_document
  cs_last_loaded :: "instant option"

definition new_catalog_store :: catalog_store where
  "new_catalog_store = \<lparr>cs_doc = \<lparr>cd_schema_version = ''1'', cd_generated_at = None, cd_apps = []\<rparr>, cs_last_loaded = None\<rparr>"

definition load_file ::
  "(json \<Rightarrow> app_doc option) \<Rightarrow> string \<times> json option \<Rightarrow> (string \<times> app_doc) list \<Rightarrow> (string \<times> app_doc) list" where
  "load_file validate = (\<lambda>(stem, content) acc.
     case content of None \<Rightarrow> acc
     | Some raw \<Rightarrow>
       (case validate raw of None \<Rightarrow> acc
        | Some a \<Rightarrow> (let b = a\<lparr>ad_name := str_or (ad_name a) stem\<rparr> in AList.update (ad_name b) b acc)))"

definition store_reload ::
  "(json \<Rightarrow> app_doc option) \<Rightarrow> environment \<Rightarrow> instant \<Rightarrow> (string \<times> json option) list option \<Rightarrow> catalog_store \<Rightarrow> nat \<times> catalog_store" where
  "store_reload validate env now dir cs =
     (case dir of
        None \<Rightarrow> (0, \<lparr>cs_doc = \<lparr>cd_schema_version = ''1'', cd_generated_at = None, cd_apps = []\<rparr>, cs_last_loaded = Some now\<rparr>)
      | Some files \<Rightarrow>
        (let loaded = fold (load_file validate) (sort_key (\<lambda>(stem, _). stem @ ''.json'') files) [] in
         (length loaded, \<lparr>cs_doc = \<lparr>cd_schema_version = ''1'', cd_generated_at = Some (env_isoformat env now), cd_apps = loaded\<rparr>,
            cs_last_loaded = Some now\<rparr>)))"

definition store_document :: "catalog_store \<Rightarrow> catalog_document" where
  "store_document cs = cs_doc cs"

definition store_app :: "string \<Rightarrow> catalog_store \<Rightarrow> app_doc option" where
  "store_app name cs = (case map_of (cd_apps (cs_doc cs)) (py_lower name) of Some a \<Rightarrow> Some a
     | None \<Rightarrow> map_of (cd_apps (cs_doc cs)) name)"

text \<open>A broken file takes nothing else down: every other valid file's application is served.\<close>

lemma load_file_keeps: "n \<in> fst ` set acc \<Longrightarrow> n \<in> fst ` set (load_file validate f acc)"
  by (cases f) (simp add: load_file_def Let_def dom_update split: option.splits)

lemma load_files_keep: "n \<in> fst ` set acc \<Longrightarrow> n \<in> fst ` set (fold (load_file validate) fs acc)"
  by (induction fs arbitrary: acc) (auto intro: load_file_keeps)

lemma load_files_all:
  "(stem, Some raw) \<in> set fs \<Longrightarrow> validate raw = Some a \<Longrightarrow>
     str_or (ad_name a) stem \<in> fst ` set (fold (load_file validate) fs acc)"
proof (induction fs arbitrary: acc)
  case (Cons f fs)
  show ?case
  proof (cases "f = (stem, Some raw)")
    case True
    have "str_or (ad_name a) stem \<in> fst ` set (load_file validate f acc)"
      using Cons.prems(2) True by (simp add: load_file_def Let_def dom_update)
    then show ?thesis by (simp add: load_files_keep)
  qed (use Cons in auto)
qed simp

lemma store_reload_serves:
  assumes "(stem, Some raw) \<in> set files" and "validate raw = Some a"
  shows "store_app (str_or (ad_name a) stem) (snd (store_reload validate env now (Some files) cs)) \<noteq> None"
proof -
  let ?loaded = "fold (load_file validate) (sort_key (\<lambda>(stem, _). stem @ ''.json'') files) []"
  have "str_or (ad_name a) stem \<in> fst ` set ?loaded" using assms by (intro load_files_all [of _ raw]) simp_all
  then have "map_of ?loaded (str_or (ad_name a) stem) \<noteq> None" by (simp only: map_of_eq_None_iff not_not)
  then show ?thesis by (simp add: store_app_def store_reload_def Let_def split: option.splits)
qed

end
