(* ===== verification/Autogen.thy ===== *)
theory Autogen
  imports Catalog_Api
begin

text \<open>
  The daily regeneration (\<^verbatim>\<open>app/catalog_autogen.py\<close>): every application with a generator is
  scraped, the project's own builds are layered in, and the result is merged. The job
  composes the scrapers, the page walk and the merge; it returns once the page walk ends,
  visits every application whatever fails upstream, and keeps the catalog's invariant.
\<close>

record autogen_outcome =
  ao_app_id :: string
  ao_scraped :: nat
  ao_inserted :: nat
  ao_error :: "exn option"

text \<open>
  One application. \<open>None\<close> where a scraper does not return. The session of the merge is opened on the
  committed tables and closed again; the primary scraper has caught its own exceptions.
\<close>

definition autogen_app ::
  "environment \<Rightarrow> web \<Rightarrow> instant \<Rightarrow> int \<Rightarrow> string \<Rightarrow> app_state \<Rightarrow> (autogen_outcome \<times> app_state) option" where
  "autogen_app env w now limit aid st =
     (case run_generator w aid limit of None \<Rightarrow> None
      | Some primary \<Rightarrow>
        (case generate_from_binaries_repo w aid 100 of None \<Rightarrow> None
         | Some (Inl e) \<Rightarrow> Some (\<lparr>ao_app_id = aid, ao_scraped = 0, ao_inserted = 0, ao_error = Some e\<rparr>, st)
         | Some (Inr fallback) \<Rightarrow>
           (let combined = primary @ fallback in
            case get_session (apply_generated_releases env w now aid combined False True) (rollback st) of
              (Inl e, st') \<Rightarrow> Some (\<lparr>ao_app_id = aid, ao_scraped = 0, ao_inserted = 0, ao_error = Some e\<rparr>, st')
            | (Inr n, st') \<Rightarrow> Some (\<lparr>ao_app_id = aid, ao_scraped = length combined, ao_inserted = n, ao_error = None\<rparr>, st'))))"

fun autogen_loop ::
  "environment \<Rightarrow> web \<Rightarrow> instant \<Rightarrow> int \<Rightarrow> string list \<Rightarrow> app_state \<Rightarrow> (autogen_outcome list \<times> app_state) option" where
  "autogen_loop env w now limit [] st = Some ([], st)"
| "autogen_loop env w now limit (aid # aids) st =
     (case autogen_app env w now limit aid st of None \<Rightarrow> None
      | Some (out, st1) \<Rightarrow>
        (case autogen_loop env w now limit aids st1 of None \<Rightarrow> None
         | Some (outs, st2) \<Rightarrow> Some (out # outs, st2)))"

definition run_catalog_autogen ::
  "environment \<Rightarrow> web \<Rightarrow> instant \<Rightarrow> int \<Rightarrow> app_state \<Rightarrow> (autogen_outcome list \<times> app_state) option" where
  "run_catalog_autogen env w now limit st = autogen_loop env w now limit (sort (map fst GENERATORS)) st"

section \<open>Views only grow\<close>

lemma allowed_change_trans:
  "allowed_change w heal aid x y \<Longrightarrow> allowed_change w heal aid y z \<Longrightarrow> allowed_change w heal aid x z"
  by (auto simp: allowed_change_def same_source_def settled_def)

text \<open>Every version is kept, and every download up to an allowed change.\<close>

definition view_grows :: "web \<Rightarrow> database \<Rightarrow> database \<Rightarrow> bool" where
  "view_grows w d d' \<longleftrightarrow> apps d' = apps d \<and> (\<forall>aid v P. catalog_view d aid v = Some P \<longrightarrow>
     (\<exists>P'. catalog_view d' aid v = Some P' \<and>
        (\<forall>t old. P t = Some old \<longrightarrow> (\<exists>new. P' t = Some new \<and> allowed_change w True aid old new))))"

lemma view_grows_refl: "view_grows w d d"
  by (auto simp: view_grows_def allowed_change_def)

lemma view_grows_trans:
  assumes "view_grows w d1 d2" and "view_grows w d2 d3"
  shows "view_grows w d1 d3"
proof -
  have "\<exists>P'. catalog_view d3 aid v = Some P' \<and>
      (\<forall>t old. P t = Some old \<longrightarrow> (\<exists>new. P' t = Some new \<and> allowed_change w True aid old new))"
    if P: "catalog_view d1 aid v = Some P" for aid v P
  proof -
    obtain P2 where P2: "catalog_view d2 aid v = Some P2"
      "\<And>t old. P t = Some old \<Longrightarrow> \<exists>new. P2 t = Some new \<and> allowed_change w True aid old new"
      using assms(1) P unfolding view_grows_def by metis
    obtain P3 where P3: "catalog_view d3 aid v = Some P3"
      "\<And>t old. P2 t = Some old \<Longrightarrow> \<exists>new. P3 t = Some new \<and> allowed_change w True aid old new"
      using assms(2) P2(1) unfolding view_grows_def by metis
    have "\<exists>new. P3 t = Some new \<and> allowed_change w True aid old new" if "P t = Some old" for t old
      using P2(2) [OF that] P3(2) allowed_change_trans by metis
    with P3(1) show ?thesis by blast
  qed
  with assms show ?thesis by (simp add: view_grows_def)
qed

lemma merge_downloads_apps:
  "merge_downloads env w heal is_new aid rid gds m = Inr m' \<Longrightarrow> apps (mg_db m') = apps (mg_db m)"
proof (induction gds arbitrary: m)
  case (Cons gd gds)
  then obtain m1 where m1: "merge_download env w heal is_new aid rid gd m = Inr m1"
    "merge_downloads env w heal is_new aid rid gds m1 = Inr m'" by (auto simp: bind_exn_Inr)
  have "mg_db (snd (seen_triples rid m)) = mg_db m" by (simp add: seen_triples_def Let_def split: option.splits)
  with m1(1) have "apps (mg_db m1) = apps (mg_db m)"
    by (auto simp: merge_download_def Let_def heal_url_def refresh_size_def set_download_def insert_download_def
        split: prod.splits if_splits option.splits sum.splits)
  with Cons.IH [OF m1(2)] show ?case by simp
qed simp

lemma merge_releases_apps:
  "merge_releases env w now heal aid gens m = Inr m' \<Longrightarrow> apps (mg_db m') = apps (mg_db m)"
proof (induction gens arbitrary: m)
  case (Cons g gens)
  then obtain rid is_new m1 m2 where steps: "merge_release env now aid g m = Inr (rid, is_new, m1)"
    "merge_downloads env w heal is_new aid rid (gr_downloads g) (snd (seen_triples rid m1)) = Inr m2"
    "merge_releases env w now heal aid gens m2 = Inr m'" by (auto simp: bind_exn_Inr)
  have "apps (mg_db m1) = apps (mg_db m)"
    using steps(1) by (auto simp: merge_release_def Let_def bind_exn_Inr insert_release_def split: option.splits if_splits)
  moreover have "mg_db (snd (seen_triples rid m1)) = mg_db m1" by (simp add: seen_triples_def Let_def split: option.splits)
  ultimately show ?case using merge_downloads_apps [OF steps(2)] Cons.IH [OF steps(3)] by simp
qed simp

lemma merge_spec_versions: "g \<in> set gens \<Longrightarrow> fold (put_release w heal aid start) gens cat (gr_version g) \<noteq> None"
  and merge_keeps_versions: "cat v \<noteq> None \<Longrightarrow> fold (put_release w heal aid start) gens cat v \<noteq> None"
proof -
  show keep: "cat v \<noteq> None \<Longrightarrow> fold (put_release w heal aid start) gens cat v \<noteq> None" for cat v gens
    by (induction gens arbitrary: cat) (auto simp: put_release_def)
  show "g \<in> set gens \<Longrightarrow> fold (put_release w heal aid start) gens cat (gr_version g) \<noteq> None"
  proof (induction gens arbitrary: cat)
    case (Cons h gens)
    have "put_release w heal aid start g cat (gr_version g) \<noteq> None" by (simp add: put_release_def)
    with keep [of _ "gr_version g" gens] Cons show ?case by (cases "g = h") auto
  qed simp
qed

section \<open>The job\<close>

definition own_builds_listed :: "web \<Rightarrow> string \<Rightarrow> database \<Rightarrow> bool" where
  "own_builds_listed w aid d \<longleftrightarrow> (\<forall>fb g. row_get app_id aid (apps d) \<noteq> None \<and>
     generate_from_binaries_repo w aid 100 = Some (Inr fb) \<and> g \<in> set fb \<longrightarrow> catalog_view d aid (gr_version g) \<noteq> None)"

lemma own_builds_grow: "own_builds_listed w aid d \<Longrightarrow> view_grows w d d' \<Longrightarrow> own_builds_listed w aid d'"
  unfolding own_builds_listed_def view_grows_def by (metis option.distinct(1) option.exhaust)

lemma apply_grows:
  assumes ok: "catalog_ok cl st" and alloc: "fresh_alloc (env_alloc env)"
  obtains n st' where "apply_generated_releases env w now aid gens False True st = (Inr n, st')" and "catalog_ok cl st'"
    and "view_grows w (db st) (db st')"
    and "\<And>a g. get_app (db st) aid = Some a \<Longrightarrow> g \<in> set gens \<Longrightarrow> catalog_view (db st') (app_id a) (gr_version g) \<noteq> None"
proof (cases "get_app (db st) aid")
  case None
  then have "apply_generated_releases env w now aid gens False True st = (Inr 0, st)" by (simp add: apply_generated_releases_def)
  with that ok None view_grows_refl show ?thesis by fastforce
next
  case (Some a)
  have inv: "catalog_inv (db st)" using ok unfolding catalog_ok_def by blast
  from merge_refines [OF inv alloc Some, where replace = False and w = w and now = now and gens = gens and heal = True]
  obtain n st' where run: "apply_generated_releases env w now aid gens False True st = (Inr n, st')"
    and view: "catalog_view (db st') (app_id a) = merge_spec w True (app_id a) gens (catalog_view (db st) (app_id a))"
    and other: "\<forall>b. b \<noteq> app_id a \<longrightarrow> catalog_view (db st') b = catalog_view (db st) b" by auto
  have "apps (db st') = apps (db st)"
    using run Some merge_releases_apps [of env w now True "app_id a" gens "merge_start (app_id a) (db st)"]
    by (auto simp: apply_generated_releases_def Let_def commit_def invalidate_catalog_def merge_start_def split: sum.splits if_splits)
  moreover have "\<exists>P'. catalog_view (db st') b v = Some P' \<and>
      (\<forall>t old. P t = Some old \<longrightarrow> (\<exists>new. P' t = Some new \<and> allowed_change w True b old new))"
    if P: "catalog_view (db st) b v = Some P" for b v P
  proof (cases "b = app_id a")
    case True
    have "merge_spec w True b gens (catalog_view (db st) b) v \<noteq> None"
      unfolding merge_spec_def using P by (intro merge_keeps_versions) simp
    moreover have "\<exists>P' new. merge_spec w True b gens (catalog_view (db st) b) v = Some P' \<and> P' t = Some new \<and> allowed_change w True b old new"
      if "P t = Some old" for t old
      unfolding merge_spec_def by (rule merge_allowed [of "catalog_view (db st) b" v P t old, OF P that]) (simp add: allowed_change_def)
    ultimately show ?thesis using view True by fastforce
  qed (use P other in \<open>auto simp: allowed_change_def\<close>)
  ultimately have "view_grows w (db st) (db st')" by (simp add: view_grows_def)
  moreover have "catalog_view (db st') (app_id a) (gr_version g) \<noteq> None" if "g \<in> set gens" for g
    unfolding view merge_spec_def by (rule merge_spec_versions [OF that])
  ultimately show ?thesis
    using that [OF run apply_ok [OF ok alloc run]] Some by (metis option.inject)
qed

lemma generators_count: "length (map fst GENERATORS) = 13"
  by (simp add: GENERATORS_def)

lemma get_app_key: "aid \<in> fst ` set GENERATORS \<Longrightarrow> get_app d aid = row_get app_id aid (apps d)"
  by (auto simp: get_app_def GENERATORS_def py_lower_def char_lower_def char_code_def)

lemma autogen_app_step:
  assumes ok: "catalog_ok cl st" and alloc: "fresh_alloc (env_alloc env)" and ends: "page_ends w page" "1 \<le> page"
    and aid: "aid \<in> fst ` set GENERATORS"
  obtains out st' where "autogen_app env w now limit aid st = Some (out, st')" and "ao_app_id out = aid"
    and "catalog_ok cl st'" and "view_grows w (db st) (db st')" and "own_builds_listed w aid (db st')"
proof -
  obtain primary where primary: "run_generator w aid limit = Some primary" using run_generator_Some [OF ends] by blast
  obtain r where r: "generate_from_binaries_repo w aid 100 = Some r" using binaries_repo_returns [OF ends] by blast
  show ?thesis
  proof (cases r)
    case (Inl e)
    then have "own_builds_listed w aid (db st)" using r by (simp add: own_builds_listed_def)
    with that primary r Inl ok view_grows_refl show ?thesis by (fastforce simp: autogen_app_def)
  next
    case (Inr fallback)
    have same: "rollback st = st" using ok by (simp add: catalog_ok_def rollback_def)
    obtain n st' where run: "apply_generated_releases env w now aid (primary @ fallback) False True st = (Inr n, st')"
      and ok': "catalog_ok cl st'" and grows: "view_grows w (db st) (db st')"
      and listed: "\<And>a g. get_app (db st) aid = Some a \<Longrightarrow> g \<in> set (primary @ fallback) \<Longrightarrow>
        catalog_view (db st') (app_id a) (gr_version g) \<noteq> None" 
      by (rule apply_grows [OF ok alloc, of w now aid "primary @ fallback"]) blast
    have "commit st' = st'" using ok' by (simp add: catalog_ok_def commit_def)
    with run same have "get_session (apply_generated_releases env w now aid (primary @ fallback) False True) (rollback st) = (Inr n, st')"
      by (simp add: get_session_def)
    moreover have "own_builds_listed w aid (db st')"
      using listed grows r Inr get_app_key [OF aid, of "db st"]
      by (fastforce simp: own_builds_listed_def view_grows_def dest: row_get_Some)
    ultimately show ?thesis using that ok' grows primary r Inr by (simp add: autogen_app_def)
  qed
qed

lemma autogen_loop_steps:
  assumes "catalog_ok cl st" and "fresh_alloc (env_alloc env)" and "page_ends w page" "1 \<le> page"
    and "set aids \<subseteq> fst ` set GENERATORS"
  shows "\<exists>outs st'. autogen_loop env w now limit aids st = Some (outs, st') \<and> map ao_app_id outs = aids \<and>
    catalog_ok cl st' \<and> view_grows w (db st) (db st') \<and> (\<forall>aid \<in> set aids. own_builds_listed w aid (db st'))"
  using assms
proof (induction aids arbitrary: st)
  case Nil
  then show ?case by (simp add: view_grows_refl)
next
  case (Cons aid aids)
  have aid: "aid \<in> fst ` set GENERATORS" using Cons.prems(5) by simp
  obtain out st1 where step: "autogen_app env w now limit aid st = Some (out, st1)" "ao_app_id out = aid"
    "catalog_ok cl st1" "view_grows w (db st) (db st1)" "own_builds_listed w aid (db st1)"
    by (rule autogen_app_step [OF Cons.prems(1-4) aid])
  from Cons.IH [OF step(3) Cons.prems(2-4)] Cons.prems(5) obtain outs st2 where
    rest: "autogen_loop env w now limit aids st1 = Some (outs, st2)" "map ao_app_id outs = aids" "catalog_ok cl st2"
      "view_grows w (db st1) (db st2)" "\<forall>aid \<in> set aids. own_builds_listed w aid (db st2)" by auto
  with step own_builds_grow [OF step(5) rest(4)] view_grows_trans [OF step(4) rest(4)] show ?case by simp
qed


text \<open>The example: the web is down but for the binaries repository, which has one Apache build.\<close>

definition apache_server :: app_state where
  "apache_server = catalog_server\<lparr>db := empty_db\<lparr>apps := [demo_app\<lparr>app_id := ''apache''\<rparr>]\<rparr>,
     committed := empty_db\<lparr>apps := [demo_app\<lparr>app_id := ''apache''\<rparr>]\<rparr>\<rparr>"


end
