(* ===== verification/Totp.thy ===== *)
theory Totp
  imports Sha1
begin

text \<open>
  One-time passwords for the second factor of the admin login (\<^verbatim>\<open>app/totp.py\<close>): base32
  secrets, the HOTP truncation, verification with clock drift, the pairing URI and the
  recovery codes. Random bytes and random choices are arguments. Base32 follows the
  standard library's \<open>base64.b32encode\<close> and \<open>b32decode\<close>, its errors included.
\<close>

section \<open>Positional notation\<close>

fun to_base :: "int \<Rightarrow> nat \<Rightarrow> int \<Rightarrow> int list" where
  "to_base b 0 x = []"
| "to_base b (Suc n) x = to_base b n (x div b) @ [x mod b]"

definition of_base :: "int \<Rightarrow> int list \<Rightarrow> int" where
  "of_base b ds = foldl (\<lambda>a d. a * b + d) 0 ds"

definition from_bytes :: "bytes \<Rightarrow> int" where
  "from_bytes bs = of_base 256 (map uint bs)"

definition to_bytes :: "nat \<Rightarrow> int \<Rightarrow> bytes" where
  "to_bytes n x = map word_of_int (to_base 256 n x)"

section \<open>Base32\<close>

definition b32alphabet :: string where
  "b32alphabet = ''ABCDEFGHIJKLMNOPQRSTUVWXYZ234567''"

definition b32_quantum :: "bytes \<Rightarrow> string" where
  "b32_quantum bs = map (\<lambda>d. b32alphabet ! nat d) (to_base 32 8 (from_bytes bs))"

definition b32encode :: "bytes \<Rightarrow> string" where
  "b32encode s =
     (let leftover = length s mod 5;
          padded = (if leftover = 0 then s else s @ replicate (5 - leftover) 0);
          encoded = concat (map b32_quantum (chunks 5 padded));
          cut = (\<lambda>n. take (length encoded - n) encoded @ replicate n (CHR ''=''))
      in if leftover = 1 then cut 6 else if leftover = 2 then cut 4
         else if leftover = 3 then cut 3 else if leftover = 4 then cut 1 else encoded)"

definition b32rev :: "char \<Rightarrow> int option" where
  "b32rev c = map_of (zip b32alphabet [0..31]) c"

definition py_rstrip_char :: "char \<Rightarrow> string \<Rightarrow> string" where
  "py_rstrip_char c s = rev (dropWhile (\<lambda>x. x = c) (rev s))"

fun quantum_digits :: "string \<Rightarrow> int list option" where
  "quantum_digits [] = Some []"
| "quantum_digits (c # cs) =
     (case b32rev c of None \<Rightarrow> None
      | Some d \<Rightarrow> (case quantum_digits cs of None \<Rightarrow> None | Some ds \<Rightarrow> Some (d # ds)))"

text \<open>The quanta decoded in turn: the bytes so far, and the accumulator of the last one.\<close>

fun decode_quanta :: "string list \<Rightarrow> bytes \<Rightarrow> int \<Rightarrow> (bytes \<times> int) option" where
  "decode_quanta [] decoded acc = Some (decoded, acc)"
| "decode_quanta (q # qs) decoded acc =
     (case quantum_digits q of None \<Rightarrow> None
      | Some ds \<Rightarrow> decode_quanta qs (decoded @ to_bytes 5 (of_base 32 ds)) (of_base 32 ds))"

definition b32decode :: "string \<Rightarrow> exn + bytes" where
  "b32decode s0 =
     (if list_ex (\<lambda>c. 128 \<le> char_code c) s0
      then Inl (ValueError ''string argument should contain only ASCII characters'')
      else if length s0 mod 8 \<noteq> 0 then Inl (ValueError ''Incorrect padding'')
      else (let s = py_rstrip_char (CHR ''='') (py_upper s0); padchars = length s0 - length s in
        case decode_quanta (chunks 8 s) [] 0 of None \<Rightarrow> Inl (ValueError ''Non-base32 digit found'')
        | Some (decoded, acc) \<Rightarrow>
          if padchars \<notin> {0, 1, 3, 4, 6} then Inl (ValueError ''Incorrect padding'')
          else if padchars \<noteq> 0 \<and> decoded \<noteq> []
          then Inr (take (length decoded - 5) decoded @
                    take ((43 - 5 * padchars) div 8) (to_bytes 5 (acc * 32 ^ padchars)))
          else Inr decoded))"

section \<open>Secrets\<close>

definition new_secret :: "bytes \<Rightarrow> string" where
  "new_secret rand = py_rstrip_char (CHR ''='') (b32encode rand)"

text \<open>\<open>s.replace(c, "")\<close>\<close>

definition remove_char :: "char \<Rightarrow> string \<Rightarrow> string" where
  "remove_char c s = filter (\<lambda>x. x \<noteq> c) s"

definition decode_secret :: "string \<Rightarrow> exn + bytes" where
  "decode_secret secret =
     (let s = py_upper (remove_char (CHR '' '') (py_strip secret))
      in b32decode (s @ replicate (nat (- int (length s) mod 8)) (CHR ''='')))"

section \<open>Codes\<close>

definition TOTP_STEP :: int where "TOTP_STEP = 30"
definition TOTP_DIGITS :: nat where "TOTP_DIGITS = 6"
definition TOTP_DRIFT :: int where "TOTP_DRIFT = 1"

definition zfill :: "nat \<Rightarrow> string \<Rightarrow> string" where
  "zfill n s = replicate (n - length s) (CHR ''0'') @ s"

text \<open>
  \<open>struct.pack(">Q", counter)\<close> raises outside the unsigned 64-bit range and
  \<open>struct.unpack(">I", b)\<close> on anything but four bytes.
\<close>

definition hotp :: "bytes \<Rightarrow> int \<Rightarrow> exn + string" where
  "hotp key counter =
     (if counter < 0 \<or> 2 ^ 64 \<le> counter then Inl (PyError ''struct.error'')
      else (let mac = hmac_sha1 key (word_be8 (word_of_int counter));
                offset = unat (and (last mac) 0x0F);
                four = take 4 (drop offset mac)
            in if length four \<noteq> 4 then Inl (PyError ''struct.error'')
               else Inr (zfill TOTP_DIGITS (show_int (uint (and (be_word four) 0x7FFFFFFF) mod 10 ^ TOTP_DIGITS)))))"

definition now_counter :: "instant \<Rightarrow> int" where
  "now_counter at = at div TOTP_STEP"

text \<open>
  \<open>str.isdigit\<close> on Latin-1: the decimal digits and the three superscripts.
  \<open>hmac.compare_digest\<close> raises \<open>TypeError\<close> on text that is not ASCII.
\<close>

definition py_isdigit :: "string \<Rightarrow> bool" where
  "py_isdigit s \<longleftrightarrow> s \<noteq> [] \<and> list_all (\<lambda>c. is_digit c \<or> char_code c \<in> {178, 179, 185}) s"

definition compare_digest :: "string \<Rightarrow> string \<Rightarrow> exn + bool" where
  "compare_digest a b =
     (if list_all (\<lambda>c. char_code c < 128) a \<and> list_all (\<lambda>c. char_code c < 128) b then Inr (a = b)
      else Inl (PyError ''TypeError''))"

definition totp_clean :: "string \<Rightarrow> string" where
  "totp_clean code = py_strip (remove_char (CHR ''-'') (remove_char (CHR '' '') code))"

fun verify_windows :: "bytes \<Rightarrow> int \<Rightarrow> string \<Rightarrow> int list \<Rightarrow> bool \<Rightarrow> exn + bool" where
  "verify_windows key counter code [] matched = Inr matched"
| "verify_windows key counter code (delta # deltas) matched =
     (case hotp key (counter + delta) of Inl e \<Rightarrow> Inl e
      | Inr candidate \<Rightarrow>
        (case compare_digest candidate code of Inl e \<Rightarrow> Inl e
         | Inr same \<Rightarrow> verify_windows key counter code deltas (matched \<or> same)))"

definition totp_verify :: "string \<Rightarrow> string \<Rightarrow> int \<Rightarrow> instant \<Rightarrow> exn + bool" where
  "totp_verify secret code0 drift at =
     (let code = totp_clean code0 in
      if \<not> py_isdigit code \<or> length code \<noteq> TOTP_DIGITS then Inr False
      else (case decode_secret secret of
              Inl (ValueError _) \<Rightarrow> Inr False
            | Inl e \<Rightarrow> Inl e
            | Inr key \<Rightarrow>
              if key = [] then Inr False
              else verify_windows key (now_counter at) code [- drift .. drift] False))"

section \<open>The pairing URI\<close>

definition hex_upper :: "nat \<Rightarrow> char" where
  "hex_upper d = ''0123456789ABCDEF'' ! d"

definition percent :: "nat \<Rightarrow> string" where
  "percent n = [CHR ''%'', hex_upper (n div 16), hex_upper (n mod 16)]"

definition unreserved :: "char \<Rightarrow> bool" where
  "unreserved c \<longleftrightarrow> is_lower_alnum (char_lower c) \<or> c \<in> set ''_.-~''"

text \<open>\<open>quote(s, safe="")\<close>: the UTF-8 bytes of a character outside ASCII.\<close>

definition quote_one :: "char \<Rightarrow> string" where
  "quote_one c =
     (if unreserved c then [c]
      else if char_code c < 128 then percent (char_code c)
      else percent (192 + char_code c div 64) @ percent (128 + char_code c mod 64))"

definition url_quote :: "string \<Rightarrow> string" where
  "url_quote s = concat (map quote_one s)"

definition otpauth_uri :: "string \<Rightarrow> string \<Rightarrow> string \<Rightarrow> string" where
  "otpauth_uri secret account issuer =
     ''otpauth://totp/'' @ url_quote (issuer @ '':'' @ account) @ ''?secret='' @ secret @
     ''&issuer='' @ url_quote issuer @ ''&algorithm=SHA1&digits='' @ show_nat TOTP_DIGITS @
     ''&period='' @ show_int TOTP_STEP"

section \<open>Recovery codes\<close>

definition RECOVERY_CODE_GROUPS :: nat where "RECOVERY_CODE_GROUPS = 2"
definition RECOVERY_CODE_GROUP_LEN :: nat where "RECOVERY_CODE_GROUP_LEN = 5"

definition RECOVERY_ALPHABET :: string where
  "RECOVERY_ALPHABET = ''abcdefghjkmnpqrstuvwxyz23456789''"

text \<open>\<open>choice i g j\<close> is the index drawn for character \<open>j\<close> of group \<open>g\<close> of code \<open>i\<close>.\<close>

definition recovery_code :: "(nat \<Rightarrow> nat \<Rightarrow> nat) \<Rightarrow> string" where
  "recovery_code choice =
     join_with ''-'' (map (\<lambda>g. map (\<lambda>j. RECOVERY_ALPHABET ! choice g j) [0..<RECOVERY_CODE_GROUP_LEN])
       [0..<RECOVERY_CODE_GROUPS])"

definition generate_recovery_codes :: "(nat \<Rightarrow> nat \<Rightarrow> nat \<Rightarrow> nat) \<Rightarrow> nat \<Rightarrow> string list" where
  "generate_recovery_codes choice n = map (\<lambda>i. recovery_code (choice i)) [0..<n]"

definition normalize_recovery_code :: "string \<Rightarrow> string" where
  "normalize_recovery_code raw =
     remove_char (CHR ''-'') (remove_char (CHR '' '') (py_lower (py_strip raw)))"

section \<open>Round trip of secrets\<close>

lemma length_to_base [simp]: "length (to_base b n x) = n"
  by (induction n arbitrary: x) auto

lemma to_base_range: "0 < b \<Longrightarrow> d \<in> set (to_base b n x) \<Longrightarrow> 0 \<le> d \<and> d < b"
  by (induction n arbitrary: x) auto

lemma of_base_snoc: "of_base b (ds @ [d]) = of_base b ds * b + d"
  by (simp add: of_base_def)

lemma of_base_to_base: "0 < b \<Longrightarrow> of_base b (to_base b n x) = x mod b ^ n"
proof (induction n arbitrary: x)
  case 0
  then show ?case by (simp add: of_base_def)
next
  case (Suc n)
  then show ?case by (simp add: of_base_snoc zmod_zmult2_eq mult.commute)
qed

lemma to_base_of_base: "\<forall>d \<in> set ds. 0 \<le> d \<and> d < b \<Longrightarrow> to_base b (length ds) (of_base b ds) = ds"
  by (induction ds rule: rev_induct) (auto simp: of_base_snoc)

lemma of_base_bound: "\<forall>d \<in> set ds. 0 \<le> d \<and> d < b \<Longrightarrow> 0 \<le> of_base b ds \<and> of_base b ds < b ^ length ds"
proof (induction ds rule: rev_induct)
  case Nil
  then show ?case by (simp add: of_base_def)
next
  case (snoc d ds)
  then have IH: "0 \<le> of_base b ds" "of_base b ds + 1 \<le> b ^ length ds" and d: "0 \<le> d" "d < b" by auto
  from IH(2) d have "(of_base b ds + 1) * b \<le> b ^ length ds * b" by (intro mult_right_mono) auto
  with IH d show ?case by (auto simp: of_base_snoc algebra_simps)
qed

lemma uint_bytes: "\<forall>d \<in> set (map uint (bs :: bytes)). 0 \<le> d \<and> d < 256"
  using uint_lt2p [where 'a = 8] by auto

lemma to_from_bytes: "to_bytes (length bs) (from_bytes bs) = bs"
  using to_base_of_base [OF uint_bytes, of bs] by (simp add: to_bytes_def from_bytes_def comp_def)

lemma b32rev_digit: "0 \<le> d \<Longrightarrow> d < 32 \<Longrightarrow> b32rev (b32alphabet ! nat d) = Some d"
proof -
  assume "0 \<le> d" "d < 32"
  then have "nat d \<in> set [0..<32]" "d = int (nat d)" by auto
  moreover have "\<forall>i \<in> set [0..<32]. b32rev (b32alphabet ! i) = Some (int i)" by code_simp
  ultimately show ?thesis by metis
qed

lemma b32_char: "0 \<le> d \<Longrightarrow> d < 32 \<Longrightarrow> b32alphabet ! nat d \<in> set b32alphabet"
  by (rule nth_mem) (simp add: b32alphabet_def nat_less_iff)

lemma b32_chars:
  "\<forall>c \<in> set b32alphabet. char_upper c = c \<and> char_upper (char_lower c) = c \<and> \<not> is_space c \<and> \<not> is_space (char_lower c)
     \<and> c \<noteq> CHR ''='' \<and> char_code c < 128 \<and> char_lower c \<noteq> CHR '' '' \<and> c \<noteq> CHR '' ''"
  by code_simp

lemma quantum_digits_map:
  "\<forall>d \<in> set ds. 0 \<le> d \<and> d < 32 \<Longrightarrow> quantum_digits (map (\<lambda>d. b32alphabet ! nat d) ds) = Some ds"
  by (induction ds) (auto simp: b32rev_digit)

lemma quantum_digits_quantum: "quantum_digits (b32_quantum bs) = Some (to_base 32 8 (from_bytes bs))"
  unfolding b32_quantum_def by (rule quantum_digits_map) (auto dest: to_base_range [of 32, simplified])

lemma quantum_value:
  assumes "length bs = 5"
  shows "of_base 32 (to_base 32 8 (from_bytes bs)) = from_bytes bs"
proof -
  have "0 \<le> from_bytes bs \<and> from_bytes bs < 256 ^ 5"
    using of_base_bound [OF uint_bytes, of bs] assms by (simp add: from_bytes_def)
  then show ?thesis by (simp add: of_base_to_base)
qed

lemma decode_quanta_map:
  "\<forall>bs \<in> set bss. length bs = 5 \<Longrightarrow>
     \<exists>acc'. decode_quanta (map b32_quantum bss) decoded acc = Some (decoded @ concat bss, acc')"
proof (induction bss arbitrary: decoded acc)
  case Nil
  then show ?case by simp
next
  case (Cons bs bss)
  then have "length bs = 5" by simp
  moreover from this have "to_bytes 5 (from_bytes bs) = bs" using to_from_bytes [of bs] by simp
  ultimately show ?case
    using Cons.IH [of "decoded @ bs" "from_bytes bs"] Cons.prems by (simp add: quantum_digits_quantum quantum_value)
qed

lemma concat_chunks: "0 < n \<Longrightarrow> concat (chunks n xs) = xs"
  by (induction n xs rule: chunks.induct) (subst chunks.simps, simp)

lemma chunks_full: "0 < n \<Longrightarrow> n dvd length xs \<Longrightarrow> c \<in> set (chunks n xs) \<Longrightarrow> length c = n"
proof (induction n xs rule: chunks.induct)
  case (1 n xs)
  show ?case
  proof (cases "xs = []")
    case True
    with 1 show ?thesis by (simp add: chunks.simps [of n])
  next
    case False
    with 1 have le: "n \<le> length xs" by (simp add: dvd_imp_le)
    with 1 have "n dvd length (drop n xs)" by (simp add: dvd_diff_nat)
    with 1 False le show ?thesis by (subst (asm) chunks.simps) auto
  qed
qed

lemma chunks_concat: "0 < n \<Longrightarrow> \<forall>c \<in> set css. length c = n \<Longrightarrow> chunks n (concat css) = css"
proof (induction css)
  case Nil
  then show ?case by (simp add: chunks.simps)
next
  case (Cons c css)
  then show ?case by (subst chunks.simps) auto
qed

lemma dropWhile_none: "\<forall>x \<in> set xs. \<not> P x \<Longrightarrow> dropWhile P xs = xs"
  by (cases xs) auto

lemma strip_id: "\<forall>c \<in> set s. \<not> is_space c \<Longrightarrow> py_strip s = s"
  by (simp add: py_strip_def dropWhile_none)

lemma set_quantum: "set (b32_quantum bs) \<subseteq> set b32alphabet"
  by (auto simp: b32_quantum_def b32_char dest: to_base_range [of 32, simplified])

lemma encode_whole:
  assumes "length s mod 5 = 0"
  shows "b32encode s = concat (map b32_quantum (chunks 5 s))" "set (b32encode s) \<subseteq> set b32alphabet"
  using assms set_quantum by (auto simp: b32encode_def Let_def)

lemma rstrip_other: "\<forall>x \<in> set s. x \<noteq> c \<Longrightarrow> py_rstrip_char c s = s"
  by (simp add: py_rstrip_char_def dropWhile_none)

lemma upper_alphabet: "set s \<subseteq> set b32alphabet \<Longrightarrow> py_upper s = s \<and> py_upper (py_lower s) = s"
  using b32_chars by (induction s) (auto simp: py_upper_def py_lower_def)

lemma b32decode_whole:
  assumes "length s mod 5 = 0"
  shows "b32decode (b32encode s) = Inr s"
proof -
  let ?e = "b32encode s"
  have dv: "\<forall>bs \<in> set (chunks 5 s). length bs = 5" using assms chunks_full [of 5 s] by auto
  have lens: "\<forall>q \<in> set (map b32_quantum (chunks 5 s)). length q = 8" by (auto simp: b32_quantum_def)
  have "length (concat qs) mod 8 = 0" if "\<forall>q \<in> set qs. length q = 8" for qs :: "string list"
    using that by (induction qs) auto
  then have len: "length ?e mod 8 = 0" using encode_whole [OF assms] lens by metis
  have "\<forall>c \<in> set ?e. c \<noteq> CHR ''='' \<and> char_code c < 128" using encode_whole(2) [OF assms] b32_chars by blast
  then have "py_rstrip_char (CHR ''='') ?e = ?e" and asc: "\<not> list_ex (\<lambda>c. 128 \<le> char_code c) ?e"
    by (simp add: rstrip_other, fastforce simp: list_ex_iff)
  then have "py_rstrip_char (CHR ''='') (py_upper ?e) = ?e"
    using upper_alphabet [OF encode_whole(2) [OF assms]] by simp
  moreover have "chunks 8 ?e = map b32_quantum (chunks 5 s)"
    unfolding encode_whole(1) [OF assms] using lens by (intro chunks_concat) auto
  moreover obtain acc where "decode_quanta (map b32_quantum (chunks 5 s)) [] 0 = Some (s, acc)"
    using decode_quanta_map [OF dv, of "[]" 0] concat_chunks [of 5 s] by auto
  ultimately show ?thesis using len asc by (simp add: b32decode_def)
qed

text \<open>
  A freshly paired secret is the key the server drew. The 160-bit key of a new secret is
  written as 32 characters of the base32 alphabet without padding, and decoding the
  secret the way verification does, also after an authenticator shows it in lower case,
  gives back exactly those 20 bytes.
\<close>
lemma new_secret_roundtrip:
  assumes "length rand = 20"
  shows "decode_secret (new_secret rand) = Inr rand
    \<and> decode_secret (py_lower (new_secret rand)) = Inr rand
    \<and> length (new_secret rand) = 32 \<and> set (new_secret rand) \<subseteq> set b32alphabet"
proof -
  have m: "length rand mod 5 = 0" using assms by simp
  have al: "set (b32encode rand) \<subseteq> set b32alphabet" using encode_whole(2) [OF m] .
  have sec: "new_secret rand = b32encode rand"
    using al b32_chars by (auto simp: new_secret_def intro!: rstrip_other)
  have "rand \<noteq> []" using assms by auto
  then have "length (chunks 5 rand) = 4" using assms by (simp add: chunks.simps [of 5])
  then have len: "length (b32encode rand) = 32"
    by (simp add: encode_whole [OF m] length_concat b32_quantum_def comp_def sum_list_triv)
  have "py_strip s = s \<and> remove_char (CHR '' '') s = s"
    if "s = b32encode rand \<or> s = py_lower (b32encode rand)" for s
    using that al b32_chars by (intro conjI strip_id) (fastforce simp: py_lower_def remove_char_def filter_id_conv)+
  then show ?thesis
    using upper_alphabet [OF al] b32decode_whole [OF m] al by (simp add: sec len decode_secret_def Let_def)
qed

definition demo_key :: bytes where
  "demo_key = [49,50,51,52,53,54,55,56,57,48,49,50,51,52,53,54,55,56,57,48]"

definition demo_secret :: string where
  "demo_secret = ''GEZDGNBVGY3TQOJQGEZDGNBVGY3TQOJQ''"

text \<open>The key of RFC 4226 and its base32 form.\<close>
lemma new_secret_roundtrip_witness:
  "new_secret demo_key = demo_secret \<and> decode_secret demo_secret = Inr demo_key"
proof -
  have "length demo_key = 20" by (simp add: demo_key_def)
  moreover have "new_secret demo_key = demo_secret" by code_simp
  ultimately show ?thesis using new_secret_roundtrip [of demo_key] by simp
qed

section \<open>The accepted window\<close>

lemma show_nat_length: "n < 10 ^ k \<Longrightarrow> 0 < k \<Longrightarrow> length (show_nat n) \<le> k"
proof (induction k arbitrary: n)
  case 0
  then show ?case by simp
next
  case (Suc k)
  show ?case
  proof (cases "n < 10")
    case True
    then show ?thesis by (simp add: show_nat.simps [of n])
  next
    case False
    with Suc.prems have "n div 10 < 10 ^ k" "0 < k" by (auto intro!: gr0I)
    with Suc.IH [of "n div 10"] False show ?thesis by (simp add: show_nat.simps [of n])
  qed
qed

lemma hotp_total:
  assumes "0 \<le> c" "c < 2 ^ 64"
  shows "\<exists>s. hotp key c = Inr s \<and> length s = TOTP_DIGITS \<and> (\<forall>x \<in> set s. is_digit x)"
proof -
  define mac where "mac = hmac_sha1 key (word_be8 (word_of_int c))"
  define offset where "offset = unat (and (last mac) 0x0F)"
  define n where "n = uint (and (be_word (take 4 (drop offset mac))) 0x7FFFFFFF) mod 10 ^ TOTP_DIGITS"
  have "and (last mac) 0x0F \<le> 0x0F" by (rule word_and_le1)
  then have "offset \<le> 15" unfolding offset_def by (simp add: word_le_nat_alt)
  then have four: "length (take 4 (drop offset mac)) = 4" by (simp add: mac_def)
  have n: "0 \<le> n" "nat n < 10 ^ TOTP_DIGITS" by (simp_all add: n_def TOTP_DIGITS_def nat_less_iff)
  then have "length (show_int n) \<le> TOTP_DIGITS" "\<forall>x \<in> set (show_int n). is_digit x"
    using show_nat_length [of "nat n" TOTP_DIGITS] by (auto simp: show_int_def TOTP_DIGITS_def dest: show_nat_digits)
  moreover have "hotp key c = Inr (zfill TOTP_DIGITS (show_int n))"
    using assms four unfolding hotp_def Let_def mac_def [symmetric] offset_def [symmetric] n_def by simp
  ultimately show ?thesis by (auto simp: zfill_def is_digit_def char_code_def)
qed

lemma digits_ascii: "\<forall>x \<in> set s. is_digit x \<Longrightarrow> list_all (\<lambda>c. char_code c < 128) s"
  by (auto simp: list_all_iff is_digit_def)

lemma verify_windows_eq:
  assumes "list_all (\<lambda>c. char_code c < 128) code" and "\<forall>d \<in> set ds. 0 \<le> c + d \<and> c + d < 2 ^ 64"
  shows "verify_windows key c code ds m = Inr (m \<or> (\<exists>d \<in> set ds. hotp key (c + d) = Inr code))"
  using assms(2)
proof (induction ds arbitrary: m)
  case Nil
  then show ?case by simp
next
  case (Cons d ds)
  then obtain s where "hotp key (c + d) = Inr s" "list_all (\<lambda>c. char_code c < 128) s"
    using hotp_total [of "c + d" key] digits_ascii by auto
  with Cons assms(1) show ?case by (auto simp: compare_digest_def)
qed

text \<open>The clean form of a code that an authenticator shows in two groups.\<close>

lemma totp_clean_grouped:
  assumes "\<forall>x \<in> set (u @ v). is_digit x"
  shows "totp_clean (u @ v) = u @ v" "totp_clean (u @ CHR '' '' # v) = u @ v" "totp_clean (u @ CHR ''-'' # v) = u @ v"
proof -
  have nd: "\<not> is_digit (CHR '' '')" "\<not> is_digit (CHR ''-'')" by code_simp+
  have sp: "\<not> is_space x" if "is_digit x" for x using that by (auto simp: is_digit_def is_space_def Let_def)
  have "py_strip (u @ v) = u @ v" using assms sp by (intro strip_id) auto
  moreover have "filter (\<lambda>x. x \<noteq> CHR '' '') w = w \<and> filter (\<lambda>x. x \<noteq> CHR ''-'') w = w"
    if "\<forall>x \<in> set w. is_digit x" for w using that nd by (auto simp: filter_id_conv)
  ultimately show "totp_clean (u @ v) = u @ v" "totp_clean (u @ CHR '' '' # v) = u @ v"
      "totp_clean (u @ CHR ''-'' # v) = u @ v"
    using assms by (simp_all add: totp_clean_def remove_char_def)
qed

lemma totp_verify_eq:
  assumes "decode_secret secret = Inr key" "key \<noteq> []"
    and "\<forall>x \<in> set (totp_clean code). is_digit x" "length (totp_clean code) = TOTP_DIGITS"
    and "1 \<le> now_counter at" "now_counter at < 2 ^ 64 - 1"
  shows "totp_verify secret code TOTP_DRIFT at =
    Inr (\<exists>d \<in> {-1, 0, 1}. hotp key (now_counter at + d) = Inr (totp_clean code))"
proof -
  have "py_isdigit (totp_clean code)"
    using assms(3,4) by (auto simp: py_isdigit_def list_all_iff TOTP_DIGITS_def)
  moreover have "[- TOTP_DRIFT .. TOTP_DRIFT] = [-1, 0, 1]" by (simp add: TOTP_DRIFT_def upto.simps)
  ultimately show ?thesis
    using assms verify_windows_eq [OF digits_ascii [OF assms(3)], of "[-1, 0, 1]" "now_counter at" key False]
    by (simp add: totp_verify_def Let_def)
qed

text \<open>
  C31: The second factor accepts exactly the codes of three windows. With a paired secret,
  verifying a six-digit code succeeds if and only if it is the one-time password of the
  current 30-second step, the one before or the one after; so the code an authenticator
  shows, written in one or two groups, is accepted by a server whose clock is up to 30
  seconds ahead or behind, and verification always returns.
\<close>
theorem totp_window:
  assumes key: "decode_secret secret = Inr key" "key \<noteq> []" and at: "60 \<le> at" "at < 2 ^ 63"
  shows "(\<forall>code. length (totp_clean code) = TOTP_DIGITS \<and> (\<forall>x \<in> set (totp_clean code). is_digit x) \<longrightarrow>
      totp_verify secret code TOTP_DRIFT at =
        Inr (\<exists>d \<in> {-1, 0, 1}. hotp key (now_counter at + d) = Inr (totp_clean code)))
    \<and> (\<forall>shown u v. \<bar>at - shown\<bar> \<le> 30 \<and> hotp key (now_counter shown) = Inr (u @ v) \<longrightarrow>
      totp_verify secret (u @ v) TOTP_DRIFT at = Inr True
      \<and> totp_verify secret (u @ CHR '' '' # v) TOTP_DRIFT at = Inr True)"
proof (intro conjI allI impI; (elim conjE)?)
  have c: "1 \<le> now_counter at" "now_counter at < 2 ^ 64 - 1" using at by (auto simp: now_counter_def TOTP_STEP_def)
  note eq = totp_verify_eq [OF key _ _ c]
  show "totp_verify secret code TOTP_DRIFT at =
      Inr (\<exists>d \<in> {-1, 0, 1}. hotp key (now_counter at + d) = Inr (totp_clean code))"
    if "length (totp_clean code) = TOTP_DIGITS" "\<forall>x \<in> set (totp_clean code). is_digit x" for code
    using that eq by blast
  fix shown u v assume near: "\<bar>at - shown\<bar> \<le> 30" and code: "hotp key (now_counter shown) = Inr (u @ v)"
  define d where "d = now_counter shown - now_counter at"
  have "d \<in> {-1, 0, 1}" using near by (auto simp: d_def now_counter_def TOTP_STEP_def)
  moreover have "now_counter shown = now_counter at + d" by (simp add: d_def)
  ultimately have ex: "\<exists>d \<in> {-1, 0, 1}. hotp key (now_counter at + d) = Inr (u @ v)" using code by metis
  have "0 \<le> now_counter shown" "now_counter shown < 2 ^ 64" using near at by (auto simp: now_counter_def TOTP_STEP_def)
  then have dig: "\<forall>x \<in> set (u @ v). is_digit x" "length (u @ v) = TOTP_DIGITS"
    using hotp_total [of "now_counter shown" key] code by auto
  show "totp_verify secret (u @ v) TOTP_DRIFT at = Inr True" "totp_verify secret (u @ CHR '' '' # v) TOTP_DRIFT at = Inr True"
    using eq [of "u @ v"] eq [of "u @ CHR '' '' # v"] dig ex totp_clean_grouped [OF dig(1)] by simp_all
qed

lemma demo_secret_key: "decode_secret demo_secret = Inr demo_key"
  by code_simp

text \<open>The code shown for the key of RFC 4226 half a minute before the server checks it.\<close>
theorem totp_window_witness:
  "\<exists>code. hotp demo_key (now_counter 1700000000) = Inr code
     \<and> totp_verify demo_secret code TOTP_DRIFT 1700000030 = Inr True"
proof -
  have c: "0 \<le> now_counter 1700000000" "now_counter 1700000000 < 2 ^ 64" by (simp_all add: now_counter_def TOTP_STEP_def)
  obtain code where code: "hotp demo_key (now_counter 1700000000) = Inr code" using hotp_total [OF c] by blast
  have "demo_key \<noteq> []" "60 \<le> (1700000030 :: int)" "(1700000030 :: int) < 2 ^ 63" by (simp_all add: demo_key_def)
  note window = totp_window [OF demo_secret_key this, THEN conjunct2, rule_format, of 1700000000 code "[]"]
  have "totp_verify demo_secret code TOTP_DRIFT 1700000030 = Inr True" using window code by simp
  with code show ?thesis by blast
qed

section \<open>Recovery codes and pairing\<close>

text \<open>A recovery code is ten letters of the alphabet in two groups of five.\<close>

lemma recovery_code_groups:
  assumes "\<forall>g j. choice g j < length RECOVERY_ALPHABET"
  obtains u v where "recovery_code choice = u @ CHR ''-'' # v" "length u = 5" "length v = 5"
    "set (u @ v) \<subseteq> set RECOVERY_ALPHABET"
proof
  let ?g = "\<lambda>g. map (\<lambda>j. RECOVERY_ALPHABET ! choice g j) [0..<RECOVERY_CODE_GROUP_LEN]"
  have "[0..<RECOVERY_CODE_GROUPS] = [0, 1]" by (simp add: RECOVERY_CODE_GROUPS_def upt_rec)
  then show "recovery_code choice = ?g 0 @ CHR ''-'' # ?g 1" by (simp add: recovery_code_def)
  show "set (?g 0 @ ?g 1) \<subseteq> set RECOVERY_ALPHABET" using assms by auto
qed (simp_all add: RECOVERY_CODE_GROUP_LEN_def)

lemma recovery_chars:
  "\<forall>c \<in> set RECOVERY_ALPHABET. char_lower c = c \<and> \<not> is_space c \<and> c \<noteq> CHR '' '' \<and> c \<noteq> CHR ''-'' "
  by code_simp

lemma normalize_groups:
  assumes "set (u @ v) \<subseteq> set RECOVERY_ALPHABET" "u \<noteq> []" "v \<noteq> []"
  shows "normalize_recovery_code (u @ CHR ''-'' # v) = u @ v"
proof -
  have ok: "\<forall>c \<in> set u \<union> set v. char_lower c = c \<and> \<not> is_space c \<and> c \<noteq> CHR '' '' \<and> c \<noteq> CHR ''-''"
    using assms recovery_chars by auto
  have "py_strip (u @ CHR ''-'' # v) = u @ CHR ''-'' # v" using ok by (intro strip_id) (auto simp: is_space_def char_code_def)
  moreover have "py_lower (u @ CHR ''-'' # v) = u @ CHR ''-'' # v"
    using ok by (auto simp: py_lower_def char_lower_def char_code_def map_idI)
  ultimately show ?thesis using ok by (auto simp: normalize_recovery_code_def remove_char_def filter_id_conv)
qed

lemma set_percent: "n < 256 \<Longrightarrow> set (percent n) \<subseteq> set ''%0123456789ABCDEF''"
proof -
  assume "n < 256"
  then have "n div 16 < 16" "n mod 16 < 16" by simp_all
  moreover have "hex_upper d \<in> set ''0123456789ABCDEF''" if "d < 16" for d
    unfolding hex_upper_def using that by (intro nth_mem) simp
  ultimately show ?thesis by (auto simp: percent_def)
qed

text \<open>Quoted text has no character that separates the parts of the pairing URI.\<close>

lemma url_quote_safe: "set (url_quote s) \<inter> set '':/?&='' = {}"
proof -
  have unr: "\<not> unreserved c" if "c \<in> set '':/?&=''" for c
  proof -
    have "\<forall>c \<in> set '':/?&=''. \<not> unreserved c" by code_simp
    with that show ?thesis by blast
  qed
  have "set (quote_one c) \<inter> set '':/?&='' = {}" for c
  proof (cases "unreserved c")
    case True
    with unr show ?thesis by (auto simp: quote_one_def)
  next
    case False
    have n: "char_code c < 256" by (rule char_code_lt)
    then have "char_code c div 64 < 4" by simp
    with n have "set (percent (char_code c)) \<union> set (percent (192 + char_code c div 64))
        \<union> set (percent (128 + char_code c mod 64)) \<subseteq> set ''%0123456789ABCDEF''"
      by (intro Un_least set_percent) auto
    with False show ?thesis by (auto simp: quote_one_def split: if_splits)
  qed
  then show ?thesis by (auto simp: url_quote_def)
qed

end
