(* ===== verification/Admin_Sessions.thy ===== *)
theory Admin_Sessions
  imports Auth Totp
begin

text \<open>
  Cookie sessions of the admin UI (\<^verbatim>\<open>app/auth.py\<close>, \<^verbatim>\<open>app/csrf.py\<close>, \<^verbatim>\<open>app/cookies.py\<close>): the
  signing key, the signed session cookie, the session rows that make a cookie revocable,
  the dependency every admin route runs first, and the double-submit token against
  cross-site requests.

  The signing library is a parameter (\<open>signer_lib\<close>): a salt, an instant and a value give
  a signed string; unsigning gives the value back, or \<open>None\<close> where the library raises
  \<open>BadSignature\<close> or its subclass for an expired signature. \<open>signer_ok\<close> states what is
  relied on of it.
\<close>

record signer_lib =
  ts_sign :: "string \<Rightarrow> instant \<Rightarrow> string \<Rightarrow> string"
  ts_unsign :: "string \<Rightarrow> instant \<Rightarrow> int option \<Rightarrow> string \<Rightarrow> string option"

definition is_ascii :: "string \<Rightarrow> bool" where
  "is_ascii s \<longleftrightarrow> list_all (\<lambda>c. char_code c < 128) s"

definition signer_ok :: "signer_lib \<Rightarrow> bool" where
  "signer_ok sg \<longleftrightarrow> (\<forall>salt t v. is_ascii v \<longrightarrow>
     ts_sign sg salt t v \<noteq> [] \<and> is_ascii (ts_sign sg salt t v) \<and>
     (\<forall>now. ts_unsign sg salt now None (ts_sign sg salt t v) = Some v) \<and>
     (\<forall>now age. t \<le> now \<longrightarrow>
        ts_unsign sg salt now (Some age) (ts_sign sg salt t v) = (if now - t \<le> age then Some v else None)))"

record admin_cfg =
  cfg_signer :: signer_lib
  cfg_sha :: "bytes \<Rightarrow> string"
  cfg_max_age :: int
  cfg_idle :: int
  cfg_ip_network :: "string \<Rightarrow> ip_net option"

definition SESSION_SALT :: string where
  "SESSION_SALT = ''itsdangerous.Signer''"

section \<open>The signing key\<close>

text \<open>
  The two variables for the key, the development flag, a random string, and the cached
  development key; the key or the error, and the cache afterwards.
\<close>

definition secret_key ::
  "string option \<Rightarrow> string option \<Rightarrow> string option \<Rightarrow> string \<Rightarrow> string option \<Rightarrow> (exn + string) \<times> string option" where
  "secret_key session_secret catalog_secret dev rand cached =
     (let configured = (if truthy session_secret then session_secret else catalog_secret) in
      if truthy configured then (Inr (the configured), cached)
      else if dev = Some ''1'' then
        (case cached of None \<Rightarrow> (Inr rand, Some rand) | Some k \<Rightarrow> (Inr k, cached))
      else (Inl (RuntimeError ''NKS_WDC_SESSION_SECRET must be set in production''), cached))"

definition bcrypt_rounds :: "int \<Rightarrow> int" where
  "bcrypt_rounds n = max 10 (min 14 n)"

definition verify_password :: "bcrypt_lib \<Rightarrow> string \<Rightarrow> string \<Rightarrow> bool" where
  "verify_password bc plain hashed = checkpw bc plain hashed"

definition verify_dummy_password :: "bcrypt_lib \<Rightarrow> string \<Rightarrow> bool" where
  "verify_dummy_password bc plain = False"

definition cookie_secure :: "string option \<Rightarrow> bool" where
  "cookie_secure dev = (dev \<noteq> Some ''1'')"

section \<open>The session cookie\<close>

definition split_session_payload :: "string \<Rightarrow> string \<times> string option" where
  "split_session_payload raw =
     (if CHR ''|'' \<notin> set raw then (raw, None)
      else (let username = takeWhile (\<lambda>c. c \<noteq> CHR ''|'') raw;
                session_id = drop (Suc (length username)) raw
            in (username, if session_id = [] then None else Some session_id)))"

text \<open>\<open>cookie.encode("ascii")\<close> raises on any other text.\<close>

definition unicode_error :: exn where
  "unicode_error = ValueError ''ordinal not in range(128)''"

definition session_id_of :: "admin_cfg \<Rightarrow> instant \<Rightarrow> string option \<Rightarrow> exn + string option" where
  "session_id_of cfg now cookie =
     (if \<not> truthy cookie then Inr None
      else if \<not> is_ascii (the cookie) then Inl unicode_error
      else (case ts_unsign (cfg_signer cfg) SESSION_SALT now None (the cookie) of None \<Rightarrow> Inr None
            | Some raw \<Rightarrow> Inr (snd (split_session_payload raw))))"

definition fingerprint :: "admin_cfg \<Rightarrow> instant \<Rightarrow> string \<Rightarrow> exn + string" where
  "fingerprint cfg now signed_cookie =
     (case session_id_of cfg now (Some signed_cookie) of Inl e \<Rightarrow> Inl e
      | Inr sid \<Rightarrow>
        (let source = (case sid of None \<Rightarrow> signed_cookie | Some s \<Rightarrow> s)
         in if is_ascii source then Inr (cfg_sha cfg (ascii_encode source)) else Inl unicode_error))"

definition find_user :: "string \<Rightarrow> database \<Rightarrow> user_row option" where
  "find_user username d = find (\<lambda>u. usr_username u = username) (users d)"

definition find_session :: "string \<Rightarrow> database \<Rightarrow> admin_session option" where
  "find_session fp d = find (\<lambda>r. ses_fingerprint r = fp) (admin_sessions d)"

definition session_row :: "environment \<Rightarrow> instant \<Rightarrow> int \<Rightarrow> string \<Rightarrow> request option \<Rightarrow> database \<Rightarrow> admin_session" where
  "session_row env now user_id fp req d =
     \<lparr>ses_id = env_alloc env (map ses_id (admin_sessions d)), ses_user_id = user_id, ses_fingerprint = fp,
      ses_ip = map_option (client_ip (env_ip_address env) (env_trusted env)) req,
      ses_user_agent = (let ua = (case req of None \<Rightarrow> None | Some r \<Rightarrow> req_user_agent r);
                            cut = take 256 (case ua of None \<Rightarrow> [] | Some s \<Rightarrow> s)
                        in if cut = [] then None else Some cut),
      ses_created_at = now, ses_last_seen_at = now, ses_revoked_at = None\<rparr>"

text \<open>The row for a user's session, unless the fingerprint has one.\<close>

definition track_session ::
  "environment \<Rightarrow> instant \<Rightarrow> string \<Rightarrow> string \<Rightarrow> request option \<Rightarrow> database \<Rightarrow> database" where
  "track_session env now username fp req d =
     (case find_user username d of None \<Rightarrow> d
      | Some user \<Rightarrow>
        (case find_session fp d of Some _ \<Rightarrow> d
         | None \<Rightarrow> d\<lparr>admin_sessions := row_add (session_row env now (usr_id user) fp req d) (admin_sessions d)\<rparr>))"

text \<open>
  Any failure while the row is written is logged and dropped. Signing a value that is not
  ASCII gives bytes that do not decode.
\<close>

definition issue_session ::
  "admin_cfg \<Rightarrow> environment \<Rightarrow> instant \<Rightarrow> string \<Rightarrow> string option \<Rightarrow> bool \<Rightarrow> request option \<Rightarrow> string \<Rightarrow> string handler" where
  "issue_session cfg env now uuid session_id with_db req username st =
     (let sid = (if truthy session_id then the session_id else uuid);
          payload = username @ ''|'' @ sid in
      if \<not> is_ascii payload then (Inl unicode_error, st)
      else (let signed = ts_sign (cfg_signer cfg) SESSION_SALT now payload in
            if \<not> with_db then (Inr signed, st)
            else (case fingerprint cfg now signed of Inl _ \<Rightarrow> (Inr signed, st)
                  | Inr fp \<Rightarrow> (Inr signed, st\<lparr>db := track_session env now username fp req (db st)\<rparr>))))"

definition read_session :: "admin_cfg \<Rightarrow> instant \<Rightarrow> string option \<Rightarrow> exn + string option" where
  "read_session cfg now cookie =
     (if \<not> truthy cookie then Inr None
      else if \<not> is_ascii (the cookie) then Inl unicode_error
      else (case ts_unsign (cfg_signer cfg) SESSION_SALT now (Some (min (cfg_max_age cfg) (cfg_idle cfg))) (the cookie) of
              None \<Rightarrow> Inr None
            | Some raw \<Rightarrow> Inr (Some (fst (split_session_payload raw)))))"

definition optional_user :: "admin_cfg \<Rightarrow> instant \<Rightarrow> string option \<Rightarrow> exn + string option" where
  "optional_user cfg now cookie = read_session cfg now cookie"

definition ensure_admin_user ::
  "bcrypt_lib \<Rightarrow> (int list \<Rightarrow> int) \<Rightarrow> instant \<Rightarrow> string \<Rightarrow> string option \<Rightarrow> string option \<Rightarrow> string option
     \<Rightarrow> database \<Rightarrow> database" where
  "ensure_admin_user bc alloc now salt admin_user admin_pass dev d =
     (let username = (case admin_user of None \<Rightarrow> ''admin'' | Some u \<Rightarrow> u);
          password = (if truthy admin_pass then admin_pass else if dev = Some ''1'' then Some ''admin'' else None) in
      case password of None \<Rightarrow> d
      | Some p \<Rightarrow>
        (case find_user username d of Some _ \<Rightarrow> d
         | None \<Rightarrow> d\<lparr>users := row_add \<lparr>usr_id = alloc (map usr_id (users d)), usr_username = username,
                     usr_password_hash = hashpw bc p salt, usr_created_at = now, usr_last_login_at = None\<rparr> (users d)\<rparr>))"

section \<open>The route dependency\<close>

definition to_login :: "string \<Rightarrow> exn" where
  "to_login detail = HTTPException 302 detail"

text \<open>The session row of a request: \<open>None\<close> is a revoked session.\<close>

definition touch_session ::
  "environment \<Rightarrow> instant \<Rightarrow> request \<Rightarrow> string \<Rightarrow> string \<Rightarrow> database \<Rightarrow> database option" where
  "touch_session env now req username fp d =
     (case find_session fp d of
        Some row \<Rightarrow>
          if ses_revoked_at row \<noteq> None then None
          else Some (d\<lparr>admin_sessions :=
                 row_set ses_id (ses_id row) (ses_last_seen_at_update (\<lambda>_. now)) (admin_sessions d)\<rparr>)
      | None \<Rightarrow> Some (track_session env now username fp (Some req) d))"

definition admin_allowlist :: "database \<Rightarrow> string list option" where
  "admin_allowlist d = (case global_policies d of None \<Rightarrow> None | Some g \<Rightarrow> gp_admin_ip_allowlist g)"

definition current_user ::
  "admin_cfg \<Rightarrow> environment \<Rightarrow> instant \<Rightarrow> request \<Rightarrow> string option \<Rightarrow> string handler" where
  "current_user cfg env now req cookie st =
     (case read_session cfg now cookie of
        Inl e \<Rightarrow> (Inl e, st)
      | Inr None \<Rightarrow> (Inl (to_login ''Not authenticated''), st)
      | Inr (Some username) \<Rightarrow>
        (case (case fingerprint cfg now (the cookie) of
                 Inl _ \<Rightarrow> Some (db st)
               | Inr fp \<Rightarrow> touch_session env now req username fp (db st)) of
           None \<Rightarrow> (Inl (to_login ''Session revoked''), st)
         | Some d1 \<Rightarrow>
           (let st1 = st\<lparr>db := d1\<rparr> in
            if allowlist_admits (cfg_ip_network cfg) env req (admin_allowlist d1) then (Inr username, st1)
            else (Inl (to_login ''Not authenticated''), st1))))"

section \<open>Cross-site requests\<close>

definition CSRF_MAX_AGE :: int where
  "CSRF_MAX_AGE = 60 * 60 * 12"

text \<open>The token in force: the cookie's if it is long enough, or the fresh one.\<close>

definition ensure_csrf_cookie :: "string option \<Rightarrow> string \<Rightarrow> string" where
  "ensure_csrf_cookie existing fresh =
     (case existing of None \<Rightarrow> fresh | Some e \<Rightarrow> if e \<noteq> [] \<and> 32 \<le> length e then e else fresh)"

definition require_csrf :: "string \<Rightarrow> string option \<Rightarrow> string option \<Rightarrow> exn option" where
  "require_csrf http_method token cookie =
     (if py_upper http_method \<in> set [''GET'', ''HEAD'', ''OPTIONS''] then None
      else if \<not> truthy cookie \<or> \<not> truthy token then Some (HTTPException 403 ''CSRF token invalid'')
      else (case compare_digest (the cookie) (the token) of
              Inl e \<Rightarrow> Some e
            | Inr same \<Rightarrow> if same then None else Some (HTTPException 403 ''CSRF token invalid'')))"

end
