(* ===== verification/Base64.thy ===== *)
theory Base64
  imports Totp
begin

text \<open>
  URL-safe base64 as the standard library computes it (\<open>base64.urlsafe_b64encode\<close>,
  \<open>urlsafe_b64decode\<close>), which the signed cookies of the admin UI are wrapped in. The decoder is
  the permissive one of \<open>binascii.a2b_base64\<close>: characters outside the alphabet are skipped,
  and a complete padding ends the input.
\<close>

definition b64alphabet :: string where
  "b64alphabet = ''ABCDEFGHIJKLMNOPQRSTUVWXYZabcdefghijklmnopqrstuvwxyz0123456789-_''"

definition b64char :: "int \<Rightarrow> char" where
  "b64char d = b64alphabet ! nat (d mod 64)"

fun urlsafe_b64encode :: "bytes \<Rightarrow> string" where
  "urlsafe_b64encode [] = []"
| "urlsafe_b64encode [a] = map b64char [uint a div 4, uint a mod 4 * 16] @ ''==''"
| "urlsafe_b64encode [a, b] =
     map b64char [uint a div 4, uint a mod 4 * 16 + uint b div 16, uint b mod 16 * 4] @ ''=''"
| "urlsafe_b64encode (a # b # c # bs) =
     map b64char [uint a div 4, uint a mod 4 * 16 + uint b div 16, uint b mod 16 * 4 + uint c div 64, uint c mod 64]
     @ urlsafe_b64encode bs"

text \<open>The decoder also reads the two characters of the standard alphabet that the URL-safe one replaces.\<close>

definition b64rev :: "char \<Rightarrow> int option" where
  "b64rev c = map_of (zip b64alphabet [0..63] @ [(CHR ''+'', 62), (CHR ''/'', 63)]) c"

text \<open>The position in the quantum, the bits left over, the padding characters seen, the output.\<close>

fun a2b_base64 :: "nat \<Rightarrow> int \<Rightarrow> nat \<Rightarrow> string \<Rightarrow> bytes \<Rightarrow> bytes option" where
  "a2b_base64 pos left pads [] out = (if pos = 0 then Some out else None)"
| "a2b_base64 pos left pads (c # cs) out =
     (if c = CHR ''='' then
        (if 2 \<le> pos \<and> 4 \<le> pos + Suc pads then Some out
         else a2b_base64 pos left (if 2 \<le> pos then Suc pads else pads) cs out)
      else (case b64rev c of None \<Rightarrow> a2b_base64 pos left pads cs out
        | Some d \<Rightarrow>
          if pos = 0 then a2b_base64 1 d 0 cs out
          else if pos = 1 then a2b_base64 2 (d mod 16) 0 cs (out @ [word_of_int (left * 4 + d div 16)])
          else if pos = 2 then a2b_base64 3 (d mod 4) 0 cs (out @ [word_of_int (left * 16 + d div 4)])
          else a2b_base64 0 0 0 cs (out @ [word_of_int (left * 64 + d)])))"

definition urlsafe_b64decode :: "string \<Rightarrow> bytes option" where
  "urlsafe_b64decode s = a2b_base64 0 0 0 s []"

section \<open>Round trip\<close>

lemma b64rev_char: "0 \<le> d \<Longrightarrow> d < 64 \<Longrightarrow> b64rev (b64char d) = Some d \<and> b64char d \<noteq> CHR ''=''"
proof -
  assume "0 \<le> d" "d < 64"
  then have "nat d \<in> set [0..<64]" "d = int (nat d)" by auto
  moreover have "\<forall>i \<in> set [0..<64]. b64rev (b64char (int i)) = Some (int i) \<and> b64char (int i) \<noteq> CHR ''=''"
    by code_simp
  ultimately show ?thesis by metis
qed

lemma a2b_char:
  assumes "0 \<le> d" "d < 64"
  shows "a2b_base64 pos left pads (b64char d # cs) out =
    (if pos = 0 then a2b_base64 1 d 0 cs out
     else if pos = 1 then a2b_base64 2 (d mod 16) 0 cs (out @ [word_of_int (left * 4 + d div 16)])
     else if pos = 2 then a2b_base64 3 (d mod 4) 0 cs (out @ [word_of_int (left * 16 + d div 4)])
     else a2b_base64 0 0 0 cs (out @ [word_of_int (left * 64 + d)]))"
  using b64rev_char [OF assms] by simp

lemma byte_range: "0 \<le> uint (a :: 8 word)" "uint (a :: 8 word) < 256"
  using uint_lt2p [of a] by auto

lemma byte_parts: "0 \<le> (x :: int) \<Longrightarrow> x < 256 \<Longrightarrow> 0 \<le> x div 4 \<and> x div 4 < 64 \<and> 0 \<le> x mod 4 * 16 \<and> x mod 4 * 16 < 64
    \<and> 0 \<le> x div 16 \<and> x div 16 < 16 \<and> 0 \<le> x mod 16 * 4 \<and> x mod 16 * 4 < 64 \<and> 0 \<le> x div 64 \<and> x div 64 < 4"
  by auto

lemma byte_mix:
  assumes "0 \<le> (y :: int)" "y < 256"
  shows "0 \<le> x mod 4 * 16 + y div 16" "x mod 4 * 16 + y div 16 < 64" "0 \<le> x mod 16 * 4 + y div 64" "x mod 16 * 4 + y div 64 < 64"
    "(x mod 4 * 16 + y div 16) div 16 = x mod 4" "(x mod 4 * 16 + y div 16) mod 16 = y div 16"
    "(x mod 16 * 4 + y div 64) div 4 = x mod 16" "(x mod 16 * 4 + y div 64) mod 4 = y div 64"
proof -
  have q: "0 \<le> y div 16" "y div 16 < 16" "0 \<le> y div 64" "y div 64 < 4" using assms by auto
  have r: "0 \<le> x mod 4" "x mod 4 < 4" "0 \<le> x mod 16" "x mod 16 < 16" by simp_all
  from q r show "0 \<le> x mod 4 * 16 + y div 16" "x mod 4 * 16 + y div 16 < 64"
      "0 \<le> x mod 16 * 4 + y div 64" "x mod 16 * 4 + y div 64 < 64" by linarith+
  from q show "(x mod 4 * 16 + y div 16) div 16 = x mod 4" "(x mod 4 * 16 + y div 16) mod 16 = y div 16"
      "(x mod 16 * 4 + y div 64) div 4 = x mod 16" "(x mod 16 * 4 + y div 64) mod 4 = y div 64"
    by (simp_all add: div_pos_pos_trivial mod_pos_pos_trivial)
qed

lemma a2b_quad:
  fixes a b c :: "8 word"
  shows "a2b_base64 0 0 0 (b64char (uint a div 4) # b64char (uint a mod 4 * 16 + uint b div 16)
      # b64char (uint b mod 16 * 4 + uint c div 64) # b64char (uint c mod 64) # cs) out =
    a2b_base64 0 0 0 cs (out @ [a, b, c])"
proof -
  have c: "0 \<le> uint c mod 64" "uint c mod 64 < 64" by simp_all
  have "uint b div 16 mod 16 = uint b div 16" "uint c div 64 mod 4 = uint c div 64"
    using byte_parts [OF byte_range [of b]] byte_parts [OF byte_range [of c]] by (simp_all add: mod_pos_pos_trivial)
  then show ?thesis
    using byte_parts [OF byte_range [of a]]
    by (simp add: a2b_char c byte_mix [OF byte_range [of b]] byte_mix [OF byte_range [of c]]
        div_mult_mod_eq del: a2b_base64.simps of_int_add of_int_mult)
qed

lemma a2b_encode: "a2b_base64 0 0 0 (urlsafe_b64encode bs @ replicate n (CHR ''='')) out = Some (out @ bs)"
proof (induction bs arbitrary: out rule: urlsafe_b64encode.induct)
  case 1
  have "a2b_base64 0 0 p (replicate n (CHR ''='')) out = Some out" for p by (induction n arbitrary: p) auto
  then show ?case by simp
next
  case (2 a)
  have "uint a mod 4 * 16 div 16 = uint a mod 4" by simp
  then show ?case
    using byte_parts [OF byte_range [of a]]
    by (simp add: a2b_char div_mult_mod_eq del: a2b_base64.simps of_int_add of_int_mult) simp
next
  case (3 a b)
  have "uint b mod 16 * 4 div 4 = uint b mod 16" by simp
  then show ?case
    using byte_parts [OF byte_range [of a]] byte_parts [OF byte_range [of b]]
    by (simp add: a2b_char byte_mix [OF byte_range [of b]] div_mult_mod_eq del: a2b_base64.simps of_int_add of_int_mult) simp
next
  case (4 a b c bs)
  then show ?case by (simp add: a2b_quad del: a2b_base64.simps)
qed

text \<open>
  Encoded text decodes to the bytes it was made from, with any extra padding: the readers of the
  cookies add padding without looking whether it is there.
\<close>

lemma b64_roundtrip: "urlsafe_b64decode (urlsafe_b64encode bs @ replicate n (CHR ''='')) = Some bs"
  by (simp add: urlsafe_b64decode_def a2b_encode)

lemma b64char_ascii: "char_code (b64char d) < 128"
proof -
  have "nat (d mod 64) < length b64alphabet" by (simp add: b64alphabet_def nat_less_iff)
  then have "b64char d \<in> set b64alphabet" unfolding b64char_def by (rule nth_mem)
  moreover have "\<forall>c \<in> set b64alphabet. char_code c < 128" by code_simp
  ultimately show ?thesis by blast
qed

lemma b64_ascii: "c \<in> set (urlsafe_b64encode bs) \<Longrightarrow> char_code c < 128"
proof -
  have "char_code (CHR ''='') < 128" by (simp add: char_code_def)
  then show "c \<in> set (urlsafe_b64encode bs) \<Longrightarrow> char_code c < 128"
    by (induction bs rule: urlsafe_b64encode.induct) (auto simp: b64char_ascii)
qed

lemma b64_empty: "urlsafe_b64encode bs = [] \<longleftrightarrow> bs = []"
  by (cases bs rule: urlsafe_b64encode.cases) auto

end
