(* ===== verification/Admin_Login.thy ===== *)
theory Admin_Login
  imports Admin_Sessions Base64
begin

text \<open>
  The login pages of the admin UI (\<^verbatim>\<open>app/api_auth_ui.py\<close>): password, second factor and logout,
  with the short-lived pending cookie between the two steps, and the flash messages of
  \<^verbatim>\<open>app/admin_ui.py\<close>. A page is its status, where it redirects to, its template with the
  context entries that depend on the request, the cookies it sets and those it deletes.

  An unordered select gives its rows in the order \<open>lk_scan\<close>; \<open>lk_fold\<close> is the case folding of the
  database's \<open>LIKE\<close> (ASCII letters on SQLite, none on Postgres).
\<close>

record ui_response =
  ui_status :: nat
  ui_location :: "string option"
  ui_template :: "string option"
  ui_context :: "(string \<times> json) list"
  ui_cookies :: "(string \<times> string) list"
  ui_deleted :: "string list"

definition ui_redirect :: "string \<Rightarrow> ui_response" where
  "ui_redirect url = \<lparr>ui_status = 303, ui_location = Some url, ui_template = None, ui_context = [],
     ui_cookies = [], ui_deleted = []\<rparr>"

definition ui_page :: "nat \<Rightarrow> string \<Rightarrow> (string \<times> json) list \<Rightarrow> ui_response" where
  "ui_page code template ctx = \<lparr>ui_status = code, ui_location = None, ui_template = Some template,
     ui_context = ctx, ui_cookies = [], ui_deleted = []\<rparr>"

definition SESSION_COOKIE :: string where "SESSION_COOKIE = ''nks_wdc_catalog_session''"
definition PENDING_COOKIE :: string where "PENDING_COOKIE = ''nks_wdc_2fa_pending''"
definition PENDING_MAX_AGE :: int where "PENDING_MAX_AGE = 5 * 60"
definition PENDING_SALT :: string where "PENDING_SALT = ''nks-wdc-2fa-pending-v1''"

section \<open>Signed text in a cookie\<close>

text \<open>The padding the readers add, \<open>"=" * (-len(cookie) % 4)\<close>.\<close>

definition b64_padding :: "string \<Rightarrow> string" where
  "b64_padding s = replicate (nat (- int (length s) mod 4)) (CHR ''='')"

definition issue_pending :: "admin_cfg \<Rightarrow> instant \<Rightarrow> string \<Rightarrow> string" where
  "issue_pending cfg now username =
     urlsafe_b64encode (ascii_encode (ts_sign (cfg_signer cfg) PENDING_SALT now username))"

definition read_pending :: "admin_cfg \<Rightarrow> instant \<Rightarrow> string option \<Rightarrow> string option" where
  "read_pending cfg now cookie =
     (if \<not> truthy cookie then None
      else if \<not> is_ascii (the cookie) then None
      else (case urlsafe_b64decode (the cookie @ b64_padding (the cookie)) of None \<Rightarrow> None
        | Some bs \<Rightarrow>
          (case ascii_decode bs of None \<Rightarrow> None
           | Some s \<Rightarrow> ts_unsign (cfg_signer cfg) PENDING_SALT now (Some PENDING_MAX_AGE) s)))"

section \<open>Flash messages\<close>

definition FLASH_SALT :: string where "FLASH_SALT = ''nks-wdc-flash-v1''"

definition redirect_flash :: "admin_cfg \<Rightarrow> instant \<Rightarrow> string \<Rightarrow> string option \<Rightarrow> string option \<Rightarrow> ui_response" where
  "redirect_flash cfg now url kind message =
     (if truthy kind \<and> truthy message
      then (ui_redirect url)\<lparr>ui_cookies := [(''flash'', urlsafe_b64encode (ascii_encode
             (ts_sign (cfg_signer cfg) FLASH_SALT now (the kind @ ''|'' @ the message))))]\<rparr>
      else ui_redirect url)"

definition flash_parts :: "string \<Rightarrow> (string \<times> string) option" where
  "flash_parts raw =
     (if CHR ''|'' \<notin> set raw then None
      else (let kind = takeWhile (\<lambda>c. c \<noteq> CHR ''|'') raw in Some (kind, drop (Suc (length kind)) raw)))"

text \<open>An unsigned value is accepted when it looks like an old cookie, one with a bar in it.\<close>

definition pop_flash :: "admin_cfg \<Rightarrow> instant \<Rightarrow> string option \<Rightarrow> (string \<times> string) option" where
  "pop_flash cfg now cookie =
     (if \<not> truthy cookie then None
      else (let c = the cookie;
                wrapped = (if is_ascii c then (case urlsafe_b64decode (c @ b64_padding c) of None \<Rightarrow> Some c | Some bs \<Rightarrow> ascii_decode bs)
                          else Some c);
                raw = (case wrapped of None \<Rightarrow> None | Some s \<Rightarrow> ts_unsign (cfg_signer cfg) FLASH_SALT now (Some 30) s)
            in case raw of Some r \<Rightarrow> flash_parts r
               | None \<Rightarrow> if CHR ''|'' \<in> set c then flash_parts c else None))"

section \<open>The account behind a username\<close>

record lookup_lib =
  lk_scan :: "account list \<Rightarrow> account list"
  lk_fold :: "char \<Rightarrow> char"

text \<open>\<open>LIKE\<close> without an escape character.\<close>

fun like_plain :: "(char \<Rightarrow> char) \<Rightarrow> string \<Rightarrow> string \<Rightarrow> bool" where
  "like_plain f [] s = (s = [])"
| "like_plain f (p # ps) [] = (p = CHR ''%'' \<and> like_plain f ps [])"
| "like_plain f (p # ps) (c # s) =
     (if p = CHR ''%'' then like_plain f ps (c # s) \<or> like_plain f (p # ps) s
      else (p = CHR ''_'' \<or> f c = f p) \<and> like_plain f ps s)"

definition legacy_email :: "string \<Rightarrow> string" where
  "legacy_email username = username @ ''@admin.local''"

definition paired_account :: "lookup_lib \<Rightarrow> database \<Rightarrow> string \<Rightarrow> account option" where
  "paired_account lk d username =
     (case find (\<lambda>a. like_plain (lk_fold lk) (username @ ''@%'') (acc_email a) \<and> acc_email a \<noteq> legacy_email username)
             (lk_scan lk (accounts d)) of
        Some a \<Rightarrow> Some a
      | None \<Rightarrow> find (\<lambda>a. acc_email a = legacy_email username) (lk_scan lk (accounts d)))"

text \<open>\<open>acct.totp_enabled and acct.totp_secret\<close>\<close>

definition has_totp :: "account \<Rightarrow> bool" where
  "has_totp a \<longleftrightarrow> acc_totp_enabled a \<and> truthy (acc_totp_secret a)"

section \<open>Routes\<close>

definition root :: "admin_cfg \<Rightarrow> instant \<Rightarrow> string option \<Rightarrow> exn + ui_response" where
  "root cfg now cookie =
     (case optional_user cfg now cookie of Inl e \<Rightarrow> Inl e
      | Inr user \<Rightarrow> Inr ((ui_redirect (if truthy user then ''/admin'' else ''/login''))\<lparr>ui_status := 307\<rparr>))"

definition login_failed_page :: ui_response where
  "login_failed_page = ui_page 401 ''login.html'' [(''error'', JStr ''Invalid username or password'')]"

definition with_session_cookie :: "string \<Rightarrow> ui_response \<Rightarrow> ui_response" where
  "with_session_cookie token r = r\<lparr>ui_cookies := ui_cookies r @ [(SESSION_COOKIE, token)]\<rparr>"

definition login_submit ::
  "lookup_lib \<Rightarrow> bcrypt_lib \<Rightarrow> admin_cfg \<Rightarrow> environment \<Rightarrow> instant \<Rightarrow> string \<Rightarrow> request \<Rightarrow> string \<Rightarrow> string
     \<Rightarrow> ui_response handler" where
  "login_submit lk bc cfg env now uuid req username password st =
     (case find_user (py_strip username) (db st) of
        None \<Rightarrow> (Inr login_failed_page, st)
      | Some user \<Rightarrow>
        if \<not> verify_password bc password (usr_password_hash user) then (Inr login_failed_page, st)
        else (case paired_account lk (db st) (usr_username user) of
            Some acct \<Rightarrow>
              if has_totp acct then
                (Inr ((ui_redirect ''/login/2fa'')\<lparr>ui_cookies :=
                   [(PENDING_COOKIE, issue_pending cfg now (usr_username user))]\<rparr>), st)
              else (case issue_session cfg env now uuid None True (Some req) (usr_username user) st of
                      (Inl e, st1) \<Rightarrow> (Inl e, st1)
                    | (Inr token, st1) \<Rightarrow> (Inr (with_session_cookie token (ui_redirect ''/admin'')), st1))
          | None \<Rightarrow>
              (case issue_session cfg env now uuid None True (Some req) (usr_username user) st of
                 (Inl e, st1) \<Rightarrow> (Inl e, st1)
               | (Inr token, st1) \<Rightarrow> (Inr (with_session_cookie token (ui_redirect ''/admin'')), st1))))"

definition login_2fa_form :: "admin_cfg \<Rightarrow> instant \<Rightarrow> string option \<Rightarrow> ui_response" where
  "login_2fa_form cfg now cookie =
     (case read_pending cfg now cookie of None \<Rightarrow> ui_redirect ''/login''
      | Some username \<Rightarrow> ui_page 200 ''login_2fa.html'' [(''pending_user'', JStr username)])"

text \<open>\<open>str.splitlines\<close>: the line boundaries of Latin-1, \<open>\r\n\<close> as one.\<close>

definition is_linebreak :: "char \<Rightarrow> bool" where
  "is_linebreak c \<longleftrightarrow> char_code c \<in> {10, 11, 12, 13, 28, 29, 30, 133}"

function splitlines :: "string \<Rightarrow> string list" where
  "splitlines s =
     (if s = [] then []
      else (let line = takeWhile (\<lambda>c. \<not> is_linebreak c) s; rest = drop (length line) s in
        line # (case rest of [] \<Rightarrow> []
                | c # cs \<Rightarrow> splitlines (if char_code c = 13 \<and> cs \<noteq> [] \<and> char_code (hd cs) = 10 then tl cs else cs))))"
  by auto
termination
proof (relation "measure length", goal_cases)
  case 1
  then show ?case by simp
next
  case (2 s line rest c cs)
  then have "length (c # cs) \<le> length s" by (metis length_drop diff_le_self)
  then show ?case by auto
qed

declare splitlines.simps [simp del]

definition recovery_lines :: "account \<Rightarrow> string list" where
  "recovery_lines acct =
     filter (\<lambda>l. l \<noteq> []) (map py_strip (splitlines (case acc_totp_recovery_hashes acct of None \<Rightarrow> [] | Some h \<Rightarrow> h)))"

definition bare_code :: "string \<Rightarrow> string" where
  "bare_code code = remove_char (CHR ''-'') (remove_char (CHR '' '') code)"

text \<open>The check of the second factor: an error, or the outcome with the recovery hash that matched.\<close>

definition check_second_factor ::
  "bcrypt_lib \<Rightarrow> instant \<Rightarrow> account \<Rightarrow> string \<Rightarrow> exn + bool \<times> string option" where
  "check_second_factor bc now acct code =
     (let code_clean = py_strip code in
      if py_isdigit (bare_code code_clean) \<and> length (bare_code code_clean) = TOTP_DIGITS
      then (case totp_verify (the (acc_totp_secret acct)) code_clean TOTP_DRIFT now of
              Inl e \<Rightarrow> Inl e | Inr ok \<Rightarrow> Inr (ok, None))
      else (case find (checkpw bc (normalize_recovery_code code_clean)) (recovery_lines acct) of
              None \<Rightarrow> Inr (False, None) | Some line \<Rightarrow> Inr (True, Some line)))"

definition burn_recovery :: "string option \<Rightarrow> account \<Rightarrow> account" where
  "burn_recovery used acct =
     (case used of None \<Rightarrow> acct
      | Some h \<Rightarrow> acct\<lparr>acc_totp_recovery_hashes :=
          Some (join_with [char_of (10 :: nat)] (filter (\<lambda>l. l \<noteq> h) (recovery_lines acct)))\<rparr>)"

definition login_2fa_submit ::
  "lookup_lib \<Rightarrow> bcrypt_lib \<Rightarrow> admin_cfg \<Rightarrow> environment \<Rightarrow> instant \<Rightarrow> string \<Rightarrow> request \<Rightarrow> string \<Rightarrow> string option
     \<Rightarrow> ui_response handler" where
  "login_2fa_submit lk bc cfg env now uuid req code cookie st =
     (case read_pending cfg now cookie of
        None \<Rightarrow> (Inr (ui_redirect ''/login''), st)
      | Some username \<Rightarrow>
        (case (find_user username (db st), paired_account lk (db st) username) of
           (Some user, Some acct) \<Rightarrow>
             if \<not> has_totp acct then (Inr (ui_redirect ''/login''), st)
             else (case check_second_factor bc now acct code of
               Inl e \<Rightarrow> (Inl e, st)
             | Inr (False, _) \<Rightarrow>
                 (Inr (ui_page 401 ''login_2fa.html'' [(''pending_user'', JStr username),
                        (''error'', JStr ''Code didn't match. Codes rotate every 30 s.'')]),
                  emit env now (Some acct) ''totp.login_failed'' (Some req) (Some ''account'')
                    (Some (show_int (acc_id acct))) None st)
             | Inr (True, used) \<Rightarrow>
                 (let acct1 = burn_recovery used acct;
                      st1 = (if used = None then st else put_account acct1 st);
                      st2 = emit env now (Some acct1) ''totp.login_ok'' (Some req) (Some ''account'')
                        (Some (show_int (acc_id acct)))
                        (if used = None then None else Some (JObj [(''used_recovery'', JBool True)])) st1
                  in case issue_session cfg env now uuid None True (Some req) (usr_username user) st2 of
                       (Inl e, st3) \<Rightarrow> (Inl e, st3)
                     | (Inr token, st3) \<Rightarrow>
                         (Inr ((with_session_cookie token (ui_redirect ''/admin''))\<lparr>ui_deleted := [PENDING_COOKIE]\<rparr>), st3)))
         | _ \<Rightarrow> (Inr (ui_redirect ''/login''), st)))"

text \<open>Signing out forgets the cookie in this browser; the session row stays as it is.\<close>

definition logout_ui :: ui_response where
  "logout_ui = (ui_redirect ''/login'')\<lparr>ui_deleted := [SESSION_COOKIE]\<rparr>"

definition with_csrf :: "string \<Rightarrow> string option \<Rightarrow> string option \<Rightarrow> 'a handler \<Rightarrow> 'a handler" where
  "with_csrf http_method token cookie h st =
     (case require_csrf http_method token cookie of Some e \<Rightarrow> (Inl e, st) | None \<Rightarrow> h st)"

section \<open>Properties\<close>

lemma is_ascii_append [simp]: "is_ascii (a @ b) \<longleftrightarrow> is_ascii a \<and> is_ascii b"
  by (simp add: is_ascii_def)

lemma is_ascii_Cons [simp]: "is_ascii (c # s) \<longleftrightarrow> char_code c < 128 \<and> is_ascii s"
  by (simp add: is_ascii_def)

lemma ascii_bar [simp]: "is_ascii []" "char_code (CHR ''|'') < 128"
  by (code_simp, code_simp)

lemma ascii_text: "is_ascii s \<Longrightarrow> ascii_decode (ascii_encode s) = Some s"
  by (auto simp: is_ascii_def list_all_iff intro: ascii_decode_encode)

lemma ascii_encode_Nil [simp]: "ascii_encode s = [] \<longleftrightarrow> s = []"
  by (simp add: ascii_encode_def)

text \<open>What the readers of a wrapped cookie see of signed text.\<close>

lemma wrapped_text:
  fixes salt :: string and t :: instant
  assumes "signer_ok (cfg_signer cfg)" "is_ascii v"
  defines "c \<equiv> urlsafe_b64encode (ascii_encode (ts_sign (cfg_signer cfg) salt t v))"
  shows "c \<noteq> []" "is_ascii c"
    "urlsafe_b64decode (c @ b64_padding c) = Some (ascii_encode (ts_sign (cfg_signer cfg) salt t v))"
    "ascii_decode (ascii_encode (ts_sign (cfg_signer cfg) salt t v)) = Some (ts_sign (cfg_signer cfg) salt t v)"
  using assms b64_ascii
  by (auto simp: c_def b64_empty b64_padding_def b64_roundtrip ascii_text signer_ok_def is_ascii_def [of "urlsafe_b64encode _"] list_all_iff)

lemma unsign_sign:
  "signer_ok sg \<Longrightarrow> is_ascii v \<Longrightarrow> t \<le> now \<Longrightarrow>
     ts_unsign sg salt now (Some age) (ts_sign sg salt t v) = (if now - t \<le> age then Some v else None)"
  "signer_ok sg \<Longrightarrow> is_ascii v \<Longrightarrow> ts_unsign sg salt now None (ts_sign sg salt t v) = Some v"
  "signer_ok sg \<Longrightarrow> is_ascii v \<Longrightarrow> ts_sign sg salt t v \<noteq> [] \<and> is_ascii (ts_sign sg salt t v)"
  by (simp_all add: signer_ok_def)

lemma pending_roundtrip:
  assumes "signer_ok (cfg_signer cfg)" "is_ascii u" "t \<le> now"
  shows "read_pending cfg now (Some (issue_pending cfg t u)) = (if now - t \<le> PENDING_MAX_AGE then Some u else None)"
  using wrapped_text [OF assms(1,2), of PENDING_SALT t] assms
  by (simp add: read_pending_def issue_pending_def unsign_sign)

lemma flash_parts_bar: "CHR ''|'' \<notin> set k \<Longrightarrow> flash_parts (k @ ''|'' @ m) = Some (k, m)"
proof -
  assume "CHR ''|'' \<notin> set k"
  then have "takeWhile (\<lambda>c. c \<noteq> CHR ''|'') (k @ ''|'' @ m) = k" by (induction k) auto
  then show ?thesis by (simp add: flash_parts_def)
qed

text \<open>A flash message is shown as it was set, for half a minute.\<close>

lemma flash_roundtrip:
  assumes "signer_ok (cfg_signer cfg)" "is_ascii k" "is_ascii m" "k \<noteq> []" "m \<noteq> []" "CHR ''|'' \<notin> set k"
    and "t \<le> now" "now - t \<le> 30"
  shows "\<exists>c. ui_cookies (redirect_flash cfg t url (Some k) (Some m)) = [(''flash'', c)] \<and> pop_flash cfg now (Some c) = Some (k, m)"
proof -
  have v: "is_ascii (k @ ''|'' @ m)" using assms by simp
  show ?thesis
    using wrapped_text [OF assms(1) v, of FLASH_SALT t] assms unsign_sign(1) [OF assms(1) v assms(7)] flash_parts_bar [OF assms(6), of m]
    by (auto simp: redirect_flash_def pop_flash_def Let_def simp del: append_Cons)
qed

lemma split_payload: "CHR ''|'' \<notin> set u \<Longrightarrow> sid \<noteq> [] \<Longrightarrow> split_session_payload (u @ ''|'' @ sid) = (u, Some sid)"
proof -
  assume "CHR ''|'' \<notin> set u" "sid \<noteq> []"
  moreover from this have "takeWhile (\<lambda>c. c \<noteq> CHR ''|'') (u @ ''|'' @ sid) = u" by (induction u) auto
  ultimately show ?thesis by (simp add: split_session_payload_def Let_def)
qed

lemma splitlines_Cons:
  assumes "line \<noteq> []" "\<forall>c \<in> set line. \<not> is_linebreak c"
  shows "splitlines (line @ char_of (10 :: nat) # rest) = line # splitlines rest" "splitlines line = [line]"
proof -
  have nl: "is_linebreak (char_of (10 :: nat))" "char_code (char_of (10 :: nat)) = 10"
    by (simp_all add: is_linebreak_def char_code_char_of)
  have "takeWhile (\<lambda>c. \<not> is_linebreak c) (line @ char_of (10 :: nat) # rest) = line"
    using assms(2) nl by (simp add: takeWhile_append2)
  then show "splitlines (line @ char_of (10 :: nat) # rest) = line # splitlines rest"
    using assms(1) nl by (subst splitlines.simps) (simp add: Let_def)
  have "takeWhile (\<lambda>c. \<not> is_linebreak c) line = line" using assms(2) by (simp add: takeWhile_eq_all_conv)
  then show "splitlines line = [line]"
    using assms(1) by (subst splitlines.simps) (simp only: Let_def drop_all order_refl list.case if_False)
qed

lemma splitlines_join:
  "\<forall>l \<in> set ls. l \<noteq> [] \<and> (\<forall>c \<in> set l. \<not> is_linebreak c) \<Longrightarrow> splitlines (join_with [char_of (10 :: nat)] ls) = ls"
proof (induction ls)
  case Nil
  then show ?case by (simp add: splitlines.simps [of "[]"])
next
  case (Cons w ws)
  then show ?case using splitlines_Cons [of w] by (cases ws) simp_all
qed

lemma splitlines_lines: "l \<in> set (splitlines s) \<Longrightarrow> c \<in> set l \<Longrightarrow> \<not> is_linebreak c"
proof (induction s arbitrary: l rule: splitlines.induct)
  case (1 s)
  define line where "line = takeWhile (\<lambda>c. \<not> is_linebreak c) s"
  define rest where "rest = drop (length line) s"
  show ?case
  proof (cases "s = []")
    case True
    with 1 show ?thesis by (simp add: splitlines.simps [of "[]"])
  next
    case False
    then have eq: "splitlines s = line # (case rest of [] \<Rightarrow> []
        | c # cs \<Rightarrow> splitlines (if char_code c = 13 \<and> cs \<noteq> [] \<and> char_code (hd cs) = 10 then tl cs else cs))"
      by (subst splitlines.simps) (simp add: Let_def line_def rest_def)
    show ?thesis
    proof (cases "l = line")
      case True
      with 1 show ?thesis by (auto simp: line_def dest: set_takeWhileD)
    next
      case other: False
      with eq 1 obtain c' cs where rest: "rest = c' # cs"
          "l \<in> set (splitlines (if char_code c' = 13 \<and> cs \<noteq> [] \<and> char_code (hd cs) = 10 then tl cs else cs))"
        by (cases rest) auto
      show ?thesis using "1.IH" [OF False line_def rest_def rest "1.prems"(2)] .
    qed
  qed
qed

lemma set_py_strip: "set (py_strip s) \<subseteq> set s"
  by (auto simp: py_strip_def dest!: set_dropWhileD)

lemma recovery_line:
  assumes "l \<in> set (recovery_lines a)"
  shows "l \<noteq> [] \<and> (\<forall>c \<in> set l. \<not> is_linebreak c) \<and> py_strip l = l"
  using assms set_py_strip splitlines_lines by (fastforce simp: recovery_lines_def)

lemma recovery_lines_join:
  assumes "\<forall>l \<in> set ls. l \<noteq> [] \<and> (\<forall>c \<in> set l. \<not> is_linebreak c) \<and> py_strip l = l"
  shows "recovery_lines (a\<lparr>acc_totp_recovery_hashes := Some (join_with [char_of (10 :: nat)] ls)\<rparr>) = ls"
  using assms by (simp add: recovery_lines_def splitlines_join map_idI filter_id_conv)

lemma burn_recovery_lines: "recovery_lines (burn_recovery (Some h) a) = filter (\<lambda>l. l \<noteq> h) (recovery_lines a)"
  unfolding burn_recovery_def option.case by (rule recovery_lines_join) (auto dest: recovery_line)

definition scan_ok :: "lookup_lib \<Rightarrow> bool" where
  "scan_ok lk \<longleftrightarrow> (\<forall>xs. set (lk_scan lk xs) = set xs)"

lemma paired_account_in: "scan_ok lk \<Longrightarrow> paired_account lk d u = Some a \<Longrightarrow> a \<in> set (accounts d)"
  by (auto simp: paired_account_def scan_ok_def find_Some_iff split: option.splits) (metis nth_mem)+

lemma issue_session_db:
  "issue_session cfg env now uuid sid wdb req u st = (r, st') \<Longrightarrow>
     accounts (db st') = accounts (db st) \<and> users (db st') = users (db st)"
  by (auto simp: issue_session_def track_session_def Let_def split: if_splits sum.splits option.splits)

lemma cookie_names [simp]: "SESSION_COOKIE \<noteq> PENDING_COOKIE" "PENDING_COOKIE \<noteq> SESSION_COOKIE"
  by (simp_all add: SESSION_COOKIE_def PENDING_COOKIE_def)

lemma login_submit_session:
  assumes "login_submit lk bc cfg env now uuid req username password st = (Inr r, st')"
    and "SESSION_COOKIE \<in> fst ` set (ui_cookies r)"
  obtains user tok where "find_user (py_strip username) (db st) = Some user" "checkpw bc password (usr_password_hash user)"
    "\<forall>a. paired_account lk (db st) (usr_username user) = Some a \<longrightarrow> \<not> has_totp a"
    "issue_session cfg env now uuid None True (Some req) (usr_username user) st = (Inr tok, st')"
    "r = with_session_cookie tok (ui_redirect ''/admin'')"
  using assms
  by (auto simp: login_submit_def login_failed_page_def ui_page_def ui_redirect_def with_session_cookie_def verify_password_def
      split: option.splits if_splits sum.splits prod.splits)

lemma check_second_factor_ok:
  assumes "check_second_factor bc now a code = Inr (True, used)"
  shows "case used of None \<Rightarrow> totp_verify (the (acc_totp_secret a)) (py_strip code) TOTP_DRIFT now = Inr True
    | Some h \<Rightarrow> h \<in> set (recovery_lines a) \<and> checkpw bc (normalize_recovery_code (py_strip code)) h"
  using assms by (auto simp: check_second_factor_def Let_def find_Some_iff split: if_splits sum.splits option.splits)

lemma login_2fa_session:
  assumes "login_2fa_submit lk bc cfg env now uuid req code cookie st = (Inr r, st')"
    and "SESSION_COOKIE \<in> fst ` set (ui_cookies r)"
  obtains u user a used where "read_pending cfg now cookie = Some u" "find_user u (db st) = Some user"
    "paired_account lk (db st) u = Some a" "has_totp a" "check_second_factor bc now a code = Inr (True, used)"
    "accounts (db st') = accounts (db (if used = None then st else put_account (burn_recovery used a) st))"
proof -
  from assms obtain u user a where p: "read_pending cfg now cookie = Some u" "find_user u (db st) = Some user"
      "paired_account lk (db st) u = Some a" "has_totp a"
    by (auto simp: login_2fa_submit_def ui_redirect_def split: option.splits if_splits)
  with assms obtain used where c: "check_second_factor bc now a code = Inr (True, used)"
    by (auto simp: login_2fa_submit_def ui_page_def split: sum.splits prod.splits bool.splits)
  let ?st1 = "if used = None then st else put_account (burn_recovery used a) st"
  from assms(1) p c obtain rid detail tok st3 where
    "issue_session cfg env now uuid None True (Some req) (usr_username user)
       (emit env now (Some (burn_recovery used a)) ''totp.login_ok'' (Some req) (Some ''account'') rid detail ?st1) = (Inr tok, st')"
    by (auto simp: login_2fa_submit_def Let_def split: prod.splits sum.splits)
  then have "accounts (db st') = accounts (db ?st1)" using issue_session_db by (fastforce simp: emit_tables)
  with p c that show ?thesis by blast
qed


section \<open>Instances\<close>

text \<open>A signer that writes the instant in front of the value, with nothing secret in it.\<close>

definition demo_signer :: signer_lib where
  "demo_signer = \<lparr>ts_sign = (\<lambda>salt t v. show_int t @ CHR '';'' # v),
     ts_unsign = (\<lambda>salt now age s.
       let ts = takeWhile (\<lambda>c. c \<noteq> CHR '';'') s in
       case parse_int ts of None \<Rightarrow> None
       | Some t \<Rightarrow> if (case age of None \<Rightarrow> True | Some a \<Rightarrow> t \<le> now \<and> now - t \<le> a)
                  then Some (drop (Suc (length ts)) s) else None)\<rparr>"

lemma show_int_chars: "c \<in> set (show_int i) \<Longrightarrow> c = CHR ''-'' \<or> is_digit c"
  using show_nat_digits by (auto simp: show_int_def split: if_splits)

lemma demo_signer_ok: "signer_ok demo_signer"
proof -
  have no_semi: "CHR '';'' \<notin> set (show_int t)" for t
    using show_int_chars [of "CHR '';''" t] by (auto simp: is_digit_def char_code_def)
  have tw: "takeWhile (\<lambda>c. c \<noteq> CHR '';'') (show_int t @ CHR '';'' # v) = show_int t" for t v
  proof -
    have "\<And>c. c \<in> set (show_int t) \<Longrightarrow> c \<noteq> CHR '';''" using no_semi by blast
    then show ?thesis by (simp add: takeWhile_append2)
  qed
  have asc: "is_ascii (show_int t)" for t
  proof -
    have "char_code c < 128" if "c \<in> set (show_int t)" for c
      using show_int_chars [OF that] by (auto simp: is_digit_def char_code_def)
    then show ?thesis by (simp add: is_ascii_def list_all_iff)
  qed
  show ?thesis by (simp add: signer_ok_def demo_signer_def tw asc parse_show_int char_code_def Let_def)
qed

definition demo_cfg :: admin_cfg where
  "demo_cfg = \<lparr>cfg_signer = demo_signer, cfg_sha = (\<lambda>bs. map (\<lambda>b. char_of (unat b)) bs), cfg_max_age = 86400,
     cfg_idle = 7200, cfg_ip_network = (\<lambda>_. None)\<rparr>"

definition demo_lookup :: lookup_lib where
  "demo_lookup = \<lparr>lk_scan = (\<lambda>xs. xs), lk_fold = char_lower\<rparr>"

definition demo_user :: user_row where
  "demo_user = \<lparr>usr_id = 1, usr_username = ''ann'', usr_password_hash = ''pw'', usr_created_at = 0, usr_last_login_at = None\<rparr>"

text \<open>A user whose paired account has a second factor and one recovery hash left.\<close>

definition demo_totp_account :: account where
  "demo_totp_account = demo_account\<lparr>acc_email := ''ann@admin.local'', acc_role := ''owner'', acc_totp_enabled := True,
     acc_totp_secret := Some demo_secret, acc_totp_recovery_hashes := Some ''abcdefghij''\<rparr>"

definition demo_admin :: "account \<Rightarrow> app_state" where
  "demo_admin a = demo_state\<lparr>db := demo_db\<lparr>accounts := [a], users := [demo_user]\<rparr>\<rparr>"

lemma demo_scan_ok: "scan_ok demo_lookup"
  by (simp add: scan_ok_def demo_lookup_def)

lemma served: "(case fst x of Inl _ \<Rightarrow> False | Inr r \<Rightarrow> P r) \<Longrightarrow> \<exists>r st. x = (Inr r, st) \<and> P r"
  by (cases x) (auto split: sum.splits)

lemma issue_demo:
  "\<exists>tok st'. issue_session demo_cfg demo_env 100 ''sid'' None True (Some demo_request) ''ann'' st = (Inr tok, st')"
proof -
  have "is_ascii (''ann'' @ ''|'' @ ''sid'')" by code_simp
  then show ?thesis by (auto simp: issue_session_def Let_def split: sum.splits)
qed

lemma demo_2fa_session:
  "case fst (login_2fa_submit demo_lookup demo_bcrypt demo_cfg demo_env 100 ''sid'' demo_request ''ABCDE-fghij''
      (Some (issue_pending demo_cfg 90 ''ann'')) (demo_admin demo_totp_account)) of
     Inr r \<Rightarrow> SESSION_COOKIE \<in> fst ` set (ui_cookies r) | Inl _ \<Rightarrow> False"
proof -
  have s: "signer_ok (cfg_signer demo_cfg)" "is_ascii ''ann''" by (simp add: demo_cfg_def demo_signer_ok) code_simp
  have p: "read_pending demo_cfg 100 (Some (issue_pending demo_cfg 90 ''ann'')) = Some ''ann''"
    using pending_roundtrip [OF s, of 90 100] by (simp add: PENDING_MAX_AGE_def)
  have f: "find_user ''ann'' (db (demo_admin demo_totp_account)) = Some demo_user"
    by (simp add: demo_admin_def find_user_def demo_user_def)
  have a: "paired_account demo_lookup (db (demo_admin demo_totp_account)) ''ann'' = Some demo_totp_account"
    by (simp add: demo_admin_def paired_account_def demo_lookup_def demo_totp_account_def legacy_email_def)
  have h: "has_totp demo_totp_account" by (simp add: has_totp_def demo_totp_account_def demo_secret_def)
  have c: "check_second_factor demo_bcrypt 100 demo_totp_account ''ABCDE-fghij'' = Inr (True, Some ''abcdefghij'')" by code_simp
  obtain tok st' where "issue_session demo_cfg demo_env 100 ''sid'' None True (Some demo_request) ''ann''
      (emit demo_env 100 (Some (burn_recovery (Some ''abcdefghij'') demo_totp_account)) ''totp.login_ok'' (Some demo_request)
        (Some ''account'') (Some (show_int (acc_id demo_totp_account))) (Some (JObj [(''used_recovery'', JBool True)]))
        (put_account (burn_recovery (Some ''abcdefghij'') demo_totp_account) (demo_admin demo_totp_account))) = (Inr tok, st')"
    using issue_demo by blast
  then show ?thesis by (simp add: login_2fa_submit_def p f a h c Let_def with_session_cookie_def demo_user_def)
qed

lemma demo_password_session:
  "case fst (login_submit demo_lookup demo_bcrypt demo_cfg demo_env 100 ''sid'' demo_request '' ann '' ''pw''
      (demo_admin (demo_totp_account\<lparr>acc_totp_enabled := False\<rparr>))) of
     Inr r \<Rightarrow> SESSION_COOKIE \<in> fst ` set (ui_cookies r) | Inl _ \<Rightarrow> False"
proof -
  let ?a = "demo_totp_account\<lparr>acc_totp_enabled := False\<rparr>"
  have s: "py_strip '' ann '' = ''ann''" by code_simp
  have f: "find_user ''ann'' (db (demo_admin ?a)) = Some demo_user" by (simp add: demo_admin_def find_user_def demo_user_def)
  have a: "paired_account demo_lookup (db (demo_admin ?a)) ''ann'' = Some ?a"
    by (simp add: demo_admin_def paired_account_def demo_lookup_def demo_totp_account_def legacy_email_def)
  obtain tok st' where "issue_session demo_cfg demo_env 100 ''sid'' None True (Some demo_request) ''ann'' (demo_admin ?a) = (Inr tok, st')"
    using issue_demo by blast
  then show ?thesis
    by (simp add: login_submit_def s f a verify_password_def demo_user_def demo_bcrypt_def has_totp_def with_session_cookie_def)
qed


end
