(* ===== verification/Admin_Account.thy ===== *)
theory Admin_Account
  imports Admin_Login Retention
begin

text \<open>
  What a signed-in administrator does to their own account (\<^verbatim>\<open>app/admin_ui.py\<close>): the account
  behind the session, the second-factor gate, the session list with its kill switches, access
  tokens, the password and the second factor. Every handler takes the username that
  \<open>current_user\<close> gave; \<open>admin_post\<close> is the route with its dependencies and its transaction.

  \<open>ui_world\<close> bundles what the handlers share: the libraries, the configuration, the orders of
  equal rows and the salt of the next password hash. Message texts are in ASCII.
\<close>

record ui_world =
  uw_lk :: lookup_lib
  uw_bc :: bcrypt_lib
  uw_cfg :: admin_cfg
  uw_env :: environment
  uw_pats :: "personal_access_token list \<Rightarrow> personal_access_token list"
  uw_sessions :: "admin_session list \<Rightarrow> admin_session list"
  uw_salt :: string

section \<open>The account of a session\<close>

definition admin_account :: "ui_world \<Rightarrow> instant \<Rightarrow> string \<Rightarrow> app_state \<Rightarrow> account \<times> app_state" where
  "admin_account w now username st =
     (case paired_account (uw_lk w) (db st) username of
        Some a \<Rightarrow> (a, st)
      | None \<Rightarrow>
        (let a = (new_account (env_alloc (uw_env w) (map acc_id (accounts (db st)))) now (legacy_email username)
                    (hashpw (uw_bc w) ''unused-session-only'' (uw_salt w)))\<lparr>acc_role := ''owner''\<rparr>
         in (a, st\<lparr>db := (db st)\<lparr>accounts := row_add a (accounts (db st))\<rparr>\<rparr>)))"

definition TOTP_GATE_PREFIXES :: "string list" where
  "TOTP_GATE_PREFIXES = [''/admin/account/totp/'', ''/admin/theme'', ''/static/'', ''/logout'']"

definition totp_gate :: "ui_world \<Rightarrow> instant \<Rightarrow> request \<Rightarrow> string \<Rightarrow> string handler" where
  "totp_gate w now req username st =
     (if req_path req = ''/admin/account'' \<or> list_ex (\<lambda>p. prefix p (req_path req)) TOTP_GATE_PREFIXES
      then (Inr username, st)
      else (case global_policies (db st) of None \<Rightarrow> (Inr username, st)
        | Some g \<Rightarrow>
          if \<not> gp_require_2fa_for_admins g then (Inr username, st)
          else (let (acct, st1) = admin_account w now username st in
                if has_totp acct then (Inr username, st1) else (Inl (HTTPException 302 ''2FA required''), st1))))"

text \<open>A POST route: the token check, the session, and the handler, in one transaction.\<close>

definition admin_post ::
  "ui_world \<Rightarrow> instant \<Rightarrow> request \<Rightarrow> string option \<Rightarrow> string option \<Rightarrow> string option
     \<Rightarrow> (string \<Rightarrow> 'a handler) \<Rightarrow> 'a handler" where
  "admin_post w now req cookie csrf_token csrf_cookie h =
     get_session (\<lambda>st.
       case require_csrf (req_method req) csrf_token csrf_cookie of Some e \<Rightarrow> (Inl e, st)
       | None \<Rightarrow>
         (case current_user (uw_cfg w) (uw_env w) now req cookie st of
            (Inl e, st1) \<Rightarrow> (Inl e, st1) | (Inr username, st1) \<Rightarrow> h username st1))"

text \<open>The fingerprint of the request's own cookie, the empty string without one.\<close>

definition own_fingerprint :: "ui_world \<Rightarrow> instant \<Rightarrow> string option \<Rightarrow> exn + string" where
  "own_fingerprint w now cookie = fingerprint (uw_cfg w) now (case cookie of None \<Rightarrow> [] | Some c \<Rightarrow> c)"

definition flash_to :: "ui_world \<Rightarrow> instant \<Rightarrow> string \<Rightarrow> string \<Rightarrow> string \<Rightarrow> ui_response" where
  "flash_to w now url kind message = redirect_flash (uw_cfg w) now url (Some kind) (Some message)"

definition toggle_theme :: "string \<Rightarrow> string option \<Rightarrow> ui_response" where
  "toggle_theme next_url current =
     (let r = ui_redirect (if prefix ''/admin'' next_url \<or> next_url = ''/'' then next_url else ''/admin'') in
      if current = Some ''light'' then r\<lparr>ui_cookies := [(''nks_wdc_theme'', ''dark'')]\<rparr>
      else if current = Some ''dark'' then r\<lparr>ui_deleted := [''nks_wdc_theme'']\<rparr>
      else r\<lparr>ui_cookies := [(''nks_wdc_theme'', ''light'')]\<rparr>)"

section \<open>Sessions\<close>

text \<open>\<open>user.id if user else -1\<close>\<close>

definition own_user_id :: "string \<Rightarrow> database \<Rightarrow> int" where
  "own_user_id username d = (case find_user username d of None \<Rightarrow> -1 | Some u \<Rightarrow> usr_id u)"

definition revoke_session :: "instant \<Rightarrow> admin_session \<Rightarrow> admin_session" where
  "revoke_session now r = r\<lparr>ses_revoked_at := Some now\<rparr>"

definition kill_session ::
  "ui_world \<Rightarrow> instant \<Rightarrow> request \<Rightarrow> int \<Rightarrow> string \<Rightarrow> ui_response handler" where
  "kill_session w now req session_id username st =
     (case row_get ses_id session_id (admin_sessions (db st)) of
        None \<Rightarrow> (Inr (flash_to w now ''/admin/account'' ''error'' ''Session not found''), st)
      | Some row \<Rightarrow>
        if ses_user_id row \<noteq> own_user_id username (db st)
        then (Inr (flash_to w now ''/admin/account'' ''error'' ''Session not found''), st)
        else (let st1 = (if ses_revoked_at row = None
                         then st\<lparr>db := (db st)\<lparr>admin_sessions := row_set ses_id session_id (revoke_session now) (admin_sessions (db st))\<rparr>\<rparr>
                         else st);
                  (acct, st2) = admin_account w now username st1
              in (Inr (flash_to w now ''/admin/account'' ''success'' ''Session killed''),
                  emit (uw_env w) now (Some acct) ''session.killed'' (Some req) (Some ''admin_session'') (Some (show_int session_id))
                    (Some (JObj [(''ip'', jopt_str (ses_ip row)), (''user_agent'', jopt_str (ses_user_agent row))])) st2)))"

text \<open>The bulk update: every live session of the selection, with how many there were.\<close>

definition revoke_where :: "(admin_session \<Rightarrow> bool) \<Rightarrow> instant \<Rightarrow> app_state \<Rightarrow> nat \<times> app_state" where
  "revoke_where P now st =
     (let hit = (\<lambda>r. P r \<and> ses_revoked_at r = None) in
      (length (filter hit (admin_sessions (db st))),
       st\<lparr>db := (db st)\<lparr>admin_sessions := map (\<lambda>r. if hit r then revoke_session now r else r) (admin_sessions (db st))\<rparr>\<rparr>))"

definition kill_other_sessions ::
  "ui_world \<Rightarrow> instant \<Rightarrow> request \<Rightarrow> string option \<Rightarrow> string \<Rightarrow> ui_response handler" where
  "kill_other_sessions w now req cookie username st =
     (case own_fingerprint w now cookie of Inl e \<Rightarrow> (Inl e, st)
      | Inr fp \<Rightarrow>
        (let (killed, st1) = revoke_where (\<lambda>r. ses_user_id r = own_user_id username (db st) \<and> ses_fingerprint r \<noteq> fp) now st;
             (acct, st2) = admin_account w now username st1
         in (Inr (flash_to w now ''/admin/account'' ''success'' (''Killed '' @ show_nat killed @ '' other session(s)'')),
             emit (uw_env w) now (Some acct) ''session.killed_others'' (Some req) (Some ''admin_session'') None
               (Some (JObj [(''count'', JInt (int killed))])) st2)))"

definition bump_all :: "app_state \<Rightarrow> nat \<times> app_state" where
  "bump_all st =
     (length (filter (\<lambda>a. acc_suspended_at a = None) (accounts (db st))),
      st\<lparr>db := (db st)\<lparr>accounts := map (\<lambda>a. if acc_suspended_at a = None
         then a\<lparr>acc_token_version := acc_token_version a + 1\<rparr> else a) (accounts (db st))\<rparr>\<rparr>)"

definition kill_all_sessions ::
  "ui_world \<Rightarrow> instant \<Rightarrow> request \<Rightarrow> string option \<Rightarrow> string \<Rightarrow> string \<Rightarrow> ui_response handler" where
  "kill_all_sessions w now req cookie confirm username st =
     (if confirm \<noteq> ''KILL-ALL''
      then (Inr (flash_to w now ''/admin/ops'' ''error'' ''Confirmation phrase mismatch - nothing revoked''), st)
      else (case own_fingerprint w now cookie of Inl e \<Rightarrow> (Inl e, st)
        | Inr fp \<Rightarrow>
          (let (killed, st1) = revoke_where (\<lambda>r. ses_fingerprint r \<noteq> fp) now st;
               (bumped, st2) = bump_all st1;
               (acct, st3) = admin_account w now username st2
           in (Inr (flash_to w now ''/admin/ops'' ''success'' (''Revoked '' @ show_nat killed @ '' admin session(s) and bumped ''
                 @ show_nat bumped @ '' token version(s)'')),
               emit (uw_env w) now (Some acct) ''admin.global_session_kill'' (Some req) (Some ''admin_session'') None
                 (Some (JObj [(''admin_sessions_killed'', JInt (int killed)), (''token_versions_bumped'', JInt (int bumped))])) st3))))"

text \<open>The live sessions of the user, most recently seen first, with the mark of this browser's.\<close>

definition session_list :: "ui_world \<Rightarrow> instant \<Rightarrow> string option \<Rightarrow> string \<Rightarrow> database \<Rightarrow> exn + (admin_session \<times> bool) list" where
  "session_list w now cookie username d =
     (case find_user username d of None \<Rightarrow> Inr []
      | Some u \<Rightarrow>
        (case own_fingerprint w now cookie of Inl e \<Rightarrow> Inl e
         | Inr fp \<Rightarrow> Inr (map (\<lambda>r. (r, ses_fingerprint r = fp))
             (sort_desc ses_last_seen_at (uw_sessions w (filter (\<lambda>r. ses_user_id r = usr_id u \<and> ses_revoked_at r = None) (admin_sessions d)))))))"

section \<open>The account page\<close>

definition STALE_THRESHOLD_DAYS :: int where "STALE_THRESHOLD_DAYS = 30"

definition pat_expired :: "instant \<Rightarrow> personal_access_token \<Rightarrow> bool" where
  "pat_expired now r = (case pat_expires_at r of None \<Rightarrow> False | Some t \<Rightarrow> t \<le> now)"

definition stale_days :: "instant \<Rightarrow> personal_access_token \<Rightarrow> int option" where
  "stale_days now r =
     (if pat_revoked_at r = None \<and> \<not> pat_expired now r
      then (let reference = (case pat_last_used_at r of None \<Rightarrow> pat_created_at r | Some t \<Rightarrow> t);
                age_days = (now - reference) div day
            in if STALE_THRESHOLD_DAYS \<le> age_days then Some age_days else None)
      else None)"

definition pat_view_row :: "environment \<Rightarrow> instant \<Rightarrow> personal_access_token \<Rightarrow> json" where
  "pat_view_row env now r =
     (let iso = (\<lambda>t. jopt_str (map_option (env_isoformat env) t)) in
      JObj [(''id'', JInt (pat_id r)), (''name'', JStr (pat_name r)), (''prefix'', JStr (pat_token_prefix r)),
            (''created_at'', JStr (env_isoformat env (pat_created_at r))), (''last_used_at'', iso (pat_last_used_at r)),
            (''last_used_ever'', JBool (pat_last_used_at r \<noteq> None)), (''revoked_at'', iso (pat_revoked_at r)),
            (''expires_at'', iso (pat_expires_at r)), (''expired'', JBool (pat_expired now r)),
            (''stale_days'', jopt_int (stale_days now r)), (''read_only'', JBool (pat_read_only r)),
            (''ip_allowlist'', JList (case pat_ip_allowlist r of None \<Rightarrow> [] | Some es \<Rightarrow> map JStr es)),
            (''last_used_ip'', jopt_str (pat_last_used_ip r)), (''last_used_ua'', jopt_str (pat_last_used_ua r))])"

definition pat_view_rows :: "ui_world \<Rightarrow> instant \<Rightarrow> database \<Rightarrow> int \<Rightarrow> json list" where
  "pat_view_rows w now d account_id = map (pat_view_row (uw_env w) now) (list_for (uw_pats w) account_id d)"

definition session_json :: "environment \<Rightarrow> admin_session \<times> bool \<Rightarrow> json" where
  "session_json env rc = (case rc of (r, is_current) \<Rightarrow>
     JObj [(''id'', JInt (ses_id r)), (''ip'', jopt_str (ses_ip r)), (''user_agent'', jopt_str (ses_user_agent r)),
           (''created_at'', JStr (env_isoformat env (ses_created_at r))),
           (''last_seen_at'', JStr (env_isoformat env (ses_last_seen_at r))), (''is_current'', JBool is_current)])"

definition gate_active :: "database \<Rightarrow> bool" where
  "gate_active d = (case global_policies d of None \<Rightarrow> False | Some g \<Rightarrow> gp_require_2fa_for_admins g)"

text \<open>The page with the entries a handler adds (\<open>minted_pat\<close>, \<open>pending_totp\<close>, \<open>new_recovery_codes\<close>).\<close>

definition render_account ::
  "ui_world \<Rightarrow> instant \<Rightarrow> string option \<Rightarrow> string \<Rightarrow> (string \<times> json) list \<Rightarrow> (string \<times> string) option \<Rightarrow> ui_response handler" where
  "render_account w now cookie username extra flash st =
     (let (acct, st1) = admin_account w now username st in
      case session_list w now cookie username (db st1) of Inl e \<Rightarrow> (Inl e, st1)
      | Inr sessions \<Rightarrow>
        (Inr ((ui_page 200 ''account.html''
           (extra @ [(''user_id'', case find_user username (db st1) of None \<Rightarrow> JStr ''-'' | Some u \<Rightarrow> JInt (usr_id u)),
             (''tokens'', JList (pat_view_rows w now (db st1) (acc_id acct))),
             (''totp_enabled'', JBool (acc_totp_enabled acct)),
             (''totp_enabled_at'', jopt_str (map_option (env_isoformat (uw_env w)) (acc_totp_enabled_at acct))),
             (''sessions'', JList (map (session_json (uw_env w)) sessions)),
             (''flash'', case flash of None \<Rightarrow> JNull | Some (k, m) \<Rightarrow> JObj [(''kind'', JStr k), (''message'', JStr m)]),
             (''totp_gate_active'', JBool (gate_active (db st1)))]))
           \<lparr>ui_deleted := (if flash = None then [''flash''] else [])\<rparr>), st1))"

text \<open>The GET route: the flash of the cookie is shown once.\<close>

definition account_page ::
  "ui_world \<Rightarrow> instant \<Rightarrow> string option \<Rightarrow> string option \<Rightarrow> string \<Rightarrow> ui_response handler" where
  "account_page w now cookie flash username st =
     (case render_account w now cookie username [] (pop_flash (uw_cfg w) now flash) st of
        (Inl e, st1) \<Rightarrow> (Inl e, st1) | (Inr r, st1) \<Rightarrow> (Inr (r\<lparr>ui_deleted := [''flash'']\<rparr>), st1))"

end
