(* ===== verification/Admin_Credentials.thy ===== *)
theory Admin_Credentials
  imports Admin_Account
begin

text \<open>
  Credentials an administrator manages on the account page (\<^verbatim>\<open>app/admin_ui.py\<close>): personal
  access tokens, the own password, and the second factor with its recovery codes. Random
  values (token text, salts, secret bytes, the draws of the recovery codes) are arguments.
\<close>

section \<open>Access tokens\<close>

text \<open>\<open>int(s)\<close>: surrounding space, a sign, digits in groups separated by single underscores.\<close>

definition int_digits :: "string \<Rightarrow> nat option" where
  "int_digits s =
     (let groups = split_on (CHR ''_'') s in
      if list_all (\<lambda>g. g \<noteq> [] \<and> list_all is_digit g) groups \<and> length (concat groups) \<le> 4300
      then Some (read_nat (concat groups)) else None)"

definition py_int :: "string \<Rightarrow> int option" where
  "py_int s0 =
     (case py_strip s0 of [] \<Rightarrow> None
      | c # r \<Rightarrow>
        if c = CHR ''-'' then map_option (\<lambda>n. - int n) (int_digits r)
        else if c = CHR ''+'' then map_option int (int_digits r)
        else map_option int (int_digits (c # r)))"

definition allowlist_lines :: "string \<Rightarrow> string list" where
  "allowlist_lines raw =
     filter (\<lambda>l. l \<noteq> []) (map py_strip (splitlines (map (\<lambda>c. if c = CHR '','' then char_of (10 :: nat) else c) raw)))"

definition create_account_token ::
  "ui_world \<Rightarrow> instant \<Rightarrow> string \<Rightarrow> request \<Rightarrow> string option \<Rightarrow> string \<Rightarrow> string \<Rightarrow> string \<Rightarrow> string
     \<Rightarrow> string \<Rightarrow> ui_response handler" where
  "create_account_token w now rand req cookie name ttl_days read_only ip_allowlist_raw username st =
     (let (acct, st1) = admin_account w now username st in
      case (if py_strip ttl_days = [] then Some None else map_option Some (py_int ttl_days)) of
        None \<Rightarrow> (Inr (flash_to w now ''/admin/account'' ''error'' ''TTL must be a number''), st1)
      | Some days \<Rightarrow>
        (let expires_at = map_option (\<lambda>n. now + max 1 (min n 365) * day) days;
             cidrs = allowlist_lines ip_allowlist_raw;
             ((row, plaintext), d1) = issue (uw_bc w) (env_alloc (uw_env w)) now rand (uw_salt w) (acc_id acct) name expires_at
               (read_only \<noteq> []) (if cidrs = [] then None else Some cidrs) (db st1);
             iso = jopt_str (map_option (env_isoformat (uw_env w)) (pat_expires_at row));
             st2 = emit (uw_env w) now (Some acct) ''pat.created'' (Some req) (Some ''pat'') (Some (show_int (pat_id row)))
               (Some (JObj [(''name'', JStr (pat_name row)), (''prefix'', JStr (pat_token_prefix row)), (''expires_at'', iso),
                  (''read_only'', JBool (read_only \<noteq> [])), (''ip_allowlist_count'', JInt (int (length cidrs)))])) (st1\<lparr>db := d1\<rparr>)
         in render_account w now cookie username
              [(''minted_pat'', JObj [(''name'', JStr (pat_name row)), (''token'', JStr plaintext), (''expires_at'', iso)])]
              (Some (''success'', ''Token '' @ CHR 0x27 # pat_name row @ CHR 0x27 # '' created'')) st2))"

definition revoke_account_token ::
  "ui_world \<Rightarrow> instant \<Rightarrow> request \<Rightarrow> int \<Rightarrow> string \<Rightarrow> ui_response handler" where
  "revoke_account_token w now req token_id username st =
     (let (acct, st1) = admin_account w now username st;
          (ok, d1) = pat_revoke now (acc_id acct) token_id (db st1);
          st2 = st1\<lparr>db := d1\<rparr>
      in if \<not> ok then (Inr (flash_to w now ''/admin/account'' ''error'' ''Token not found''), st2)
         else (Inr (flash_to w now ''/admin/account'' ''success'' ''Token revoked''),
               emit (uw_env w) now (Some acct) ''pat.revoked'' (Some req) (Some ''pat'') (Some (show_int token_id)) None st2))"

section \<open>The own password\<close>

definition set_user_password :: "int \<Rightarrow> string \<Rightarrow> app_state \<Rightarrow> app_state" where
  "set_user_password user_id hash st =
     st\<lparr>db := (db st)\<lparr>users := row_set usr_id user_id (usr_password_hash_update (\<lambda>_. hash)) (users (db st))\<rparr>\<rparr>"

definition change_own_password ::
  "ui_world \<Rightarrow> instant \<Rightarrow> request \<Rightarrow> string \<Rightarrow> string \<Rightarrow> string \<Rightarrow> string \<Rightarrow> ui_response handler" where
  "change_own_password w now req current_password new_password new_password_confirm username st =
     (case find_user username (db st) of None \<Rightarrow> (Inl (HTTPException 404 ''User not found''), st)
      | Some user \<Rightarrow>
        if \<not> verify_password (uw_bc w) current_password (usr_password_hash user)
        then (let (acct, st1) = admin_account w now username st in
              (Inr (flash_to w now ''/admin/account'' ''error'' ''Current password is wrong''),
               emit (uw_env w) now (Some acct) ''password.change_failed'' (Some req) (Some ''account'') (Some (show_int (acc_id acct)))
                 (Some (JObj [(''reason'', JStr ''current_password_wrong'')])) st1))
        else if new_password \<noteq> new_password_confirm
        then (Inr (flash_to w now ''/admin/account'' ''error'' ''New passwords don't match''), st)
        else if length new_password < 12
        then (Inr (flash_to w now ''/admin/account'' ''error'' ''New password must be at least 12 characters''), st)
        else (let st1 = set_user_password (usr_id user) (hashpw (uw_bc w) new_password (uw_salt w)) st;
                  (acct, st2) = admin_account w now username st1
              in (Inr (flash_to w now ''/admin/account'' ''success'' ''Password updated''),
                  emit (uw_env w) now (Some acct) ''password.changed'' (Some req) (Some ''account'') (Some (show_int (acc_id acct)))
                    None st2)))"

section \<open>The second factor\<close>

definition pairing :: "string \<Rightarrow> account \<Rightarrow> json" where
  "pairing secret acct =
     JObj [(''secret'', JStr secret), (''otpauth_uri'', JStr (otpauth_uri secret (acc_email acct) ''NKS WDC''))]"

definition totp_setup ::
  "ui_world \<Rightarrow> instant \<Rightarrow> bytes \<Rightarrow> request \<Rightarrow> string option \<Rightarrow> string \<Rightarrow> ui_response handler" where
  "totp_setup w now rand req cookie username st =
     (let (acct, st1) = admin_account w now username st in
      if acc_totp_enabled acct
      then (Inr (flash_to w now ''/admin/account'' ''error'' ''2FA is already enabled. Disable it first to re-pair.''), st1)
      else (let secret = new_secret rand;
                acct1 = acct\<lparr>acc_totp_secret := Some secret, acc_totp_enabled := False, acc_totp_recovery_hashes := None\<rparr>;
                st2 = emit (uw_env w) now (Some acct1) ''totp.setup_started'' (Some req) (Some ''account'')
                  (Some (show_int (acc_id acct1))) None (put_account acct1 st1)
            in render_account w now cookie username [(''pending_totp'', pairing secret acct1)]
                 (Some (''info'', ''Scan or paste the secret into your authenticator, then enter the code below.'')) st2))"

text \<open>The hashes stored for the recovery codes, one per line, each with its own salt.\<close>

definition hash_recovery_codes :: "bcrypt_lib \<Rightarrow> (nat \<Rightarrow> string) \<Rightarrow> string list \<Rightarrow> string" where
  "hash_recovery_codes bc salts codes =
     join_with [char_of (10 :: nat)] (map (\<lambda>(i, c). hashpw bc c (salts i)) (enumerate 0 codes))"

definition totp_confirm ::
  "ui_world \<Rightarrow> instant \<Rightarrow> (nat \<Rightarrow> nat \<Rightarrow> nat \<Rightarrow> nat) \<Rightarrow> (nat \<Rightarrow> string) \<Rightarrow> request \<Rightarrow> string option \<Rightarrow> string \<Rightarrow> string
     \<Rightarrow> ui_response handler" where
  "totp_confirm w now choice salts req cookie code username st =
     (let (acct, st1) = admin_account w now username st in
      if acc_totp_enabled acct
      then (Inr (flash_to w now ''/admin/account'' ''error'' ''2FA is already enabled.''), st1)
      else if \<not> truthy (acc_totp_secret acct)
      then (Inr (flash_to w now ''/admin/account'' ''error'' ''No pending 2FA setup - start over.''), st1)
      else (let secret = the (acc_totp_secret acct) in
        case totp_verify secret code TOTP_DRIFT now of
          Inl e \<Rightarrow> (Inl e, st1)
        | Inr False \<Rightarrow>
            render_account w now cookie username [(''pending_totp'', pairing secret acct)]
              (Some (''error'', ''Code didn't match - check your clock and try again.'')) st1
        | Inr True \<Rightarrow>
            (let codes = generate_recovery_codes choice 8;
                 acct1 = acct\<lparr>acc_totp_enabled := True, acc_totp_enabled_at := Some now,
                   acc_totp_recovery_hashes := Some (hash_recovery_codes (uw_bc w) salts codes)\<rparr>;
                 st2 = emit (uw_env w) now (Some acct1) ''totp.enabled'' (Some req) (Some ''account'')
                   (Some (show_int (acc_id acct1))) None (put_account acct1 st1)
             in render_account w now cookie username [(''new_recovery_codes'', JList (map JStr codes))]
                  (Some (''success'', ''2FA enabled. Save these recovery codes now - they're shown only once.'')) st2)))"

text \<open>Switching off takes a code without any separator, or a recovery code.\<close>

definition check_disable_code :: "bcrypt_lib \<Rightarrow> instant \<Rightarrow> account \<Rightarrow> string \<Rightarrow> exn + bool \<times> bool" where
  "check_disable_code bc now acct code =
     (let code_clean = py_strip code in
      if py_isdigit code_clean \<and> length (bare_code code_clean) = 6
      then (case totp_verify (the (acc_totp_secret acct)) code_clean TOTP_DRIFT now of
              Inl e \<Rightarrow> Inl e | Inr ok \<Rightarrow> Inr (ok, False))
      else (case find (checkpw bc (normalize_recovery_code code_clean)) (recovery_lines acct) of
              None \<Rightarrow> Inr (False, False) | Some _ \<Rightarrow> Inr (True, True)))"

definition totp_disable ::
  "ui_world \<Rightarrow> instant \<Rightarrow> request \<Rightarrow> string \<Rightarrow> string \<Rightarrow> ui_response handler" where
  "totp_disable w now req code username st =
     (let (acct, st1) = admin_account w now username st in
      if \<not> has_totp acct then (Inr (flash_to w now ''/admin/account'' ''error'' ''2FA is not enabled.''), st1)
      else (case check_disable_code (uw_bc w) now acct code of
          Inl e \<Rightarrow> (Inl e, st1)
        | Inr (False, _) \<Rightarrow> (Inr (flash_to w now ''/admin/account'' ''error'' ''Code didn't match - 2FA stays on.''), st1)
        | Inr (True, used_recovery) \<Rightarrow>
            (let acct1 = acct\<lparr>acc_totp_enabled := False, acc_totp_secret := None, acc_totp_recovery_hashes := None,
                   acc_totp_enabled_at := None\<rparr>
             in (Inr (flash_to w now ''/admin/account'' ''success'' ''2FA disabled.''),
                 emit (uw_env w) now (Some acct1) ''totp.disabled'' (Some req) (Some ''account'') (Some (show_int (acc_id acct1)))
                   (if used_recovery then Some (JObj [(''used_recovery'', JBool True)]) else None) (put_account acct1 st1)))))"

section \<open>Recovery codes against their hashes\<close>

lemma admin_account_row:
  "row_get acc_id i (accounts (db st)) = Some a \<Longrightarrow> row_get acc_id i (accounts (db (snd (admin_account w now u st)))) = Some a"
  by (auto simp: admin_account_def Let_def row_get_add split: option.splits)

lemma render_account_row:
  assumes "render_account w now cookie u extra flash st = (r, st')" "row_get acc_id i (accounts (db st)) = Some a"
  shows "row_get acc_id i (accounts (db st')) = Some a"
proof -
  have "snd (admin_account w now u st) = st'"
    using assms(1) by (auto simp: render_account_def Let_def split: prod.splits sum.splits)
  with admin_account_row [OF assms(2)] show ?thesis by metis
qed

text \<open>A bcrypt hash is one word: something, without white space or line breaks.\<close>

definition hash_word :: "bcrypt_lib \<Rightarrow> bool" where
  "hash_word bc \<longleftrightarrow> (\<forall>p s. hashpw bc p s \<noteq> [] \<and> (\<forall>c \<in> set (hashpw bc p s). \<not> is_space c \<and> \<not> is_linebreak c))"

lemma stored_recovery_lines:
  assumes "hash_word bc" "acc_totp_recovery_hashes a = Some (hash_recovery_codes bc salts codes)"
  shows "recovery_lines a = map (\<lambda>(i, c). hashpw bc c (salts i)) (enumerate 0 codes)"
proof -
  let ?ls = "map (\<lambda>(i, c). hashpw bc c (salts i)) (enumerate 0 codes)"
  have "\<forall>l \<in> set ?ls. l \<noteq> [] \<and> (\<forall>c \<in> set l. \<not> is_linebreak c) \<and> py_strip l = l"
    using assms(1) by (auto simp: hash_word_def intro!: strip_id)
  from recovery_lines_join [OF this, of a] show ?thesis
    using assms(2) by (simp add: recovery_lines_def hash_recovery_codes_def)
qed

lemma recovery_code_misses:
  assumes bc: "bcrypt_ok bc" "hash_word bc" and draws: "\<forall>i g j. choice i g j < length RECOVERY_ALPHABET"
    and stored: "acc_totp_recovery_hashes a = Some (hash_recovery_codes bc salts (generate_recovery_codes choice n))"
    and c: "c \<in> set (generate_recovery_codes choice n)"
  shows "check_second_factor bc t a c = Inr (False, None)" "check_disable_code bc t a c = Inr (False, False)"
proof -
  let ?codes = "generate_recovery_codes choice n"
  have shape: "\<exists>u v. c' = u @ CHR ''-'' # v \<and> length u = 5 \<and> length v = 5 \<and> set (u @ v) \<subseteq> set RECOVERY_ALPHABET"
    if "c' \<in> set ?codes" for c'
  proof -
    from that obtain i where "c' = recovery_code (choice i)" by (auto simp: generate_recovery_codes_def)
    with draws recovery_code_groups [of "choice i"] show ?thesis by metis
  qed
  from shape [OF c] obtain u v where uv: "c = u @ CHR ''-'' # v" "length u = 5" "length v = 5" "set (u @ v) \<subseteq> set RECOVERY_ALPHABET"
    by blast
  have ok: "\<forall>x \<in> set u \<union> set v. \<not> is_space x \<and> x \<noteq> CHR '' '' \<and> x \<noteq> CHR ''-''" using uv(4) recovery_chars by auto
  have dash: "\<not> is_space (CHR ''-'')" by code_simp
  have s: "py_strip c = c" using ok dash by (intro strip_id) (auto simp: uv(1))
  have "u \<noteq> []" "v \<noteq> []" using uv(2,3) by auto
  then have n: "normalize_recovery_code c = u @ v" unfolding uv(1) by (rule normalize_groups [OF uv(4)])
  have b: "length (bare_code c) \<noteq> TOTP_DIGITS" "length (bare_code c) \<noteq> 6"
    using ok uv(2,3) by (auto simp: uv(1) bare_code_def remove_char_def filter_id_conv TOTP_DIGITS_def)
  have "\<not> checkpw bc (u @ v) (hashpw bc c' x)" if "c' \<in> set ?codes" for c' x
  proof -
    have "CHR ''-'' \<in> set c'" using shape [OF that] by auto
    moreover have "CHR ''-'' \<notin> set (u @ v)" using ok by auto
    ultimately show ?thesis using bc(1) by (auto simp: bcrypt_ok_def)
  qed
  then have "find (checkpw bc (u @ v)) (recovery_lines a) = None"
    by (auto simp: stored_recovery_lines [OF bc(2) stored] find_None_iff in_set_enumerate_eq)
  then show "check_second_factor bc t a c = Inr (False, None)" "check_disable_code bc t a c = Inr (False, False)"
    using s n b by (simp_all add: check_second_factor_def check_disable_code_def Let_def)
qed

text \<open>What a page with recovery codes says about the confirmation that rendered it.\<close>

lemma totp_confirm_codes:
  assumes "totp_confirm w now choice salts req cookie code u st = (Inr r, st')"
    and "(''new_recovery_codes'', js) \<in> set (ui_context r)"
  obtains acct where "paired_account (uw_lk w) (db st) u = Some acct" "truthy (acc_totp_secret acct)"
    "js = JList (map JStr (generate_recovery_codes choice 8))"
    "\<And>i a. row_get acc_id i (accounts (db (put_account (acct\<lparr>acc_totp_enabled := True, acc_totp_enabled_at := Some now,
        acc_totp_recovery_hashes := Some (hash_recovery_codes (uw_bc w) salts (generate_recovery_codes choice 8))\<rparr>) st))) = Some a
      \<Longrightarrow> row_get acc_id i (accounts (db st')) = Some a"
proof -
  obtain acct st1 where a: "admin_account w now u st = (acct, st1)" by fastforce
  have ctx: "js' = js \<and> k = ''new_recovery_codes''" if "render_account w now cookie u [(k, js')] fl s = (Inr r, st')" for k js' fl s
    using that assms(2) by (auto simp: render_account_def ui_page_def Let_def split: prod.splits sum.splits)
  have no_flash: "ui_context (flash_to w now url k m) = []" for url k m
    by (simp add: flash_to_def redirect_flash_def ui_redirect_def)
  have off: "\<not> acc_totp_enabled acct" and sec: "truthy (acc_totp_secret acct)"
    using assms a no_flash by (auto simp: totp_confirm_def split: if_splits)
  then have p: "paired_account (uw_lk w) (db st) u = Some acct" "st1 = st"
    using a by (auto simp: admin_account_def Let_def new_account_def split: option.splits)
  let ?codes = "generate_recovery_codes choice 8"
  let ?acct1 = "acct\<lparr>acc_totp_enabled := True, acc_totp_enabled_at := Some now,
    acc_totp_recovery_hashes := Some (hash_recovery_codes (uw_bc w) salts ?codes)\<rparr>"
  have ok: "totp_verify (the (acc_totp_secret acct)) code TOTP_DRIFT now = Inr True"
  proof (cases "totp_verify (the (acc_totp_secret acct)) code TOTP_DRIFT now")
    case (Inl e)
    with assms(1) a off sec show ?thesis by (simp add: totp_confirm_def Let_def)
  next
    case (Inr b)
    with assms(1) a off sec ctx show ?thesis by (cases b) (auto simp: totp_confirm_def Let_def)
  qed
  obtain act rt rid fl where
    rend: "render_account w now cookie u [(''new_recovery_codes'', JList (map JStr ?codes))] fl
      (emit (uw_env w) now (Some ?acct1) act (Some req) rt rid None (put_account ?acct1 st)) = (Inr r, st')"
    using assms(1) a off sec ok p(2) by (simp add: totp_confirm_def Let_def)
  show ?thesis
    by (rule that [OF p(1) sec]) (use ctx [OF rend] render_account_row [OF rend] in \<open>simp_all add: emit_tables\<close>)
qed

text \<open>
  C30: No recovery code handed out is ever accepted. Confirming the second factor shows eight codes
  with a dash and stores the hashes of exactly these texts, while the login form and the
  switch-off form remove dashes from what is typed before they compare: right after the
  confirmation, at any time, both forms refuse every one of the codes shown, so an
  administrator without the authenticator is locked out.
\<close>
theorem recovery_codes_unusable:
  assumes bc: "bcrypt_ok (uw_bc w)" "hash_word (uw_bc w)" and scan: "scan_ok (uw_lk w)"
    and pk: "pk acc_id (accounts (db st))" and draws: "\<forall>i g j. choice i g j < length RECOVERY_ALPHABET"
    and confirmed: "totp_confirm w now choice salts req cookie code u st = (Inr r, st')"
    and shown: "(''new_recovery_codes'', js) \<in> set (ui_context r)"
  shows "\<exists>codes acct a. js = JList (map JStr codes) \<and> length codes = 8
    \<and> paired_account (uw_lk w) (db st) u = Some acct
    \<and> row_get acc_id (acc_id acct) (accounts (db st')) = Some a \<and> has_totp a
    \<and> (\<forall>c \<in> set codes. \<forall>t. check_second_factor (uw_bc w) t a c = Inr (False, None)
         \<and> check_disable_code (uw_bc w) t a c = Inr (False, False))"
proof -
  let ?codes = "generate_recovery_codes choice 8"
  obtain acct where p: "paired_account (uw_lk w) (db st) u = Some acct" and sec: "truthy (acc_totp_secret acct)"
    and js: "js = JList (map JStr ?codes)"
    and row: "\<And>i a. row_get acc_id i (accounts (db (put_account (acct\<lparr>acc_totp_enabled := True, acc_totp_enabled_at := Some now,
        acc_totp_recovery_hashes := Some (hash_recovery_codes (uw_bc w) salts ?codes)\<rparr>) st))) = Some a
      \<Longrightarrow> row_get acc_id i (accounts (db st')) = Some a"
    using totp_confirm_codes [OF confirmed shown] by metis
  define a where "a = acct\<lparr>acc_totp_enabled := True, acc_totp_enabled_at := Some now,
    acc_totp_recovery_hashes := Some (hash_recovery_codes (uw_bc w) salts ?codes)\<rparr>"
  have "row_get acc_id (acc_id acct) (accounts (db st)) = Some acct"
    using paired_account_in [OF scan p] pk by (simp add: row_get_in)
  then have "row_get acc_id (acc_id acct) (accounts (db (put_account a st))) = Some a"
    using row_get_put_account [of a st acct] by (simp add: a_def)
  then have "row_get acc_id (acc_id acct) (accounts (db st')) = Some a" using row unfolding a_def by blast
  moreover have "has_totp a" using sec by (simp add: a_def has_totp_def)
  moreover have "acc_totp_recovery_hashes a = Some (hash_recovery_codes (uw_bc w) salts ?codes)" by (simp add: a_def)
  moreover have "length ?codes = 8" by (simp add: generate_recovery_codes_def)
  ultimately show ?thesis using p js recovery_code_misses [OF bc draws] by blast
qed

text \<open>A hash function that is one word and injective, for the instance.\<close>

definition word_bcrypt :: bcrypt_lib where
  "word_bcrypt = \<lparr>hashpw = (\<lambda>p s. CHR ''h'' # urlsafe_b64encode (ascii_encode p)),
     checkpw = (\<lambda>p h. h = CHR ''h'' # urlsafe_b64encode (ascii_encode p))\<rparr>"

lemma ascii_encode_eq: "ascii_encode a = ascii_encode b \<longleftrightarrow> a = b"
proof
  have inj: "inj (\<lambda>c. of_nat (char_code c) :: 8 word)"
  proof (rule injI)
    fix c d :: char
    assume "(of_nat (char_code c) :: 8 word) = of_nat (char_code d)"
    then have "unat (of_nat (char_code c) :: 8 word) = unat (of_nat (char_code d) :: 8 word)" by simp
    then have "char_code c = char_code d" using char_code_lt [of c] char_code_lt [of d] by (simp only: unat_byte) simp
    then show "c = d" by (simp add: char_code_def)
  qed
  assume "ascii_encode a = ascii_encode b"
  then show "a = b" unfolding ascii_encode_def using inj by (metis map_injective)
qed simp

lemma b64_eq: "urlsafe_b64encode a = urlsafe_b64encode b \<longleftrightarrow> a = b"
  by (metis b64_roundtrip [of _ 0] option.inject)

lemma b64char_word: "\<not> is_space (b64char d) \<and> \<not> is_linebreak (b64char d)"
proof -
  have "nat (d mod 64) < length b64alphabet" by (simp add: b64alphabet_def nat_less_iff)
  then have "b64char d \<in> set b64alphabet" unfolding b64char_def by (rule nth_mem)
  moreover have "\<forall>c \<in> set b64alphabet. \<not> is_space c \<and> \<not> is_linebreak c" by code_simp
  ultimately show ?thesis by blast
qed

lemma word_bcrypt_ok: "bcrypt_ok word_bcrypt" "hash_word word_bcrypt"
proof -
  show "bcrypt_ok word_bcrypt" by (simp add: bcrypt_ok_def word_bcrypt_def b64_eq ascii_encode_eq) blast
  have e: "\<not> is_space c \<and> \<not> is_linebreak c" if "c \<in> {CHR ''='', CHR ''h''}" for c
  proof -
    have "\<forall>c \<in> set ''=h''. \<not> is_space c \<and> \<not> is_linebreak c" by code_simp
    with that show ?thesis by auto
  qed
  have "\<not> is_space c \<and> \<not> is_linebreak c" if "c \<in> set (urlsafe_b64encode bs)" for c bs
    using that by (induction bs rule: urlsafe_b64encode.induct) (use e b64char_word in auto)
  with e show "hash_word word_bcrypt" by (auto simp: hash_word_def word_bcrypt_def)
qed

definition demo_world :: ui_world where
  "demo_world = \<lparr>uw_lk = demo_lookup, uw_bc = word_bcrypt, uw_cfg = demo_cfg, uw_env = demo_env, uw_pats = (\<lambda>xs. xs),
     uw_sessions = (\<lambda>xs. xs), uw_salt = ''s''\<rparr>"

lemma demo_confirm:
  obtains code r st' where "totp_confirm demo_world 1700000000 (\<lambda>i g j. i mod 31) (\<lambda>_. ''s'') demo_request None code ''ann''
      (demo_admin (demo_totp_account\<lparr>acc_totp_enabled := False\<rparr>)) = (Inr r, st')"
    "(''new_recovery_codes'', JList (map JStr (generate_recovery_codes (\<lambda>i g j. i mod 31) 8))) \<in> set (ui_context r)"
proof -
  let ?a = "demo_totp_account\<lparr>acc_totp_enabled := False\<rparr>"
  have c: "1 \<le> now_counter 1700000000" "now_counter 1700000000 < 2 ^ 64 - 1" by (simp_all add: now_counter_def TOTP_STEP_def)
  then obtain code where code: "hotp demo_key (now_counter 1700000000) = Inr code" "length code = TOTP_DIGITS" "\<forall>x \<in> set code. is_digit x"
    using hotp_total [of "now_counter 1700000000" demo_key] by auto
  have cl: "totp_clean code = code" using totp_clean_grouped(1) [of code "[]"] code(3) by simp
  have "demo_key \<noteq> []" by (simp add: demo_key_def)
  then have v: "totp_verify demo_secret code TOTP_DRIFT 1700000000 = Inr True"
    using totp_verify_eq [OF demo_secret_key, of code 1700000000] c code cl by auto
  have a: "admin_account demo_world 1700000000 ''ann'' (demo_admin ?a) = (?a, demo_admin ?a)"
    by (simp add: admin_account_def demo_world_def demo_admin_def paired_account_def demo_lookup_def demo_totp_account_def legacy_email_def)
  have fp: "\<exists>fp. own_fingerprint demo_world 1700000000 None = Inr fp"
    by (simp add: own_fingerprint_def fingerprint_def session_id_of_def is_ascii_def)
  have rend: "\<exists>r st'. render_account demo_world 1700000000 None ''ann'' [e] fl st = (Inr r, st') \<and> e \<in> set (ui_context r)"
    for e fl st
    using fp by (auto simp: render_account_def session_list_def ui_page_def split: prod.splits option.splits)
  have "acc_totp_secret ?a = Some demo_secret" "demo_secret \<noteq> []" by (simp_all add: demo_totp_account_def demo_secret_def)
  then have "\<exists>r st'. totp_confirm demo_world 1700000000 (\<lambda>i g j. i mod 31) (\<lambda>_. ''s'') demo_request None code ''ann'' (demo_admin ?a) = (Inr r, st')
      \<and> (''new_recovery_codes'', JList (map JStr (generate_recovery_codes (\<lambda>i g j. i mod 31) 8))) \<in> set (ui_context r)"
    using v by (simp add: totp_confirm_def a) (simp only: Let_def, use rend in blast)
  with that show ?thesis by blast
qed

text \<open>An account that has started pairing confirms it with a code its authenticator shows.\<close>
theorem recovery_codes_unusable_witness:
  "\<exists>code r st' codes a. totp_confirm demo_world 1700000000 (\<lambda>i g j. i mod 31) (\<lambda>_. ''s'') demo_request None code ''ann''
       (demo_admin (demo_totp_account\<lparr>acc_totp_enabled := False\<rparr>)) = (Inr r, st')
     \<and> length codes = 8 \<and> has_totp a
     \<and> (\<forall>c \<in> set codes. check_second_factor word_bcrypt 1700000000 a c = Inr (False, None))"
proof -
  obtain code r st' where c: "totp_confirm demo_world 1700000000 (\<lambda>i g j. i mod 31) (\<lambda>_. ''s'') demo_request None code ''ann''
      (demo_admin (demo_totp_account\<lparr>acc_totp_enabled := False\<rparr>)) = (Inr r, st')"
    "(''new_recovery_codes'', JList (map JStr (generate_recovery_codes (\<lambda>i g j. i mod 31) 8))) \<in> set (ui_context r)"
    by (rule demo_confirm)
  have w: "bcrypt_ok (uw_bc demo_world)" "hash_word (uw_bc demo_world)" "scan_ok (uw_lk demo_world)"
    by (simp_all add: demo_world_def word_bcrypt_ok demo_scan_ok)
  have "length RECOVERY_ALPHABET = 31" by (simp add: RECOVERY_ALPHABET_def)
  then have d: "\<forall>i (g::nat) (j::nat). i mod 31 < length RECOVERY_ALPHABET" by simp
  have pk: "pk acc_id (accounts (db (demo_admin (demo_totp_account\<lparr>acc_totp_enabled := False\<rparr>))))"
    by (simp add: demo_admin_def pk_def)
  from recovery_codes_unusable [OF w pk d c] obtain codes a where "length codes = 8" "has_totp a"
      "\<forall>x \<in> set codes. check_second_factor (uw_bc demo_world) 1700000000 a x = Inr (False, None)" by blast
  with c(1) show ?thesis unfolding demo_world_def by auto
qed

end
