(* ===== verification/Admin_Guard.thy ===== *)
theory Admin_Guard
  imports Admin_Credentials Store
begin

text \<open>
  The life of admin sessions across requests: the routes of \<open>Admin_Login\<close>, \<open>Admin_Account\<close> and
  \<open>Admin_Credentials\<close> and the retention sweep as one step relation, with the invariant that
  session rows keep their fingerprints apart and that a revoked row stays revoked.
\<close>

section \<open>Revoked rows\<close>

definition sess_uniq :: "database \<Rightarrow> bool" where
  "sess_uniq d \<longleftrightarrow> pk ses_id (admin_sessions d) \<and> pk ses_fingerprint (admin_sessions d)"

definition dead :: "string \<Rightarrow> database \<Rightarrow> bool" where
  "dead fp d \<longleftrightarrow> (\<exists>r \<in> set (admin_sessions d). ses_fingerprint r = fp \<and> ses_revoked_at r \<noteq> None)"

definition keeps_dead :: "database \<Rightarrow> database \<Rightarrow> bool" where
  "keeps_dead d d' \<longleftrightarrow> (sess_uniq d \<longrightarrow> sess_uniq d' \<and> (\<forall>fp. dead fp d \<longrightarrow> dead fp d'))"

lemma keeps_trans: "keeps_dead a b \<Longrightarrow> keeps_dead b c \<Longrightarrow> keeps_dead a c"
  by (auto simp: keeps_dead_def)

lemma keeps_same: "admin_sessions d' = admin_sessions d \<Longrightarrow> keeps_dead d d'"
  by (simp add: keeps_dead_def sess_uniq_def dead_def)

lemma keeps_map:
  assumes "admin_sessions d' = map f (admin_sessions d)"
    and "\<And>r. ses_id (f r) = ses_id r \<and> ses_fingerprint (f r) = ses_fingerprint r \<and> (ses_revoked_at r \<noteq> None \<longrightarrow> ses_revoked_at (f r) \<noteq> None)"
  shows "keeps_dead d d'"
  using assms by (auto simp: keeps_dead_def sess_uniq_def dead_def pk_def comp_def)

lemma find_session_None: "find_session fp d = None \<longleftrightarrow> fp \<notin> ses_fingerprint ` set (admin_sessions d)"
  by (auto simp: find_session_def find_None_iff)

lemma track_keeps:
  assumes "fresh_alloc (env_alloc env)"
  shows "keeps_dead d (track_session env now u fp req d)"
proof -
  have "pk ses_id (admin_sessions d @ [session_row env now i fp req d])" if "pk ses_id (admin_sessions d)" for i
  proof -
    have "env_alloc env (map ses_id (admin_sessions d)) \<notin> ses_id ` set (admin_sessions d)"
      using assms by (metis fresh_alloc_def list.set_map)
    with that show ?thesis by (simp add: pk_def session_row_def)
  qed
  then show ?thesis
    by (auto simp: track_session_def keeps_dead_def sess_uniq_def dead_def row_add_def pk_def session_row_def find_session_None
        split: option.splits)
qed

lemma touch_keeps:
  assumes "fresh_alloc (env_alloc env)" "touch_session env now req u fp d = Some d'"
  shows "keeps_dead d d'"
proof (cases "find_session fp d")
  case None
  with assms track_keeps [OF assms(1)] show ?thesis by (simp add: touch_session_def) metis
next
  case (Some row)
  with assms(2) have "admin_sessions d' = row_set ses_id (ses_id row) (ses_last_seen_at_update (\<lambda>_. now)) (admin_sessions d)"
    by (auto simp: touch_session_def split: if_splits)
  then show ?thesis unfolding row_set_def by (rule keeps_map) auto
qed

section \<open>Handlers that never revive a session\<close>

definition tame :: "'a handler \<Rightarrow> bool" where
  "tame h \<longleftrightarrow> (\<forall>st. committed (snd (h st)) = committed st \<and> keeps_dead (db st) (db (snd (h st))))"

lemma tameD: "tame h \<Longrightarrow> h st = (r, st') \<Longrightarrow> committed st' = committed st \<and> keeps_dead (db st) (db st')"
  by (metis snd_conv tame_def)

lemma tame_emit: "committed (emit env now a act rq rt rid d st) = committed st \<and> keeps_dead (db st) (db (emit env now a act rq rt rid d st))"
  by (auto simp: db_emit emit_frame intro: keeps_same)

lemma tame_issue:
  assumes "fresh_alloc (env_alloc env)"
  shows "tame (issue_session cfg env now uuid sid wdb req u)"
  using track_keeps [OF assms]
  by (auto simp: tame_def issue_session_def Let_def keeps_same split: sum.splits)

lemma tame_current_user:
  assumes "fresh_alloc (env_alloc env)"
  shows "tame (current_user cfg env now req cookie)"
  using touch_keeps [OF assms]
  by (auto simp: tame_def current_user_def Let_def keeps_same split: sum.splits option.splits)

lemma tame_admin_account: "committed (snd (admin_account w now u st)) = committed st \<and> keeps_dead (db st) (db (snd (admin_account w now u st)))"
  by (auto simp: admin_account_def Let_def split: option.splits intro: keeps_same)

lemma tame_revoke_where: "committed (snd (revoke_where P now st)) = committed st \<and> keeps_dead (db st) (db (snd (revoke_where P now st)))"
  unfolding revoke_where_def Let_def snd_conv
  by (intro conjI keeps_map [where f = "\<lambda>r. if P r \<and> ses_revoked_at r = None then revoke_session now r else r"])
     (auto simp: revoke_session_def)

lemma tame_render: "tame (render_account w now cookie u extra fl)"
  using tame_admin_account [of w now u] by (auto simp: tame_def render_account_def split: prod.splits sum.splits) (metis snd_conv)+

lemma tame_put_account: "committed (put_account a st) = committed st \<and> keeps_dead (db st) (db (put_account a st))"
  by (auto simp: put_account_def intro: keeps_same)

definition quiet :: "app_state \<Rightarrow> app_state \<Rightarrow> bool" where
  "quiet st st' \<longleftrightarrow> committed st' = committed st \<and> keeps_dead (db st) (db st')"

lemma quiet_trans: "quiet a b \<Longrightarrow> quiet b c \<Longrightarrow> quiet a c"
  using keeps_trans by (auto simp: quiet_def)

lemma quiet_refl: "quiet st st"
  by (simp add: quiet_def keeps_same)

lemma quiet_emit: "quiet st0 st \<Longrightarrow> quiet st0 (emit env now a act rq rt rid d st)"
  using tame_emit quiet_trans by (fastforce simp: quiet_def)

lemma quiet_account: "admin_account w now u st = (a, st') \<Longrightarrow> quiet st0 st \<Longrightarrow> quiet st0 st'"
  using tame_admin_account [of w now u st] quiet_trans by (fastforce simp: quiet_def)

lemma quiet_put: "quiet st0 st \<Longrightarrow> quiet st0 (put_account a st)"
  using tame_put_account quiet_trans by (fastforce simp: quiet_def)

lemma quiet_revoke: "revoke_where P now st = (n, st') \<Longrightarrow> quiet st0 st \<Longrightarrow> quiet st0 st'"
  using tame_revoke_where [of P now st] quiet_trans by (fastforce simp: quiet_def)

lemma quiet_render: "render_account w now cookie u extra fl st = (r, st') \<Longrightarrow> quiet st0 st \<Longrightarrow> quiet st0 st'"
  using tameD [OF tame_render] quiet_trans by (fastforce simp: quiet_def)

lemma quiet_db: "admin_sessions d = admin_sessions (db st) \<Longrightarrow> quiet st0 st \<Longrightarrow> quiet st0 (st\<lparr>db := d\<rparr>)"
  by (rule quiet_trans) (auto simp: quiet_def intro: keeps_same)

lemmas quiet_intros = quiet_refl quiet_emit quiet_account quiet_put quiet_revoke quiet_render quiet_db

lemma tameI: "(\<And>st r st'. h st = (r, st') \<Longrightarrow> quiet st st') \<Longrightarrow> tame h"
  unfolding tame_def quiet_def by (metis prod.collapse)

lemma quiet_kill_session:
  assumes "kill_session w now req sid u st = (r, st')"
  shows "quiet st st'"
proof -
  have k: "quiet st (st\<lparr>db := (db st)\<lparr>admin_sessions := row_set ses_id sid (revoke_session now) (admin_sessions (db st))\<rparr>\<rparr>)"
    unfolding quiet_def row_set_def
    by (auto intro!: keeps_map [where f = "\<lambda>r. if ses_id r = sid then revoke_session now r else r"] simp: revoke_session_def)
  show ?thesis
    using assms by (auto simp: kill_session_def Let_def split: option.splits if_splits prod.splits intro: quiet_intros k)
qed

lemma quiet_kill_others: "kill_other_sessions w now req cookie u st = (r, st') \<Longrightarrow> quiet st st'"
  by (auto simp: kill_other_sessions_def Let_def split: sum.splits prod.splits)
     ((rule quiet_emit quiet_refl | erule quiet_account quiet_revoke)+)

lemma quiet_kill_all: "kill_all_sessions w now req cookie c u st = (r, st') \<Longrightarrow> quiet st st'"
  by (auto simp: kill_all_sessions_def bump_all_def Let_def split: sum.splits prod.splits if_splits)
     ((rule quiet_emit quiet_refl quiet_db [OF refl] | erule quiet_account quiet_revoke | (rule quiet_db, simp))+)

lemma issue_pat_sessions: "issue bc alloc now rand salt i n x ro al d = ((row, p), d') \<Longrightarrow> admin_sessions d' = admin_sessions d"
  by (auto simp: issue_def Let_def)

lemma quiet_create_token:
  assumes "create_account_token w now rand req cookie n ttl ro al u st = (r, st')"
  shows "quiet st st'"
proof -
  obtain a st1 where a: "admin_account w now u st = (a, st1)" by fastforce
  then have q: "quiet st st1" by (rule quiet_account) (rule quiet_refl)
  show ?thesis
  proof (cases "if py_strip ttl = [] then Some None else map_option Some (py_int ttl)")
    case None
    with assms a q show ?thesis by (simp add: create_account_token_def)
  next
    case (Some days)
    obtain row p d1 where i: "issue (uw_bc w) (env_alloc (uw_env w)) now rand (uw_salt w) (acc_id a) n
        (map_option (\<lambda>n. now + max 1 (min n 365) * day) days) (ro \<noteq> [])
        (if allowlist_lines al = [] then None else Some (allowlist_lines al)) (db st1) = ((row, p), d1)" by (metis prod.exhaust)
    then have "quiet st (st1\<lparr>db := d1\<rparr>)" by (intro quiet_db issue_pat_sessions q)
    note e = quiet_emit [OF this]
    show ?thesis
      using assms unfolding create_account_token_def a Some prod.case Let_def option.case i
      by (rule quiet_render) (rule e)
  qed
qed

lemma quiet_revoke_token: "revoke_account_token w now req tid u st = (r, st') \<Longrightarrow> quiet st st'"
  by (auto simp: revoke_account_token_def pat_revoke_def Let_def split: option.splits prod.splits if_splits)
     ((rule quiet_emit quiet_refl | erule quiet_account | (rule quiet_db, simp))+)

lemma quiet_password: "change_own_password w now req c n n' u st = (r, st') \<Longrightarrow> quiet st st'"
  by (auto simp: change_own_password_def set_user_password_def Let_def split: option.splits prod.splits if_splits)
     ((rule quiet_emit quiet_refl | erule quiet_account | (rule quiet_db, simp))+)

lemma quiet_setup: "totp_setup w now rand req cookie u st = (r, st') \<Longrightarrow> quiet st st'"
  by (auto simp: totp_setup_def Let_def split: prod.splits if_splits)
     ((rule quiet_emit quiet_refl quiet_put | erule quiet_account quiet_render)+)

lemma quiet_confirm:
  assumes "totp_confirm w now choice salts req cookie c u st = (r, st')"
  shows "quiet st st'"
proof -
  obtain a st1 where a: "admin_account w now u st = (a, st1)" by fastforce
  then have q: "quiet st st1" by (rule quiet_account) (rule quiet_refl)
  note step = assms [unfolded totp_confirm_def a prod.case Let_def]
  show ?thesis
  proof (cases "acc_totp_enabled a \<or> \<not> truthy (acc_totp_secret a)")
    case True
    with step q show ?thesis by (auto split: if_splits)
  next
    case False
    then have off: "\<not> acc_totp_enabled a" "truthy (acc_totp_secret a)" by auto
    show ?thesis
    proof (cases "totp_verify (the (acc_totp_secret a)) c TOTP_DRIFT now")
      case (Inl e)
      with step off q show ?thesis by simp
    next
      case (Inr b)
      then show ?thesis
        using step off quiet_render [OF _ q] quiet_render [OF _ quiet_emit [OF quiet_put [OF q]]] by (cases b) simp_all
    qed
  qed
qed

lemma quiet_disable:
  assumes "totp_disable w now req c u st = (r, st')"
  shows "quiet st st'"
proof -
  obtain a st1 where a: "admin_account w now u st = (a, st1)" by fastforce
  then have q: "quiet st st1" by (rule quiet_account) (rule quiet_refl)
  note step = assms [unfolded totp_disable_def a prod.case Let_def]
  show ?thesis
  proof (cases "check_disable_code (uw_bc w) now a c")
    case (Inl e)
    with step q show ?thesis by (auto split: if_splits)
  next
    case (Inr x)
    obtain b rec where x: "x = (b, rec)" by (cases x)
    from Inr step q show ?thesis by (cases b) (auto simp: x intro: quiet_emit quiet_put split: if_splits)
  qed
qed

lemma quiet_page: "account_page w now cookie fl u st = (r, st') \<Longrightarrow> quiet st st'"
  by (auto simp: account_page_def split: prod.splits sum.splits) ((erule quiet_render, rule quiet_refl)+)

lemma quiet_login:
  assumes "fresh_alloc (env_alloc env)" "login_submit lk bc cfg env now uuid req u p st = (r, st')"
  shows "quiet st st'"
  using assms(2) tameD [OF tame_issue [OF assms(1)]]
  by (auto simp: login_submit_def quiet_def keeps_same split: option.splits if_splits sum.splits prod.splits)

lemma quiet_login_2fa:
  assumes "fresh_alloc (env_alloc env)" "login_2fa_submit lk bc cfg env now uuid req code cookie st = (r, st')"
  shows "quiet st st'"
proof -
  have issue: "quiet a c" if "issue_session cfg env now uuid None True (Some req) u b = (x, c)" "quiet a b" for u a b c x
    using tameD [OF tame_issue [OF assms(1)] that(1)] quiet_trans [OF that(2)] by (auto simp: quiet_def)
  have tail: "quiet st c" if "issue_session cfg env now uuid None True (Some req) u
      (emit env now a act rq rt rid d (if used = None then st else put_account a' st)) = (x, c)" for u a act rq rt rid d used a' x c
    using that by (rule issue) (auto intro: quiet_emit quiet_put quiet_refl)
  show ?thesis
  proof (cases "read_pending cfg now cookie")
    case None
    with assms(2) show ?thesis by (simp add: login_2fa_submit_def quiet_refl)
  next
    case (Some u)
    note u = this
    show ?thesis
    proof (cases "\<exists>user a. find_user u (db st) = Some user \<and> paired_account lk (db st) u = Some a \<and> has_totp a")
      case False
      with assms(2) u show ?thesis by (auto simp: login_2fa_submit_def quiet_refl split: option.splits)
    next
      case True
      then obtain user a where p: "find_user u (db st) = Some user" "paired_account lk (db st) u = Some a" "has_totp a" by blast
      show ?thesis
      proof (cases "check_second_factor bc now a code")
        case (Inl e)
        with assms(2) u p show ?thesis by (simp add: login_2fa_submit_def quiet_refl)
      next
        case (Inr y)
        obtain b used where y: "y = (b, used)" by (cases y)
        from assms(2) u p Inr show ?thesis
          by (cases b) (auto simp: login_2fa_submit_def y Let_def quiet_emit quiet_refl dest!: tail split: prod.splits sum.splits)
      qed
    qed
  qed
qed

section \<open>The system\<close>

text \<open>The forms of the account page, one constructor per route with its form fields.\<close>

datatype admin_form =
    KillSession int
  | KillOthers
  | KillAll string
  | CreateToken string string string string string
  | RevokeToken int
  | ChangePassword string string string
  | TotpSetup bytes
  | TotpConfirm "nat \<Rightarrow> nat \<Rightarrow> nat \<Rightarrow> nat" "nat \<Rightarrow> string" string
  | TotpDisable string

fun serve_form :: "ui_world \<Rightarrow> instant \<Rightarrow> request \<Rightarrow> string option \<Rightarrow> admin_form \<Rightarrow> string \<Rightarrow> ui_response handler" where
  "serve_form w now req cookie (KillSession i) = kill_session w now req i"
| "serve_form w now req cookie KillOthers = kill_other_sessions w now req cookie"
| "serve_form w now req cookie (KillAll c) = kill_all_sessions w now req cookie c"
| "serve_form w now req cookie (CreateToken rand n ttl ro al) = create_account_token w now rand req cookie n ttl ro al"
| "serve_form w now req cookie (RevokeToken i) = revoke_account_token w now req i"
| "serve_form w now req cookie (ChangePassword c n n') = change_own_password w now req c n n'"
| "serve_form w now req cookie (TotpSetup rand) = totp_setup w now rand req cookie"
| "serve_form w now req cookie (TotpConfirm choice salts c) = totp_confirm w now choice salts req cookie c"
| "serve_form w now req cookie (TotpDisable c) = totp_disable w now req c"

lemma tame_form: "tame (serve_form w now req cookie f u)"
  by (cases f; rule tameI)
     (simp_all add: quiet_kill_session quiet_kill_others quiet_kill_all quiet_create_token quiet_revoke_token quiet_password
        quiet_setup quiet_confirm quiet_disable)

text \<open>
  One request or one run of the scheduler, between two transactions: the two login forms, any
  form of the account page behind its dependencies, the page itself, a bare check of the
  session (what every other route runs first), and the retention sweep.
\<close>

inductive admin_step :: "ui_world \<Rightarrow> app_state \<Rightarrow> app_state \<Rightarrow> bool" for w :: ui_world where
  login: "admin_step w st (snd (get_session (login_submit (uw_lk w) (uw_bc w) (uw_cfg w) (uw_env w) now uuid req u p) st))"
| login_2fa: "admin_step w st (snd (get_session (login_2fa_submit (uw_lk w) (uw_bc w) (uw_cfg w) (uw_env w) now uuid req c ck) st))"
| form: "admin_step w st (snd (admin_post w now req cookie tok ck (serve_form w now req cookie f) st))"
| page: "admin_step w st (snd (admin_post w now req cookie tok ck (account_page w now cookie fl) st))"
| check: "admin_step w st (snd (get_session (current_user (uw_cfg w) (uw_env w) now req cookie) st))"
| sweep: "admin_step w st (snd (run_retention_scheduled lib alloc exn_str batch now ms lock st))"

inductive_cases admin_stepE: "admin_step w st st'"

definition session_ok :: "app_state \<Rightarrow> bool" where
  "session_ok st \<longleftrightarrow> committed st = db st \<and> sess_uniq (db st)"

definition killed :: "string \<Rightarrow> app_state \<Rightarrow> bool" where
  "killed fp st \<longleftrightarrow> session_ok st \<and> dead fp (db st)"

lemma tame_get_session:
  assumes "tame h" "session_ok st"
  shows "session_ok (snd (get_session h st)) \<and> (dead fp (db st) \<longrightarrow> dead fp (db (snd (get_session h st))))"
proof -
  obtain r st' where h: "h st = (r, st')" by fastforce
  from tameD [OF assms(1) h] assms(2) h show ?thesis
    by (cases r) (auto simp: get_session_def session_ok_def rollback_def commit_def keeps_dead_def)
qed

lemma tame_admin_post:
  assumes "fresh_alloc (env_alloc (uw_env w))" "\<And>u. tame (h u)"
  shows "tame (\<lambda>st. case require_csrf (req_method req) tok ck of Some e \<Rightarrow> (Inl e, st)
    | None \<Rightarrow> (case current_user (uw_cfg w) (uw_env w) now req cookie st of
        (Inl e, st1) \<Rightarrow> (Inl e, st1) | (Inr username, st1) \<Rightarrow> h username st1))"
proof (rule tameI)
  fix st r st'
  assume e: "(case require_csrf (req_method req) tok ck of Some e \<Rightarrow> (Inl e, st)
    | None \<Rightarrow> (case current_user (uw_cfg w) (uw_env w) now req cookie st of
        (Inl e, st1) \<Rightarrow> (Inl e, st1) | (Inr username, st1) \<Rightarrow> h username st1)) = (r, st')"
  obtain x st1 where c: "current_user (uw_cfg w) (uw_env w) now req cookie st = (x, st1)" by fastforce
  have q: "quiet st st1" using tameD [OF tame_current_user [OF assms(1)] c] by (simp add: quiet_def)
  show "quiet st st'"
  proof (cases x)
    case (Inl e')
    with e c q show ?thesis by (auto simp: quiet_refl split: option.splits)
  next
    case (Inr u)
    have "quiet st1 st2" if "h u st1 = (y, st2)" for y st2 using tameD [OF assms(2) that] by (simp add: quiet_def)
    with e c q Inr show ?thesis by (auto simp: quiet_refl split: option.splits dest: quiet_trans)
  qed
qed

lemma sweep_sessions:
  assumes "do_retention lib batch now st = (r, st')"
  shows "quiet st st'"
proof -
  have del: "admin_sessions d' = admin_sessions d" if "delete_chunks ids n d = Inr (k, d')" for ids n d k d'
    using that
  proof (induction ids n d rule: delete_chunks.induct)
    case (2 i ids n d)
    show ?case
    proof (cases "delete_snapshots (take CHUNK (i # ids)) d")
      case (Inl e)
      with "2.prems" show ?thesis by (simp only: delete_chunks.simps sum.case) simp
    next
      case (Inr y)
      obtain m d1 where y: "y = (m, d1)" by (cases y)
      have "admin_sessions d1 = admin_sessions d"
        using Inr y by (auto simp: delete_snapshots_def Let_def split: if_splits)
      moreover have "delete_chunks (drop CHUNK (i # ids)) (n + m) d1 = Inr (k, d')"
        using "2.prems" unfolding delete_chunks.simps Inr y by simp
      ultimately show ?thesis using "2.IH" [OF Inr y [symmetric]] by metis
    qed
  qed simp
  have purge: "admin_sessions (db (snd (purge_auto_older_than lib now a k days kl s))) = admin_sessions (db s)" for a k days kl s
    using del by (auto simp: purge_auto_older_than_def Let_def delete_blobs_db split: sum.splits)
  have p: "admin_sessions (db (snd (purge_accounts lib now as tot s))) = admin_sessions (db s)" for as tot s
  proof (induction as arbitrary: tot s)
    case (Cons a as)
    define pol where "pol = resolve_policy (db s) a"
    obtain x s1 where e: "purge_auto_older_than lib now a (keep_last_n_auto pol) (auto_expire_days pol) (keep_labeled_forever pol) s = (x, s1)"
      by fastforce
    from purge [of a "keep_last_n_auto pol" "auto_expire_days pol" "keep_labeled_forever pol" s] e
    have "admin_sessions (db s1) = admin_sessions (db s)" by simp
    with Cons.IH e show ?case by (cases x) (simp_all add: pol_def Let_def)
  qed simp
  obtain x st1 where e: "purge_accounts lib now (map acc_id (accounts (db st))) 0 st = (x, st1)" by fastforce
  then have s1: "admin_sessions (db st1) = admin_sessions (db st)" using p by (metis snd_conv)
  have "keeps_dead (db st) (db st')"
  proof (cases x)
    case (Inl err)
    with assms e s1 show ?thesis by (auto simp: do_retention_def Let_def intro: keeps_same)
  next
    case (Inr n)
    define days where "days = (case global_policies (db st1) of None \<Rightarrow> 0 | Some g \<Rightarrow> gp_admin_session_idle_days g)"
    have "admin_sessions (db st') = snd (revoke_idle now days (admin_sessions (db st1)))"
      unfolding days_def using assms e Inr by (auto simp: do_retention_def Let_def split: prod.splits)
    then have "admin_sessions (db st') = map (\<lambda>s. if 0 < days \<and> ses_last_seen_at s < now - days * day \<and> ses_revoked_at s = None
        then s\<lparr>ses_revoked_at := Some now\<rparr> else s) (admin_sessions (db st))"
      using s1 by (auto simp: revoke_idle_def Let_def)
    then show ?thesis by (rule keeps_map) auto
  qed
  with retention_committed [OF assms] show ?thesis by (simp add: quiet_def)
qed

lemma sweep_step:
  assumes "session_ok st"
  shows "session_ok (snd (run_retention_scheduled lib alloc exn_str batch now ms lock st))
    \<and> (dead fp (db st) \<longrightarrow> dead fp (db (snd (run_retention_scheduled lib alloc exn_str batch now ms lock st))))"
proof -
  obtain r st' where e: "do_retention lib batch now st = (r, st')" by fastforce
  from sweep_sessions [OF e] assms have "committed st' = db st" "keeps_dead (db st) (db st')" by (auto simp: quiet_def session_ok_def)
  with e assms show ?thesis
    by (cases r) (auto simp: run_retention_scheduled_def session_ok_def commit_def rollback_def write_scheduler_run_def
        keeps_dead_def sess_uniq_def dead_def)
qed

lemma admin_step_ok:
  assumes "fresh_alloc (env_alloc (uw_env w))" "admin_step w st st'" "session_ok st"
  shows "session_ok st' \<and> (dead fp (db st) \<longrightarrow> dead fp (db st'))"
  using assms(2)
proof cases
  case (login now uuid req u p)
  then show ?thesis using tame_get_session [OF tameI assms(3)] quiet_login [OF assms(1)] by metis
next
  case (login_2fa now uuid req c ck)
  then show ?thesis using tame_get_session [OF tameI assms(3)] quiet_login_2fa [OF assms(1)] by metis
next
  case (form now req cookie tok ck f)
  then show ?thesis
    using tame_get_session [OF tame_admin_post [OF assms(1) tame_form] assms(3)] by (simp add: admin_post_def)
next
  case (page now req cookie tok ck fl)
  have t: "tame (account_page w now cookie fl u)" for u by (rule tameI) (rule quiet_page)
  from page show ?thesis using tame_get_session [OF tame_admin_post [OF assms(1) t] assms(3)] by (simp add: admin_post_def)
next
  case (check now req cookie)
  then show ?thesis using tame_get_session [OF tame_current_user [OF assms(1)] assms(3)] by simp
next
  case (sweep lib alloc exn_str batch now ms lock)
  then show ?thesis using sweep_step [OF assms(3)] by simp
qed

text \<open>Steps whose identifiers are fresh, and the invariant that one session is over.\<close>

definition fresh_step :: "app_state \<Rightarrow> app_state \<Rightarrow> bool" where
  "fresh_step st st' \<longleftrightarrow> (\<exists>w. fresh_alloc (env_alloc (uw_env w)) \<and> admin_step w st st')"

interpretation session_end: inv_system fresh_step "killed fp" for fp
  by unfold_locales (auto simp: fresh_step_def killed_def dest: admin_step_ok)

lemma dead_refused:
  assumes "killed fp st" "fingerprint (uw_cfg w) now c = Inr fp" "c \<noteq> []"
  shows "\<exists>detail st'. current_user (uw_cfg w) (uw_env w) now req (Some c) st = (Inl (HTTPException 302 detail), st')"
proof -
  have asc: "is_ascii c" using assms(2,3) by (auto simp: fingerprint_def session_id_of_def split: sum.splits if_splits)
  from assms(1) obtain r where r: "r \<in> set (admin_sessions (db st))" "ses_fingerprint r = fp" "ses_revoked_at r \<noteq> None"
    by (auto simp: killed_def dead_def)
  moreover have "pk ses_fingerprint (admin_sessions (db st))" using assms(1) by (simp add: killed_def session_ok_def sess_uniq_def)
  ultimately have "find_session fp (db st) = Some r"
    using row_get_in [of ses_fingerprint "admin_sessions (db st)" r] by (simp add: row_get_def find_session_def)
  then have "touch_session (uw_env w) now req u fp (db st) = None" for u using r(3) by (simp add: touch_session_def)
  then show ?thesis
    using asc assms(2,3) by (auto simp: current_user_def read_session_def to_login_def split: option.splits)
qed

text \<open>The sessions each kill switch is for: an own one by number, the own others, or all others.\<close>

definition kills :: "ui_world \<Rightarrow> instant \<Rightarrow> string option \<Rightarrow> string \<Rightarrow> database \<Rightarrow> admin_form \<Rightarrow> admin_session \<Rightarrow> bool" where
  "kills w now cookie username d f row =
     (case f of
        KillSession i \<Rightarrow> ses_id row = i \<and> ses_user_id row = own_user_id username d
      | KillOthers \<Rightarrow> ses_user_id row = own_user_id username d \<and> own_fingerprint w now cookie \<noteq> Inr (ses_fingerprint row)
      | KillAll c \<Rightarrow> c = ''KILL-ALL'' \<and> own_fingerprint w now cookie \<noteq> Inr (ses_fingerprint row)
      | _ \<Rightarrow> False)"

lemma account_sessions: "admin_account w now u st = (a, st') \<Longrightarrow> admin_sessions (db st') = admin_sessions (db st)"
  by (auto simp: admin_account_def Let_def split: option.splits)

lemma dead_map:
  assumes "admin_sessions d' = map f (admin_sessions d)" "row \<in> set (admin_sessions d)"
    and "ses_fingerprint (f row) = ses_fingerprint row" "ses_revoked_at (f row) \<noteq> None"
  shows "dead (ses_fingerprint row) d'"
  using assms by (auto simp: dead_def)

lemma revoke_where_dead:
  "revoke_where P now st = (n, st') \<Longrightarrow> row \<in> set (admin_sessions (db st)) \<Longrightarrow> P row \<Longrightarrow> dead (ses_fingerprint row) (db st')"
  by (rule dead_map [where f = "\<lambda>r. if P r \<and> ses_revoked_at r = None then revoke_session now r else r"])
     (auto simp: revoke_where_def revoke_session_def Let_def)

lemma dead_same: "admin_sessions d = admin_sessions d' \<Longrightarrow> dead fp d = dead fp d'"
  by (simp add: dead_def)

lemma bump_sessions: "bump_all st = (n, st') \<Longrightarrow> admin_sessions (db st') = admin_sessions (db st)"
  by (auto simp: bump_all_def)

lemma kill_session_dead:
  assumes "kill_session w now req (ses_id row) u st = (r, st')" "ses_user_id row = own_user_id u (db st)"
    and "row \<in> set (admin_sessions (db st))" "pk ses_id (admin_sessions (db st))"
  shows "dead (ses_fingerprint row) (db st')"
proof -
  have g: "row_get ses_id (ses_id row) (admin_sessions (db st)) = Some row" using assms(3,4) by (simp add: row_get_in)
  define st1 where "st1 = (if ses_revoked_at row = None
    then st\<lparr>db := (db st)\<lparr>admin_sessions := row_set ses_id (ses_id row) (revoke_session now) (admin_sessions (db st))\<rparr>\<rparr> else st)"
  have "dead (ses_fingerprint row) (db st1)"
    by (rule dead_map [OF _ assms(3), where f = "\<lambda>r. if ses_revoked_at row = None \<and> ses_id r = ses_id row then revoke_session now r else r"])
       (auto simp: st1_def row_set_def revoke_session_def)
  moreover have "admin_sessions (db st') = admin_sessions (db st1)"
    using assms(1,2) g by (auto simp: kill_session_def Let_def st1_def [symmetric] db_emit dest!: account_sessions split: prod.splits)
  ultimately show ?thesis using dead_same by metis
qed

lemma kills_dead:
  assumes "serve_form w now req cookie f u st = (Inr r, st')" "kills w now cookie u (db st) f row"
    and "row \<in> set (admin_sessions (db st))" "pk ses_id (admin_sessions (db st))"
  shows "dead (ses_fingerprint row) (db st')"
proof (cases f)
  case (KillSession i)
  with assms kill_session_dead [of w now req row u st "Inr r" st'] show ?thesis by (auto simp: kills_def)
next
  case KillOthers
  with assms show ?thesis
    by (auto simp: kills_def kill_other_sessions_def Let_def db_emit dead_def [of _ "_\<lparr>audit_events := _\<rparr>"] split: sum.splits prod.splits
        dest!: account_sessions revoke_where_dead [OF _ assms(3)])
       (auto simp: dead_def)
next
  case (KillAll c)
  with assms show ?thesis
    by (auto simp: kills_def kill_all_sessions_def Let_def db_emit dead_def [of _ "_\<lparr>audit_events := _\<rparr>"] split: sum.splits prod.splits
        dest!: account_sessions bump_sessions revoke_where_dead [OF _ assms(3)])
       (auto simp: dead_def)
qed (use assms in \<open>auto simp: kills_def\<close>)

text \<open>
  C28: A killed session never comes back. After any of the three kill switches answered, every
  session it is for is refused with the redirect to the login page by the check that every
  admin route runs first, after any later sequence of logins, forms and retention sweeps,
  whatever cookie carries its fingerprint.
\<close>
theorem killed_sessions_stay_out:
  assumes fresh: "fresh_alloc (env_alloc (uw_env w))" and ok: "session_ok st"
    and user: "current_user (uw_cfg w) (uw_env w) now req cookie st = (Inr u, st0)"
    and kill: "admin_post w now req cookie tok ck (serve_form w now req cookie f) st = (Inr r, st1)"
    and row: "row \<in> set (admin_sessions (db st0))" "kills w now cookie u (db st0) f row"
    and later: "fresh_step\<^sup>*\<^sup>* st1 st2"
    and c: "fingerprint (uw_cfg w') t c = Inr (ses_fingerprint row)" "c \<noteq> []"
  shows "\<exists>detail st'. current_user (uw_cfg w') (uw_env w') t req' (Some c) st2 = (Inl (HTTPException 302 detail), st')"
proof -
  have "quiet st st0" using tameD [OF tame_current_user [OF fresh] user] by (simp add: quiet_def)
  then have "sess_uniq (db st0)" using ok by (simp add: quiet_def keeps_dead_def session_ok_def)
  moreover obtain st1' where f: "serve_form w now req cookie f u st0 = (Inr r, st1')" "st1 = commit st1'"
    using kill user by (auto simp: admin_post_def get_session_def split: prod.splits option.splits sum.splits)
  ultimately have "dead (ses_fingerprint row) (db st1)"
    using kills_dead [OF f(1) row(2,1)] by (simp add: sess_uniq_def commit_def)
  moreover have "session_ok st1" using admin_step_ok [OF fresh admin_step.form ok] kill by (metis snd_conv)
  ultimately have "killed (ses_fingerprint row) st1" by (simp add: killed_def)
  then have "killed (ses_fingerprint row) st2" using session_end.reach_inv later by blast
  then show ?thesis using c by (rule dead_refused)
qed

definition demo_session :: "int \<Rightarrow> string \<Rightarrow> admin_session" where
  "demo_session i fp = \<lparr>ses_id = i, ses_user_id = 1, ses_fingerprint = fp, ses_ip = None, ses_user_agent = None,
     ses_created_at = 0, ses_last_seen_at = 0, ses_revoked_at = None\<rparr>"

definition demo_guard :: app_state where
  "demo_guard = (let d = demo_db\<lparr>accounts := [demo_totp_account], users := [demo_user],
       admin_sessions := [demo_session 1 ''sid'', demo_session 2 ''old'']\<rparr>
     in demo_state\<lparr>db := d, committed := d\<rparr>)"

lemma demo_cookies:
  "fingerprint demo_cfg 100 ''90;ann|sid'' = Inr ''sid''" "fingerprint demo_cfg 200 ''90;ann|old'' = Inr ''old''"
  "read_session demo_cfg 100 (Some ''90;ann|sid'') = Inr (Some ''ann'')"
  by code_simp+

text \<open>The administrator of one browser ends every other session; the old cookie is refused.\<close>
theorem killed_sessions_stay_out_witness:
  "\<exists>r st1. admin_post demo_world 100 demo_request (Some ''90;ann|sid'') (Some ''t'') (Some ''t'')
        (serve_form demo_world 100 demo_request (Some ''90;ann|sid'') (KillAll ''KILL-ALL'')) demo_guard = (Inr r, st1)
     \<and> (\<exists>detail st'. current_user demo_cfg demo_env 200 demo_request (Some ''90;ann|old'') st1 = (Inl (HTTPException 302 detail), st'))"
proof -
  let ?w = demo_world and ?c = "Some ''90;ann|sid''" and ?f = "KillAll ''KILL-ALL''"
  define st0 where "st0 = snd (current_user demo_cfg demo_env 100 demo_request ?c demo_guard)"
  have w: "uw_cfg ?w = demo_cfg" "uw_env ?w = demo_env" by (simp_all add: demo_world_def)
  have cu: "current_user demo_cfg demo_env 100 demo_request ?c demo_guard = (Inr ''ann'', st0)"
    and ses: "demo_session 2 ''old'' \<in> set (admin_sessions (db st0))"
    by (simp_all add: st0_def current_user_def demo_cookies touch_session_def demo_guard_def find_session_def demo_session_def
        demo_db_def empty_db_def admin_allowlist_def allowlist_admits_def row_set_def Let_def)
  have own: "own_fingerprint ?w 100 ?c = Inr ''sid''" by (simp add: own_fingerprint_def w demo_cookies)
  have ok: "session_ok demo_guard"
    by (simp add: session_ok_def demo_guard_def sess_uniq_def pk_def demo_session_def Let_def)
  have fresh: "fresh_alloc (env_alloc (uw_env ?w))" by (simp add: w demo_env_def fresh_max_alloc)
  have csrf: "require_csrf (req_method demo_request) (Some ''t'') (Some ''t'') = None" by code_simp
  have "\<exists>r. fst (serve_form ?w 100 demo_request ?c ?f ''ann'' st0) = Inr r"
    by (simp add: kill_all_sessions_def own split_beta Let_def)
  then obtain r st1' where "serve_form ?w 100 demo_request ?c ?f ''ann'' st0 = (Inr r, st1')" by (metis prod.collapse)
  then have kill: "admin_post ?w 100 demo_request ?c (Some ''t'') (Some ''t'') (serve_form ?w 100 demo_request ?c ?f) demo_guard
      = (Inr r, commit st1')"
    by (simp add: admin_post_def get_session_def csrf w cu)
  have k: "kills ?w 100 ?c ''ann'' (db st0) ?f (demo_session 2 ''old'')" by (simp add: kills_def own demo_session_def)
  have fp: "fingerprint (uw_cfg ?w) 200 ''90;ann|old'' = Inr (ses_fingerprint (demo_session 2 ''old''))"
    by (simp add: w demo_cookies demo_session_def)
  have "\<exists>detail st'. current_user (uw_cfg ?w) (uw_env ?w) 200 demo_request (Some ''90;ann|old'') (commit st1')
      = (Inl (HTTPException 302 detail), st')"
    by (rule killed_sessions_stay_out [OF fresh ok _ kill ses k rtranclp.rtrancl_refl fp]) (simp_all add: w cu)
  with kill w show ?thesis by auto
qed

end
