(* ===== verification/Admin_Catalog.thy ===== *)
theory Admin_Catalog
  imports Admin_Guard Autogen
begin

text \<open>
  The forms that edit the catalog (\<^verbatim>\<open>app/admin_ui.py\<close>, from \<open>admin_create_app\<close> to
  \<open>admin_auto_generate\<close>). Each calls one operation of the catalog service, which commits on its
  own, and then writes the audit row in the request's transaction. What the public endpoint
  serves stays current through any mix of forms and reads.
\<close>

section \<open>Shared steps\<close>

definition opt_form :: "string \<Rightarrow> string option" where
  "opt_form s = (if s = [] then None else Some s)"

text \<open>The audit row and the redirect with which every form ends.\<close>

definition form_done ::
  "ui_world \<Rightarrow> instant \<Rightarrow> request \<Rightarrow> string \<Rightarrow> string \<Rightarrow> string \<Rightarrow> string option \<Rightarrow> json option \<Rightarrow> string \<Rightarrow> string \<Rightarrow> string
     \<Rightarrow> ui_response handler" where
  "form_done w now req username action rtype rid detail url kind message st =
     (let (acct, st1) = admin_account w now username st in
      (Inr (flash_to w now url kind message),
       emit (uw_env w) now (Some acct) action (Some req) (Some rtype) rid detail st1))"

definition app_url :: "string \<Rightarrow> string" where
  "app_url aid = ''/admin/apps/'' @ aid"

definition unknown_app :: "string \<Rightarrow> exn" where
  "unknown_app aid = HTTPException 404 (''Unknown app '' @ CHR 0x27 # aid @ [CHR 0x27])"

section \<open>Applications\<close>

definition admin_create_app ::
  "ui_world \<Rightarrow> instant \<Rightarrow> request \<Rightarrow> string \<Rightarrow> string \<Rightarrow> string \<Rightarrow> string \<Rightarrow> string \<Rightarrow> string \<Rightarrow> string \<Rightarrow> ui_response handler" where
  "admin_create_app w now req aid display_name category description homepage license username st =
     (case create_app now aid display_name category description (opt_form homepage) (opt_form license) st of
        (Inl (ValueError m), st1) \<Rightarrow> (Inr (flash_to w now ''/admin/new'' ''error'' m), st1)
      | (Inl e, st1) \<Rightarrow> (Inl e, st1)
      | (Inr row, st1) \<Rightarrow>
        form_done w now req username ''app.created'' ''app'' (Some (app_id row))
          (Some (JObj [(''display_name'', JStr (app_display_name row)), (''category'', JStr (app_category row))]))
          (app_url (app_id row)) ''success'' (''Created '' @ app_id row) st1)"

definition app_fields :: "app_row \<Rightarrow> (string \<times> json) list" where
  "app_fields a =
     [(''display_name'', JStr (app_display_name a)), (''category'', JStr (app_category a)),
      (''description'', JStr (app_description a)), (''homepage'', jopt_str (app_homepage a)),
      (''license'', jopt_str (app_license a))]"

definition fields_changed :: "(string \<times> json) list \<Rightarrow> (string \<times> json) list \<Rightarrow> (string \<times> json) list" where
  "fields_changed before after =
     map (\<lambda>((k, old), (_, new)). (k, JObj [(''from'', old), (''to'', new)])) (filter (\<lambda>((_, old), (_, new)). old \<noteq> new) (zip before after))"

definition admin_save_app ::
  "ui_world \<Rightarrow> instant \<Rightarrow> request \<Rightarrow> string \<Rightarrow> string \<Rightarrow> string \<Rightarrow> string \<Rightarrow> string \<Rightarrow> string \<Rightarrow> string \<Rightarrow> ui_response handler" where
  "admin_save_app w now req aid display_name category description homepage license username st =
     (let before = get_app (db st) aid in
      case update_app now aid (Some display_name) (Some category) (Some description) (Some homepage) (Some license) st of
        (Inl e, st1) \<Rightarrow> (Inl e, st1)
      | (Inr None, st1) \<Rightarrow> (Inl (unknown_app aid), st1)
      | (Inr (Some row), st1) \<Rightarrow>
        (let changed = fields_changed (case before of Some b \<Rightarrow> app_fields b | None \<Rightarrow> map (\<lambda>(k, _). (k, JNull)) (app_fields row)) (app_fields row) in
         if changed = [] then (Inr (flash_to w now (app_url (app_id row)) ''success'' ''Saved''), st1)
         else form_done w now req username ''app.updated'' ''app'' (Some (app_id row)) (Some (JObj [(''changed'', JObj changed)]))
                (app_url (app_id row)) ''success'' ''Saved'' st1))"

definition admin_delete_app :: "ui_world \<Rightarrow> instant \<Rightarrow> request \<Rightarrow> string \<Rightarrow> string \<Rightarrow> ui_response handler" where
  "admin_delete_app w now req aid username st =
     (let display_name = map_option app_display_name (get_app (db st) aid) in
      case delete_app aid st of
        (Inl e, st1) \<Rightarrow> (Inl e, st1)
      | (Inr _, st1) \<Rightarrow>
        form_done w now req username ''app.deleted'' ''app'' (Some aid)
          (if truthy display_name then Some (JObj [(''display_name'', jopt_str display_name)]) else None)
          ''/admin'' ''success'' (''Deleted '' @ aid) st1)"

section \<open>Releases and downloads\<close>

definition admin_add_release ::
  "ui_world \<Rightarrow> instant \<Rightarrow> request \<Rightarrow> string \<Rightarrow> string \<Rightarrow> string \<Rightarrow> string \<Rightarrow> string \<Rightarrow> ui_response handler" where
  "admin_add_release w now req aid version channel released username st =
     (case add_release (uw_env w) now aid version [] channel (opt_form released) st of
        (Inl e, st1) \<Rightarrow> (Inl e, st1)
      | (Inr None, st1) \<Rightarrow> (Inl (unknown_app aid), st1)
      | (Inr (Some r), st1) \<Rightarrow>
        form_done w now req username ''release.created'' ''release'' (Some (show_int (rel_id r)))
          (Some (JObj [(''app_id'', JStr aid), (''version'', JStr version), (''channel'', JStr channel)]))
          (app_url aid) ''success'' (''Added '' @ version) st1)"

definition back_url :: "string option \<Rightarrow> string" where
  "back_url aid = (case aid of Some a \<Rightarrow> if a = [] then ''/admin'' else app_url a | None \<Rightarrow> ''/admin'')"

definition admin_delete_release :: "ui_world \<Rightarrow> instant \<Rightarrow> request \<Rightarrow> int \<Rightarrow> string \<Rightarrow> ui_response handler" where
  "admin_delete_release w now req rid username st =
     (let rel = row_get rel_id rid (releases (db st)); aid = map_option rel_app_id rel in
      case delete_release rid st of
        (Inl e, st1) \<Rightarrow> (Inl e, st1)
      | (Inr _, st1) \<Rightarrow>
        form_done w now req username ''release.deleted'' ''release'' (Some (show_int rid))
          (Some (JObj [(''app_id'', jopt_str aid), (''version'', jopt_str (map_option rel_version rel)),
             (''channel'', jopt_str (map_option rel_channel rel))]))
          (back_url aid) ''success'' ''Release removed'' st1)"

definition admin_add_download ::
  "ui_world \<Rightarrow> instant \<Rightarrow> request \<Rightarrow> int \<Rightarrow> string \<Rightarrow> string \<Rightarrow> string \<Rightarrow> string \<Rightarrow> string \<Rightarrow> string \<Rightarrow> ui_response handler" where
  "admin_add_download w now req rid url os arch archive_type source username st =
     (case row_get rel_id rid (releases (db st)) of
        None \<Rightarrow> (Inl (HTTPException 404 ''Unknown release''), st)
      | Some rel \<Rightarrow>
        (case add_download (uw_env w) rid url os arch archive_type source None st of
           (Inl e, st1) \<Rightarrow> (Inl e, st1)
         | (Inr dl, st1) \<Rightarrow>
           form_done w now req username ''download.added'' ''download'' (map_option (\<lambda>x. show_int (dl_id x)) dl)
             (Some (JObj [(''release_id'', JInt rid), (''app_id'', JStr (rel_app_id rel)), (''version'', JStr (rel_version rel)),
                (''os'', JStr os), (''arch'', JStr arch), (''url'', JStr url)]))
             (app_url (rel_app_id rel)) ''success'' ''Download added'' st1))"

definition admin_delete_download :: "ui_world \<Rightarrow> instant \<Rightarrow> request \<Rightarrow> int \<Rightarrow> string \<Rightarrow> ui_response handler" where
  "admin_delete_download w now req did username st =
     (let dl = row_get dl_id did (downloads (db st));
          rel = (case dl of None \<Rightarrow> None | Some x \<Rightarrow> row_get rel_id (dl_release_id x) (releases (db st)));
          aid = map_option rel_app_id rel;
          detail = map_option (\<lambda>x. JObj [(''release_id'', JInt (dl_release_id x)), (''app_id'', jopt_str aid),
             (''version'', jopt_str (map_option rel_version rel)), (''os'', JStr (dl_os x)), (''arch'', JStr (dl_arch x)),
             (''url'', JStr (dl_url x))]) dl
      in case delete_download did st of
        (Inl e, st1) \<Rightarrow> (Inl e, st1)
      | (Inr _, st1) \<Rightarrow>
        form_done w now req username ''download.deleted'' ''download'' (Some (show_int did)) detail
          (back_url aid) ''success'' ''Download removed'' st1)"

section \<open>Generation on demand\<close>

text \<open>\<open>None\<close> where a scraper does not return.\<close>

definition admin_auto_generate ::
  "ui_world \<Rightarrow> web \<Rightarrow> instant \<Rightarrow> request \<Rightarrow> string \<Rightarrow> int \<Rightarrow> string \<Rightarrow> app_state \<Rightarrow> ((exn + ui_response) \<times> app_state) option" where
  "admin_auto_generate w web now req aid limit username st =
     (if get_app (db st) aid = None then Some (Inl (unknown_app aid), st)
      else if map_of GENERATORS (py_lower aid) = None
      then Some (Inr (flash_to w now (app_url aid) ''error'' (''No generator for '' @ CHR 0x27 # aid @ [CHR 0x27])), st)
      else (case run_generator web aid limit of None \<Rightarrow> None
        | Some primary \<Rightarrow>
          (case generate_from_binaries_repo web aid 100 of None \<Rightarrow> None
           | Some (Inl e) \<Rightarrow> Some (Inl e, st)
           | Some (Inr fallback) \<Rightarrow>
             (let found = primary @ fallback in
              case apply_generated_releases (uw_env w) web now aid found False True st of
                (Inl e, st1) \<Rightarrow> Some (Inl e, st1)
              | (Inr n, st1) \<Rightarrow>
                Some (form_done w now req username ''app.auto_generated'' ''app'' (Some aid)
                  (Some (JObj [(''limit'', JInt limit), (''scraped'', JInt (int (length found))), (''inserted'', JInt (int n))]))
                  (app_url aid) (if n \<noteq> 0 then ''success'' else ''info'')
                  (''Auto-generated: '' @ show_nat n @ '' new release(s) from '' @ show_nat (length found) @ '' scraped'') st1)))))"

section \<open>The forms as one system\<close>

datatype catalog_form =
    New_app string string string string string string
  | Edit_app string string string string string string
  | Remove_app string
  | New_release string string string string
  | Remove_release int
  | New_download int string string string string string
  | Remove_download int
  | Generate string int

text \<open>A form whose scraper does not return leaves the request open: nothing happens.\<close>

fun serve_catalog_form :: "ui_world \<Rightarrow> web \<Rightarrow> instant \<Rightarrow> request \<Rightarrow> catalog_form \<Rightarrow> string \<Rightarrow> ui_response handler" where
  "serve_catalog_form w web now req (New_app a dn c ds h l) u st = admin_create_app w now req a dn c ds h l u st"
| "serve_catalog_form w web now req (Edit_app a dn c ds h l) u st = admin_save_app w now req a dn c ds h l u st"
| "serve_catalog_form w web now req (Remove_app a) u st = admin_delete_app w now req a u st"
| "serve_catalog_form w web now req (New_release a v c at) u st = admin_add_release w now req a v c at u st"
| "serve_catalog_form w web now req (Remove_release i) u st = admin_delete_release w now req i u st"
| "serve_catalog_form w web now req (New_download i url os ar ty s) u st = admin_add_download w now req i url os ar ty s u st"
| "serve_catalog_form w web now req (Remove_download i) u st = admin_delete_download w now req i u st"
| "serve_catalog_form w web now req (Generate a limit) u st =
     (case admin_auto_generate w web now req a limit u st of Some x \<Rightarrow> x | None \<Rightarrow> (Inl (PyError ''open''), st))"

inductive form_step :: "ui_world \<Rightarrow> catalog_lib \<Rightarrow> app_state \<Rightarrow> app_state \<Rightarrow> bool" for w cl where
  posted: "form_step w cl st (snd (admin_post w now req cookie ct cc (serve_catalog_form w web now req f) st))"
| read_page: "form_step w cl st (snd (get_session (api_get_catalog cl (uw_env w) t now inm) st))"

section \<open>The served page stays current\<close>

definition cat_tables :: "database \<Rightarrow> app_row list \<times> release_row list \<times> download_row list" where
  "cat_tables d = (apps d, releases d, downloads d)"

text \<open>The tables are consistent and committed as far as the catalog goes, and the cached page shows them.\<close>

definition forms_ok :: "catalog_lib \<Rightarrow> app_state \<Rightarrow> bool" where
  "forms_ok cl st \<longleftrightarrow> catalog_inv (db st) \<and> page_current cl st \<and> cat_tables (committed st) = cat_tables (db st)"

lemma same_catalog:
  assumes "cat_tables d' = cat_tables d"
  shows "catalog_inv d' = catalog_inv d" and "catalog_apps d' = catalog_apps d"
proof -
  have t: "apps d' = apps d" "releases d' = releases d" "downloads d' = downloads d" using assms by (simp_all add: cat_tables_def)
  then show "catalog_inv d' = catalog_inv d" by (simp add: catalog_inv_def)
  have rs: "release_to_schema d' aid = release_to_schema d aid" for aid
    using t by (simp add: fun_eq_iff release_to_schema_def rel_downloads_def)
  have "app_to_schema d' = app_to_schema d" by (rule ext) (simp add: app_to_schema_def app_releases_def rs t)
  with t show "catalog_apps d' = catalog_apps d" by (simp add: catalog_apps_def)
qed

lemma forms_ok_same:
  assumes "forms_ok cl st" "cat_tables (db st') = cat_tables (db st)" "catalog_cache st' = catalog_cache st"
    and "committed st' = committed st \<or> committed st' = db st'"
  shows "forms_ok cl st'"
  using assms same_catalog [OF assms(2)] by (auto simp: forms_ok_def page_current_def)

lemma forms_ok_kept: "forms_ok cl st \<Longrightarrow> kept cl st st' \<Longrightarrow> forms_ok cl st'"
  by (auto simp: kept_def forms_ok_def catalog_ok_def)

lemma emit_cache: "catalog_cache (emit env now a act rq rt rid d st) = catalog_cache st"
  by (simp add: emit_def Let_def fire_def inc_security_event_def split: prod.splits option.splits)

lemma form_done_ok: "forms_ok cl st \<Longrightarrow> forms_ok cl (snd (form_done w now req u a t i d url k m st))"
proof -
  assume ok: "forms_ok cl st"
  obtain acct st1 where a: "admin_account w now u st = (acct, st1)" by fastforce
  then have "cat_tables (db st1) = cat_tables (db st) \<and> catalog_cache st1 = catalog_cache st \<and> committed st1 = committed st"
    by (auto simp: admin_account_def cat_tables_def Let_def split: option.splits)
  then have "forms_ok cl st1" using forms_ok_same [OF ok] by blast
  then show ?thesis
    using a forms_ok_same [of cl st1 "emit env n ac act rq rt rid dt st1" for env n ac act rq rt rid dt]
    by (simp add: form_done_def emit_cache db_emit cat_tables_def)
qed


lemma operation_ok:
  assumes "forms_ok cl st" "fresh_alloc (env_alloc env)" "void x = catalog_serve cl env web now c st" "x = (r, st1)"
  shows "forms_ok cl st1"
proof -
  obtain r' where "catalog_serve cl env web now c st = (r', st1)" using assms(3,4) by (cases r) (simp_all add: void_def, metis+)
  then show ?thesis
    using catalog_serve_kept [OF _ _ assms(2)] assms(1) forms_ok_kept [OF assms(1)] by (auto simp: forms_ok_def)
qed

lemma operations_ok:
  assumes "forms_ok cl st" "fresh_alloc (env_alloc env)"
  shows "create_app now a dn c ds h l st = (r1, st1) \<Longrightarrow> forms_ok cl st1"
    and "update_app now a dn' c' ds' h l st = (r2, st1) \<Longrightarrow> forms_ok cl st1"
    and "delete_app a st = (r3, st1) \<Longrightarrow> forms_ok cl st1"
    and "add_release env now a v mm ch at st = (r4, st1) \<Longrightarrow> forms_ok cl st1"
    and "delete_release i st = (r5, st1) \<Longrightarrow> forms_ok cl st1"
    and "add_download env i url os ar ty so hs st = (r6, st1) \<Longrightarrow> forms_ok cl st1"
    and "delete_download i st = (r7, st1) \<Longrightarrow> forms_ok cl st1"
    and "apply_generated_releases env web now a gens rep heal st = (r8, st1) \<Longrightarrow> forms_ok cl st1"
proof -
  note op = operation_ok [OF assms]
  show "create_app now a dn c ds h l st = (r1, st1) \<Longrightarrow> forms_ok cl st1"
    by (rule op [where c = "CreateApp a dn c ds h l"]) (rule catalog_serve.simps [symmetric])
  show "update_app now a dn' c' ds' h l st = (r2, st1) \<Longrightarrow> forms_ok cl st1"
    by (rule op [where c = "UpdateApp a dn' c' ds' h l"]) (rule catalog_serve.simps [symmetric])
  show "delete_app a st = (r3, st1) \<Longrightarrow> forms_ok cl st1"
    by (rule op [where c = "DeleteApp a"]) (rule catalog_serve.simps [symmetric])
  show "add_release env now a v mm ch at st = (r4, st1) \<Longrightarrow> forms_ok cl st1"
    by (rule op [where c = "AddRelease a v mm ch at"]) (rule catalog_serve.simps [symmetric])
  show "delete_release i st = (r5, st1) \<Longrightarrow> forms_ok cl st1"
    by (rule op [where c = "DeleteRelease i"]) (rule catalog_serve.simps [symmetric])
  show "add_download env i url os ar ty so hs st = (r6, st1) \<Longrightarrow> forms_ok cl st1"
    by (rule op [where c = "AddDownload i url os ar ty so hs"]) (rule catalog_serve.simps [symmetric])
  show "delete_download i st = (r7, st1) \<Longrightarrow> forms_ok cl st1"
    by (rule op [where c = "DeleteDownload i"]) (rule catalog_serve.simps [symmetric])
  show "apply_generated_releases env web now a gens rep heal st = (r8, st1) \<Longrightarrow> forms_ok cl st1"
    by (rule op [where c = "ApplyGenerated a gens rep heal"]) (rule catalog_serve.simps [symmetric])
qed

lemma generate_ok:
  assumes ok: "forms_ok cl st" and alloc: "fresh_alloc (env_alloc (uw_env w))"
    and run: "admin_auto_generate w web now req a limit u st = Some x"
  shows "forms_ok cl (snd x)"
proof (cases "get_app (db st) a = None \<or> map_of GENERATORS (py_lower a) = None")
  case True
  then show ?thesis using run ok by (cases "get_app (db st) a") (auto simp: admin_auto_generate_def)
next
  case False
  then obtain y z where yz: "get_app (db st) a = Some y" "map_of GENERATORS (py_lower a) = Some z" by auto
  with run obtain primary r where pr: "run_generator web a limit = Some primary" "generate_from_binaries_repo web a 100 = Some r"
    by (auto simp: admin_auto_generate_def split: option.splits)
  show ?thesis
  proof (cases r)
    case (Inl e)
    with run yz pr ok show ?thesis by (auto simp: admin_auto_generate_def)
  next
    case (Inr fallback)
    obtain n st1 where ap: "apply_generated_releases (uw_env w) web now a (primary @ fallback) False True st = (n, st1)" by fastforce
    then show ?thesis using run yz pr Inr operations_ok(8) [OF ok alloc ap] form_done_ok
      by (cases n) (auto simp: admin_auto_generate_def Let_def)
  qed
qed

lemma serve_form_ok:
  assumes ok: "forms_ok cl st" and alloc: "fresh_alloc (env_alloc (uw_env w))"
  shows "forms_ok cl (snd (serve_catalog_form w web now req f u st))"
proof -
  note ops = operations_ok [OF ok alloc] and fin = form_done_ok
  show ?thesis
  proof (cases f)
    case (New_app a dn c ds h l)
    obtain r st1 where x: "create_app now a dn c ds (opt_form h) (opt_form l) st = (r, st1)" by fastforce
    then show ?thesis using ops(1) [OF x] fin
      by (cases r) (auto simp: New_app admin_create_app_def split: exn.split)
  next
    case (Edit_app a dn c ds h l)
    obtain r st1 where x: "update_app now a (Some dn) (Some c) (Some ds) (Some h) (Some l) st = (r, st1)" by fastforce
    then show ?thesis using ops(2) [OF x] fin
      by (cases r) (auto simp: Edit_app admin_save_app_def Let_def split: option.split)
  next
    case (Remove_app a)
    obtain r st1 where x: "delete_app a st = (r, st1)" by fastforce
    then show ?thesis using ops(3) [OF x] fin by (cases r) (auto simp: Remove_app admin_delete_app_def Let_def)
  next
    case (New_release a v c at)
    obtain r st1 where x: "add_release (uw_env w) now a v [] c (opt_form at) st = (r, st1)" by fastforce
    then show ?thesis using ops(4) [OF x] fin
      by (cases r) (auto simp: New_release admin_add_release_def split: option.split)
  next
    case (Remove_release i)
    obtain r st1 where x: "delete_release i st = (r, st1)" by fastforce
    then show ?thesis using ops(5) [OF x] fin by (cases r) (auto simp: Remove_release admin_delete_release_def Let_def)
  next
    case (New_download i url os ar ty s)
    obtain r st1 where x: "add_download (uw_env w) i url os ar ty s None st = (r, st1)" by fastforce
    then show ?thesis using ops(6) [OF x] fin ok
      by (cases r) (auto simp: New_download admin_add_download_def split: option.split)
  next
    case (Remove_download i)
    obtain r st1 where x: "delete_download i st = (r, st1)" by fastforce
    then show ?thesis using ops(7) [OF x] fin by (cases r) (auto simp: Remove_download admin_delete_download_def Let_def)
  next
    case (Generate a limit)
    show ?thesis
    proof (cases "admin_auto_generate w web now req a limit u st")
      case None
      with ok show ?thesis by (simp add: Generate)
    next
      case (Some x)
      then show ?thesis using generate_ok [OF ok alloc Some] by (simp add: Generate)
    qed
  qed
qed

lemma current_user_catalog:
  "cat_tables (db (snd (current_user cfg env now req cookie st))) = cat_tables (db st)
   \<and> catalog_cache (snd (current_user cfg env now req cookie st)) = catalog_cache st
   \<and> committed (snd (current_user cfg env now req cookie st)) = committed st"
  by (auto simp: current_user_def touch_session_def track_session_def cat_tables_def Let_def split: sum.splits option.splits if_splits)

lemma session_ok_forms:
  assumes "forms_ok cl st1" "h st = (r, st1)"
  shows "forms_ok cl (snd (get_session h st))"
proof (cases r)
  case (Inl e)
  have "forms_ok cl (rollback st1)"
    by (rule forms_ok_same [OF assms(1)]) (use assms(1) in \<open>simp_all add: rollback_def forms_ok_def\<close>)
  with Inl assms(2) show ?thesis by (simp add: get_session_def)
next
  case (Inr x)
  have "forms_ok cl (commit st1)" by (rule forms_ok_same [OF assms(1)]) (simp_all add: commit_def)
  with Inr assms(2) show ?thesis by (simp add: get_session_def)
qed

lemma form_step_ok:
  assumes "fresh_alloc (env_alloc (uw_env w))" "forms_ok cl st" "form_step w cl st st'"
  shows "forms_ok cl st'"
  using assms(3)
proof cases
  case (posted now req cookie ct cc web f)
  let ?h = "\<lambda>st. case require_csrf (req_method req) ct cc of Some e \<Rightarrow> (Inl e, st)
       | None \<Rightarrow> (case current_user (uw_cfg w) (uw_env w) now req cookie st of
            (Inl e, st1) \<Rightarrow> (Inl e, st1) | (Inr username, st1) \<Rightarrow> serve_catalog_form w web now req f username st1)"
  obtain c st1 where cu: "current_user (uw_cfg w) (uw_env w) now req cookie st = (c, st1)" by fastforce
  then have ok1: "forms_ok cl st1"
    using forms_ok_same [OF assms(2)] current_user_catalog [of "uw_cfg w" "uw_env w" now req cookie st] by simp
  obtain r st2 where h: "?h st = (r, st2)" by fastforce
  have served: "serve_catalog_form w web now req f u st1 = (r, st2) \<Longrightarrow> forms_ok cl st2" for u
    using serve_form_ok [OF ok1 assms(1)] by (metis snd_conv)
  have "forms_ok cl st2"
  proof (cases "require_csrf (req_method req) ct cc")
    case None
    with h cu ok1 served show ?thesis by (cases c) simp_all
  next
    case (Some e)
    with h assms(2) show ?thesis by simp
  qed
  then show ?thesis unfolding posted admin_post_def by (rule session_ok_forms [where h = ?h and st = st, OF _ h])
next
  case (read_page t now inm)
  obtain r st1 where h: "api_get_catalog cl (uw_env w) t now inm st = (r, st1)" by fastforce
  have "forms_ok cl st1"
    by (rule forms_ok_kept [OF assms(2) get_catalog_kept [OF _ h]]) (use assms(2) in \<open>simp add: forms_ok_def\<close>)
  then show ?thesis unfolding read_page by (rule session_ok_forms [where h = "api_get_catalog cl (uw_env w) t now inm" and st = st, OF _ h])
qed

text \<open>The contract holds for every world whose database allocates fresh identifiers.\<close>

definition fresh_forms_ok :: "ui_world \<Rightarrow> catalog_lib \<Rightarrow> app_state \<Rightarrow> bool" where
  "fresh_forms_ok w cl st \<longleftrightarrow> fresh_alloc (env_alloc (uw_env w)) \<and> forms_ok cl st"

interpretation forms: inv_system "form_step w cl" "fresh_forms_ok w cl" for w cl
  by unfold_locales (auto simp: fresh_forms_ok_def intro: form_step_ok)

text \<open>
  C36: The public catalog follows the administrators' forms. After any sequence of catalog forms,
  accepted or refused, signed in or not, and of reads of the endpoint, the endpoint answers with
  the content of the tables as the forms left them: its ETag is the digest of that content, a
  client that presents it gets 304 without a body, any other gets 200 with the rendered
  content; and what the forms stored is committed.
\<close>
theorem forms_served_current:
  assumes "fresh_alloc (env_alloc (uw_env w))" "forms_ok cl st0" "(form_step w cl)\<^sup>*\<^sup>* st0 st"
    and "catalog_apps (db st) = Inr docs"
  shows "cat_tables (committed st) = cat_tables (db st) \<and> catalog_inv (db st) \<and>
    (\<exists>gen st'. let doc = \<lparr>cd_schema_version = ''1'', cd_generated_at = gen, cd_apps = docs\<rparr> in
      api_get_catalog cl env t now inm st =
        (Inr (if inm = Some (etag_of cl doc) then \<lparr>cr_status = 304, cr_etag = etag_of cl doc, cr_body = None\<rparr>
              else \<lparr>cr_status = 200, cr_etag = etag_of cl doc, cr_body = Some (cl_dump cl doc)\<rparr>), st') \<and>
      db st' = db st)"
proof -
  have "fresh_forms_ok w cl st"
    by (rule forms.reach_inv [OF assms(3)]) (simp add: fresh_forms_ok_def assms(1,2))
  then have ok: "catalog_inv (db st)" "page_current cl st" "cat_tables (committed st) = cat_tables (db st)"
    by (simp_all add: fresh_forms_ok_def forms_ok_def)
  from served_current [OF ok(2) assms(4)] ok(1,3) show ?thesis by blast
qed


text \<open>A signed-in administrator adds an application to an empty catalog.\<close>
theorem forms_served_current_witness:
  "\<exists>st docs. (form_step demo_world demo_catalog_lib)\<^sup>*\<^sup>* demo_guard st \<and> map fst docs = [''redis''] \<and>
    (\<exists>gen st'. api_get_catalog demo_catalog_lib demo_env 5 5 None st =
      (Inr \<lparr>cr_status = 200,
          cr_etag = etag_of demo_catalog_lib \<lparr>cd_schema_version = ''1'', cd_generated_at = gen, cd_apps = docs\<rparr>,
          cr_body = Some (cl_dump demo_catalog_lib \<lparr>cd_schema_version = ''1'', cd_generated_at = gen, cd_apps = docs\<rparr>)\<rparr>, st'))"
proof -
  let ?w = demo_world and ?c = "Some ''90;ann|sid''" and ?f = "New_app '' Redis'' [] ''cache'' [] [] []"
  let ?st = "snd (admin_post ?w 100 demo_request ?c (Some ''t'') (Some ''t'')
      (serve_catalog_form ?w \<lparr>web_text = (\<lambda>_. None), web_json = (\<lambda>_. None), web_head = (\<lambda>_. None)\<rparr> 100 demo_request ?f) demo_guard)"
  have w: "uw_cfg ?w = demo_cfg" "uw_env ?w = demo_env" by (simp_all add: demo_world_def)
  have fresh: "fresh_alloc (env_alloc (uw_env ?w))" by (simp add: w demo_env_def fresh_max_alloc)
  have ok: "forms_ok demo_catalog_lib demo_guard"
    by (simp add: forms_ok_def demo_guard_def Let_def catalog_inv_def demo_db_def empty_db_def page_current_def demo_state_def
        new_cache_def pk_def)
  obtain st0 where cu: "current_user demo_cfg demo_env 100 demo_request ?c demo_guard = (Inr ''ann'', st0)" and t: "apps (db st0) = []" "releases (db st0) = []"
    by (simp add: current_user_def demo_cookies touch_session_def demo_guard_def find_session_def demo_session_def
        demo_db_def empty_db_def admin_allowlist_def allowlist_admits_def row_set_def Let_def)
  have csrf: "require_csrf (req_method demo_request) (Some ''t'') (Some ''t'') = None" by code_simp
  define row where "row = \<lparr>app_id = ''redis'', app_display_name = ''redis'', app_category = ''cache'', app_description = [],
     app_homepage = None, app_license = None, app_created_at = 100, app_updated_at = (100 :: int)\<rparr>"
  have strip: "py_lower (py_strip '' Redis'') = ''redis''" by code_simp
  have cr: "create_app 100 '' Redis'' [] ''cache'' [] (opt_form []) (opt_form []) st0 = (Inr row, commit_edit ((db st0)\<lparr>apps := [row]\<rparr>) st0)"
    unfolding create_app_def strip using t by (simp add: Let_def insert_app_def row_get_def row_add_def opt_form_def str_or_def row_def)
  have a: "apps (db (snd (form_done x n rq u ac ty i d url k m st))) = apps (db st)" "releases (db (snd (form_done x n rq u ac ty i d url k m st))) = releases (db st)"
    "\<not> isl (fst (form_done x n rq u ac ty i d url k m st))"
    for x n rq u ac ty i d url k m st
    by (auto simp: form_done_def admin_account_def db_emit Let_def split: prod.splits option.splits)
  have tables: "apps (db ?st) = [row] \<and> releases (db ?st) = []"
  proof -
    let ?g = "admin_create_app ?w 100 demo_request '' Redis'' [] ''cache'' [] [] [] ''ann'' st0"
    have "apps (db (snd ?g)) = [row]" "releases (db (snd ?g)) = []" "\<not> isl (fst ?g)"
      using t by (simp_all add: admin_create_app_def cr a commit_edit_def invalidate_catalog_def commit_def)
    then show ?thesis
      by (cases ?g; cases "fst ?g") (simp_all add: admin_post_def get_session_def csrf w cu commit_def)
  qed
  then have docs: "catalog_apps (db ?st) = Inr [(''redis'', \<lparr>ad_name = ''redis'', ad_display_name = ''redis'', ad_category = ''cache'',
      ad_description = [], ad_homepage = None, ad_license = None, ad_releases = []\<rparr>)]"
    by (simp add: catalog_apps_def app_to_schema_def app_releases_def bind_exn_def row_def str_or_def sort_desc_def)
  have st: "(form_step ?w demo_catalog_lib)\<^sup>*\<^sup>* demo_guard ?st" by (rule r_into_rtranclp) (rule posted)
  from forms_served_current [OF fresh ok st docs, of demo_env 5 5 None] st show ?thesis
    by (intro exI [of _ ?st] exI) (auto simp: Let_def)
qed

section \<open>Deletions of nothing\<close>

text \<open>A form that removes an unknown application is answered as done, and audited as a deletion.\<close>

lemma unknown_app_audited_as_deleted:
  assumes "get_app (db st) aid = None" "admin_account w now username st = (acct, st)"
  shows "\<exists>ev. admin_delete_app w now req aid username st
      = (Inr (flash_to w now ''/admin'' ''success'' (''Deleted '' @ aid)),
         emit (uw_env w) now (Some acct) ''app.deleted'' (Some req) (Some ''app'') (Some aid) None st)
    \<and> audit_events (db (snd (admin_delete_app w now req aid username st))) = audit_events (db st) @ [ev]
    \<and> aud_action ev = ''app.deleted''"
  using assms by (simp add: admin_delete_app_def delete_app_def form_done_def db_emit row_add_def audit_row_def)

end
