(* ===== verification/Admin_User_Forms.thy ===== *)
theory Admin_User_Forms
  imports Admin_Credentials Admin_Users
begin

text \<open>
  The account forms of the admin pages (\<^verbatim>\<open>app/admin_ui.py\<close>, from \<open>admin_change_role\<close> to
  \<open>admin_delete_user\<close>). They change the row directly and share none of the guards and, but for two,
  none of the audit rows of the JSON endpoints in \<open>Admin_Users\<close>.
\<close>

section \<open>The forms\<close>

definition user_url :: "int \<Rightarrow> string" where
  "user_url i = ''/admin/users/'' @ show_int i"

text \<open>\<open>db.get(Account, user_id)\<close> with its 404, and the rest on the row.\<close>

definition on_account :: "int \<Rightarrow> (account \<Rightarrow> 'a handler) \<Rightarrow> 'a handler" where
  "on_account i h st =
     (case row_get acc_id i (accounts (db st)) of None \<Rightarrow> (Inl (HTTPException 404 ''User not found''), st)
      | Some acct \<Rightarrow> h acct st)"

text \<open>\<open>(acct.token_version or 1) + 1\<close>\<close>

definition next_version :: "account \<Rightarrow> int" where
  "next_version a = (if acc_token_version a = 0 then 1 else acc_token_version a) + 1"

definition form_change_role :: "ui_world \<Rightarrow> instant \<Rightarrow> int \<Rightarrow> string \<Rightarrow> string \<Rightarrow> ui_response handler" where
  "form_change_role w now user_id role username =
     on_account user_id (\<lambda>acct st.
       if role_of role = None then (Inr (flash_to w now (user_url user_id) ''error'' (''Unknown role: '' @ role)), st)
       else (Inr (flash_to w now (user_url user_id) ''success'' (''Role -> '' @ role)),
             invalidate_stats (set_account user_id (\<lambda>a. a\<lparr>acc_role := role, acc_token_version := next_version acct\<rparr>) st)))"

definition form_suspend :: "ui_world \<Rightarrow> instant \<Rightarrow> int \<Rightarrow> string \<Rightarrow> ui_response handler" where
  "form_suspend w now user_id username =
     on_account user_id (\<lambda>acct st.
       (Inr (flash_to w now (user_url user_id) ''success'' ''Account suspended''),
        invalidate_stats (set_account user_id
          (\<lambda>a. a\<lparr>acc_suspended_at := Some now, acc_token_version := next_version acct\<rparr>) st)))"

definition form_resume :: "ui_world \<Rightarrow> instant \<Rightarrow> int \<Rightarrow> string \<Rightarrow> ui_response handler" where
  "form_resume w now user_id username =
     on_account user_id (\<lambda>acct st.
       (Inr (flash_to w now (user_url user_id) ''success'' ''Account resumed''),
        invalidate_stats (set_account user_id
          (\<lambda>a. a\<lparr>acc_suspended_at := None, acc_failed_login_count := 0, acc_locked_until := None\<rparr>) st)))"

definition form_unlock ::
  "ui_world \<Rightarrow> instant \<Rightarrow> request \<Rightarrow> int \<Rightarrow> string option \<Rightarrow> string \<Rightarrow> ui_response handler" where
  "form_unlock w now req user_id next_url username =
     on_account user_id (\<lambda>acct st.
       (let was_locked = (acc_locked_until acct \<noteq> None \<or> 0 < acc_failed_login_count acct);
            st1 = set_account user_id (\<lambda>a. a\<lparr>acc_failed_login_count := 0, acc_locked_until := None\<rparr>) st;
            st2 = (if was_locked
                   then emit (uw_env w) now None ''user.unlocked'' (Some req) (Some ''account'') (Some (show_int (acc_id acct)))
                          (Some (JObj [(''email'', JStr (acc_email acct))])) st1
                   else st1);
            target = (case next_url of Some n \<Rightarrow> if prefix ''/admin/'' n then n else user_url user_id | None \<Rightarrow> user_url user_id)
        in (Inr (flash_to w now target ''success'' ''Lockout cleared''), st2)))"

definition user_card :: "environment \<Rightarrow> account \<Rightarrow> json" where
  "user_card env a =
     (let iso = (\<lambda>t. jopt_str (map_option (env_isoformat env) t)) in JObj
      [(''id'', JInt (acc_id a)), (''email'', JStr (acc_email a)), (''role'', JStr (acc_role a)),
       (''suspended'', JBool (acc_suspended_at a \<noteq> None)), (''token_version'', JInt (acc_token_version a)),
       (''failed_login_count'', JInt (acc_failed_login_count a)), (''locked_until'', iso (acc_locked_until a)),
       (''created_at'', iso (Some (acc_created_at a))), (''last_login_at'', iso (acc_last_login_at a)),
       (''device_count'', JInt 0)])"

definition form_reset_password ::
  "ui_world \<Rightarrow> instant \<Rightarrow> string \<Rightarrow> int \<Rightarrow> string \<Rightarrow> ui_response handler" where
  "form_reset_password w now new_pw user_id username =
     on_account user_id (\<lambda>acct st.
       (let f = (\<lambda>a. a\<lparr>acc_password_hash := hashpw (uw_bc w) new_pw (uw_salt w), acc_token_version := next_version acct\<rparr>) in
        (Inr (ui_page 200 ''user_detail.html''
           [(''user'', user_card (uw_env w) (f acct)), (''sessions'', JList []), (''new_password'', JStr new_pw),
            (''roles'', JList (map (\<lambda>r. JStr (role_value r)) all_roles)),
            (''flash'', JObj [(''kind'', JStr ''success''), (''message'', JStr ''Password reset'')])]),
         set_account user_id f st)))"

definition form_revoke_tokens :: "ui_world \<Rightarrow> instant \<Rightarrow> request \<Rightarrow> int \<Rightarrow> string \<Rightarrow> ui_response handler" where
  "form_revoke_tokens w now req user_id username =
     on_account user_id (\<lambda>acct st.
       (let st1 = set_account user_id (\<lambda>a. a\<lparr>acc_token_version := next_version acct\<rparr>) st;
            (actor, st2) = admin_account w now username st1
        in (Inr (flash_to w now (user_url user_id) ''success'' ''All outstanding tokens invalidated''),
            emit (uw_env w) now (Some actor) ''user.tokens_revoked'' (Some req) (Some ''account'') (Some (show_int (acc_id acct)))
              (Some (JObj [(''target_email'', JStr (acc_email acct)), (''token_version_before'', JInt (next_version acct - 1)),
                 (''token_version_after'', JInt (next_version acct))])) st2)))"

definition form_delete_user :: "ui_world \<Rightarrow> instant \<Rightarrow> int \<Rightarrow> string \<Rightarrow> ui_response handler" where
  "form_delete_user w now user_id username =
     on_account user_id (\<lambda>acct st.
       (Inr (flash_to w now ''/admin/users'' ''success'' ''Account deleted''),
        invalidate_stats (st\<lparr>db := delete_account_row user_id (db st)\<rparr>)))"

section \<open>What the forms do\<close>

lemma next_version_grows: "0 \<le> acc_token_version a \<Longrightarrow> acc_token_version a < next_version a"
  by (simp add: next_version_def)

lemma next_version_differs [simp]: "acc_token_version a \<noteq> next_version a"
  by (simp add: next_version_def)

lemma set_account_row:
  assumes "row_get acc_id i (accounts (db st)) = Some a" and "\<And>b. acc_id (f b) = acc_id b"
  shows "row_get acc_id i (accounts (db (set_account i f st))) = Some (f a)"
  using assms row_get_set [of acc_id f i] by simp

lemma on_account_found [simp]:
  "row_get acc_id i (accounts (db st)) = Some a \<Longrightarrow> on_account i h st = h a st"
  by (simp add: on_account_def)

lemma on_account_missing:
  "row_get acc_id i (accounts (db st)) = None
    \<Longrightarrow> on_account i h st = (Inl (HTTPException 404 ''User not found''), st)"
  by (simp add: on_account_def)

text \<open>The row after each form, as a function of the row before.\<close>

datatype user_form = FormRole string | FormSuspend | FormResume | FormReset string

definition user_form_serve :: "ui_world \<Rightarrow> instant \<Rightarrow> int \<Rightarrow> string \<Rightarrow> user_form \<Rightarrow> ui_response handler" where
  "user_form_serve w now i username fm =
     (case fm of FormRole r \<Rightarrow> form_change_role w now i r username
      | FormSuspend \<Rightarrow> form_suspend w now i username
      | FormResume \<Rightarrow> form_resume w now i username
      | FormReset pw \<Rightarrow> form_reset_password w now pw i username)"

primrec form_row :: "ui_world \<Rightarrow> instant \<Rightarrow> user_form \<Rightarrow> account \<Rightarrow> account" where
  "form_row w now (FormRole r) a =
     (if role_of r = None then a else a\<lparr>acc_role := r, acc_token_version := next_version a\<rparr>)"
| "form_row w now FormSuspend a = a\<lparr>acc_suspended_at := Some now, acc_token_version := next_version a\<rparr>"
| "form_row w now FormResume a = a\<lparr>acc_suspended_at := None, acc_failed_login_count := 0, acc_locked_until := None\<rparr>"
| "form_row w now (FormReset pw) a =
     a\<lparr>acc_password_hash := hashpw (uw_bc w) pw (uw_salt w), acc_token_version := next_version a\<rparr>"

lemma user_form_row:
  assumes "row_get acc_id i (accounts (db st)) = Some a"
  shows "row_get acc_id i (accounts (db (snd (user_form_serve w now i username fm st)))) = Some (form_row w now fm a)"
  using assms
  by (cases fm) (auto simp: user_form_serve_def form_change_role_def form_suspend_def form_resume_def
      form_reset_password_def Let_def row_get_set)

text \<open>
  None of the four leaves an audit row, and none asks who the caller is or how many owners
  there are: the JSON endpoints of the same operations do both.
\<close>

lemma user_forms_silent:
  "audit_events (db (snd (user_form_serve w now i username fm st))) = audit_events (db st)"
  by (cases fm; cases "row_get acc_id i (accounts (db st))")
     (auto simp: user_form_serve_def form_change_role_def form_suspend_def form_resume_def
      form_reset_password_def Let_def on_account_missing set_account_def)

text \<open>A form that changes the role, suspends or resets the password ends the sessions of the account.\<close>

lemma user_forms_end_sessions:
  assumes "jwt_ok jl" and "jti \<noteq> []" and "row_get acc_id i (accounts (db st)) = Some a"
    and "fm \<noteq> FormResume" and "\<forall>r. fm = FormRole r \<longrightarrow> role_of r \<noteq> None"
  shows "is_http 401 (fst (jwt_account jl later (create_jwt jl t0 jti i email (acc_token_version a))
           (snd (user_form_serve w now i username fm st))))"
proof -
  define st' where "st' = snd (user_form_serve w now i username fm st)"
  have g: "row_get acc_id i (accounts (db st')) = Some (form_row w now fm a)"
    unfolding st'_def by (rule user_form_row [OF assms(3)])
  have v: "acc_token_version (form_row w now fm a) = next_version a"
    using assms(4,5) by (cases fm) auto
  note iff = jwt_account_iff [OF assms(1,2), where now = later and st = st' and v = "acc_token_version a" and aid = i]
  have "fst (jwt_account jl later (create_jwt jl t0 jti i email (acc_token_version a)) st') \<noteq> Inr b" for b
    using iff [of t0 email b] g v next_version_differs [of a] by auto
  with iff show ?thesis unfolding st'_def [symmetric] by blast
qed

text \<open>
  The invariant of the JSON endpoints (\<open>last_owner_survives\<close>) does not extend to the forms: the
  role form demotes the only owner, whoever asks.
\<close>

lemma role_form_demotes_last_owner:
  "owners_ok (db owner_state) \<and>
   \<not> owners_ok (db (snd (form_change_role w now 1 ''user'' username owner_state)))"
proof -
  have "owners_ok (db owner_state)"
    by (simp add: owner_state_def owners_ok_def owner_count_def count_query_def pk_def)
  moreover have "accounts (db (snd (form_change_role w now 1 ''user'' username owner_state)))
      = [demo_account\<lparr>acc_role := ''user'', acc_token_version := 2\<rparr>]"
    by (simp add: form_change_role_def on_account_def owner_state_def row_get_def row_set_def
        demo_account_def next_version_def role_of_def all_roles_def)
  ultimately show ?thesis by (simp add: owners_ok_def owner_count_def count_query_def demo_account_def)
qed

text \<open>Deleting through the form removes the row, the last owner's too.\<close>

lemma delete_form_removes:
  assumes "row_get acc_id i (accounts (db st)) = Some a"
  shows "row_get acc_id i (accounts (db (snd (form_delete_user w now i username st)))) = None
    \<and> length (audit_events (db (snd (form_delete_user w now i username st)))) = length (audit_events (db st))"
  using assms by (simp add: form_delete_user_def delete_account_row_def row_get_del)

end
