(* ===== verification/Json_Text.thy ===== *)
theory Json_Text
  imports Json_Codec
begin

text \<open>
  \<open>json.dumps\<close> with \<open>ensure_ascii=False\<close>, which keeps every character that is not a control
  character, and the UTF-8 encoding of its text: the form of the files of a backup archive and
  of the plugin catalog.
\<close>

definition raw_escape :: "char \<Rightarrow> string" where
  "raw_escape c = (if char_code c < 32 \<or> c = bslash \<or> c = dquote then json_escape c else [c])"

text \<open>With the separators between items and after a key.\<close>

definition dumps_raw :: "string \<Rightarrow> string \<Rightarrow> json \<Rightarrow> string" where
  "dumps_raw i k j = dumps_gen raw_escape i k j"

definition dumps_raw_str :: "string \<Rightarrow> string" where
  "dumps_raw_str s = dumps_str_gen raw_escape s"

text \<open>With \<open>indent=2\<close>, at a nesting level.\<close>

fun dumps_raw_indent :: "nat \<Rightarrow> json \<Rightarrow> string" where
  "dumps_raw_indent n (JList js) =
     (if js = [] then ''[]''
      else ''['' @ newline_indent (Suc n) @ join_with ('','' @ newline_indent (Suc n)) (map (dumps_raw_indent (Suc n)) js)
           @ newline_indent n @ '']'')"
| "dumps_raw_indent n (JObj kvs) =
     (if kvs = [] then ''{}''
      else ''{'' @ newline_indent (Suc n) @
           join_with ('','' @ newline_indent (Suc n))
             (map (\<lambda>(x, v). dumps_raw_str x @ '': '' @ dumps_raw_indent (Suc n) v) kvs)
           @ newline_indent n @ ''}'')"
| "dumps_raw_indent n JNull = ''null''"
| "dumps_raw_indent n (JBool b) = (if b then ''true'' else ''false'')"
| "dumps_raw_indent n (JInt i) = show_int i"
| "dumps_raw_indent n (JReal r) = r"
| "dumps_raw_indent n (JStr s) = dumps_raw_str s"

definition utf8_char :: "char \<Rightarrow> bytes" where
  "utf8_char c = (let n = char_code c in
     if n < 128 then [of_nat n] else [of_nat (192 + n div 64), of_nat (128 + n mod 64)])"

definition utf8_encode :: "string \<Rightarrow> bytes" where
  "utf8_encode s = concat (map utf8_char s)"

lemma utf8_encode_ascii: "\<forall>c \<in> set s. char_code c < 128 \<Longrightarrow> utf8_encode s = ascii_encode s"
  by (induction s) (simp_all add: utf8_encode_def ascii_encode_def utf8_char_def Let_def)

lemma parse_raw_escape: "parse_str (raw_escape c @ r) = consc c (parse_str r)"
  by (cases "char_code c < 32 \<or> c = bslash \<or> c = dquote") (auto simp: raw_escape_def parse_escape)

interpretation compact_raw: json_printer raw_escape "'',''" "'':''"
  by unfold_locales (simp_all add: parse_raw_escape)

lemma loads_dumps_raw: "json_wf j \<Longrightarrow> loads (dumps_raw '','' '':'' j) = Some j"
  unfolding dumps_raw_def by (rule compact_raw.loads_printed)

section \<open>Printing a Python value\<close>

definition squote :: char where "squote = char_of (39 :: nat)"

text \<open>
  \<open>str\<close> of a decoded JSON value. A string is itself; a container prints the \<open>repr\<close> of what it
  holds.
\<close>

definition repr_char :: "char \<Rightarrow> char \<Rightarrow> string" where
  "repr_char q c =
     (let n = char_code c in
      if c = q \<or> c = bslash then [bslash, c]
      else if n = 10 then [bslash, CHR ''n''] else if n = 13 then [bslash, CHR ''r''] else if n = 9 then [bslash, CHR ''t'']
      else if n < 32 \<or> 127 \<le> n \<and> n \<le> 160 \<or> n = 173 then [bslash, CHR ''x'', hex_digit (n div 16), hex_digit (n mod 16)]
      else [c])"

definition repr_str :: "string \<Rightarrow> string" where
  "repr_str s =
     (let q = (if squote \<in> set s \<and> dquote \<notin> set s then dquote else squote)
      in q # concat (map (repr_char q) s) @ [q])"

fun py_repr :: "json \<Rightarrow> string" where
  "py_repr JNull = ''None''"
| "py_repr (JBool b) = (if b then ''True'' else ''False'')"
| "py_repr (JInt i) = show_int i"
| "py_repr (JReal r) = r"
| "py_repr (JStr s) = repr_str s"
| "py_repr (JList js) = ''['' @ join_with '', '' (map py_repr js) @ '']''"
| "py_repr (JObj kvs) = ''{'' @ join_with '', '' (map (\<lambda>(k, v). repr_str k @ '': '' @ py_repr v) kvs) @ ''}''"

definition py_str :: "json \<Rightarrow> string" where
  "py_str j = (case j of JStr s \<Rightarrow> s | _ \<Rightarrow> py_repr j)"

end
