(* ===== verification/Admin_Devices.thy ===== *)
theory Admin_Devices
  imports Store_Guarantees Admin_Account Json_Text
begin

text \<open>
  The device pages of the admin UI (\<^verbatim>\<open>app/admin_ui.py\<close>, from \<open>admin_devices_list\<close> to
  \<open>admin_snapshot_detail\<close>, the import, compare and export pages, \<open>admin_device_detail\<close> and
  \<open>admin_device_delete\<close>): what they show and to whom, and the three forms that change the
  snapshot store. \<open>ui_world\<close> and \<open>services\<close> are the two sides of the same process; the instant
  is that of \<open>services\<close>. The text of an exception (\<open>str(exc)\<close>) is the parameter \<open>es\<close>.
\<close>

section \<open>Parts\<close>

definition device_url :: "string \<Rightarrow> string \<Rightarrow> string" where
  "device_url dev page = ''/admin/devices/'' @ dev @ page"

text \<open>\<open>_admin_account\<close> and \<open>normalize_device_id\<close>, which every page runs first.\<close>

definition on_device :: "ui_world \<Rightarrow> services \<Rightarrow> string \<Rightarrow> string \<Rightarrow> (account \<Rightarrow> string \<Rightarrow> 'a handler) \<Rightarrow> 'a handler" where
  "on_device w sv username device_id h st =
     (let (acct, st0) = admin_account w (sv_now sv) username st in
      case normalize_device_id device_id of Inl e \<Rightarrow> (Inl e, st0) | Inr dev \<Rightarrow> h acct dev st0)"

definition own_device_or_404 :: "account \<Rightarrow> string \<Rightarrow> (device_config \<Rightarrow> 'a handler) \<Rightarrow> 'a handler" where
  "own_device_or_404 acct dev h st =
     (case own_device (db st) acct dev of None \<Rightarrow> (Inl (not_found ''Device not found''), st) | Some row \<Rightarrow> h row st)"

definition flash_entry :: "ui_world \<Rightarrow> services \<Rightarrow> string option \<Rightarrow> string \<times> json" where
  "flash_entry w sv flash =
     (''flash'', case pop_flash (uw_cfg w) (sv_now sv) flash of None \<Rightarrow> JNull
       | Some (kind, message) \<Rightarrow> JObj [(''kind'', JStr kind), (''message'', JStr message)])"

definition page_of :: "ui_world \<Rightarrow> services \<Rightarrow> string option \<Rightarrow> string \<Rightarrow> (string \<times> json) list \<Rightarrow> ui_response" where
  "page_of w sv flash template ctx = (ui_page 200 template (ctx @ [flash_entry w sv flash]))\<lparr>ui_deleted := [''flash'']\<rparr>"

abbreviation sv_iso :: "services \<Rightarrow> instant \<Rightarrow> string" where
  "sv_iso sv \<equiv> env_isoformat (sv_env sv)"

definition opt_json :: "json option \<Rightarrow> json" where
  "opt_json j = (case j of None \<Rightarrow> JNull | Some v \<Rightarrow> v)"

text \<open>\<open>json.dumps(x, indent=2, sort_keys=True, ensure_ascii=False)\<close>\<close>

definition pretty :: "json \<Rightarrow> string" where
  "pretty j = dumps_raw_indent 0 (norm_json j)"

section \<open>Lists\<close>

text \<open>\<open>acct.role == "admin"\<close> sees every device, everybody else the own ones.\<close>

definition visible_device :: "account \<Rightarrow> device_config \<Rightarrow> bool" where
  "visible_device acct r \<longleftrightarrow> acc_role acct = ''admin'' \<or> dev_user_id r = Some (acc_id acct)"

definition owner_email :: "database \<Rightarrow> int option \<Rightarrow> json" where
  "owner_email d user_id =
     (case user_id of None \<Rightarrow> JNull
      | Some i \<Rightarrow> (case row_get acc_id i (accounts d) of None \<Rightarrow> JNull | Some a \<Rightarrow> JStr (acc_email a)))"

definition device_card :: "services \<Rightarrow> database \<Rightarrow> device_config \<Rightarrow> json" where
  "device_card sv d r = JObj
     [(''device_id'', JStr (dev_device_id r)), (''name'', opt_json (dev_name r)), (''os'', opt_json (dev_os r)),
      (''arch'', opt_json (dev_arch r)), (''last_seen_at'', jopt_str (map_option (sv_iso sv) (dev_last_seen_at r))),
      (''site_count'', jopt_int (map_option int (dev_site_count r))),
      (''online'', JBool (online (sv_now sv) (dev_last_seen_at r))), (''owner_email'', owner_email d (dev_user_id r))]"

text \<open>The order of the rows, newest first with the never seen last, is a parameter for equal times.\<close>

definition admin_devices_list ::
  "ui_world \<Rightarrow> services \<Rightarrow> (device_config list \<Rightarrow> device_config list) \<Rightarrow> string \<Rightarrow> string option \<Rightarrow> ui_response handler" where
  "admin_devices_list w sv order username flash st =
     (let (acct, st0) = admin_account w (sv_now sv) username st;
          rows = take 200 (order (filter (visible_device acct) (device_configs (db st0))))
      in (Inr (page_of w sv flash ''devices.html''
            [(''devices'', JList (map (device_card sv (db st0)) rows)),
             (''total'', JInt (int (count_query (visible_device acct) (device_configs (db st0)))))]), st0))"

definition head_card :: "services \<Rightarrow> device_snapshot option \<Rightarrow> json" where
  "head_card sv h =
     (case h of None \<Rightarrow> JNull
      | Some s \<Rightarrow> JObj [(''id'', JInt (snap_id s)), (''created_at'', JStr (sv_iso sv (snap_created_at s)))])"

definition snapshot_card :: "services \<Rightarrow> device_snapshot \<Rightarrow> json" where
  "snapshot_card sv s = JObj
     [(''id'', JInt (snap_id s)), (''created_at'', JStr (sv_iso sv (snap_created_at s))), (''kind'', JStr (snap_kind s)),
      (''label'', jopt_str (snap_label s)), (''size_bytes'', JInt (int (snap_size_bytes s))),
      (''checksum'', JStr (snap_checksum s))]"

definition or_none :: "string \<Rightarrow> string option" where
  "or_none s = (if s = [] then None else Some s)"

definition admin_device_snapshots ::
  "ui_world \<Rightarrow> services \<Rightarrow> string \<Rightarrow> string \<Rightarrow> string \<Rightarrow> string \<Rightarrow> int \<Rightarrow> int \<Rightarrow> string option \<Rightarrow> ui_response handler" where
  "admin_device_snapshots w sv device_id username kind label_like offset limit flash =
     on_device w sv username device_id (\<lambda>acct dev st.
       (let (rows, tot) = list_snapshots (sv_lib sv) (sv_like sv) (db st) dev (acc_id acct) (or_none kind) (or_none label_like)
                            offset limit
        in (Inr (page_of w sv flash ''device_snapshots.html''
             [(''device_id'', JStr dev), (''snapshots'', JList (map (snapshot_card sv) rows)),
              (''head'', head_card sv (get_head (db st) dev)), (''total'', JInt (int tot)), (''offset'', JInt offset),
              (''limit'', JInt limit), (''kind'', JStr kind), (''label_like'', JStr label_like)]), st)))"

section \<open>Restore\<close>

definition form_restore_snapshot ::
  "ui_world \<Rightarrow> services \<Rightarrow> request \<Rightarrow> string \<Rightarrow> int \<Rightarrow> string \<Rightarrow> ui_response handler" where
  "form_restore_snapshot w sv req device_id snapshot_id username =
     on_device w sv username device_id (\<lambda>acct dev st.
       case own_snapshot dev snapshot_id acct ''Snapshot not found'' (db st) of Inl e \<Rightarrow> (Inl e, st)
       | Inr target \<Rightarrow>
         (let current = get_head (db st) dev in
          case pre_restore sv dev acct target current st of (Inl e, st1) \<Rightarrow> (Inl e, st1)
          | (Inr _, st1) \<Rightarrow>
            (case set_head (sv_now sv) dev (snap_id target) ''admin-ui'' (db st1) of Inl e \<Rightarrow> (Inl e, st1)
             | Inr d \<Rightarrow>
               (Inr (flash_to w (sv_now sv) (device_url dev ''/snapshots'') ''success''
                       (''Restored #'' @ show_int snapshot_id @ '' as HEAD'')),
                emit (sv_env sv) (sv_now sv) (Some acct) ''snapshot.restored'' (Some req) (Some ''snapshot'')
                  (Some (show_int (snap_id target)))
                  (Some (JObj [(''device_id'', JStr dev), (''previous_head_id'', jopt_int (map_option snap_id current)),
                     (''target_label'', jopt_str (snap_label target))])) (st1\<lparr>db := d\<rparr>)))))"

section \<open>Import\<close>

definition admin_device_import_form ::
  "ui_world \<Rightarrow> services \<Rightarrow> string \<Rightarrow> string \<Rightarrow> string option \<Rightarrow> ui_response handler" where
  "admin_device_import_form w sv device_id username flash =
     on_device w sv username device_id (\<lambda>acct dev. own_device_or_404 acct dev (\<lambda>row st.
       (Inr (page_of w sv flash ''device_import.html'' [(''device_id'', JStr dev)]), st)))"

definition jget_str :: "json \<Rightarrow> string \<Rightarrow> string \<Rightarrow> string" where
  "jget_str j k dflt = (case jget j k of None \<Rightarrow> dflt | Some v \<Rightarrow> py_str v)"

text \<open>The config in a bare dictionary or in the envelope of a download, and the label.\<close>

definition import_parts :: "json \<Rightarrow> string \<Rightarrow> json \<times> string" where
  "import_parts raw label =
     (if jget raw ''schema'' = Some (JStr ''nks-wdc-snapshot-v1'')
      then ((case jget raw ''payload'' of None \<Rightarrow> JObj [] | Some p \<Rightarrow> p),
            str_or (py_strip label) (''imported-from-'' @ jget_str raw ''device_id'' ''unknown'' @ ''-#'' @ jget_str raw ''id'' ''?''))
      else (raw, str_or (py_strip label) ''imported-snapshot''))"

definition is_object :: "json \<Rightarrow> bool" where
  "is_object j = (case j of JObj _ \<Rightarrow> True | _ \<Rightarrow> False)"

definition form_import_snapshot ::
  "ui_world \<Rightarrow> services \<Rightarrow> request \<Rightarrow> string \<Rightarrow> string \<Rightarrow> string \<Rightarrow> string \<Rightarrow> string \<Rightarrow> ui_response handler" where
  "form_import_snapshot w sv req device_id username payload label make_head =
     on_device w sv username device_id (\<lambda>acct dev. own_device_or_404 acct dev (\<lambda>row st.
       (let back = flash_to w (sv_now sv) (device_url dev ''/import'') ''error'' in
        case loads payload of None \<Rightarrow> (Inr (back ''Invalid JSON''), st)
        | Some raw \<Rightarrow>
          (let (config, lbl) = import_parts raw label in
           if \<not> is_object config then (Inr (back ''Payload must be a JSON object.''), st)
           else (case create_snapshot (sv_lib sv) (env_alloc (sv_env sv)) (sv_now sv) (sv_entropy sv) (sv_racing_keys sv)
                    dev (Some (acc_id acct)) config ''import'' (Some lbl) None False None st of
               (Inl (PayloadTooLarge n), st1) \<Rightarrow> (Inr (back (too_large_message (sv_lib sv) n)), st1)
             | (Inl e, st1) \<Rightarrow> (Inl e, st1)
             | (Inr s, st1) \<Rightarrow>
               (case (if make_head = [] then Inr (db st1)
                      else set_head (sv_now sv) dev (snap_id s) ''admin-ui-import'' (db st1)) of
                  Inl e \<Rightarrow> (Inl e, st1)
                | Inr d \<Rightarrow>
                  (Inr (flash_to w (sv_now sv) (device_url dev ''/snapshots'') ''success''
                          (''Imported #'' @ show_int (snap_id s) @ '' ('' @ lbl @ '')'')),
                   emit (sv_env sv) (sv_now sv) (Some acct) ''snapshot.imported'' (Some req) (Some ''snapshot'')
                     (Some (show_int (snap_id s)))
                     (Some (JObj [(''device_id'', JStr dev), (''label'', JStr lbl), (''set_head'', JBool (make_head \<noteq> [])),
                        (''payload_bytes'', JInt (int (length payload)))])) (st1\<lparr>db := d\<rparr>))))))))"

section \<open>Delete\<close>

definition form_delete_device ::
  "ui_world \<Rightarrow> services \<Rightarrow> bool \<Rightarrow> request \<Rightarrow> string \<Rightarrow> string \<Rightarrow> ui_response handler" where
  "form_delete_device w sv heads_first req device_id username =
     on_device w sv username device_id (\<lambda>acct dev. own_device_or_404 acct dev (\<lambda>row st.
       (case delete_device_row heads_first dev (db st) of Inl e \<Rightarrow> (Inl e, st)
        | Inr d \<Rightarrow>
          (Inr (flash_to w (sv_now sv) ''/admin/devices'' ''success'' (''Device '' @ dev @ '' deleted'')),
           emit (sv_env sv) (sv_now sv) (Some acct) ''device.deleted'' (Some req) (Some ''device'') (Some dev)
             (case dev_name row of None \<Rightarrow> None
              | Some n \<Rightarrow> if json_truthy n then Some (JObj [(''name'', n)]) else None) (st\<lparr>db := d\<rparr>)))))"

section \<open>One snapshot\<close>

definition snapshot_full :: "services \<Rightarrow> device_snapshot \<Rightarrow> json" where
  "snapshot_full sv s = JObj
     [(''id'', JInt (snap_id s)), (''device_id'', JStr (snap_device_id s)), (''created_at'', JStr (sv_iso sv (snap_created_at s))),
      (''kind'', JStr (snap_kind s)), (''label'', jopt_str (snap_label s)), (''size_bytes'', JInt (int (snap_size_bytes s))),
      (''checksum'', JStr (snap_checksum s)), (''compression'', jopt_str (snap_compression s)),
      (''encryption_kid'', jopt_str (snap_encryption_kid s)), (''parent_snapshot_id'', jopt_int (snap_parent s))]"

text \<open>The difference to HEAD as the page shows it; a failure is shown as text.\<close>

definition head_diff :: "(exn \<Rightarrow> string) \<Rightarrow> services \<Rightarrow> device_snapshot \<Rightarrow> device_snapshot option \<Rightarrow> app_state \<Rightarrow> json \<times> json" where
  "head_diff es sv s h st =
     (case h of None \<Rightarrow> (JNull, JNull)
      | Some head \<Rightarrow>
        if snap_id head = snap_id s then (JNull, JNull)
        else (case snapshot_diff (sv_lib sv) (sv_patch sv) s head True st of
                Inl e \<Rightarrow> (JList [], JStr (''diff failed: '' @ es e))
              | Inr patch \<Rightarrow> (JList patch, JStr (pretty (JList patch)))))"

definition payload_entries :: "(exn \<Rightarrow> string) \<Rightarrow> services \<Rightarrow> device_snapshot \<Rightarrow> device_snapshot option \<Rightarrow> app_state \<Rightarrow> (string \<times> json) list" where
  "payload_entries es sv s h st =
     (case unpack_payload (sv_lib sv) s True None st of
        Inr payload \<Rightarrow>
          (case head_diff es sv s h st of (patch, text) \<Rightarrow>
             [(''payload_json'', JStr (pretty payload)), (''payload_error'', JNull), (''diff_patch'', patch),
              (''diff_patch_text'', text)])
      | Inl e \<Rightarrow>
          [(''payload_json'', JNull),
           (''payload_error'', JStr (case e of
              PermissionError m \<Rightarrow> ''Passphrase-encrypted; can't show payload ('' @ m
                 @ ''). Use the API with X-WDC-Passphrase to decrypt.''
            | _ \<Rightarrow> ''Failed to unpack payload: '' @ es e)),
           (''diff_patch'', JNull), (''diff_patch_text'', JNull)])"

definition admin_snapshot_detail ::
  "(exn \<Rightarrow> string) \<Rightarrow> ui_world \<Rightarrow> services \<Rightarrow> string \<Rightarrow> int \<Rightarrow> string \<Rightarrow> string option \<Rightarrow> ui_response handler" where
  "admin_snapshot_detail es w sv device_id snapshot_id username flash =
     on_device w sv username device_id (\<lambda>acct dev st.
       case own_snapshot dev snapshot_id acct ''Snapshot not found'' (db st) of Inl e \<Rightarrow> (Inl e, st)
       | Inr s \<Rightarrow>
         (let head = get_head (db st) dev in
          (Inr (page_of w sv flash ''snapshot_detail.html''
             ([(''snapshot'', snapshot_full sv s), (''is_head'', JBool (map_option snap_id head = Some (snap_id s)))]
              @ payload_entries es sv s head st)), st)))"

section \<open>Two snapshots\<close>

text \<open>\<open>dev_row.user_id if (acct.role == "admin" and dev_row) else acct.id\<close>\<close>

definition query_account :: "account \<Rightarrow> device_config option \<Rightarrow> int option" where
  "query_account acct row =
     (case row of Some r \<Rightarrow> if acc_role acct = ''admin'' then dev_user_id r else Some (acc_id acct)
      | None \<Rightarrow> Some (acc_id acct))"

text \<open>The first page of a listing; an account of \<open>None\<close> is compared with \<open>IS NULL\<close>.\<close>

definition unowned_page :: "services \<Rightarrow> database \<Rightarrow> string \<Rightarrow> int \<Rightarrow> device_snapshot list \<times> nat" where
  "unowned_page sv d dev limit =
     (let P = (\<lambda>s. snap_device_id s = dev \<and> snap_account_id s = None);
          page_size = nat (max 1 (min limit 200));
          rows = take page_size (lib_order_snaps (sv_lib sv) (filter P (device_snapshots d)))
      in (rows, if length rows < page_size then length rows else count_query P (device_snapshots d)))"

definition listed_for ::
  "services \<Rightarrow> database \<Rightarrow> string \<Rightarrow> int option \<Rightarrow> int \<Rightarrow> device_snapshot list \<times> nat" where
  "listed_for sv d dev aid limit =
     (case aid of None \<Rightarrow> unowned_page sv d dev limit
      | Some a \<Rightarrow> list_snapshots (sv_lib sv) (sv_like sv) d dev a None None 0 limit)"

definition lstrip_char :: "char \<Rightarrow> string \<Rightarrow> string" where
  "lstrip_char c s = dropWhile (\<lambda>x. x = c) s"

text \<open>One row of the table: an operation of the JSON patch with its path in parts.\<close>

definition diff_op :: "json \<Rightarrow> json" where
  "diff_op op =
     (let path = (case jget op ''path'' of Some (JStr p) \<Rightarrow> p | _ \<Rightarrow> []) in
      JObj [(''op'', case jget op ''op'' of None \<Rightarrow> JStr ''?'' | Some t \<Rightarrow> t), (''path'', JStr path),
        (''path_parts'', JList (map JStr (filter (\<lambda>x. x \<noteq> []) (split_on (CHR ''/'') (lstrip_char (CHR ''/'') path))))),
        (''value_text'', case jget op ''value'' of None \<Rightarrow> JNull | Some v \<Rightarrow> JStr (dumps_raw_indent 0 v)),
        (''from_path'', opt_json (jget op ''from''))])"

fun count_op :: "string \<Rightarrow> (string \<times> nat) list \<Rightarrow> (string \<times> nat) list" where
  "count_op k [] = [(k, 1)]"
| "count_op k ((j, n) # xs) = (if j = k then (j, Suc n) # xs else (j, n) # count_op k xs)"

definition op_summary :: "json list \<Rightarrow> (string \<times> nat) list" where
  "op_summary patch = fold (\<lambda>op. count_op (jget_str op ''op'' ''?'')) patch []"

definition compare_choice :: "services \<Rightarrow> device_snapshot \<Rightarrow> json" where
  "compare_choice sv s = JObj [(''id'', JInt (snap_id s)), (''kind'', JStr (snap_kind s)), (''label'', jopt_str (snap_label s)),
     (''created_at'', JStr (sv_iso sv (snap_created_at s)))]"

definition compare_meta :: "services \<Rightarrow> device_snapshot \<Rightarrow> json" where
  "compare_meta sv s = JObj [(''id'', JInt (snap_id s)), (''kind'', JStr (snap_kind s)), (''label'', jopt_str (snap_label s)),
     (''created_at'', JStr (sv_iso sv (snap_created_at s))), (''size_bytes'', JInt (int (snap_size_bytes s)))]"

text \<open>Both snapshots of this device and of the account asked about.\<close>

definition both_snapshots ::
  "database \<Rightarrow> string \<Rightarrow> int option \<Rightarrow> int \<Rightarrow> int \<Rightarrow> (device_snapshot \<times> device_snapshot) option" where
  "both_snapshots d dev aid a b =
     (case (row_get snap_id a (device_snapshots d), row_get snap_id b (device_snapshots d)) of
        (Some x, Some y) \<Rightarrow>
          if snap_device_id x \<noteq> dev \<or> snap_device_id y \<noteq> dev \<or> snap_account_id x \<noteq> aid \<or> snap_account_id y \<noteq> aid
          then None else Some (x, y)
      | _ \<Rightarrow> None)"

definition compare_blank :: "json \<Rightarrow> (string \<times> json) list" where
  "compare_blank error = [(''diff_text'', JNull), (''diff_ops'', JNull), (''op_summary'', JObj []), (''a_meta'', JNull),
     (''b_meta'', JNull), (''op_count'', JInt 0), (''error'', error)]"

definition compare_entries ::
  "(exn \<Rightarrow> string) \<Rightarrow> services \<Rightarrow> string \<Rightarrow> int option \<Rightarrow> int option \<Rightarrow> int option \<Rightarrow> app_state \<Rightarrow> (string \<times> json) list" where
  "compare_entries es sv dev aid a b st =
     (case (a, b) of
        (Some i, Some j) \<Rightarrow>
          if i = 0 \<or> j = 0 then compare_blank JNull
          else if i = j then compare_blank (JStr ''Pick two different snapshots.'')
          else (case both_snapshots (db st) dev aid i j of
              None \<Rightarrow> compare_blank (JStr ''Snapshot not found on this device.'')
            | Some (x, y) \<Rightarrow>
              (case snapshot_diff (sv_lib sv) (sv_patch sv) x y True st of
                 Inl (PermissionError m) \<Rightarrow>
                   compare_blank (JStr ''Can't diff - one of the snapshots is passphrase-encrypted.'')
               | Inl e \<Rightarrow> compare_blank (JStr (''Diff failed: '' @ es e))
               | Inr patch \<Rightarrow>
                   [(''diff_text'', JStr (pretty (JList patch))), (''diff_ops'', JList (map diff_op patch)),
                    (''op_summary'', JObj (map (\<lambda>(k, n). (k, JInt (int n))) (op_summary patch))),
                    (''a_meta'', compare_meta sv x), (''b_meta'', compare_meta sv y),
                    (''op_count'', JInt (int (length patch))), (''error'', JNull)]))
      | _ \<Rightarrow> compare_blank JNull)"

definition admin_snapshot_compare ::
  "(exn \<Rightarrow> string) \<Rightarrow> ui_world \<Rightarrow> services \<Rightarrow> string \<Rightarrow> string \<Rightarrow> int option \<Rightarrow> int option \<Rightarrow> string option
     \<Rightarrow> ui_response handler" where
  "admin_snapshot_compare es w sv device_id username a b flash =
     on_device w sv username device_id (\<lambda>acct dev st.
       (let aid = query_account acct (row_get dev_device_id dev (device_configs (db st)));
            (rows, tot) = listed_for sv (db st) dev aid 200
        in (Inr (page_of w sv flash ''snapshot_compare.html''
             ([(''device_id'', JStr dev), (''choices'', JList (map (compare_choice sv) rows)), (''a_id'', jopt_int a),
               (''b_id'', jopt_int b)] @ compare_entries es sv dev aid a b st)), st)))"

section \<open>Export\<close>

text \<open>The name of a file in the archive: the id in six digits, the kind, and the label without slashes.\<close>

definition pad6 :: "int \<Rightarrow> string" where
  "pad6 i = (if i < 0 then CHR ''-'' # replicate (5 - length (show_int (- i))) (CHR ''0'') @ show_int (- i)
     else replicate (6 - length (show_int i)) (CHR ''0'') @ show_int i)"

definition export_name :: "device_snapshot \<Rightarrow> string" where
  "export_name s =
     pad6 (snap_id s) @ ''-'' @ snap_kind s @ ''-''
       @ take 40 (map (\<lambda>c. if c = CHR ''/'' then CHR ''_'' else c)
           (case snap_label s of None \<Rightarrow> ''unlabeled'' | Some l \<Rightarrow> str_or l ''unlabeled'')) @ ''.json''"

text \<open>A snapshot that needs a passphrase is left out; any other failure fails the page.\<close>

fun archive_members :: "services \<Rightarrow> app_state \<Rightarrow> device_snapshot list \<Rightarrow> exn + (string \<times> string) list" where
  "archive_members sv st [] = Inr []"
| "archive_members sv st (s # ss) =
     (case unpack_payload (sv_lib sv) s True None st of
        Inl (PermissionError m) \<Rightarrow> archive_members sv st ss
      | Inl e \<Rightarrow> Inl e
      | Inr payload \<Rightarrow>
        (case archive_members sv st ss of Inl e \<Rightarrow> Inl e
         | Inr fs \<Rightarrow> Inr ((export_name s, dumps_raw_indent 0 (envelope (sv_env sv) s payload)) # fs)))"

text \<open>The files of the archive; ZIP itself is not modelled.\<close>

definition admin_device_snapshots_export ::
  "ui_world \<Rightarrow> services \<Rightarrow> string \<Rightarrow> string \<Rightarrow> (string \<times> string) list handler" where
  "admin_device_snapshots_export w sv device_id username =
     on_device w sv username device_id (\<lambda>acct dev. own_device_or_404 acct dev (\<lambda>row st.
       (archive_members sv st (fst (list_snapshots (sv_lib sv) (sv_like sv) (db st) dev (acc_id acct) None None 0 10000)), st)))"

section \<open>One device\<close>

definition recent_card :: "services \<Rightarrow> device_snapshot option \<Rightarrow> device_snapshot \<Rightarrow> json" where
  "recent_card sv head s = JObj [(''id'', JInt (snap_id s)), (''kind'', JStr (snap_kind s)), (''label'', jopt_str (snap_label s)),
     (''created_at'', JStr (sv_iso sv (snap_created_at s))), (''size_bytes'', JInt (int (snap_size_bytes s))),
     (''is_head'', JBool (map_option snap_id head = Some (snap_id s)))]"

definition device_full :: "services \<Rightarrow> database \<Rightarrow> device_config \<Rightarrow> json" where
  "device_full sv d r = JObj
     [(''device_id'', JStr (dev_device_id r)), (''name'', opt_json (dev_name r)), (''os'', opt_json (dev_os r)),
      (''arch'', opt_json (dev_arch r)), (''site_count'', jopt_int (map_option int (dev_site_count r))),
      (''last_seen_at'', jopt_str (map_option (sv_iso sv) (dev_last_seen_at r))),
      (''updated_at'', JStr (sv_iso sv (dev_updated_at r))), (''online'', JBool (online (sv_now sv) (dev_last_seen_at r))),
      (''owner_email'', owner_email d (dev_user_id r))]"

definition admin_device_detail ::
  "ui_world \<Rightarrow> services \<Rightarrow> string \<Rightarrow> string \<Rightarrow> string option \<Rightarrow> ui_response handler" where
  "admin_device_detail w sv device_id username flash =
     on_device w sv username device_id (\<lambda>acct dev st.
       case row_get dev_device_id dev (device_configs (db st)) of
         None \<Rightarrow> (Inl (not_found ''Device not found''), st)
       | Some row \<Rightarrow>
         if \<not> visible_device acct row then (Inl (not_found ''Device not found''), st)
         else (let aid = query_account acct (Some row);
                   head = get_head (db st) dev;
                   snap_total = snd (listed_for sv (db st) dev aid 1);
                   recent = fst (listed_for sv (db st) dev aid 10)
               in (Inr (page_of w sv flash ''device_detail.html''
                    [(''device'', device_full sv (db st) row),
                     (''payload_pretty'', if json_truthy (dev_payload row) then JStr (pretty (dev_payload row)) else JNull),
                     (''head'', head_card sv head), (''snapshot_count'', JInt (int snap_total)),
                     (''recent_snapshots'', JList (map (recent_card sv head) recent))]), st)))"

section \<open>The forms and the endpoints as one system\<close>

datatype device_form =
    RestoreForm string int
  | ImportForm string string string string
  | DeleteForm string

fun device_form_serve ::
  "ui_world \<Rightarrow> services \<Rightarrow> bool \<Rightarrow> request \<Rightarrow> string \<Rightarrow> device_form \<Rightarrow> ui_response handler" where
  "device_form_serve w sv hf req username (RestoreForm i sid) = form_restore_snapshot w sv req i sid username"
| "device_form_serve w sv hf req username (ImportForm i payload label mk) =
     form_import_snapshot w sv req i username payload label mk"
| "device_form_serve w sv hf req username (DeleteForm i) = form_delete_device w sv hf req i username"

inductive store_ui_step :: "app_state \<Rightarrow> app_state \<Rightarrow> bool" where
  api: "store_step st st' \<Longrightarrow> store_ui_step st st'"
| form: "fresh_alloc (env_alloc (sv_env sv))
    \<Longrightarrow> store_ui_step st (snd (get_session (device_form_serve w sv hf req username fm) st))"

inductive_cases store_ui_stepE: "store_ui_step st st'"

lemma admin_account_frame:
  assumes "admin_account w now u st = (a, st0)"
  shows "dview (db st0) = dview (db st)" "committed st0 = committed st"
  using assms by (auto simp: admin_account_def dview_def Let_def split: option.splits)

lemma on_device_cases:
  assumes "on_device w sv username device_id h st = (r, st')"
  obtains e acct where "admin_account w (sv_now sv) username st = (acct, st')" "r = Inl e"
  | acct st0 dev where "admin_account w (sv_now sv) username st = (acct, st0)"
      "normalize_device_id device_id = Inr dev" "h acct dev st0 = (r, st')"
  using assms by (auto simp: on_device_def split: prod.splits sum.splits)

lemma own_device_cases:
  assumes "own_device_or_404 acct dev h st = (r, st')"
  obtains e where "st' = st" "r = Inl e"
  | row where "own_device (db st) acct dev = Some row" "h row st = (r, st')"
  using assms by (auto simp: own_device_or_404_def split: option.splits)

lemma normal_lower: "normalize_device_id i = Inr dev \<Longrightarrow> py_lower dev = dev"
  using normalize_Inr valid_lower by metis

text \<open>The state after the guards of each form.\<close>

lemma restore_form_cases:
  assumes "form_restore_snapshot w sv req i sid u st = (r, st')"
  obtains acct st0 where "admin_account w (sv_now sv) u st = (acct, st0)" "st' = st0"
  | acct st0 dev t x st1 where "admin_account w (sv_now sv) u st = (acct, st0)" "py_lower dev = dev"
      "own_snapshot dev sid acct ''Snapshot not found'' (db st0) = Inr t"
      "pre_restore sv dev acct t (get_head (db st0) dev) st0 = (x, st1)"
      "st' = st1 \<or> (\<exists>u' d. x = Inr u' \<and> set_head (sv_now sv) dev (snap_id t) ''admin-ui'' (db st1) = Inr d
         \<and> dview (db st') = dview d \<and> committed st' = committed st1)"
  using assms unfolding form_restore_snapshot_def
proof (cases rule: on_device_cases)
  case (1 e acct)
  with that(1) show ?thesis by blast
next
  case (2 acct st0 dev)
  show ?thesis
  proof (cases "own_snapshot dev sid acct ''Snapshot not found'' (db st0)")
    case (Inl e)
    with 2 that(1) show ?thesis by auto
  next
    case (Inr t)
    obtain x st1 where x: "pre_restore sv dev acct t (get_head (db st0) dev) st0 = (x, st1)" by fastforce
    with 2 Inr have "st' = st1 \<or> (\<exists>u' d. x = Inr u' \<and> set_head (sv_now sv) dev (snap_id t) ''admin-ui'' (db st1) = Inr d
         \<and> dview (db st') = dview d \<and> committed st' = committed st1)"
      by (auto simp: Let_def split: sum.splits)
    with that(2) [OF 2(1) normal_lower [OF 2(2)] Inr x] show ?thesis by blast
  qed
qed

lemma import_form_cases:
  assumes "form_import_snapshot w sv req i u payload label mk st = (r, st')"
  obtains acct st0 where "admin_account w (sv_now sv) u st = (acct, st0)" "st' = st0"
  | acct st0 dev row config lbl x st1 where "admin_account w (sv_now sv) u st = (acct, st0)" "py_lower dev = dev"
      "own_device (db st0) acct dev = Some row"
      "create_snapshot (sv_lib sv) (env_alloc (sv_env sv)) (sv_now sv) (sv_entropy sv) (sv_racing_keys sv)
         dev (Some (acc_id acct)) config ''import'' (Some lbl) None False None st0 = (x, st1)"
      "st' = st1 \<or> (\<exists>s d. x = Inr s \<and> (d = db st1 \<or> set_head (sv_now sv) dev (snap_id s) ''admin-ui-import'' (db st1) = Inr d)
         \<and> dview (db st') = dview d \<and> committed st' = committed st1)"
  using assms unfolding form_import_snapshot_def
proof (cases rule: on_device_cases)
  case (1 e acct)
  with that(1) show ?thesis by blast
next
  case (2 acct st0 dev)
  from 2(3) show ?thesis
  proof (cases rule: own_device_cases)
    case (1 e)
    with that(1) 2 show ?thesis by blast
  next
    case (2 row)
    note own = 2 and frame = \<open>admin_account w (sv_now sv) u st = (acct, st0)\<close>
      and nrm = normal_lower [OF \<open>normalize_device_id i = Inr dev\<close>]
    show ?thesis
    proof (cases "case loads payload of None \<Rightarrow> True | Some raw \<Rightarrow> \<not> is_object (fst (import_parts raw label))")
      case True
      with own have "st' = st0" by (auto simp: Let_def split: option.splits prod.splits if_splits)
      with frame that(1) show ?thesis by blast
    next
      case False
      then obtain raw config lbl where l: "loads payload = Some raw" "import_parts raw label = (config, lbl)" "is_object config"
        by (auto split: option.splits) (metis prod.collapse)
      obtain x st1 where x: "create_snapshot (sv_lib sv) (env_alloc (sv_env sv)) (sv_now sv) (sv_entropy sv) (sv_racing_keys sv)
         dev (Some (acc_id acct)) config ''import'' (Some lbl) None False None st0 = (x, st1)" by fastforce
      with own l have "st' = st1 \<or> (\<exists>s d. x = Inr s \<and> (d = db st1 \<or> set_head (sv_now sv) dev (snap_id s) ''admin-ui-import'' (db st1) = Inr d)
         \<and> dview (db st') = dview d \<and> committed st' = committed st1)"
        by (auto simp: Let_def split: sum.splits exn.splits if_splits)
      with that(2) [OF frame nrm own(1) x] show ?thesis by blast
    qed
  qed
qed

lemma delete_form_cases:
  assumes "form_delete_device w sv hf req i u st = (r, st')"
  obtains acct st0 where "admin_account w (sv_now sv) u st = (acct, st0)" "st' = st0"
  | acct st0 dev row d where "admin_account w (sv_now sv) u st = (acct, st0)"
      "own_device (db st0) acct dev = Some row" "delete_device_row hf dev (db st0) = Inr d"
      "dview (db st') = dview d" "committed st' = committed st0"
  using assms unfolding form_delete_device_def
proof (cases rule: on_device_cases)
  case (1 e acct)
  with that(1) show ?thesis by blast
next
  case (2 acct st0 dev)
  from 2(3) show ?thesis
  proof (cases rule: own_device_cases)
    case (1 e)
    with that(1) 2 show ?thesis by blast
  next
    case (2 row)
    with that(1) [OF \<open>admin_account w (sv_now sv) u st = (acct, st0)\<close>]
      that(2) [OF \<open>admin_account w (sv_now sv) u st = (acct, st0)\<close> 2(1)]
    show ?thesis by (auto split: sum.splits)
  qed
qed

section \<open>The forms keep the invariant\<close>

lemma admin_account_inv: "state_inv st \<Longrightarrow> admin_account w now u st = (a, st0) \<Longrightarrow> state_inv st0"
  by (erule state_inv_frame) (simp_all add: admin_account_frame)

lemma head_moved_inv:
  assumes "state_inv st1" "set_head now dev (snap_id s) by' (db st1) = Inr d"
    and "row_get snap_id (snap_id s) (device_snapshots (db st1)) = Some s" "snap_device_id s = dev"
    and "dview (db st') = dview d" "committed st' = committed st1"
  shows "state_inv st'"
  using set_head_inv [OF _ assms(2-4)] store_inv_dview [OF assms(5)] assms(1,6) by (simp add: state_inv_def)

lemma restore_form_inv:
  assumes "state_inv st" and f: "fresh_alloc (env_alloc (sv_env sv))"
    and "form_restore_snapshot w sv req i sid u st = (r, st')"
  shows "state_inv st'"
  using assms(3)
proof (cases rule: restore_form_cases)
  case (1 acct st0)
  with admin_account_inv assms(1) show ?thesis by blast
next
  case (2 acct st0 dev t x st1)
  have i0: "state_inv st0" by (rule admin_account_inv [OF assms(1) 2(1)])
  then have h0: "heads_ok (db st0)" by (auto simp: state_inv_def)
  have i1: "state_inv st1" by (rule pre_restore_inv [OF i0 f 2(4)])
  note o = own_snapshot_Inr [OF 2(3)]
  show ?thesis
  proof (cases "st' = st1")
    case False
    with 2(5) obtain u' d where d: "x = Inr u'" "set_head (sv_now sv) dev (snap_id t) ''admin-ui'' (db st1) = Inr d"
      "dview (db st') = dview d" "committed st' = committed st1" by blast
    have "row_get snap_id (snap_id t) (device_snapshots (db st1)) = Some t"
      using pre_restore_target [OF h0 f _ o(1), of dev acct t u' st1] 2(2,4) d(1) o(4) by simp
    with head_moved_inv [OF i1 d(2) _ _ d(3,4)] o(2) 2(2) show ?thesis by simp
  qed (use i1 in simp)
qed

text \<open>A snapshot just created is stored under its id.\<close>

lemma created_row:
  assumes "heads_ok (db st)" and f: "fresh_alloc alloc"
    and "create_snapshot lib alloc now ent racing dev aid payload kind label ip encrypt pass st = (Inr s, st1)"
  shows "row_get snap_id (snap_id s) (device_snapshots (db st1)) = Some s \<and> snap_device_id s = dev"
proof -
  have h: "heads_ok (db st1)" by (rule create_heads_ok [OF assms])
  from create_result [OF assms] have g: "get_head (db st1) dev = Some s" by blast
  then obtain hd where "row_get head_device_id dev (device_heads (db st1)) = Some hd"
    "row_get snap_id (head_current_snapshot_id hd) (device_snapshots (db st1)) = Some s"
    by (auto simp: get_head_def split: option.splits)
  with heads_okD [OF h] row_get_Some [of snap_id] show ?thesis by fastforce
qed

lemma import_form_inv:
  assumes "state_inv st" and f: "fresh_alloc (env_alloc (sv_env sv))"
    and "form_import_snapshot w sv req i u payload label mk st = (r, st')"
  shows "state_inv st'"
  using assms(3)
proof (cases rule: import_form_cases)
  case (1 acct st0)
  with admin_account_inv assms(1) show ?thesis by blast
next
  case (2 acct st0 dev row config lbl x st1)
  have i0: "state_inv st0" by (rule admin_account_inv [OF assms(1) 2(1)])
  then have h0: "heads_ok (db st0)" by (auto simp: state_inv_def)
  have i1: "state_inv st1" by (rule state_inv_create [OF i0 f 2(4)])
  show ?thesis
  proof (cases "st' = st1")
    case False
    with 2(5) obtain s d where d: "x = Inr s" "d = db st1 \<or> set_head (sv_now sv) dev (snap_id s) ''admin-ui-import'' (db st1) = Inr d"
      "dview (db st') = dview d" "committed st' = committed st1" by blast
    from created_row [OF h0 f] 2(4) d(1) have "row_get snap_id (snap_id s) (device_snapshots (db st1)) = Some s" "snap_device_id s = dev"
      by blast+
    with d(2) head_moved_inv [OF i1 _ _ _ d(3,4)] state_inv_frame [OF i1] d(3,4) show ?thesis by auto
  qed (use i1 in simp)
qed

lemma delete_form_inv:
  assumes "state_inv st" and "form_delete_device w sv hf req i u st = (r, st')"
  shows "state_inv st'"
  using assms(2)
proof (cases rule: delete_form_cases)
  case (1 acct st0)
  with admin_account_inv assms(1) show ?thesis by blast
next
  case (2 acct st0 dev row d)
  have i0: "state_inv st0" by (rule admin_account_inv [OF assms(1) 2(1)])
  have "state_inv (st0\<lparr>db := d\<rparr>)" by (rule delete_device_state_inv [OF i0 2(3)])
  from state_inv_frame [OF this] 2(4,5) show ?thesis by simp
qed

lemma device_form_inv:
  assumes "state_inv st" and "fresh_alloc (env_alloc (sv_env sv))" and "device_form_serve w sv hf req u fm st = (r, st')"
  shows "state_inv st'"
proof (cases fm)
  case (RestoreForm i sid)
  with assms restore_form_inv show ?thesis by auto
next
  case (ImportForm i payload label mk)
  with assms import_form_inv show ?thesis by auto
next
  case (DeleteForm i)
  with assms delete_form_inv show ?thesis by auto
qed

lemma store_ui_step_inv: "store_ui_step st st' \<Longrightarrow> state_inv st \<Longrightarrow> state_inv st'"
proof (induction rule: store_ui_step.induct)
  case (api st st')
  then show ?case using store_step_inv by blast
next
  case (form sv w hf req username fm st)
  then show ?case using get_session_inv device_form_inv by blast
qed

interpretation store_ui: inv_system store_ui_step state_inv
  using store_ui_step_inv by unfold_locales blast

text \<open>
  C14: The snapshot store never breaks, whatever sequence of backup, restore, import, delete,
  sync and device requests of the API, of restore, import and delete forms of the admin
  pages (each committing or rolling back) and of retention runs it goes through: every HEAD row
  leads to a stored snapshot of its own device, every snapshot has exactly one payload lane
  and a known kind, its device and its parent exist, and every device id is in normal form;
  this holds of the committed database as well.
\<close>
theorem store_never_breaks:
  assumes "state_inv st" and "store_ui_step\<^sup>*\<^sup>* st st'"
  shows "\<forall>d \<in> {db st', committed st'}.
    (\<forall>dev h. row_get head_device_id dev (device_heads d) = Some h \<longrightarrow>
       (\<exists>s. get_head d dev = Some s \<and> snap_device_id s = dev))
    \<and> (\<forall>s \<in> set (device_snapshots d). lanes s = 1 \<and> snap_kind s \<in> set snapshot_kinds
       \<and> snap_device_id s \<in> dev_device_id ` set (device_configs d)
       \<and> (\<forall>p. snap_parent s = Some p \<longrightarrow> p \<in> snap_id ` set (device_snapshots d)))
    \<and> (\<forall>r \<in> set (device_configs d). normalize_device_id (dev_device_id r) = Inr (dev_device_id r))"
  by (rule state_inv_integrity [OF store_ui.reach_inv [OF assms(2,1)]])

definition demo_ui :: ui_world where
  "demo_ui = \<lparr>uw_lk = demo_lookup, uw_bc = demo_bcrypt, uw_cfg = demo_cfg, uw_env = demo_env, uw_pats = (\<lambda>xs. xs),
     uw_sessions = (\<lambda>xs. xs), uw_salt = ''s''\<rparr>"

text \<open>One backup through the API, then a restore form.\<close>
theorem store_never_breaks_witness:
  "let st1 = snd (get_session (serve demo_services \<lparr>gzip = id, gunzip = Some, order_sync = id\<rparr> True
        (CreateBackup ''dev'' demo_body plain_request demo_account None)) demo_state);
       st' = snd (get_session (device_form_serve demo_ui demo_services True plain_request ''ann'' (RestoreForm ''dev'' 1)) st1)
   in \<forall>s \<in> set (device_snapshots (committed st')). lanes s = 1"
proof -
  define st1 where "st1 = snd (get_session (serve demo_services \<lparr>gzip = id, gunzip = Some, order_sync = id\<rparr> True
        (CreateBackup ''dev'' demo_body plain_request demo_account None)) demo_state)"
  define st' where "st' = snd (get_session (device_form_serve demo_ui demo_services True plain_request ''ann'' (RestoreForm ''dev'' 1)) st1)"
  have "store_ui_step demo_state st1" unfolding st1_def by (intro store_ui_step.api store_step.request demo_fresh)
  moreover have "store_ui_step st1 st'" unfolding st'_def by (rule store_ui_step.form [OF demo_fresh])
  ultimately have "store_ui_step\<^sup>*\<^sup>* demo_state st'" by simp
  from store_never_breaks [OF demo_state_inv this] show ?thesis
    unfolding Let_def st1_def [symmetric] st'_def [symmetric] by blast
qed

section \<open>The forms stay inside the account\<close>

lemma foreign_frame: "admin_account w now u st = (a, st0) \<Longrightarrow> foreign (db st0) dev acc = foreign (db st) dev acc"
  by (rule foreign_dview) (simp add: admin_account_frame)

lemma moved_same:
  assumes "same_device dev d0 (db st1)" and "dev \<noteq> i" and "d = db st1 \<or> set_head now i k by' (db st1) = Inr d"
    and "dview (db st') = dview d"
  shows "same_device dev d0 (db st')"
proof -
  have "same_device dev (db st1) d" using assms(3) set_head_same [OF _ assms(2)] by auto
  with same_device_trans [OF assms(1)] same_device_cong [OF assms(4)] show ?thesis by blast
qed

lemma restore_form_same:
  assumes "store_inv (db st)" "admin_account w (sv_now sv) u st = (acct, st0)"
    and "\<forall>s \<in> set (device_snapshots (db st)). snap_device_id s = dev \<longrightarrow> snap_account_id s \<noteq> Some (acc_id acct)"
    and "form_restore_snapshot w sv req i sid u st = (r, st')"
  shows "same_device dev (db st) (db st')"
proof -
  note fr = admin_account_frame [OF assms(2)]
  have b: "same_device dev (db st) (db st0)" by (rule same_device_dview [OF fr(1)])
  have h: "heads_ok (db st0)" using store_inv_dview [OF fr(1)] assms(1) by blast
  show ?thesis using assms(4)
  proof (cases rule: restore_form_cases)
    case (1 a s0)
    with assms(2) b show ?thesis by simp
  next
    case (2 a s0 d t x st1)
    then have e: "a = acct" "s0 = st0" using assms(2) by simp_all
    note o = own_snapshot_Inr [OF 2(3)]
    have "t \<in> set (device_snapshots (db st))" using row_get_Some [OF o(1)] fr(1) e by (simp add: dview_eq)
    with assms(3) o 2(2) e have n: "dev \<noteq> d" by auto
    with pre_restore_same [OF h, of dev d sv acct t "get_head (db st0) d" x st1] 2(2,4) e
    have p: "same_device dev (db st0) (db st1)" by simp
    from 2(5) show ?thesis
      by (elim disjE exE conjE) (simp add: same_device_trans [OF b p], blast intro: moved_same [OF same_device_trans [OF b p] n])
  qed
qed

lemma import_form_same:
  assumes "store_inv (db st)" "admin_account w (sv_now sv) u st = (acct, st0)" "foreign (db st) dev acct"
    and "form_import_snapshot w sv req i u payload label mk st = (r, st')"
  shows "same_device dev (db st) (db st')"
proof -
  note fr = admin_account_frame [OF assms(2)]
  have b: "same_device dev (db st) (db st0)" by (rule same_device_dview [OF fr(1)])
  have h: "heads_ok (db st0)" using store_inv_dview [OF fr(1)] assms(1) by blast
  show ?thesis using assms(4)
  proof (cases rule: import_form_cases)
    case (1 a s0)
    with assms(2) b show ?thesis by simp
  next
    case (2 a s0 d row config lbl x st1)
    then have e: "a = acct" "s0 = st0" using assms(2) by simp_all
    have n: "dev \<noteq> d" using own_device_not_foreign [OF 2(3)] foreign_frame [OF assms(2)] assms(3) e by blast
    have p: "same_device dev (db st0) (db st1)" using create_same [OF h n] 2(4) e by simp
    from 2(5) show ?thesis
    proof
      assume "st' = st1"
      then show ?thesis by (simp add: same_device_trans [OF b p])
    qed (blast intro: moved_same [OF same_device_trans [OF b p] n])
  qed
qed

lemma delete_form_same:
  assumes "store_inv (db st)" "admin_account w (sv_now sv) u st = (acct, st0)" "foreign (db st) dev acct"
    and "form_delete_device w sv hf req i u st = (r, st')"
  shows "same_device dev (db st) (db st')"
proof -
  note fr = admin_account_frame [OF assms(2)]
  have b: "same_device dev (db st) (db st0)" by (rule same_device_dview [OF fr(1)])
  have i0: "store_inv (db st0)" using store_inv_dview [OF fr(1)] assms(1) by blast
  show ?thesis using assms(4)
  proof (cases rule: delete_form_cases)
    case (1 a s0)
    with assms(2) b show ?thesis by simp
  next
    case (2 a s0 d row d')
    then have e: "a = acct" "s0 = st0" using assms(2) by simp_all
    have n: "dev \<noteq> d" using own_device_not_foreign [OF 2(2)] foreign_frame [OF assms(2)] assms(3) e by blast
    have "same_device dev (db st0) d'" using delete_device_same [OF i0 _ n] 2(3) e by simp
    with same_device_trans [OF b] same_device_cong [OF 2(4)] show ?thesis by blast
  qed
qed



section \<open>What the pages show\<close>

text \<open>Without the role \<open>admin\<close>, an owner's included, another account's device is not found.\<close>

lemma owner_role_sees_own_devices_only:
  "acc_role acct = ''owner'' \<Longrightarrow> visible_device acct r \<longleftrightarrow> dev_user_id r = Some (acc_id acct)"
  by (simp add: visible_device_def)

lemma export_at_most_200:
  "archive_members sv st (fst (list_snapshots lib fc d dev aid k l 0 10000)) = Inr fs \<Longrightarrow> length fs \<le> 200"
proof -
  have "archive_members sv st ss = Inr fs \<Longrightarrow> length fs \<le> length ss" for ss
    by (induction ss arbitrary: fs) (force split: sum.splits exn.splits)+
  moreover have "length (fst (list_snapshots lib fc d dev aid k l 0 10000)) \<le> 200"
    by (simp add: list_snapshots_def Let_def)
  ultimately show "archive_members sv st (fst (list_snapshots lib fc d dev aid k l 0 10000)) = Inr fs \<Longrightarrow> length fs \<le> 200"
    by (meson order_trans)
qed

text \<open>
  An import moves HEAD to the new snapshot with the box unticked too: \<open>create_snapshot\<close> always
  does.
\<close>

lemma import_moves_head_anyway:
  assumes "heads_ok (db st)" "fresh_alloc (env_alloc (sv_env sv))"
    and "create_snapshot (sv_lib sv) (env_alloc (sv_env sv)) (sv_now sv) (sv_entropy sv) (sv_racing_keys sv)
           dev aid config ''import'' lbl None False None st = (Inr s, st1)"
  shows "get_head (db st1) dev = Some s"
  using create_result [OF assms] by blast

text \<open>The comparison shows snapshots of the one device and the one account it asks about.\<close>

lemma both_snapshots_scoped:
  "both_snapshots d dev aid a b = Some (x, y) \<Longrightarrow>
     snap_device_id x = dev \<and> snap_device_id y = dev \<and> snap_account_id x = aid \<and> snap_account_id y = aid"
  by (auto simp: both_snapshots_def split: option.splits if_splits)

end
