(* ===== verification/Sso.thy ===== *)
theory Sso
  imports Admin_Login Json_Text
begin

text \<open>
  Single sign-on against an OpenID provider (\<^verbatim>\<open>app/sso.py\<close>): configuration, the signed cookie
  that carries the state and the PKCE verifier, the authorize URL, and the exchange of a
  code for the claims of a verified ID token.

  The provider is a parameter (\<open>oidc_lib\<close>): the answer to the token request (\<open>None\<close> is an
  \<open>httpx.HTTPError\<close>), the unverified header of a token, the key the JWKS names for it, and the
  claims of a token that verifies under a key, an algorithm, an audience and an issuer
  (\<open>None\<close> is a \<open>PyJWTError\<close>).
\<close>

record oidc_lib =
  oidc_post :: "string \<Rightarrow> (string \<times> string) list \<Rightarrow> string \<times> string \<Rightarrow> (nat \<times> string) option"
  oidc_header :: "string \<Rightarrow> (string \<times> json) list option"
  oidc_jwks_key :: "string \<Rightarrow> string \<Rightarrow> string option"
  oidc_decode :: "string \<Rightarrow> string \<Rightarrow> string \<Rightarrow> string \<Rightarrow> instant \<Rightarrow> string \<Rightarrow> (string \<times> json) list option"

type_synonym os_environ = "string \<Rightarrow> string option"

definition STATE_COOKIE :: string where "STATE_COOKIE = ''nks_wdc_sso_state''"
definition STATE_MAX_AGE :: int where "STATE_MAX_AGE = 10 * 60"
definition STATE_SALT :: string where "STATE_SALT = ''nks-wdc-sso-state-v1''"
definition SCOPES :: string where "SCOPES = ''openid email profile groups''"

section \<open>Configuration\<close>

definition sso_env :: "os_environ \<Rightarrow> string \<Rightarrow> string \<Rightarrow> string" where
  "sso_env ev key dflt =
     (let v = (case ev key of None \<Rightarrow> dflt | Some v \<Rightarrow> v) in if v = [] then dflt else py_strip v)"

definition client_id :: "os_environ \<Rightarrow> string" where
  "client_id ev = sso_env ev ''NKS_WDC_SSO_CLIENT_ID'' []"

definition client_secret :: "os_environ \<Rightarrow> string" where
  "client_secret ev = sso_env ev ''NKS_WDC_SSO_CLIENT_SECRET'' []"

definition rstrip_char :: "char \<Rightarrow> string \<Rightarrow> string" where
  "rstrip_char c s = rev (dropWhile (\<lambda>x. x = c) (rev s))"

definition authority :: "os_environ \<Rightarrow> string" where
  "authority ev = rstrip_char (CHR ''/'') (sso_env ev ''NKS_WDC_SSO_AUTHORITY'' ''https://sso.nks-hub.cz'')"

definition app_slug :: "os_environ \<Rightarrow> string" where
  "app_slug ev = sso_env ev ''NKS_WDC_SSO_APP_SLUG'' ''wdc-catalog''"

definition admin_groups :: "os_environ \<Rightarrow> string list" where
  "admin_groups ev =
     (let raw = sso_env ev ''NKS_WDC_SSO_ADMIN_GROUPS'' ''admin,superadmin,superadmin-webs,authentik admins''
      in map (\<lambda>g. py_lower (py_strip g)) (filter (\<lambda>g. py_strip g \<noteq> []) (split_on (CHR '','') raw)))"

definition sso_enabled :: "os_environ \<Rightarrow> bool" where
  "sso_enabled ev \<longleftrightarrow> client_id ev \<noteq> [] \<and> client_secret ev \<noteq> []"

definition authorize_url :: "os_environ \<Rightarrow> string" where
  "authorize_url ev = authority ev @ ''/application/o/authorize/''"

definition token_url :: "os_environ \<Rightarrow> string" where
  "token_url ev = authority ev @ ''/application/o/token/''"

definition jwks_url :: "os_environ \<Rightarrow> string" where
  "jwks_url ev = authority ev @ ''/application/o/'' @ app_slug ev @ ''/jwks/''"

definition issuer :: "os_environ \<Rightarrow> string" where
  "issuer ev = authority ev @ ''/application/o/'' @ app_slug ev @ ''/''"

section \<open>State and proof key\<close>

definition state_json :: "string \<Rightarrow> string \<Rightarrow> string \<Rightarrow> json" where
  "state_json s v r = JObj [(''s'', JStr s), (''v'', JStr v), (''r'', JStr r)]"

definition pack_state :: "admin_cfg \<Rightarrow> instant \<Rightarrow> string \<Rightarrow> string \<Rightarrow> string \<Rightarrow> string" where
  "pack_state cfg now state verifier return_to =
     urlsafe_b64encode (ascii_encode
       (ts_sign (cfg_signer cfg) STATE_SALT now (dumps_default (state_json state verifier return_to))))"

text \<open>A value that is not a dictionary raises \<open>TypeError\<close>, which nothing here catches.\<close>

definition unpack_payload :: "json \<Rightarrow> exn + (string \<times> string \<times> string) option" where
  "unpack_payload d =
     (case d of
        JObj kvs \<Rightarrow>
          (case (map_of kvs ''s'', map_of kvs ''v'') of
             (Some s, Some v) \<Rightarrow> Inr (Some (py_str s, py_str v,
                case map_of kvs ''r'' of None \<Rightarrow> ''/admin'' | Some r \<Rightarrow> py_str r))
           | _ \<Rightarrow> Inr None)
      | _ \<Rightarrow> Inl (PyError ''TypeError''))"

definition unpack_state :: "admin_cfg \<Rightarrow> instant \<Rightarrow> string \<Rightarrow> exn + (string \<times> string \<times> string) option" where
  "unpack_state cfg now cookie =
     (if \<not> is_ascii cookie then Inr None
      else (case urlsafe_b64decode (cookie @ b64_padding cookie) of None \<Rightarrow> Inr None
        | Some bs \<Rightarrow>
          (case ascii_decode bs of None \<Rightarrow> Inr None
           | Some s \<Rightarrow>
             (case ts_unsign (cfg_signer cfg) STATE_SALT now (Some STATE_MAX_AGE) s of None \<Rightarrow> Inr None
              | Some raw \<Rightarrow> (case loads raw of None \<Rightarrow> Inr None | Some d \<Rightarrow> unpack_payload d)))))"

definition pkce_challenge :: "(bytes \<Rightarrow> bytes) \<Rightarrow> string \<Rightarrow> string" where
  "pkce_challenge sha256 verifier =
     rstrip_char (CHR ''='') (urlsafe_b64encode (sha256 (utf8_encode verifier)))"

text \<open>What the SSO routes read of a request beside the common part.\<close>

record sso_request =
  sr_request :: request
  sr_scheme :: string
  sr_forwarded_proto :: "string option"
  sr_host :: "string option"

definition redirect_uri :: "sso_request \<Rightarrow> string" where
  "redirect_uri r =
     (let scheme = (if sr_scheme r \<in> set [''https'', ''wss''] then ''https'' else ''http'');
          scheme2 = (case sr_forwarded_proto r of None \<Rightarrow> scheme
                     | Some fwd \<Rightarrow> if fwd \<in> set [''http'', ''https''] then fwd else scheme)
      in scheme2 @ ''://'' @ (case sr_host r of None \<Rightarrow> ''localhost'' | Some h \<Rightarrow> h) @ ''/auth/sso/callback'')"

section \<open>URL quoting\<close>

definition upper_hex :: "nat \<Rightarrow> char" where
  "upper_hex d = (if d < 10 then char_of (48 + d) else char_of (55 + d))"

definition is_unreserved :: "char \<Rightarrow> bool" where
  "is_unreserved c \<longleftrightarrow> is_digit c \<or> (let n = char_code c in 65 \<le> n \<and> n \<le> 90 \<or> 97 \<le> n \<and> n \<le> 122)
     \<or> c \<in> set ''_.-~''"

definition quote_byte :: "8 word \<Rightarrow> string" where
  "quote_byte b =
     (let c = char_of (unat b :: nat) in
      if is_unreserved c then [c] else [CHR ''%'', upper_hex (unat b div 16), upper_hex (unat b mod 16)])"

text \<open>\<open>urllib.parse.quote(s, safe="")\<close>, and \<open>quote_plus\<close>, which \<open>urlencode\<close> uses.\<close>

definition url_quote :: "string \<Rightarrow> string" where
  "url_quote s = concat (map quote_byte (utf8_encode s))"

definition quote_plus :: "string \<Rightarrow> string" where
  "quote_plus s = concat (map (\<lambda>c. if c = CHR '' '' then ''+'' else url_quote [c]) s)"

definition urlencode :: "(string \<times> string) list \<Rightarrow> string" where
  "urlencode params = join_with ''&'' (map (\<lambda>(k, v). quote_plus k @ ''='' @ quote_plus v) params)"

section \<open>The flow\<close>

definition DESKTOP_LINK :: string where "DESKTOP_LINK = ''wdc://auth-callback''"

definition authorize_params ::
  "os_environ \<Rightarrow> (bytes \<Rightarrow> bytes) \<Rightarrow> sso_request \<Rightarrow> string \<Rightarrow> string \<Rightarrow> string \<Rightarrow> (string \<times> string) list" where
  "authorize_params ev sha256 r state verifier return_to =
     [(''client_id'', client_id ev), (''response_type'', ''code''), (''redirect_uri'', redirect_uri r),
      (''scope'', SCOPES), (''state'', state), (''code_challenge'', pkce_challenge sha256 verifier),
      (''code_challenge_method'', ''S256'')]
     @ (if return_to = DESKTOP_LINK then [(''prompt'', ''login'')] else [])"

text \<open>The authorize URL and the cookie; state and verifier are what \<open>token_urlsafe\<close> gave.\<close>

definition build_authorize_url ::
  "admin_cfg \<Rightarrow> os_environ \<Rightarrow> (bytes \<Rightarrow> bytes) \<Rightarrow> instant \<Rightarrow> string \<Rightarrow> string \<Rightarrow> sso_request \<Rightarrow> string
     \<Rightarrow> string \<times> (string \<times> string)" where
  "build_authorize_url cfg ev sha256 now state verifier r return_to =
     (authorize_url ev @ ''?'' @ urlencode (authorize_params ev sha256 r state verifier return_to),
      (STATE_COOKIE, pack_state cfg now state verifier return_to))"

record sso_claims =
  sso_email :: string
  sso_preferred_username :: string
  sso_groups :: "string list"
  sso_sub :: string
  sso_name :: string
  sso_raw :: "(string \<times> json) list"

text \<open>The callback catches \<open>SSOError\<close> and nothing else.\<close>

datatype sso_failure = SSOError string | Uncaught exn

definition claim :: "(string \<times> json) list \<Rightarrow> string \<Rightarrow> string \<Rightarrow> string" where
  "claim claims k dflt = (case map_of claims k of None \<Rightarrow> dflt | Some j \<Rightarrow> py_str j)"

text \<open>Iterating the groups: a string gives its characters, a dictionary its keys.\<close>

definition claim_groups :: "(string \<times> json) list \<Rightarrow> exn + string list" where
  "claim_groups claims =
     (case map_of claims ''groups'' of None \<Rightarrow> Inr []
      | Some (JList js) \<Rightarrow> Inr (map py_str js)
      | Some (JStr s) \<Rightarrow> Inr (map (\<lambda>c. [c]) s)
      | Some (JObj kvs) \<Rightarrow> Inr (map fst kvs)
      | Some _ \<Rightarrow> Inl (PyError ''TypeError''))"

text \<open>The key the token has to verify under, by the algorithm its own header names.\<close>

definition token_key :: "oidc_lib \<Rightarrow> os_environ \<Rightarrow> string \<Rightarrow> string \<Rightarrow> string option" where
  "token_key ol ev alg id_token =
     (if prefix ''HS'' alg then Some (client_secret ev) else oidc_jwks_key ol (jwks_url ev) id_token)"

definition verify_id_token ::
  "oidc_lib \<Rightarrow> os_environ \<Rightarrow> instant \<Rightarrow> string \<Rightarrow> sso_failure + (string \<times> json) list" where
  "verify_id_token ol ev now id_token =
     (case oidc_header ol id_token of None \<Rightarrow> Inl (SSOError ''id_token verification failed'')
      | Some header \<Rightarrow>
        (case (case map_of header ''alg'' of None \<Rightarrow> JStr ''HS256'' | Some a \<Rightarrow> a) of
           JStr alg \<Rightarrow>
             (case token_key ol ev alg id_token of None \<Rightarrow> Inl (SSOError ''id_token verification failed'')
              | Some key \<Rightarrow>
                (case oidc_decode ol key alg (client_id ev) (issuer ev) now id_token of
                   None \<Rightarrow> Inl (SSOError ''id_token verification failed'')
                 | Some claims \<Rightarrow> Inr claims))
         | _ \<Rightarrow> Inl (Uncaught (PyError ''AttributeError''))))"

definition claims_of :: "(string \<times> json) list \<Rightarrow> sso_failure + sso_claims" where
  "claims_of claims =
     (let email = py_lower (py_strip (claim claims ''email'' [])) in
      if email = [] then Inl (SSOError ''id_token has no email claim'')
      else (case claim_groups claims of Inl e \<Rightarrow> Inl (Uncaught e)
            | Inr groups \<Rightarrow>
              Inr \<lparr>sso_email = email, sso_preferred_username = py_strip (claim claims ''preferred_username'' email),
                   sso_groups = groups, sso_sub = claim claims ''sub'' [], sso_name = claim claims ''name'' [],
                   sso_raw = claims\<rparr>))"

text \<open>The form of the token request.\<close>

definition token_form :: "sso_request \<Rightarrow> string \<Rightarrow> string \<Rightarrow> (string \<times> string) list" where
  "token_form r code verifier =
     [(''grant_type'', ''authorization_code''), (''code'', code), (''redirect_uri'', redirect_uri r),
      (''code_verifier'', verifier)]"

text \<open>The ID token in the answer of the token endpoint.\<close>

definition id_token_of :: "(nat \<times> string) option \<Rightarrow> sso_failure + json" where
  "id_token_of answer =
     (case answer of None \<Rightarrow> Inl (SSOError ''token endpoint unreachable'')
      | Some (status, text) \<Rightarrow>
        if status \<noteq> 200 then Inl (SSOError ''token endpoint refused'')
        else (case loads text of None \<Rightarrow> Inl (Uncaught (ValueError ''JSONDecodeError''))
              | Some (JObj tok) \<Rightarrow>
                  (case map_of tok ''id_token'' of None \<Rightarrow> Inl (SSOError ''id_token missing from token response'')
                   | Some j \<Rightarrow> if json_truthy j then Inr j else Inl (SSOError ''id_token missing from token response''))
              | Some _ \<Rightarrow> Inl (Uncaught (PyError ''AttributeError''))))"

text \<open>A token that is not a string is refused by the library while it reads the header.\<close>

definition redeem :: "oidc_lib \<Rightarrow> os_environ \<Rightarrow> instant \<Rightarrow> sso_request \<Rightarrow> string \<Rightarrow> string \<Rightarrow> sso_failure + sso_claims" where
  "redeem ol ev now r code verifier =
     (case id_token_of (oidc_post ol (token_url ev) (token_form r code verifier) (client_id ev, client_secret ev)) of
        Inl e \<Rightarrow> Inl e
      | Inr (JStr id_token) \<Rightarrow>
          (case verify_id_token ol ev now id_token of Inl e \<Rightarrow> Inl e | Inr claims \<Rightarrow> claims_of claims)
      | Inr _ \<Rightarrow> Inl (SSOError ''id_token verification failed''))"

definition exchange_code ::
  "oidc_lib \<Rightarrow> admin_cfg \<Rightarrow> os_environ \<Rightarrow> instant \<Rightarrow> sso_request \<Rightarrow> string \<Rightarrow> string \<Rightarrow> string option
     \<Rightarrow> sso_failure + sso_claims \<times> string" where
  "exchange_code ol cfg ev now r code state_param state_cookie =
     (if \<not> truthy state_cookie then Inl (SSOError ''missing state cookie'')
      else (case unpack_state cfg now (the state_cookie) of
          Inl e \<Rightarrow> Inl (Uncaught e)
        | Inr None \<Rightarrow> Inl (SSOError ''state cookie invalid or expired'')
        | Inr (Some (stored_state, verifier, return_to)) \<Rightarrow>
          (case compare_digest stored_state state_param of
             Inl e \<Rightarrow> Inl (Uncaught e)
           | Inr same \<Rightarrow>
             if \<not> same then Inl (SSOError ''state mismatch'')
             else (case redeem ol ev now r code verifier of Inl e \<Rightarrow> Inl e | Inr c \<Rightarrow> Inr (c, return_to)))))"

definition is_admin_group :: "os_environ \<Rightarrow> string list \<Rightarrow> bool" where
  "is_admin_group ev groups =
     list_ex (\<lambda>g. g \<noteq> [] \<and> py_strip (py_lower g) \<in> set (admin_groups ev)) groups"

section \<open>The state cookie\<close>

lemma is_ascii_dumps_state: "is_ascii (dumps_default (state_json s v r))"
proof -
  have d: "is_ascii (dumps_str x)" for x by (auto simp: is_ascii_def list_all_iff dest: ascii_dumps_str)
  show ?thesis unfolding state_json_def by (simp add: d char_code_def)
qed

lemma state_wf: "json_wf (state_json s v r)"
  by (simp add: state_json_def)

lemma state_roundtrip:
  assumes "signer_ok (cfg_signer cfg)" "t \<le> now"
  shows "unpack_state cfg now (pack_state cfg t s v r) = Inr (if now - t \<le> STATE_MAX_AGE then Some (s, v, r) else None)"
proof -
  have a: "is_ascii (dumps_default (state_json s v r))" by (rule is_ascii_dumps_state)
  have l: "loads (dumps_default (state_json s v r)) = Some (state_json s v r)"
    by (rule loads_dumps_default [OF state_wf])
  have payload: "unpack_payload (state_json s v r) = Inr (Some (s, v, r))"
    by (simp add: unpack_payload_def state_json_def py_str_def)
  show ?thesis
    using wrapped_text [OF assms(1) a, of STATE_SALT t] l
    unsign_sign(1) [OF assms(1) a assms(2)] payload
    by (simp add: unpack_state_def pack_state_def)
qed

lemma pack_state_nonempty:
  "signer_ok (cfg_signer cfg) \<Longrightarrow> pack_state cfg t s v r \<noteq> []"
  using wrapped_text(1) [OF _ is_ascii_dumps_state] by (simp add: pack_state_def)

text \<open>With the cookie of the login, the callback's outcome depends on the state, the age and the provider alone.\<close>

lemma exchange_code_decides:
  assumes "signer_ok (cfg_signer cfg)" "is_ascii s" "is_ascii s'" "t \<le> now"
  shows "exchange_code ol cfg ev now req code s' (Some (pack_state cfg t s v r)) =
    (if STATE_MAX_AGE < now - t then Inl (SSOError ''state cookie invalid or expired'')
     else if s' \<noteq> s then Inl (SSOError ''state mismatch'')
     else (case redeem ol ev now req code v of Inl e \<Rightarrow> Inl e | Inr c \<Rightarrow> Inr (c, r)))"
  using assms pack_state_nonempty [OF assms(1), of t]
  by (auto simp: exchange_code_def state_roundtrip compare_digest_def is_ascii_def)

lemma exchange_code_Inr:
  assumes "exchange_code ol cfg ev now r code state_param cookie = Inr (c, return_to)"
  obtains verifier where "truthy cookie" "unpack_state cfg now (the cookie) = Inr (Some (state_param, verifier, return_to))"
    "redeem ol ev now r code verifier = Inr c"
  using assms
  by (auto simp: exchange_code_def compare_digest_def split: if_splits sum.splits option.splits prod.splits)

lemma redeem_Inr:
  assumes "redeem ol ev now r code verifier = Inr c"
  obtains body tok id_token alg key where
    "oidc_post ol (token_url ev) (token_form r code verifier) (client_id ev, client_secret ev) = Some (200, body)"
    "loads body = Some (JObj tok)" "map_of tok ''id_token'' = Some (JStr id_token)"
    "token_key ol ev alg id_token = Some key"
    "oidc_decode ol key alg (client_id ev) (issuer ev) now id_token = Some (sso_raw c)"
    "sso_email c = py_lower (py_strip (claim (sso_raw c) ''email'' []))" "sso_email c \<noteq> []"
  using assms
  by (auto simp: redeem_def id_token_of_def verify_id_token_def claims_of_def Let_def
      split: if_splits sum.splits option.splits prod.splits json.splits)

end
