(* ===== verification/Sso_Login.thy ===== *)
theory Sso_Login
  imports Sso
begin

text \<open>
  The single sign-on routes (\<^verbatim>\<open>auth_sso_login\<close> and \<^verbatim>\<open>auth_sso_callback\<close> of \<^verbatim>\<open>app/api_auth_ui.py\<close>): the
  redirect to the provider, and the callback that turns verified claims into a local user, a
  session and, for the desktop application, an account and a token.
\<close>

record sso_world =
  sw_oidc :: oidc_lib
  sw_cfg :: admin_cfg
  sw_environ :: os_environ
  sw_sha256 :: "bytes \<Rightarrow> bytes"
  sw_env :: environment
  sw_lookup :: lookup_lib
  sw_bc :: bcrypt_lib
  sw_jwt :: jwt_lib
  sw_salt :: string
  sw_uuid :: string
  sw_random :: string
  sw_jti :: string

text \<open>The random values are those of one request: salt, session id, password and token id.\<close>

definition sso_not_found :: exn where
  "sso_not_found = HTTPException 404 ''Not Found''"

definition sso_failed :: ui_response where
  "sso_failed = ui_redirect ''/login?error=sso_failed''"

definition return_target :: "string \<Rightarrow> string" where
  "return_target uri = (if uri = DESKTOP_LINK then uri else ''/admin'')"

definition auth_sso_login ::
  "sso_world \<Rightarrow> instant \<Rightarrow> string \<Rightarrow> string \<Rightarrow> sso_request \<Rightarrow> string \<Rightarrow> exn + ui_response" where
  "auth_sso_login w now state verifier r redirect =
     (if \<not> sso_enabled (sw_environ w) then Inl sso_not_found
      else (case build_authorize_url (sw_cfg w) (sw_environ w) (sw_sha256 w) now state verifier r (return_target redirect) of
              (url, cookie) \<Rightarrow> Inr ((ui_redirect url)\<lparr>ui_status := 302, ui_cookies := [cookie]\<rparr>)))"

section \<open>The callback\<close>

text \<open>\<open>re.sub(r"[^a-zA-Z0-9_.-]+", "", local).lower() or "sso-user"\<close>\<close>

definition username_char :: "char \<Rightarrow> bool" where
  "username_char c \<longleftrightarrow> is_lower_alnum (char_lower c) \<or> c \<in> set ''_.-''"

definition local_username :: "string \<Rightarrow> string" where
  "local_username email =
     (let u = py_lower (filter username_char (takeWhile (\<lambda>c. c \<noteq> CHR ''@'') email))
      in if u = [] then ''sso-user'' else u)"

definition sso_user :: "sso_world \<Rightarrow> instant \<Rightarrow> string \<Rightarrow> database \<Rightarrow> user_row" where
  "sso_user w now username d =
     \<lparr>usr_id = env_alloc (sw_env w) (map usr_id (users d)), usr_username = username,
      usr_password_hash = hashpw (sw_bc w) (sw_random w) (sw_salt w), usr_created_at = now, usr_last_login_at = None\<rparr>"

text \<open>The user, whether it was created, and the state.\<close>

definition upsert_user :: "sso_world \<Rightarrow> instant \<Rightarrow> string \<Rightarrow> app_state \<Rightarrow> user_row \<times> bool \<times> app_state" where
  "upsert_user w now username st =
     (case find_user username (db st) of
        Some user \<Rightarrow> (user, False, st)
      | None \<Rightarrow> (let user = sso_user w now username (db st)
                in (user, True, st\<lparr>db := (db st)\<lparr>users := row_add user (users (db st))\<rparr>\<rparr>)))"

definition mirrored_role :: "sso_world \<Rightarrow> sso_claims \<Rightarrow> string" where
  "mirrored_role w c = (if is_admin_group (sw_environ w) (sso_groups c) then ''admin'' else ''readonly'')"

text \<open>The role of the paired account, if there is one, follows the provider's groups.\<close>

definition mirror_role :: "sso_world \<Rightarrow> string \<Rightarrow> sso_claims \<Rightarrow> app_state \<Rightarrow> app_state" where
  "mirror_role w username c st =
     (case paired_account (sw_lookup w) (db st) username of None \<Rightarrow> st
      | Some acct \<Rightarrow> if acc_role acct \<noteq> mirrored_role w c then put_account (acct\<lparr>acc_role := mirrored_role w c\<rparr>) st else st)"

definition login_sso_detail :: "sso_world \<Rightarrow> sso_claims \<Rightarrow> bool \<Rightarrow> json" where
  "login_sso_detail w c created =
     JObj [(''email'', JStr (sso_email c)), (''groups'', JList (map JStr (sso_groups c))),
       (''issuer'', JStr (authority (sw_environ w))), (''created'', JBool created), (''role'', JStr (mirrored_role w c))]"

text \<open>The desktop application's account, created or brought in line with the groups, and its token.\<close>

definition desktop_role :: "sso_world \<Rightarrow> sso_claims \<Rightarrow> string" where
  "desktop_role w c = (if is_admin_group (sw_environ w) (sso_groups c) then ''admin'' else ''user'')"

definition desktop_account :: "sso_world \<Rightarrow> instant \<Rightarrow> sso_claims \<Rightarrow> app_state \<Rightarrow> account \<times> app_state" where
  "desktop_account w now c st =
     (let email = py_lower (py_strip (sso_email c)) in
      case find_email email (db st) of
        None \<Rightarrow>
          (let acct = (new_account (env_alloc (sw_env w) (map acc_id (accounts (db st)))) now email
                         (hashpw (sw_bc w) (sw_random w) (sw_salt w)))
                      \<lparr>acc_role := desktop_role w c, acc_last_login_at := Some now\<rparr>
           in (acct, st\<lparr>db := (db st)\<lparr>accounts := row_add acct (accounts (db st))\<rparr>\<rparr>))
      | Some found \<Rightarrow>
          (let acct = found\<lparr>acc_role := desktop_role w c, acc_last_login_at := Some now\<rparr>
           in (acct, put_account acct st)))"

definition desktop_token :: "sso_world \<Rightarrow> instant \<Rightarrow> account \<Rightarrow> string" where
  "desktop_token w now acct =
     create_jwt (sw_jwt w) now (sw_jti w) (acc_id acct) (acc_email acct)
       (if acc_token_version acct = 0 then 1 else acc_token_version acct)"

definition desktop_sign_in :: "sso_world \<Rightarrow> instant \<Rightarrow> sso_claims \<Rightarrow> ui_response handler" where
  "desktop_sign_in w now c st =
     (if py_lower (py_strip (sso_email c)) = [] then (Inr sso_failed, st)
      else (let (acct, st1) = desktop_account w now c st in
        (Inr ((ui_redirect (DESKTOP_LINK @ ''?token='' @ url_quote (desktop_token w now acct)))\<lparr>ui_deleted := [STATE_COOKIE]\<rparr>),
         commit st1)))"

definition safe_return :: "string \<Rightarrow> string" where
  "safe_return r = (if prefix ''/admin'' r then r else ''/admin'')"

text \<open>From the claims on: user, role, audit row, commit, session, answer.\<close>

definition sso_sign_in :: "sso_world \<Rightarrow> instant \<Rightarrow> request \<Rightarrow> sso_claims \<Rightarrow> string \<Rightarrow> ui_response handler" where
  "sso_sign_in w now req c return_to st =
     (let username = local_username (sso_email c);
          (user, created, st1) = upsert_user w now username st;
          st2 = mirror_role w username c st1;
          st3 = emit (sw_env w) now None ''login.sso'' (Some req) (Some ''user'') (Some (show_int (usr_id user)))
                  (Some (login_sso_detail w c created)) st2
      in case issue_session (sw_cfg w) (sw_env w) now (sw_uuid w) None True (Some req) (usr_username user) (commit st3) of
           (Inl e, st4) \<Rightarrow> (Inl e, st4)
         | (Inr token, st4) \<Rightarrow>
             if return_to = DESKTOP_LINK then desktop_sign_in w now c st4
             else (Inr ((with_session_cookie token (ui_redirect (safe_return return_to)))\<lparr>ui_deleted := [STATE_COOKIE]\<rparr>), st4))"

definition auth_sso_callback ::
  "sso_world \<Rightarrow> instant \<Rightarrow> sso_request \<Rightarrow> string \<Rightarrow> string \<Rightarrow> string \<Rightarrow> string option \<Rightarrow> ui_response handler" where
  "auth_sso_callback w now r code state error cookie st =
     (if \<not> sso_enabled (sw_environ w) then (Inl sso_not_found, st)
      else if error \<noteq> [] \<or> code = [] \<or> state = [] then (Inr sso_failed, st)
      else (case exchange_code (sw_oidc w) (sw_cfg w) (sw_environ w) now r code state cookie of
              Inl (SSOError _) \<Rightarrow> (Inr sso_failed, st)
            | Inl (Uncaught e) \<Rightarrow> (Inl e, st)
            | Inr (c, return_to) \<Rightarrow> sso_sign_in w now (sr_request r) c return_to st))"

section \<open>Facts\<close>

lemma safe_return_prefix: "prefix ''/admin'' (safe_return r)"
  by (simp add: safe_return_def)

text \<open>
  The login's cookie and the callback fit together: with it, only the age of the cookie, the
  state and the provider's answer decide, and every refusal leaves the state alone.
\<close>

lemma login_cookie:
  assumes "auth_sso_login w t state verifier r redirect = Inr resp"
  shows "ui_cookies resp = [(STATE_COOKIE, pack_state (sw_cfg w) t state verifier (return_target redirect))]"
    and "sso_enabled (sw_environ w)"
  using assms by (auto simp: auth_sso_login_def build_authorize_url_def split: if_splits)

lemma sso_flow_decides:
  assumes "signer_ok (cfg_signer (sw_cfg w))" and "is_ascii state" "is_ascii state'" "t \<le> now"
    and "auth_sso_login w t state verifier r redirect = Inr resp" and "ui_cookies resp = [(STATE_COOKIE, cookie)]"
    and "code \<noteq> []" "state' \<noteq> []"
  shows "auth_sso_callback w now r' code state' [] (Some cookie) st =
    (if STATE_MAX_AGE < now - t \<or> state' \<noteq> state then (Inr sso_failed, st)
     else (case redeem (sw_oidc w) (sw_environ w) now r' code verifier of
             Inl (SSOError _) \<Rightarrow> (Inr sso_failed, st)
           | Inl (Uncaught e) \<Rightarrow> (Inl e, st)
           | Inr c \<Rightarrow> sso_sign_in w now (sr_request r') c (return_target redirect) st))"
proof -
  note l = login_cookie [OF assms(5)]
  have c: "cookie = pack_state (sw_cfg w) t state verifier (return_target redirect)" using l(1) assms(6) by simp
  note d = exchange_code_decides [OF assms(1-4), of "sw_oidc w" "sw_environ w" r' code verifier "return_target redirect"]
  show ?thesis
    using l(2) assms(7,8) unfolding auth_sso_callback_def c d
    by (auto split: sum.split sso_failure.split)
qed

section \<open>Whose session it is\<close>

lemma username_char_lower: "username_char c \<Longrightarrow> is_lower_alnum (char_lower c) \<or> char_lower c \<in> set ''_.-''"
  by (auto simp: username_char_def char_lower_def char_code_def)

lemma local_username_chars: "c \<in> set (local_username email) \<Longrightarrow> is_lower_alnum c \<or> c \<in> set ''_.-''"
proof -
  have d: "list_all (\<lambda>c. is_lower_alnum c \<or> c \<in> set ''_.-'') ''sso-user''" by code_simp
  assume "c \<in> set (local_username email)"
  then show ?thesis
    using username_char_lower d
    by (fastforce simp: local_username_def py_lower_def Let_def list_all_iff split: if_splits)
qed

lemma local_username_ascii: "is_ascii (local_username email)" "CHR ''|'' \<notin> set (local_username email)"
proof -
  have a: "char_code c < 128 \<and> c \<noteq> CHR ''|''" if "is_lower_alnum c \<or> c \<in> set ''_.-''" for c
    using that by (auto simp: is_lower_alnum_def is_digit_def char_code_def)
  then show "is_ascii (local_username email)" "CHR ''|'' \<notin> set (local_username email)"
    using local_username_chars by (auto simp: is_ascii_def list_all_iff)
qed

lemma issue_session_reads_back:
  assumes "signer_ok (cfg_signer cfg)" "is_ascii u" "CHR ''|'' \<notin> set u" "is_ascii uuid" "uuid \<noteq> []"
    and "0 \<le> cfg_max_age cfg" "0 \<le> cfg_idle cfg"
    and "issue_session cfg env now uuid None True req u st = (Inr tok, st')"
  shows "read_session cfg now (Some tok) = Inr (Some u)"
proof -
  have a: "is_ascii (u @ ''|'' @ uuid)" using assms by simp
  have "tok = ts_sign (cfg_signer cfg) SESSION_SALT now (u @ ''|'' @ uuid)"
    using assms(8) a by (auto simp: issue_session_def Let_def split: sum.splits)
  with unsign_sign(1) [OF assms(1) a order_refl [of now], of SESSION_SALT "min (cfg_max_age cfg) (cfg_idle cfg)"]
    unsign_sign(3) [OF assms(1) a, of SESSION_SALT now] split_payload [OF assms(3,5)] assms(6,7)
  show ?thesis by (simp add: read_session_def del: append_Cons)
qed

lemma find_email_put:
  "find_email e (db st) = Some a \<Longrightarrow> acc_id a' = acc_id a \<Longrightarrow> acc_email a' = e
    \<Longrightarrow> find_email e (db (put_account a' st)) = Some a'"
proof -
  have "find (\<lambda>a. acc_email a = e) xs = Some a \<Longrightarrow> acc_id a' = acc_id a \<Longrightarrow> acc_email a' = e
    \<Longrightarrow> find (\<lambda>a. acc_email a = e) (row_set acc_id (acc_id a') (\<lambda>_. a') xs) = Some a'" for xs
    by (induction xs) (auto simp: row_set_def split: if_splits)
  then show "find_email e (db st) = Some a \<Longrightarrow> acc_id a' = acc_id a \<Longrightarrow> acc_email a' = e
    \<Longrightarrow> find_email e (db (put_account a' st)) = Some a'"
    by (simp add: find_email_def put_account_def)
qed

lemma find_email_SomeD: "find_email e d = Some a \<Longrightarrow> acc_email a = e"
  by (auto simp: find_email_def find_Some_iff)

lemma find_row_add: "find P xs = None \<Longrightarrow> P a \<Longrightarrow> find P (row_add a xs) = Some a"
  by (induction xs) (auto simp: row_add_def split: if_splits)

lemma desktop_account_found:
  assumes "desktop_account w now c st = (acct, st1)"
  shows "find_email (py_lower (py_strip (sso_email c))) (db st1) = Some acct"
    and "acc_role acct = desktop_role w c" and "users (db st1) = users (db st)"
proof -
  let ?e = "py_lower (py_strip (sso_email c))"
  have "find_email ?e (db st1) = Some acct \<and> acc_role acct = desktop_role w c \<and> users (db st1) = users (db st)"
  proof (cases "find_email ?e (db st)")
    case None
    with assms show ?thesis
      by (auto simp: desktop_account_def Let_def new_account_def find_email_def find_row_add)
  next
    case (Some found)
    let ?a = "found\<lparr>acc_role := desktop_role w c, acc_last_login_at := Some now\<rparr>"
    have "acct = ?a" "st1 = put_account ?a st" using assms Some by (auto simp: desktop_account_def Let_def)
    moreover have "find_email ?e (db (put_account ?a st)) = Some ?a"
      by (rule find_email_put [OF Some]) (simp_all add: find_email_SomeD [OF Some])
    ultimately show ?thesis by (simp add: put_account_def)
  qed
  then show "find_email ?e (db st1) = Some acct" "acc_role acct = desktop_role w c" "users (db st1) = users (db st)"
    by simp_all
qed

lemma upsert_user_found:
  assumes "upsert_user w now username st = (user, created, st1)"
  shows "find_user username (db st1) = Some user" and "usr_username user = username"
proof -
  have "find_user username (db st1) = Some user \<and> usr_username user = username"
  proof (cases "find_user username (db st)")
    case None
    then have "find (\<lambda>u. usr_username u = username) (row_add (sso_user w now username (db st)) (users (db st)))
        = Some (sso_user w now username (db st))"
      by (intro find_row_add) (simp_all add: find_user_def sso_user_def)
    with None assms show ?thesis by (auto simp: upsert_user_def Let_def find_user_def sso_user_def)
  next
    case (Some u)
    then have "usr_username u = username" by (auto simp: find_user_def find_Some_iff)
    with Some assms show ?thesis by (simp add: upsert_user_def)
  qed
  then show "find_user username (db st1) = Some user" "usr_username user = username" by simp_all
qed

lemma mirror_role_users [simp]: "users (db (mirror_role w u c st)) = users (db st)"
  by (simp add: mirror_role_def put_account_def split: option.split)

lemma sso_sign_in_cases:
  assumes "sso_sign_in w now req c return_to st = (Inr resp, st')"
  obtains user tok st4 where "usr_username user = local_username (sso_email c)" "find_user (local_username (sso_email c)) (db st4) = Some user"
    "\<exists>st3. issue_session (sw_cfg w) (sw_env w) now (sw_uuid w) None True (Some req) (usr_username user) st3 = (Inr tok, st4)"
    "if return_to = DESKTOP_LINK then desktop_sign_in w now c st4 = (Inr resp, st')
     else resp = (with_session_cookie tok (ui_redirect (safe_return return_to)))\<lparr>ui_deleted := [STATE_COOKIE]\<rparr> \<and> st' = st4"
proof -
  obtain user created st1 where u: "upsert_user w now (local_username (sso_email c)) st = (user, created, st1)"
    by (metis prod_cases3)
  let ?st3 = "commit (emit (sw_env w) now None ''login.sso'' (Some req) (Some ''user'') (Some (show_int (usr_id user)))
      (Some (login_sso_detail w c created)) (mirror_role w (local_username (sso_email c)) c st1))"
  obtain out st4 where i: "issue_session (sw_cfg w) (sw_env w) now (sw_uuid w) None True (Some req) (usr_username user) ?st3 = (out, st4)"
    by (metis prod.exhaust)
  from assms u i obtain tok where t: "out = Inr tok"
    by (auto simp: sso_sign_in_def Let_def split: sum.splits)
  have "users (db st4) = users (db st1)"
    using issue_session_db [OF i] by (simp add: commit_def db_emit)
  with upsert_user_found [OF u] have f: "find_user (local_username (sso_email c)) (db st4) = Some user" "usr_username user = local_username (sso_email c)"
    by (simp_all add: find_user_def)
  have r: "if return_to = DESKTOP_LINK then desktop_sign_in w now c st4 = (Inr resp, st')
     else resp = (with_session_cookie tok (ui_redirect (safe_return return_to)))\<lparr>ui_deleted := [STATE_COOKIE]\<rparr> \<and> st' = st4"
    using assms u i t by (auto simp: sso_sign_in_def Let_def split: if_splits)
  show ?thesis using that [OF f(2,1) _ r] i t by blast
qed

lemma desktop_sign_in_cases:
  assumes "desktop_sign_in w now c st = (Inr resp, st')" and "resp \<noteq> sso_failed"
  obtains acct where "find_email (py_lower (py_strip (sso_email c))) (db st') = Some acct" "acc_role acct = desktop_role w c"
    "ui_location resp = Some (DESKTOP_LINK @ ''?token='' @ url_quote (desktop_token w now acct))" "ui_cookies resp = []"
    "users (db st') = users (db st)"
proof -
  obtain acct st1 where d: "desktop_account w now c st = (acct, st1)" by (metis prod.exhaust)
  with assms have "resp = (ui_redirect (DESKTOP_LINK @ ''?token='' @ url_quote (desktop_token w now acct)))\<lparr>ui_deleted := [STATE_COOKIE]\<rparr>"
      "st' = commit st1"
    by (auto simp: desktop_sign_in_def split: if_splits)
  with desktop_account_found [OF d] that [of acct] show ?thesis by (simp add: commit_def ui_redirect_def)
qed


text \<open>A provider that answers every code with the same token.\<close>

definition demo_claims_sso :: "(string \<times> json) list" where
  "demo_claims_sso = [(''email'', JStr ''Ann@example.org''), (''groups'', JList [JStr ''staff''])]"

definition demo_oidc :: oidc_lib where
  "demo_oidc = \<lparr>oidc_post = (\<lambda>url form auth. Some (200, dumps_default (JObj [(''id_token'', JStr ''t'')]))),
     oidc_header = (\<lambda>t. Some [(''alg'', JStr ''HS256'')]), oidc_jwks_key = (\<lambda>url t. None),
     oidc_decode = (\<lambda>key alg aud iss now t. Some demo_claims_sso)\<rparr>"

definition demo_sso :: sso_world where
  "demo_sso = \<lparr>sw_oidc = demo_oidc, sw_cfg = demo_cfg,
     sw_environ = (\<lambda>k. if k \<in> set [''NKS_WDC_SSO_CLIENT_ID'', ''NKS_WDC_SSO_CLIENT_SECRET''] then Some ''x'' else None),
     sw_sha256 = (\<lambda>bs. bs), sw_env = demo_env, sw_lookup = demo_lookup, sw_bc = demo_bcrypt, sw_jwt = demo_jwt demo_claims,
     sw_salt = ''s'', sw_uuid = ''sid'', sw_random = ''rnd'', sw_jti = ''j''\<rparr>"

definition demo_sso_request :: sso_request where
  "demo_sso_request = \<lparr>sr_request = demo_request, sr_scheme = ''https'', sr_forwarded_proto = None, sr_host = Some ''wdc''\<rparr>"

lemma demo_sso_redeem:
  "redeem (sw_oidc demo_sso) (sw_environ demo_sso) now demo_sso_request code v =
     Inr \<lparr>sso_email = ''ann@example.org'', sso_preferred_username = ''ann@example.org'', sso_groups = [''staff''],
           sso_sub = [], sso_name = [], sso_raw = demo_claims_sso\<rparr>"
proof -
  have l: "loads (dumps_default (JObj [(''id_token'', JStr ''t'')])) = Some (JObj [(''id_token'', JStr ''t'')])"
    by (rule loads_dumps_default) simp
  have e: "py_lower (py_strip ''Ann@example.org'') = ''ann@example.org''" "py_strip ''ann@example.org'' = ''ann@example.org''"
    by code_simp+
  show ?thesis
    by (simp add: redeem_def id_token_of_def verify_id_token_def token_key_def claims_of_def claim_def claim_groups_def
        py_str_def demo_sso_def demo_oidc_def l e Let_def demo_claims_sso_def del: dumps_default.simps)
qed

lemma demo_sso_enabled: "sso_enabled (sw_environ demo_sso)"
  by code_simp

lemma issue_demo_any:
  "is_ascii u \<Longrightarrow> \<exists>tok st'. issue_session demo_cfg demo_env 100 ''sid'' None True (Some demo_request) u st = (Inr tok, st')"
proof -
  assume "is_ascii u"
  moreover have "is_ascii (''|'' @ ''sid'')" by code_simp
  ultimately have "is_ascii (u @ ''|'' @ ''sid'')" by simp
  then show ?thesis by (auto simp: issue_session_def Let_def split: sum.splits)
qed

lemma sso_sign_in_browser:
  assumes "sw_cfg w = demo_cfg" "sw_env w = demo_env" "sw_uuid w = ''sid''"
  shows "\<exists>resp st'. sso_sign_in w 100 demo_request c ''/admin'' st = (Inr resp, st') \<and> resp \<noteq> sso_failed
    \<and> SESSION_COOKIE \<in> fst ` set (ui_cookies resp)"
proof -
  let ?u = "local_username (sso_email c)"
  obtain user created st1 where u: "upsert_user w 100 ?u st = (user, created, st1)" by (metis prod_cases3)
  have n: "usr_username user = ?u" by (rule upsert_user_found [OF u])
  have d: "''/admin'' \<noteq> DESKTOP_LINK" "prefix ''/admin'' ''/admin''" by (simp_all add: DESKTOP_LINK_def)
  have no: "issue_session demo_cfg demo_env 100 ''sid'' None True (Some demo_request) ?u s \<noteq> (Inl e, y)" for s e y
    using issue_demo_any [OF local_username_ascii(1) [of "sso_email c"], of s] by auto
  show ?thesis
    using assms u n d no
    by (auto simp: sso_sign_in_def Let_def sso_failed_def with_session_cookie_def ui_redirect_def split: sum.splits prod.splits)
qed


section \<open>What the callback does not look at\<close>

text \<open>The groups decide the role of an account that exists, not whether there is a session.\<close>

lemma session_whatever_groups:
  assumes "sso_sign_in w now req c ''/admin'' st = (Inr resp, st')"
  shows "SESSION_COOKIE \<in> fst ` set (ui_cookies resp)"
proof -
  have d: "''/admin'' \<noteq> DESKTOP_LINK" by (simp add: DESKTOP_LINK_def)
  show ?thesis
    by (rule sso_sign_in_cases [OF assms]) (simp add: d with_session_cookie_def ui_redirect_def)
qed

text \<open>Two emails with the same local part are the same user, the bootstrap administrator included.\<close>

lemma local_part_decides:
  "local_username ''admin@a.example'' = ''admin''" "local_username ''Ad+min@b.example'' = ''admin''"
  by code_simp+

text \<open>The paired account takes the provider's role, the owner's account too.\<close>

lemma sso_demotes_owner:
  assumes "paired_account (sw_lookup w) (db st) u = Some a" "pk acc_id (accounts (db st))" "a \<in> set (accounts (db st))"
    and "acc_role a = ''owner''"
  shows "\<exists>a'. row_get acc_id (acc_id a) (accounts (db (mirror_role w u c st))) = Some a' \<and> acc_role a' \<noteq> ''owner''"
proof -
  have "row_get acc_id (acc_id a) (accounts (db st)) = Some a" using assms(2,3) by (simp add: row_get_in)
  moreover have "acc_role a \<noteq> mirrored_role w c" using assms(4) by (simp add: mirrored_role_def)
  ultimately show ?thesis
    using assms(1) row_get_put_account [of "a\<lparr>acc_role := mirrored_role w c\<rparr>" st a] by (simp add: mirror_role_def mirrored_role_def)
qed

end
