(* ===== verification/Admin_Policy.thy ===== *)
theory Admin_Policy
  imports Admin_Credentials Admin_Users
begin

text \<open>
  The settings row (\<^verbatim>\<open>GlobalPolicy\<close>, id 1): its JSON endpoints (\<^verbatim>\<open>app/admin_policies.py\<close>), the settings
  form and the webhook test of \<^verbatim>\<open>app/admin_ui.py\<close>, and the retention run on demand
  (\<^verbatim>\<open>app/admin_retention.py\<close>). Every writer is one case of \<open>policy_call\<close>.
\<close>

section \<open>The JSON endpoints\<close>

text \<open>A field of the update is unset, null, or a value: \<open>exclude_unset\<close> tells the first two apart.\<close>

record policy_update =
  up_snapshot_keep_last_n :: "int option option"
  up_snapshot_retain_days :: "int option option"
  up_max_bytes_per_user :: "int option option"
  up_registration_enabled :: "bool option option"
  up_default_role :: "role option option"
  up_banner_message :: "string option option"

definition field_ok :: "('a \<Rightarrow> bool) \<Rightarrow> 'a option option \<Rightarrow> bool" where
  "field_ok P f = (case f of Some (Some v) \<Rightarrow> P v | _ \<Rightarrow> True)"

definition policy_update_valid :: "policy_update \<Rightarrow> bool" where
  "policy_update_valid b \<longleftrightarrow>
     field_ok (\<lambda>n. 1 \<le> n \<and> n \<le> 1000) (up_snapshot_keep_last_n b) \<and>
     field_ok (\<lambda>n. 1 \<le> n \<and> n \<le> 3650) (up_snapshot_retain_days b) \<and>
     field_ok (\<lambda>n. 0 \<le> n) (up_max_bytes_per_user b) \<and>
     field_ok (\<lambda>s. length s \<le> 512) (up_banner_message b)"

definition get_or_create :: "instant \<Rightarrow> app_state \<Rightarrow> global_policy \<times> app_state" where
  "get_or_create now st =
     (case global_policies (db st) of Some g \<Rightarrow> (g, st)
      | None \<Rightarrow> (let g = default_global_policy now in (g, st\<lparr>db := (db st)\<lparr>global_policies := Some g\<rparr>\<rparr>)))"

definition to_response :: "environment \<Rightarrow> global_policy \<Rightarrow> json" where
  "to_response env g = JObj
     [(''snapshot_keep_last_n'', JInt (gp_snapshot_keep_last_n g)), (''snapshot_retain_days'', JInt (gp_snapshot_retain_days g)),
      (''max_bytes_per_user'', jopt_int (gp_max_bytes_per_user g)), (''registration_enabled'', JBool (gp_registration_enabled g)),
      (''default_role'', JStr (gp_default_role g)), (''banner_message'', jopt_str (gp_banner_message g)),
      (''updated_at'', JStr (env_isoformat env (gp_updated_at g))), (''updated_by_email'', jopt_str (gp_updated_by_email g))]"

definition get_policy :: "environment \<Rightarrow> instant \<Rightarrow> request \<Rightarrow> account \<Rightarrow> json handler" where
  "get_policy env now req caller =
     with_role env now req Support caller (\<lambda>st. let (g, st1) = get_or_create now st in (Inr (to_response env g), st1))"

text \<open>
  The loop over the updates. \<open>policy_changes\<close> is the audited difference; a null for a column that
  is not nullable is assigned like any value and fails when the row is flushed.
\<close>

definition change_of :: "string \<Rightarrow> json \<Rightarrow> json \<Rightarrow> (string \<times> json) list" where
  "change_of field old new = (if old \<noteq> new then [(field, JObj [(''from'', old), (''to'', new)])] else [])"

definition jnull :: "('a \<Rightarrow> json) \<Rightarrow> 'a option \<Rightarrow> json" where
  "jnull f v = (case v of None \<Rightarrow> JNull | Some x \<Rightarrow> f x)"

definition field_change :: "string \<Rightarrow> ('a \<Rightarrow> json) \<Rightarrow> json \<Rightarrow> 'a option option \<Rightarrow> (string \<times> json) list" where
  "field_change field f old u = (case u of None \<Rightarrow> [] | Some v \<Rightarrow> change_of field old (jnull f v))"

definition policy_changes :: "policy_update \<Rightarrow> global_policy \<Rightarrow> (string \<times> json) list" where
  "policy_changes b g =
     field_change ''snapshot_keep_last_n'' JInt (JInt (gp_snapshot_keep_last_n g)) (up_snapshot_keep_last_n b) @
     field_change ''snapshot_retain_days'' JInt (JInt (gp_snapshot_retain_days g)) (up_snapshot_retain_days b) @
     field_change ''max_bytes_per_user'' JInt (jopt_int (gp_max_bytes_per_user g)) (up_max_bytes_per_user b) @
     field_change ''registration_enabled'' JBool (JBool (gp_registration_enabled g)) (up_registration_enabled b) @
     field_change ''default_role'' (\<lambda>r. JStr (role_value r)) (JStr (gp_default_role g)) (up_default_role b) @
     field_change ''banner_message'' JStr (jopt_str (gp_banner_message g)) (up_banner_message b)"

definition nulls_a_column :: "policy_update \<Rightarrow> bool" where
  "nulls_a_column b \<longleftrightarrow> up_snapshot_keep_last_n b = Some None \<or> up_snapshot_retain_days b = Some None \<or>
     up_registration_enabled b = Some None \<or> up_default_role b = Some None"

definition assign :: "'a option option \<Rightarrow> 'a \<Rightarrow> 'a" where
  "assign u old = (case u of Some (Some v) \<Rightarrow> v | _ \<Rightarrow> old)"

definition assign_opt :: "'a option option \<Rightarrow> 'a option \<Rightarrow> 'a option" where
  "assign_opt u old = (case u of None \<Rightarrow> old | Some v \<Rightarrow> v)"

definition apply_update :: "policy_update \<Rightarrow> global_policy \<Rightarrow> global_policy" where
  "apply_update b g = g\<lparr>
     gp_snapshot_keep_last_n := assign (up_snapshot_keep_last_n b) (gp_snapshot_keep_last_n g),
     gp_snapshot_retain_days := assign (up_snapshot_retain_days b) (gp_snapshot_retain_days g),
     gp_max_bytes_per_user := assign_opt (up_max_bytes_per_user b) (gp_max_bytes_per_user g),
     gp_registration_enabled := assign (up_registration_enabled b) (gp_registration_enabled g),
     gp_default_role := assign (map_option (map_option role_value) (up_default_role b)) (gp_default_role g),
     gp_banner_message := assign_opt (up_banner_message b) (gp_banner_message g)\<rparr>"

definition policy_event ::
  "environment \<Rightarrow> instant \<Rightarrow> account \<Rightarrow> string \<Rightarrow> request \<Rightarrow> string \<Rightarrow> (string \<times> json) list \<Rightarrow> app_state \<Rightarrow> app_state" where
  "policy_event env now caller action req key changes st =
     emit env now (Some caller) action (Some req) (Some ''global_policy'') (Some ''1'') (Some (JObj [(key, JObj changes)])) st"

definition put_policy :: "global_policy \<Rightarrow> app_state \<Rightarrow> app_state" where
  "put_policy g st = st\<lparr>db := (db st)\<lparr>global_policies := Some g\<rparr>\<rparr>"

definition update_policy :: "environment \<Rightarrow> instant \<Rightarrow> request \<Rightarrow> policy_update \<Rightarrow> account \<Rightarrow> json handler" where
  "update_policy env now req b caller =
     with_role env now req Admin caller (\<lambda>st.
       if \<not> policy_update_valid b then (Inl (HTTPException 422 ''validation''), st)
       else (let (row, st1) = get_or_create now st; changes = policy_changes b row in
         if changes = [] then (Inr (to_response env row), st1)
         else if nulls_a_column b then (Inl IntegrityError, st1)
         else (let row' = (apply_update b row)\<lparr>gp_updated_by_email := Some (acc_email caller), gp_updated_at := now\<rparr>
               in (Inr (to_response env row'),
                   policy_event env now caller ''policy.updated'' req ''changes'' changes (put_policy row' st1)))))"

definition run_now ::
  "snap_lib \<Rightarrow> environment \<Rightarrow> (exn \<Rightarrow> string) \<Rightarrow> nat \<Rightarrow> instant \<Rightarrow> int \<Rightarrow> request \<Rightarrow> account \<Rightarrow> json handler" where
  "run_now lib env exn_str batch now ms req caller =
     with_role env now req Admin caller (\<lambda>st.
       case run_retention_in lib (env_alloc env) exn_str batch now ms st of
         (Inl e, st1) \<Rightarrow> (Inl e, st1)
       | (Inr s, st1) \<Rightarrow>
         (Inr (JObj [(''accounts'', JInt (int (sum_accounts s))), (''deleted'', JInt (int (sum_deleted s))),
            (''idempotency_purged'', JInt (int (sum_idempotency s))), (''revoked_tokens_purged'', JInt (int (sum_revoked s)))]),
          emit env now (Some caller) ''retention.manual_run'' (Some req) (Some ''retention'') (Some ''global'')
            (Some (summary_json s)) st1))"

section \<open>The settings form\<close>

record settings_form =
  sf_snapshot_keep_last_n :: int
  sf_snapshot_retain_days :: int
  sf_max_bytes_per_user :: string
  sf_registration_enabled :: string
  sf_default_role :: string
  sf_banner_message :: string
  sf_require_2fa_for_admins :: string
  sf_audit_retention_days :: int
  sf_scheduler_run_retention_days :: int
  sf_webhook_delivery_retention_days :: int
  sf_webhook_url :: string
  sf_webhook_event_prefixes :: string
  sf_backup_directory :: string
  sf_backup_enabled :: string
  sf_backup_retention_count :: int
  sf_admin_ip_allowlist_raw :: string
  sf_admin_session_idle_days :: int

definition settings_fields :: "global_policy \<Rightarrow> (string \<times> json) list" where
  "settings_fields g =
     [(''snapshot_keep_last_n'', JInt (gp_snapshot_keep_last_n g)), (''snapshot_retain_days'', JInt (gp_snapshot_retain_days g)),
      (''max_bytes_per_user'', jopt_int (gp_max_bytes_per_user g)), (''registration_enabled'', JBool (gp_registration_enabled g)),
      (''default_role'', JStr (gp_default_role g)), (''banner_message'', jopt_str (gp_banner_message g)),
      (''require_2fa_for_admins'', JBool (gp_require_2fa_for_admins g)), (''audit_retention_days'', JInt (gp_audit_retention_days g)),
      (''scheduler_run_retention_days'', JInt (gp_scheduler_run_retention_days g)),
      (''webhook_delivery_retention_days'', JInt (gp_webhook_delivery_retention_days g)),
      (''webhook_url'', jopt_str (gp_webhook_url g)), (''webhook_event_prefixes'', JStr (gp_webhook_event_prefixes g)),
      (''backup_directory'', jopt_str (gp_backup_directory g)), (''backup_enabled'', JBool (gp_backup_enabled g)),
      (''backup_retention_count'', JInt (gp_backup_retention_count g)),
      (''admin_ip_allowlist'', jnull (\<lambda>es. JList (map JStr es)) (gp_admin_ip_allowlist g)),
      (''admin_session_idle_days'', JInt (gp_admin_session_idle_days g))]"

text \<open>A row that was just constructed holds \<open>None\<close> in every attribute until it is flushed.\<close>

definition settings_before :: "global_policy option \<Rightarrow> (string \<times> json) list" where
  "settings_before g = (case g of Some r \<Rightarrow> settings_fields r
     | None \<Rightarrow> map (\<lambda>(k, _). (k, JNull)) (settings_fields (default_global_policy 0)))"

definition settings_changed :: "(string \<times> json) list \<Rightarrow> (string \<times> json) list \<Rightarrow> (string \<times> json) list" where
  "settings_changed before after = concat (map2 (\<lambda>(k, old) (_, new). change_of k old new) before after)"

definition opt_text :: "string \<Rightarrow> string option" where
  "opt_text s = (if py_strip s = [] then None else Some (py_strip s))"

definition split_cidrs :: "string \<Rightarrow> string list" where
  "split_cidrs raw = filter (\<lambda>c. c \<noteq> []) (map py_strip (split_on (CHR '','')
     (map (\<lambda>c. if char_code c = 10 then CHR '','' else c) raw)))"

definition settings_row :: "string \<Rightarrow> settings_form \<Rightarrow> int option \<Rightarrow> global_policy \<Rightarrow> global_policy" where
  "settings_row username f max_bytes g = g\<lparr>
     gp_snapshot_keep_last_n := clamp 1 500 (sf_snapshot_keep_last_n f),
     gp_snapshot_retain_days := clamp 1 3650 (sf_snapshot_retain_days f),
     gp_max_bytes_per_user := max_bytes,
     gp_registration_enabled := (sf_registration_enabled f \<noteq> []),
     gp_default_role := sf_default_role f,
     gp_banner_message := opt_text (sf_banner_message f),
     gp_require_2fa_for_admins := (sf_require_2fa_for_admins f \<noteq> []),
     gp_audit_retention_days := clamp 0 3650 (sf_audit_retention_days f),
     gp_scheduler_run_retention_days := clamp 0 3650 (sf_scheduler_run_retention_days f),
     gp_webhook_delivery_retention_days := clamp 0 3650 (sf_webhook_delivery_retention_days f),
     gp_webhook_url := opt_text (sf_webhook_url f),
     gp_webhook_event_prefixes := str_or (py_strip (sf_webhook_event_prefixes f))
       ''permission.denied,login.failed,session.killed,user.suspended,user.deleted,totp.login_failed'',
     gp_backup_directory := opt_text (sf_backup_directory f),
     gp_backup_enabled := (sf_backup_enabled f \<noteq> []),
     gp_backup_retention_count := clamp 0 365 (sf_backup_retention_count f),
     gp_admin_ip_allowlist := (if split_cidrs (sf_admin_ip_allowlist_raw f) = [] then None
                               else Some (split_cidrs (sf_admin_ip_allowlist_raw f))),
     gp_admin_session_idle_days := clamp 0 3650 (sf_admin_session_idle_days f),
     gp_updated_by_email := Some (username @ ''@admin.local'')\<rparr>"

text \<open>The row is written when a column changed (\<open>onupdate\<close> then stamps it); a new one always.\<close>

definition settings_stored :: "instant \<Rightarrow> global_policy option \<Rightarrow> global_policy \<Rightarrow> global_policy" where
  "settings_stored now old g = (if old = Some g then g else g\<lparr>gp_updated_at := now\<rparr>)"

definition save_settings ::
  "ui_world \<Rightarrow> instant \<Rightarrow> request \<Rightarrow> settings_form \<Rightarrow> string \<Rightarrow> ui_response handler" where
  "save_settings w now req f username st =
     (if role_of (sf_default_role f) = None
      then (Inr (flash_to w now ''/admin/settings'' ''error'' (''Unknown role: '' @ sf_default_role f)), st)
      else (case (if py_strip (sf_max_bytes_per_user f) = [] then Some None
                  else map_option Some (py_int (sf_max_bytes_per_user f))) of
        None \<Rightarrow> (Inl (ValueError ''invalid literal for int()''), st)
      | Some max_bytes \<Rightarrow>
        (let old = global_policies (db st);
             row = settings_row username f max_bytes (case old of Some g \<Rightarrow> g | None \<Rightarrow> default_global_policy now);
             changed = settings_changed (settings_before old) (settings_fields row);
             st1 = put_policy (settings_stored now old row) st;
             ok = flash_to w now ''/admin/settings'' ''success'' ''Settings saved''
         in if changed = [] then (Inr ok, st1)
            else (let (acct, st2) = admin_account w now username st1
                  in (Inr ok, policy_event (uw_env w) now acct ''settings.updated'' req ''changed'' changed st2)))))"

definition settings_page :: "ui_world \<Rightarrow> instant \<Rightarrow> string option \<Rightarrow> string \<Rightarrow> ui_response handler" where
  "settings_page w now flash username st =
     (let (row, st1) = get_or_create now st in
      (Inr ((ui_page 200 ''settings.html''
         [(''policy'', JObj (settings_fields row
             @ [(''updated_at'', JStr (env_isoformat (uw_env w) (gp_updated_at row))),
                (''updated_by_email'', jopt_str (gp_updated_by_email row))])),
          (''roles'', JList (map (\<lambda>r. JStr (role_value r)) all_roles)),
          (''flash'', case pop_flash (uw_cfg w) now flash of None \<Rightarrow> JNull
             | Some (k, m) \<Rightarrow> JObj [(''kind'', JStr k), (''message'', JStr m)])])\<lparr>ui_deleted := [''flash'']\<rparr>), st1))"

definition webhook_test :: "ui_world \<Rightarrow> instant \<Rightarrow> string \<Rightarrow> ui_response handler" where
  "webhook_test w now username st =
     (case resolve_config (db st) of
        (None, _) \<Rightarrow> (Inr (flash_to w now ''/admin/settings'' ''error'' ''No webhook URL configured''), st)
      | (Some url, _) \<Rightarrow>
        (Inr (flash_to w now ''/admin/settings'' ''success'' ''Test webhook enqueued''),
         st\<lparr>webhook_pool := webhook_pool st @ [(url, JObj [(''source'', JStr ''nks-wdc-catalog-api''), (''test'', JBool True),
              (''event'', JObj [(''action'', JStr ''webhook.test''), (''actor_email'', JStr (username @ ''@admin.local''))])])]\<rparr>))"


section \<open>The declared ranges\<close>

definition policy_wf :: "global_policy \<Rightarrow> bool" where
  "policy_wf g \<longleftrightarrow>
     1 \<le> gp_snapshot_keep_last_n g \<and> gp_snapshot_keep_last_n g \<le> 1000 \<and>
     1 \<le> gp_snapshot_retain_days g \<and> gp_snapshot_retain_days g \<le> 3650 \<and>
     role_of (gp_default_role g) \<noteq> None \<and>
     (\<forall>n \<in> {gp_audit_retention_days g, gp_scheduler_run_retention_days g, gp_webhook_delivery_retention_days g,
            gp_admin_session_idle_days g}. 0 \<le> n \<and> n \<le> 3650) \<and>
     0 \<le> gp_backup_retention_count g \<and> gp_backup_retention_count g \<le> 365 \<and>
     gp_webhook_event_prefixes g \<noteq> [] \<and>
     (case gp_admin_ip_allowlist g of None \<Rightarrow> True | Some es \<Rightarrow> es \<noteq> [] \<and> [] \<notin> set es)"

definition row_wf :: "retention_policy \<Rightarrow> bool" where
  "row_wf r \<longleftrightarrow> 1 \<le> rp_keep_last_n_auto r \<and> rp_keep_last_n_auto r \<le> 1000 \<and>
     (case rp_auto_expire_days r of None \<Rightarrow> True | Some k \<Rightarrow> 1 \<le> k \<and> k \<le> 3650) \<and>
     (case rp_max_total_bytes r of None \<Rightarrow> True | Some k \<Rightarrow> 0 \<le> k)"

definition policies_ok :: "database \<Rightarrow> bool" where
  "policies_ok d \<longleftrightarrow> (\<forall>g. global_policies d = Some g \<longrightarrow> policy_wf g) \<and> (\<forall>r \<in> set (retention_policies d). row_wf r)"

definition keeps_policies :: "app_state \<Rightarrow> app_state \<Rightarrow> bool" where
  "keeps_policies st st' \<longleftrightarrow> committed st' = committed st \<and> (policies_ok (db st) \<longrightarrow> policies_ok (db st'))"

lemma keeps_pol_trans: "keeps_policies a b \<Longrightarrow> keeps_policies b c \<Longrightarrow> keeps_policies a c"
  by (simp add: keeps_policies_def)

lemma keeps_pol_same:
  "committed st' = committed st \<Longrightarrow> global_policies (db st') = global_policies (db st) \<Longrightarrow>
   retention_policies (db st') = retention_policies (db st) \<Longrightarrow> keeps_policies st st'"
  by (simp add: keeps_policies_def policies_ok_def)

lemma keeps_pol_emit: "keeps_policies st (emit env now a act rq rt rid d st)"
  by (rule keeps_pol_same) (simp_all add: db_emit)

lemma keeps_pol_put: "(policies_ok (db st) \<Longrightarrow> policy_wf g) \<Longrightarrow> keeps_policies st (put_policy g st)"
  by (auto simp: keeps_policies_def put_policy_def policies_ok_def)

lemma keeps_pol_account: "keeps_policies st (snd (admin_account w now u st))"
  by (rule keeps_pol_same) (auto simp: admin_account_def Let_def split: option.splits)

lemma keeps_pol_role: "h1 = require_role env now req required acc st \<Longrightarrow> keeps_policies st (snd h1)"
  by (auto simp: require_role_def emit_deny_def Let_def keeps_pol_emit intro: keeps_pol_same)

lemma keeps_pol_with_role:
  assumes "\<And>st. keeps_policies st (snd (h st))"
  shows "keeps_policies st (snd (with_role env now req required acc h st))"
proof -
  obtain r st1 where e: "require_role env now req required acc st = (r, st1)" by fastforce
  then have "keeps_policies st st1" using keeps_pol_role [OF e [symmetric]] by simp
  with assms e keeps_pol_trans show ?thesis by (cases r) (auto simp: with_role_def)
qed

lemma default_policy_wf: "policy_wf (default_global_policy now)"
  by (simp add: policy_wf_def default_global_policy_def role_of_def all_roles_def)

lemma keeps_pol_create:
  assumes "get_or_create now st = (g, st1)"
  shows "keeps_policies st st1 \<and> global_policies (db st1) = Some g"
  using assms default_policy_wf
  by (auto simp: get_or_create_def keeps_policies_def policies_ok_def Let_def split: option.splits)

lemma assign_ok: "field_ok P u \<Longrightarrow> P old \<Longrightarrow> P (assign u old)"
  by (cases u; cases "the u") (simp_all add: field_ok_def assign_def)

lemma assign_role: "role_of old \<noteq> None \<Longrightarrow> role_of (assign (map_option (map_option role_value) u) old) \<noteq> None"
  by (cases u; cases "the u") (simp_all add: assign_def role_of_value)

lemma apply_update_wf:
  assumes "policy_update_valid b" "policy_wf g"
  shows "policy_wf ((apply_update b g)\<lparr>gp_updated_by_email := e, gp_updated_at := t\<rparr>)"
proof -
  have "1 \<le> assign (up_snapshot_keep_last_n b) (gp_snapshot_keep_last_n g) \<and> assign (up_snapshot_keep_last_n b) (gp_snapshot_keep_last_n g) \<le> 1000"
    by (rule assign_ok [where P = "\<lambda>n. 1 \<le> n \<and> n \<le> 1000"]) (use assms in \<open>simp_all add: policy_update_valid_def policy_wf_def\<close>)
  moreover have "1 \<le> assign (up_snapshot_retain_days b) (gp_snapshot_retain_days g) \<and> assign (up_snapshot_retain_days b) (gp_snapshot_retain_days g) \<le> 3650"
    by (rule assign_ok [where P = "\<lambda>n. 1 \<le> n \<and> n \<le> 3650"]) (use assms in \<open>simp_all add: policy_update_valid_def policy_wf_def\<close>)
  moreover have "role_of (assign (map_option (map_option role_value) (up_default_role b)) (gp_default_role g)) \<noteq> None"
    by (rule assign_role) (use assms in \<open>simp add: policy_wf_def\<close>)
  ultimately show ?thesis using assms(2) by (simp add: policy_wf_def apply_update_def)
qed

lemma split_cidrs_nonempty: "[] \<notin> set (split_cidrs raw)"
  by (simp add: split_cidrs_def)

lemma settings_row_wf: "role_of (sf_default_role f) \<noteq> None \<Longrightarrow> policy_wf (settings_row u f mx g)"
  using split_cidrs_nonempty [of "sf_admin_ip_allowlist_raw f"] order_trans [of "clamp 1 500 (sf_snapshot_keep_last_n f)" 500 1000]
  by (simp add: policy_wf_def settings_row_def clamp_bounds str_or_def)

lemma settings_stored_wf: "policy_wf g \<Longrightarrow> policy_wf (settings_stored now old g)"
  by (simp add: settings_stored_def policy_wf_def)

section \<open>Every writer keeps the ranges\<close>

lemma keeps_pol_get: "keeps_policies st (snd (get_policy env now req caller st))"
  unfolding get_policy_def
proof (rule keeps_pol_with_role)
  fix st
  show "keeps_policies st (snd (let (g, st1) = get_or_create now st in (Inr (to_response env g) :: exn + json, st1)))"
    using keeps_pol_create [of now st] by (cases "get_or_create now st") simp
qed

lemma keeps_pol_update: "keeps_policies st (snd (update_policy env now req b caller st))"
  unfolding update_policy_def
proof (rule keeps_pol_with_role)
  fix st
  obtain row st1 where c: "get_or_create now st = (row, st1)" by fastforce
  define row' where "row' = (apply_update b row)\<lparr>gp_updated_by_email := Some (acc_email caller), gp_updated_at := now\<rparr>"
  have k: "keeps_policies st st1" "policies_ok (db st1) \<Longrightarrow> policy_wf row"
    using keeps_pol_create [OF c] by (auto simp: policies_ok_def)
  have p: "keeps_policies st (put_policy row' st1)" if "policy_update_valid b"
    unfolding row'_def by (intro keeps_pol_trans [OF k(1)] keeps_pol_put apply_update_wf that k(2))
  moreover have "keeps_policies st (policy_event env now caller ''policy.updated'' req ''changes'' cs (put_policy row' st1))"
    if "policy_update_valid b" for cs
    unfolding policy_event_def by (rule keeps_pol_trans [OF p [OF that] keeps_pol_emit])
  ultimately show "keeps_policies st (snd (
      if \<not> policy_update_valid b then (Inl (HTTPException 422 ''validation''), st)
       else (let (row, st1) = get_or_create now st; changes = policy_changes b row in
         if changes = [] then (Inr (to_response env row), st1)
         else if nulls_a_column b then (Inl IntegrityError, st1)
         else (let row' = (apply_update b row)\<lparr>gp_updated_by_email := Some (acc_email caller), gp_updated_at := now\<rparr>
               in (Inr (to_response env row'),
                   policy_event env now caller ''policy.updated'' req ''changes'' changes (put_policy row' st1))))))"
    using c k(1) keeps_pol_same [of st st] by (simp add: Let_def row'_def)
qed

lemma keeps_pol_save: "keeps_policies st (snd (save_settings w now req f username st))"
proof (cases "role_of (sf_default_role f) = None \<or> (py_strip (sf_max_bytes_per_user f) \<noteq> [] \<and> py_int (sf_max_bytes_per_user f) = None)")
  case True
  then show ?thesis by (auto simp: save_settings_def keeps_pol_same)
next
  case False
  then obtain mx where mx: "(if py_strip (sf_max_bytes_per_user f) = [] then Some None
      else map_option Some (py_int (sf_max_bytes_per_user f))) = Some mx"
    by (cases "py_strip (sf_max_bytes_per_user f) = []"; cases "py_int (sf_max_bytes_per_user f)") simp_all
  define row where "row = settings_row username f mx (case global_policies (db st) of Some g \<Rightarrow> g | None \<Rightarrow> default_global_policy now)"
  define st1 where "st1 = put_policy (settings_stored now (global_policies (db st)) row) st"
  have p: "keeps_policies st st1"
    unfolding st1_def by (rule keeps_pol_put) (use False in \<open>simp add: row_def settings_row_wf settings_stored_wf\<close>)
  obtain a st2 where a: "admin_account w now username st1 = (a, st2)" by fastforce
  then have "keeps_policies st1 st2" using keeps_pol_account [of st1 w now username] by simp
  then have q: "keeps_policies st (emit (uw_env w) now (Some a) act rq rt rid d st2)" for act rq rt rid d
    using p keeps_pol_trans keeps_pol_emit by metis
  show ?thesis
    using False mx p q a unfolding save_settings_def
    by (simp add: Let_def row_def [symmetric] st1_def [symmetric] policy_event_def keeps_pol_same)
qed

lemma keeps_pol_page: "keeps_policies st (snd (settings_page w now flash username st))"
  using keeps_pol_create [of now st] by (auto simp: settings_page_def Let_def split: prod.splits)

lemma apply_upsert_wf: "policy_upsert_valid b \<Longrightarrow> row_wf (apply_upsert now b r)"
proof -
  let ?r = "r\<lparr>rp_keep_last_n_auto := pu_keep_last_n_auto b, rp_auto_expire_days := pu_auto_expire_days b,
    rp_keep_labeled_forever := pu_keep_labeled_forever b, rp_max_total_bytes := pu_max_total_bytes b\<rparr>"
  assume "policy_upsert_valid b"
  then have "row_wf ?r" "row_wf (?r\<lparr>rp_updated_at := now\<rparr>)" by (simp_all add: row_wf_def policy_upsert_valid_def)
  then show ?thesis unfolding apply_upsert_def Let_def by (cases "?r = r") simp_all
qed


lemma rows_wf_set: "\<forall>r \<in> set rows. row_wf r \<Longrightarrow> \<forall>r. row_wf (f r) \<Longrightarrow> \<forall>r \<in> set (row_set key k f rows). row_wf r"
  by (auto simp: row_set_def)

lemma keeps_pol_rows:
  assumes "\<forall>r \<in> set (retention_policies (db st)). row_wf r \<Longrightarrow> \<forall>r \<in> set rows. row_wf r"
  shows "keeps_policies st (st\<lparr>db := (db st)\<lparr>retention_policies := rows\<rparr>\<rparr>)"
  using assms by (simp add: keeps_policies_def policies_ok_def)

lemma keeps_pol_upsert: "keeps_policies st (snd (upsert_policy env now req b acc st))"
proof (cases "policy_upsert_valid b")
  case False
  then show ?thesis by (simp add: upsert_policy_def keeps_pol_same)
next
  case True
  then have w: "row_wf (apply_upsert now b r)" for r by (rule apply_upsert_wf)
  define dev where "dev = (if truthy (pu_device_id b) then map_option py_lower (pu_device_id b) else None)"
  note k = keeps_pol_trans [OF keeps_pol_rows keeps_pol_emit]
  show ?thesis
  proof (cases "assert_device_owned (db st) acc dev")
    case (Inl e)
    then show ?thesis by (simp add: upsert_policy_def True Let_def dev_def [symmetric] keeps_pol_same)
  next
    case (Inr u)
    show ?thesis
    proof (cases "find (\<lambda>r. rp_account_id r = acc_id acc \<and> rp_device_id r = dev) (retention_policies (db st))")
      case None
      then show ?thesis
        by (simp add: upsert_policy_def True Let_def dev_def [symmetric] Inr) (intro k, auto simp: row_add_def w)
    next
      case (Some old)
      then show ?thesis
        by (simp add: upsert_policy_def True Let_def dev_def [symmetric] Inr) (intro k rows_wf_set, auto simp: w)
    qed
  qed
qed

lemma keeps_pol_delete: "keeps_policies st (snd (delete_policy env now req i acc st))"
proof -
  have "keeps_policies st (st1\<lparr>db := (db st1)\<lparr>retention_policies := row_del rp_id i (retention_policies (db st1))\<rparr>\<rparr>)"
    if "keeps_policies st st1" for st1
    by (rule keeps_pol_trans [OF that keeps_pol_rows]) (simp add: row_del_def)
  note k = this [OF keeps_pol_emit] and s = keeps_pol_same [of st st, OF refl refl refl]
  show ?thesis
  proof (cases "row_get rp_id i (retention_policies (db st))")
    case None
    with s show ?thesis by (simp add: delete_policy_def)
  next
    case (Some row)
    with s k show ?thesis by (cases "rp_account_id row = acc_id acc") (simp_all add: delete_policy_def Let_def)
  qed
qed

lemma keeps_pol_current_user: "keeps_policies st (snd (current_user cfg env now req cookie st))"
  by (rule keeps_pol_same)
     (auto simp: current_user_def touch_session_def track_session_def Let_def split: sum.splits option.splits if_splits)

definition policies_inv :: "app_state \<Rightarrow> bool" where
  "policies_inv st \<longleftrightarrow> policies_ok (db st) \<and> policies_ok (committed st)"

lemma policies_inv_session:
  assumes "\<And>st. keeps_policies st (snd (h st))" "policies_inv st"
  shows "policies_inv (snd (get_session h st))"
proof -
  obtain r st' where e: "h st = (r, st')" by fastforce
  then have "keeps_policies st st'" using assms(1) [of st] by simp
  with e assms(2) show ?thesis
    by (cases r) (simp_all add: get_session_def policies_inv_def keeps_policies_def commit_def rollback_def)
qed

lemma policies_inv_post:
  assumes "\<And>u st. keeps_policies st (snd (h u st))" "policies_inv st"
  shows "policies_inv (snd (admin_post w now req cookie ct cc h st))"
  unfolding admin_post_def
proof (rule policies_inv_session [OF _ assms(2)])
  fix st
  obtain r st1 where e: "current_user (uw_cfg w) (uw_env w) now req cookie st = (r, st1)" by fastforce
  then have "keeps_policies st st1" using keeps_pol_current_user [of st] by (metis snd_conv)
  moreover from this have "keeps_policies st (snd (h u st1))" for u using assms(1) keeps_pol_trans by blast
  ultimately show "keeps_policies st (snd (case require_csrf (req_method req) ct cc of Some e \<Rightarrow> (Inl e, st)
       | None \<Rightarrow>
         (case current_user (uw_cfg w) (uw_env w) now req cookie st of
            (Inl e, st1) \<Rightarrow> (Inl e, st1) | (Inr username, st1) \<Rightarrow> h username st1)))"
    using e keeps_pol_same [of st st, OF refl refl refl] by (cases r) (simp_all split: option.splits)
qed

section \<open>The system of policy writers\<close>

text \<open>The requests that read or write settings; \<open>pc_form\<close> arrives with its session and token cookies.\<close>

datatype policy_call =
    Get_policy account
  | Put_policy account policy_update
  | Save_form "string option" "string option" "string option" settings_form
  | Settings_page "string option" string
  | Put_retention account policy_upsert
  | Delete_retention account int

fun policy_serve :: "ui_world \<Rightarrow> instant \<Rightarrow> request \<Rightarrow> policy_call \<Rightarrow> app_state \<Rightarrow> app_state" where
  "policy_serve w now req (Get_policy acc) st = snd (get_session (get_policy (uw_env w) now req acc) st)"
| "policy_serve w now req (Put_policy acc b) st = snd (get_session (update_policy (uw_env w) now req b acc) st)"
| "policy_serve w now req (Save_form cookie ct cc f) st = snd (admin_post w now req cookie ct cc (save_settings w now req f) st)"
| "policy_serve w now req (Settings_page flash username) st = snd (get_session (settings_page w now flash username) st)"
| "policy_serve w now req (Put_retention acc b) st = snd (get_session (upsert_policy (uw_env w) now req b acc) st)"
| "policy_serve w now req (Delete_retention acc i) st = snd (get_session (delete_policy (uw_env w) now req i acc) st)"

inductive policy_step :: "ui_world \<Rightarrow> app_state \<Rightarrow> app_state \<Rightarrow> bool" for w where
  policy_served: "policy_step w st (policy_serve w now req c st)"

lemma policy_serve_inv: "policies_inv st \<Longrightarrow> policies_inv (policy_serve w now req c st)"
  by (cases c)
     (simp_all add: policies_inv_session policies_inv_post keeps_pol_get keeps_pol_update keeps_pol_save keeps_pol_page
        keeps_pol_upsert keeps_pol_delete)

interpretation policy_sys: inv_system "policy_step w" policies_inv for w
  by unfold_locales (auto elim!: policy_step.cases intro: policy_serve_inv)

definition resolved_ok :: "resolved_policy \<Rightarrow> bool" where
  "resolved_ok p \<longleftrightarrow> 1 \<le> keep_last_n_auto p \<and> keep_last_n_auto p \<le> 1000 \<and>
     (case auto_expire_days p of None \<Rightarrow> True | Some k \<Rightarrow> 1 \<le> k \<and> k \<le> 3650)"

lemma resolve_in_range: "policies_ok d \<Longrightarrow> resolved_ok (resolve_policy d a)"
proof (cases "find (\<lambda>r. rp_account_id r = a \<and> rp_device_id r = None) (retention_policies d)")
  case None
  assume "policies_ok d"
  with None show ?thesis
    by (cases "global_policies d") (simp_all add: resolve_policy_def resolved_ok_def DEFAULT_POLICY_def policies_ok_def policy_wf_def)
next
  case (Some r)
  moreover assume "policies_ok d"
  ultimately have "row_wf r" by (auto simp: policies_ok_def find_Some_iff)
  with Some show ?thesis by (simp add: resolve_policy_def resolved_ok_def row_wf_def)
qed



definition demo_update :: policy_update where
  "demo_update = \<lparr>up_snapshot_keep_last_n = Some (Some 5), up_snapshot_retain_days = None, up_max_bytes_per_user = None,
     up_registration_enabled = Some (Some False), up_default_role = None, up_banner_message = None\<rparr>"


section \<open>What is audited\<close>

text \<open>The audited changes are the fields, among the six the endpoint knows, that differ in the stored row.\<close>

lemma audited_changes_exact:
  assumes "\<not> nulls_a_column b"
  shows "policy_changes b g = settings_changed (take 6 (settings_fields g)) (take 6 (settings_fields (apply_update b g)))"
proof -
  have n: "field_change k f (f old) u = change_of k (f old) (f (assign u old))" if "u \<noteq> Some None" for k f and old :: 'a and u
    using that by (cases u; cases "the u") (simp_all add: field_change_def assign_def change_of_def jnull_def)
  have i: "field_change k JInt (jopt_int old) u = change_of k (jopt_int old) (jopt_int (assign_opt u old))" for k old u
    by (cases u; cases "the u") (simp_all add: field_change_def assign_opt_def change_of_def jnull_def)
  have t: "field_change k JStr (jopt_str old) u = change_of k (jopt_str old) (jopt_str (assign_opt u old))" for k old u
    by (cases u; cases "the u") (simp_all add: field_change_def assign_opt_def change_of_def jnull_def)
  have r: "field_change k (\<lambda>r. JStr (role_value r)) (JStr old) u
      = change_of k (JStr old) (JStr (assign (map_option (map_option role_value) u) old))" if "u \<noteq> Some None" for k old u
    using that by (cases u; cases "the u") (simp_all add: field_change_def assign_def change_of_def jnull_def)
  show ?thesis
    using assms unfolding nulls_a_column_def policy_changes_def
    by (simp add: n i t r settings_fields_def settings_changed_def apply_update_def)
qed

lemma unchanged_settings_silent:
  assumes "global_policies (db st) = Some g" "role_of (sf_default_role f) \<noteq> None"
    and "settings_row username f mx g = g"
    and "(if py_strip (sf_max_bytes_per_user f) = [] then Some None else map_option Some (py_int (sf_max_bytes_per_user f))) = Some mx"
  shows "snd (save_settings w now req f username st) = st"
proof -
  have "settings_changed xs xs = []" for xs by (induction xs) (auto simp: settings_changed_def change_of_def)
  moreover have "put_policy g st = st" using assms(1) by (simp add: put_policy_def flip: assms(1))
  ultimately show ?thesis using assms
    by (simp add: save_settings_def Let_def settings_before_def settings_stored_def)
qed

section \<open>Settings nothing reads\<close>

text \<open>
  \<open>registration_enabled\<close>, \<open>default_role\<close> and \<open>max_bytes_per_user\<close> are written by both writers and shown, but
  no operation consults them: a registration answers and stores alike under every settings row.
\<close>

lemma registration_ignores_policy:
  "fst (register jl bc env now jti salt req email pw (put_policy g st)) = fst (register jl bc env now jti salt req email pw st)"
  "accounts (db (snd (register jl bc env now jti salt req email pw (put_policy g st))))
     = accounts (db (snd (register jl bc env now jti salt req email pw st)))"
  by (simp_all add: register_def Let_def find_email_def put_policy_def db_emit)

text \<open>The form accepts a negative quota, which the JSON endpoint refuses.\<close>

lemma form_stores_negative_quota:
  assumes "role_of (sf_default_role f) \<noteq> None" "sf_max_bytes_per_user f = ''-5''"
  shows "\<exists>g. global_policies (db (snd (save_settings w now req f username st))) = Some g \<and> gp_max_bytes_per_user g = Some (- 5)"
proof -
  have q: "py_strip ''-5'' = ''-5''" "py_int ''-5'' = Some (- 5)" by code_simp+
  have st: "gp_max_bytes_per_user (settings_stored now old (settings_row username f mx g)) = mx" for old mx g
    by (simp add: settings_stored_def settings_row_def)
  have a: "global_policies (db (snd (admin_account w now username s))) = global_policies (db s)" for s
    by (auto simp: admin_account_def Let_def split: option.splits)
  show ?thesis
    using assms(1) unfolding save_settings_def assms(2) q
    by (auto simp: Let_def split_beta policy_event_def db_emit put_policy_def a st)
qed

end
