(* ===== verification/Archive.thy ===== *)
theory Archive
  imports Admin_Policy Json_Text
begin

text \<open>
  The backup archive (\<^verbatim>\<open>app/backup.py\<close>) and its routes in \<^verbatim>\<open>app/admin_ui.py\<close>: assembly of the files,
  the scheduled run with its record, the directory of archives and its pruning.

  The ZIP container, gzip, SHA-256, the time formats, the rounding of sizes and the version are
  \<open>backup_lib\<close>. The backup directory is a \<open>disk\<close>: its entries in the order the file system
  lists them, and which calls the operating system refuses. The directory is taken to have no
  wildcard in its name.
\<close>

record backup_lib =
  bk_sha256_hex :: "bytes \<Rightarrow> string"
  bk_gzip :: "bytes \<Rightarrow> bytes"
  bk_zip :: "(string \<times> bytes) list \<Rightarrow> bytes"
  bk_stamp :: "instant \<Rightarrow> string"
  bk_iso_utc :: "instant \<Rightarrow> string"
  bk_mb :: "nat \<Rightarrow> json"
  bk_version :: string
  bk_invites :: "consumed_invite list \<Rightarrow> consumed_invite list"

record backup_file =
  bf_name :: string
  bf_mtime :: int
  bf_content :: bytes
  bf_regular :: bool

record disk =
  dk_files :: "backup_file list"
  dk_isdir :: bool
  dk_makedirs :: bool
  dk_writable :: bool
  dk_removable :: "string \<Rightarrow> bool"

section \<open>Pruning\<close>

definition is_backup_name :: "string \<Rightarrow> bool" where
  "is_backup_name n \<longleftrightarrow> prefix ''nks-wdc-backup-'' n \<and> suffix ''.zip'' n"

definition backup_files :: "disk \<Rightarrow> backup_file list" where
  "backup_files dk = sort_key bf_mtime (filter (\<lambda>f. is_backup_name (bf_name f) \<and> bf_regular f) (dk_files dk))"

fun remove_files :: "backup_file list \<Rightarrow> nat \<Rightarrow> disk \<Rightarrow> nat \<times> disk" where
  "remove_files [] removed dk = (removed, dk)"
| "remove_files (f # fs) removed dk =
     (if dk_removable dk (bf_name f)
      then remove_files fs (removed + 1) (dk\<lparr>dk_files := row_del bf_name (bf_name f) (dk_files dk)\<rparr>)
      else remove_files fs removed dk)"

definition prune_disk_backups :: "int \<Rightarrow> disk \<Rightarrow> nat \<times> disk" where
  "prune_disk_backups keep_count dk =
     (if keep_count \<le> 0 then (0, dk)
      else (let files = backup_files dk in
            if int (length files) \<le> keep_count then (0, dk)
            else remove_files (take (length files - nat keep_count) files) 0 dk))"

section \<open>The archive\<close>

definition iso_opt :: "environment \<Rightarrow> instant option \<Rightarrow> json" where
  "iso_opt env t = jopt_str (map_option (env_isoformat env) t)"

definition iso :: "environment \<Rightarrow> instant \<Rightarrow> json" where
  "iso env t = JStr (env_isoformat env t)"

definition app_json :: "environment \<Rightarrow> app_row \<Rightarrow> json" where
  "app_json env a = JObj
     [(''id'', JStr (app_id a)), (''display_name'', JStr (app_display_name a)), (''category'', JStr (app_category a)),
      (''description'', JStr (app_description a)), (''homepage'', jopt_str (app_homepage a)),
      (''license'', jopt_str (app_license a)), (''created_at'', iso env (app_created_at a)),
      (''updated_at'', iso env (app_updated_at a))]"

definition release_json :: "environment \<Rightarrow> release_row \<Rightarrow> json" where
  "release_json env r = JObj
     [(''id'', JInt (rel_id r)), (''app_id'', JStr (rel_app_id r)), (''version'', JStr (rel_version r)),
      (''channel'', JStr (rel_channel r)), (''released_at'', jopt_str (rel_released_at r)),
      (''created_at'', iso env (rel_created_at r))]"

definition download_json :: "download_row \<Rightarrow> json" where
  "download_json d = JObj
     [(''id'', JInt (dl_id d)), (''release_id'', JInt (dl_release_id d)), (''url'', JStr (dl_url d)), (''os'', JStr (dl_os d)),
      (''arch'', JStr (dl_arch d)), (''archive_type'', JStr (dl_archive_type d)), (''source'', JStr (dl_source d)),
      (''headers'', case dl_headers d of None \<Rightarrow> JNull | Some h \<Rightarrow> h), (''sha256'', jopt_str (dl_sha256 d)),
      (''size_bytes'', jopt_int (dl_size_bytes d))]"

definition account_json :: "environment \<Rightarrow> account \<Rightarrow> json" where
  "account_json env a = JObj
     [(''id'', JInt (acc_id a)), (''email'', JStr (acc_email a)), (''role'', JStr (acc_role a)),
      (''suspended_at'', iso_opt env (acc_suspended_at a)), (''token_version'', JInt (acc_token_version a)),
      (''created_at'', iso env (acc_created_at a)), (''last_login_at'', iso_opt env (acc_last_login_at a)),
      (''failed_login_count'', JInt (acc_failed_login_count a)), (''locked_until'', iso_opt env (acc_locked_until a)),
      (''totp_enabled'', JBool (acc_totp_enabled a)), (''totp_enabled_at'', iso_opt env (acc_totp_enabled_at a))]"

definition user_json :: "environment \<Rightarrow> user_row \<Rightarrow> json" where
  "user_json env u = JObj
     [(''id'', JInt (usr_id u)), (''username'', JStr (usr_username u)), (''created_at'', iso env (usr_created_at u)),
      (''last_login_at'', iso_opt env (usr_last_login_at u))]"

definition invite_json :: "environment \<Rightarrow> consumed_invite \<Rightarrow> json" where
  "invite_json env i = JObj
     [(''nonce'', JStr (inv_nonce i)), (''email'', JStr (inv_email i)), (''consumed_at'', iso env (inv_consumed_at i)),
      (''account_id'', jopt_int (inv_account_id i))]"

definition run_json :: "environment \<Rightarrow> scheduler_run \<Rightarrow> json" where
  "run_json env r = JObj
     [(''id'', JInt (run_id r)), (''job'', JStr (run_job r)), (''started_at'', iso env (run_started_at r)),
      (''finished_at'', iso_opt env (run_finished_at r)), (''duration_ms'', jopt_int (run_duration_ms r)),
      (''summary'', case run_summary r of None \<Rightarrow> JNull | Some s \<Rightarrow> s), (''error'', jopt_str (run_error r))]"

definition policy_json :: "environment \<Rightarrow> global_policy \<Rightarrow> json" where
  "policy_json env g = JObj
     [(''snapshot_keep_last_n'', JInt (gp_snapshot_keep_last_n g)), (''snapshot_retain_days'', JInt (gp_snapshot_retain_days g)),
      (''max_bytes_per_user'', jopt_int (gp_max_bytes_per_user g)), (''registration_enabled'', JBool (gp_registration_enabled g)),
      (''default_role'', JStr (gp_default_role g)), (''banner_message'', jopt_str (gp_banner_message g)),
      (''audit_retention_days'', JInt (gp_audit_retention_days g)),
      (''require_2fa_for_admins'', JBool (gp_require_2fa_for_admins g)), (''webhook_url'', jopt_str (gp_webhook_url g)),
      (''webhook_event_prefixes'', JStr (gp_webhook_event_prefixes g)), (''updated_at'', iso env (gp_updated_at g)),
      (''updated_by_email'', jopt_str (gp_updated_by_email g))]"

definition audit_line :: "environment \<Rightarrow> audit_event \<Rightarrow> string" where
  "audit_line env e = dumps_raw '', '' '': '' (JObj
     [(''id'', JInt (aud_id e)), (''created_at'', iso env (aud_created_at e)), (''actor_id'', jopt_int (aud_actor_id e)),
      (''actor_email'', jopt_str (aud_actor_email e)), (''action'', JStr (aud_action e)),
      (''resource_type'', jopt_str (aud_resource_type e)), (''resource_id'', jopt_str (aud_resource_id e)),
      (''ip'', jopt_str (aud_ip e)), (''user_agent'', jopt_str (aud_user_agent e)),
      (''detail'', case aud_detail e of None \<Rightarrow> JNull | Some j \<Rightarrow> j)]) @ [char_of (10 :: nat)]"

definition json_file :: "string \<Rightarrow> json \<Rightarrow> string \<times> bytes" where
  "json_file name obj = (name, utf8_encode (dumps_raw_indent 0 obj))"

definition archive_files :: "backup_lib \<Rightarrow> environment \<Rightarrow> database \<Rightarrow> (string \<times> bytes) list" where
  "archive_files lib env d =
     [json_file ''apps.json'' (JList (map (app_json env) (sort_key app_id (apps d)))),
      json_file ''releases.json'' (JList (map (release_json env) (sort_key rel_id (releases d)))),
      json_file ''downloads.json'' (JList (map download_json (sort_key dl_id (downloads d)))),
      json_file ''accounts.json'' (JList (map (account_json env) (sort_key acc_id (accounts d)))),
      json_file ''users.json'' (JList (map (user_json env) (sort_key usr_id (users d)))),
      json_file ''invites_consumed.json''
        (JList (map (invite_json env) (sort_key inv_consumed_at (bk_invites lib (consumed_invites d))))),
      json_file ''scheduler_runs.json'' (JList (map (run_json env) (sort_key run_id (scheduler_runs d)))),
      json_file ''settings.json'' (case global_policies d of None \<Rightarrow> JNull | Some g \<Rightarrow> policy_json env g),
      (''audit.jsonl.gz'',
       bk_gzip lib (concat (map (\<lambda>e. utf8_encode (audit_line env e)) (sort_key aud_id (audit_events d)))))]"

definition archive_counts :: "backup_lib \<Rightarrow> database \<Rightarrow> json" where
  "archive_counts lib d = JObj
     [(''apps'', JInt (int (length (apps d)))), (''releases'', JInt (int (length (releases d)))),
      (''downloads'', JInt (int (length (downloads d)))), (''accounts'', JInt (int (length (accounts d)))),
      (''users'', JInt (int (length (users d)))),
      (''invites_consumed'', JInt (int (length (bk_invites lib (consumed_invites d))))),
      (''scheduler_runs'', JInt (int (length (scheduler_runs d))))]"

definition manifest_entry :: "backup_lib \<Rightarrow> string \<times> bytes \<Rightarrow> json" where
  "manifest_entry lib f = JObj
     [(''name'', JStr (fst f)), (''size'', JInt (int (length (snd f)))), (''sha256'', JStr (bk_sha256_hex lib (snd f)))]"

definition manifest :: "backup_lib \<Rightarrow> environment \<Rightarrow> instant \<Rightarrow> string option \<Rightarrow> database \<Rightarrow> json" where
  "manifest lib env now actor_email d = JObj
     [(''source'', JStr ''nks-wdc-catalog-api''), (''version'', JStr (bk_version lib)),
      (''exported_at'', JStr (bk_iso_utc lib now)),
      (''exported_by'', JStr (if truthy actor_email then the actor_email else ''unknown'')),
      (''files'', JList (map (manifest_entry lib) (archive_files lib env d))), (''counts'', archive_counts lib d)]"

definition generate_backup_bytes ::
  "backup_lib \<Rightarrow> environment \<Rightarrow> instant \<Rightarrow> string option \<Rightarrow> database \<Rightarrow> bytes \<times> string \<times> json" where
  "generate_backup_bytes lib env now actor_email d =
     (let m = manifest lib env now actor_email d in
      (bk_zip lib (json_file ''manifest.json'' m # archive_files lib env d),
       ''nks-wdc-backup-'' @ bk_stamp lib now @ ''.zip'', m))"

section \<open>The scheduled run\<close>

definition write_file :: "string \<Rightarrow> instant \<Rightarrow> bytes \<Rightarrow> disk \<Rightarrow> disk" where
  "write_file name now content dk =
     (let f = \<lparr>bf_name = name, bf_mtime = now, bf_content = content, bf_regular = True\<rparr> in
      dk\<lparr>dk_files := (if row_get bf_name name (dk_files dk) = None then dk_files dk @ [f]
                      else row_set bf_name name (\<lambda>_. f) (dk_files dk))\<rparr>)"

definition backup_dir :: "database \<Rightarrow> string" where
  "backup_dir d = (case global_policies d of None \<Rightarrow> []
     | Some g \<Rightarrow> (case gp_backup_directory g of None \<Rightarrow> [] | Some s \<Rightarrow> py_strip s))"

definition path_join :: "string \<Rightarrow> string \<Rightarrow> string" where
  "path_join directory name = (if suffix ''/'' directory then directory @ name else directory @ CHR ''/'' # name)"

definition skipped_json :: "string \<Rightarrow> json" where
  "skipped_json reason = JObj [(''skipped'', JBool True), (''reason'', JStr reason)]"

definition os_error :: exn where "os_error = PyError ''OSError''"

definition backup_run :: "backup_lib \<Rightarrow> environment \<Rightarrow> instant \<Rightarrow> database \<Rightarrow> disk \<Rightarrow> (exn + json) \<times> disk" where
  "backup_run lib env now d dk =
     (case global_policies d of None \<Rightarrow> (Inr (skipped_json ''backup_disabled''), dk)
      | Some g \<Rightarrow>
        if \<not> gp_backup_enabled g then (Inr (skipped_json ''backup_disabled''), dk)
        else if backup_dir d = [] then (Inr (skipped_json ''no_directory''), dk)
        else if \<not> dk_makedirs dk then (Inl os_error, dk)
        else if \<not> dk_writable dk then (Inl os_error, dk\<lparr>dk_isdir := True\<rparr>)
        else (let (zip_bytes, filename, m) = generate_backup_bytes lib env now (Some ''scheduler@nks-wdc'') d;
                  dk1 = write_file filename now zip_bytes (dk\<lparr>dk_isdir := True\<rparr>);
                  (pruned, dk2) = prune_disk_backups (gp_backup_retention_count g) dk1
              in (Inr (JObj [(''path'', JStr (path_join (backup_dir d) filename)), (''bytes'', JInt (int (length zip_bytes))),
                    (''counts'', archive_counts lib d), (''pruned'', JInt (int pruned))]), dk2)))"

text \<open>In the caller's session: both records are flushed only.\<close>

definition run_scheduled_backup_in ::
  "backup_lib \<Rightarrow> environment \<Rightarrow> (exn \<Rightarrow> string) \<Rightarrow> instant \<Rightarrow> int \<Rightarrow> disk \<Rightarrow> app_state \<Rightarrow> ((exn + json) \<times> app_state) \<times> disk" where
  "run_scheduled_backup_in lib env exn_str now ms dk st =
     (let record = (\<lambda>summary err. st\<lparr>db := write_scheduler_run (env_alloc env) now ''backup'' now (Some ms) summary err (db st)\<rparr>) in
      case backup_run lib env now (db st) dk of
        (Inr s, dk1) \<Rightarrow> ((Inr s, record (Some s) None), dk1)
      | (Inl e, dk1) \<Rightarrow> ((Inl e, record None (Some (exn_str e))), dk1))"

text \<open>In sessions of its own, committed either way.\<close>

definition run_scheduled_backup ::
  "backup_lib \<Rightarrow> environment \<Rightarrow> (exn \<Rightarrow> string) \<Rightarrow> instant \<Rightarrow> int \<Rightarrow> disk \<Rightarrow> app_state \<Rightarrow> ((exn + json) \<times> app_state) \<times> disk" where
  "run_scheduled_backup lib env exn_str now ms dk st =
     (case run_scheduled_backup_in lib env exn_str now ms dk st of
        ((Inr s, st1), dk1) \<Rightarrow> ((Inr s, commit st1), dk1)
      | ((Inl e, st1), dk1) \<Rightarrow>
        (let st2 = rollback st1 in
         ((Inl e, commit (st2\<lparr>db := write_scheduler_run (env_alloc env) now ''backup'' now (Some ms) None (Some (exn_str e)) (db st2)\<rparr>)), dk1)))"


section \<open>The routes\<close>

type_synonym 'a disk_handler = "disk \<Rightarrow> app_state \<Rightarrow> ((exn + 'a) \<times> app_state) \<times> disk"

definition backup_event ::
  "ui_world \<Rightarrow> instant \<Rightarrow> request \<Rightarrow> account option \<Rightarrow> string \<Rightarrow> (string \<times> json) list \<Rightarrow> app_state \<Rightarrow> app_state" where
  "backup_event w now req acct action detail st =
     emit (uw_env w) now acct action (Some req) (Some ''backup'') None (Some (JObj detail)) st"

definition export_zip :: "backup_lib \<Rightarrow> ui_world \<Rightarrow> instant \<Rightarrow> request \<Rightarrow> string \<Rightarrow> (bytes \<times> string) handler" where
  "export_zip lib w now req username st =
     (let (zip_bytes, filename, m) = generate_backup_bytes lib (uw_env w) now (Some (legacy_email username)) (db st) in
      (Inr (zip_bytes, filename),
       backup_event w now req (find_email (legacy_email username) (db st)) ''backup.exported''
         [(''bytes'', JInt (int (length zip_bytes))), (''counts'', archive_counts lib (db st))] st))"

definition backup_to_disk :: "backup_lib \<Rightarrow> ui_world \<Rightarrow> instant \<Rightarrow> request \<Rightarrow> string \<Rightarrow> ui_response disk_handler" where
  "backup_to_disk lib w now req username dk st =
     (let directory = backup_dir (db st);
          say = (\<lambda>kind msg. Inr (flash_to w now ''/admin/ops'' kind msg)) in
      if directory = [] then ((say ''error'' ''No backup directory configured'', st), dk)
      else if \<not> dk_makedirs dk then ((say ''error'' ''Directory unusable'', st), dk)
      else (let (zip_bytes, filename, m) = generate_backup_bytes lib (uw_env w) now (Some (legacy_email username)) (db st);
                dk1 = dk\<lparr>dk_isdir := True\<rparr> in
        if \<not> dk_writable dk then ((say ''error'' ''Write failed'', st), dk1)
        else (let (acct, st1) = admin_account w now username st in
          ((say ''success'' (''Wrote '' @ filename @ '' ('' @ show_nat (length zip_bytes) @ '' bytes) to '' @ directory),
            backup_event w now req (Some acct) ''backup.saved_to_disk''
              [(''path'', JStr (path_join directory filename)), (''bytes'', JInt (int (length zip_bytes))),
               (''counts'', archive_counts lib (db st))] st1),
           write_file filename now zip_bytes dk1))))"

definition file_entry :: "backup_lib \<Rightarrow> backup_file \<Rightarrow> json" where
  "file_entry lib f = JObj
     [(''name'', JStr (bf_name f)), (''size_bytes'', JInt (int (length (bf_content f)))),
      (''size_mb'', bk_mb lib (length (bf_content f))), (''mtime'', JStr (bk_iso_utc lib (bf_mtime f)))]"

definition backups_page :: "backup_lib \<Rightarrow> ui_world \<Rightarrow> instant \<Rightarrow> string option \<Rightarrow> disk \<Rightarrow> database \<Rightarrow> ui_response" where
  "backups_page lib w now flash dk d =
     (let dir_exists = (backup_dir d \<noteq> [] \<and> dk_isdir dk);
          files = (if dir_exists then filter (\<lambda>f. bf_regular f \<and> is_backup_name (bf_name f)) (dk_files dk) else []);
          tot = sum_list (map (\<lambda>f. length (bf_content f)) files)
      in (ui_page 200 ''backups.html''
        [(''directory'', JStr (backup_dir d)), (''dir_exists'', JBool dir_exists),
         (''files'', JList (map (file_entry lib) (sort_desc (\<lambda>f. bk_iso_utc lib (bf_mtime f)) files))),
         (''total_mb'', if tot = 0 then JInt 0 else bk_mb lib tot),
         (''retention_count'', JInt (case global_policies d of None \<Rightarrow> 7 | Some g \<Rightarrow> gp_backup_retention_count g)),
         (''flash'', case pop_flash (uw_cfg w) now flash of None \<Rightarrow> JNull
            | Some (k, m) \<Rightarrow> JObj [(''kind'', JStr k), (''message'', JStr m)])])\<lparr>ui_deleted := [''flash'']\<rparr>)"

definition prune_now :: "ui_world \<Rightarrow> instant \<Rightarrow> request \<Rightarrow> string \<Rightarrow> ui_response disk_handler" where
  "prune_now w now req username dk st =
     (case global_policies (db st) of
        None \<Rightarrow> ((Inr (flash_to w now ''/admin/ops/backups'' ''error'' ''No backup directory configured''), st), dk)
      | Some g \<Rightarrow>
        if backup_dir (db st) = [] \<or> \<not> dk_isdir dk
        then ((Inr (flash_to w now ''/admin/ops/backups'' ''error'' ''No backup directory configured''), st), dk)
        else (let keep = gp_backup_retention_count g;
                  (removed, dk1) = prune_disk_backups keep dk;
                  (acct, st1) = admin_account w now username st
              in ((Inr (flash_to w now ''/admin/ops/backups'' ''success''
                     (''Prune complete - removed '' @ show_nat removed @ '' file(s), kept newest '' @ show_int keep)),
                   backup_event w now req (Some acct) ''backup.pruned''
                     [(''directory'', JStr (backup_dir (db st))), (''kept'', JInt keep), (''removed'', JInt (int removed))] st1), dk1)))"

text \<open>\<open>os.path.basename\<close>: what follows the last slash.\<close>

definition basename :: "string \<Rightarrow> string" where
  "basename p = rev (takeWhile (\<lambda>c. c \<noteq> CHR ''/'') (rev p))"

definition delete_backup_file :: "ui_world \<Rightarrow> instant \<Rightarrow> request \<Rightarrow> string \<Rightarrow> string \<Rightarrow> ui_response disk_handler" where
  "delete_backup_file w now req filename username dk st =
     (let say = (\<lambda>kind msg. Inr (flash_to w now ''/admin/ops/backups'' kind msg)) in
      if backup_dir (db st) = [] \<or> \<not> dk_isdir dk then ((say ''error'' ''No backup directory configured'', st), dk)
      else if basename filename = [] \<or> basename filename \<noteq> filename \<or> \<not> is_backup_name (basename filename)
      then ((say ''error'' ''Invalid filename'', st), dk)
      else (case find (\<lambda>f. bf_name f = basename filename \<and> bf_regular f) (dk_files dk) of
          None \<Rightarrow> ((say ''error'' ''File not found'', st), dk)
        | Some f \<Rightarrow>
          if \<not> dk_removable dk (bf_name f) then ((say ''error'' ''Delete failed'', st), dk)
          else (let (acct, st1) = admin_account w now username st in
            ((say ''success'' (''Deleted '' @ basename filename),
              backup_event w now req (Some acct) ''backup.deleted''
                [(''filename'', JStr (basename filename)), (''directory'', JStr (backup_dir (db st))),
                 (''bytes'', JInt (int (length (bf_content f))))] st1),
             dk\<lparr>dk_files := row_del bf_name (basename filename) (dk_files dk)\<rparr>))))"

section \<open>Pruning keeps the newest archives\<close>

lemma remove_files_all:
  assumes "\<forall>f \<in> set fs. dk_removable dk (bf_name f)"
  shows "remove_files fs n dk = (n + length fs, dk\<lparr>dk_files := filter (\<lambda>g. bf_name g \<notin> bf_name ` set fs) (dk_files dk)\<rparr>)"
  using assms
proof (induction fs arbitrary: n dk)
  case (Cons f fs)
  then show ?case by (simp add: row_del_def conj_commute)
qed simp

lemma filter_not_names:
  assumes "pk bf_name rows" "set fs \<subseteq> set rows"
  shows "filter (\<lambda>g. bf_name g \<notin> bf_name ` set fs) rows = filter (\<lambda>g. g \<notin> set fs) rows"
proof (rule filter_cong [OF refl])
  fix g assume "g \<in> set rows"
  with assms show "(bf_name g \<notin> bf_name ` set fs) = (g \<notin> set fs)"
    by (auto simp: pk_def distinct_map inj_on_def)
qed

lemma set_backup_files: "set (backup_files dk) = {f \<in> set (dk_files dk). is_backup_name (bf_name f) \<and> bf_regular f}"
  by (auto simp: backup_files_def)

lemma prune_effect:
  assumes "pk bf_name (dk_files dk)" "\<forall>n. is_backup_name n \<longrightarrow> dk_removable dk n" "0 < k"
  defines "surplus \<equiv> length (backup_files dk) - nat k"
  shows "prune_disk_backups k dk = (surplus, dk\<lparr>dk_files := filter (\<lambda>g. g \<notin> set (take surplus (backup_files dk))) (dk_files dk)\<rparr>)"
proof (cases "int (length (backup_files dk)) \<le> k")
  case True
  then have "surplus = 0" by (simp add: surplus_def)
  with True assms(3) show ?thesis by (simp add: prune_disk_backups_def)
next
  case False
  have sub: "set (take surplus (backup_files dk)) \<subseteq> set (dk_files dk)"
    using set_take_subset set_backup_files by fastforce
  have "\<forall>f \<in> set (take surplus (backup_files dk)). dk_removable dk (bf_name f)"
    using assms(2) set_take_subset set_backup_files by fastforce
  from remove_files_all [OF this, of 0] show ?thesis
    using False assms(3) filter_not_names [OF assms(1) sub] by (simp add: prune_disk_backups_def Let_def surplus_def [symmetric]) (simp add: surplus_def)
qed

text \<open>
  C34: Pruning the backup directory removes exactly the surplus. With a cap of at least one and
  nothing the system refuses to remove: the reported number of files is gone, the archives left
  are at most the cap, each of them is at least as new as every removed one, and no file that is
  not an archive is touched. A cap of zero or less removes nothing.
\<close>
theorem prune_keeps_newest:
  assumes "pk bf_name (dk_files dk)" "\<forall>n. is_backup_name n \<longrightarrow> dk_removable dk n"
  shows "\<exists>dk' kept gone. prune_disk_backups k dk = (length gone, dk')
    \<and> mset (backup_files dk) = mset gone + mset kept \<and> mset (backup_files dk') = mset kept
    \<and> (k \<le> 0 \<longrightarrow> gone = []) \<and> (0 < k \<longrightarrow> int (length kept) = min k (int (length (backup_files dk))))
    \<and> (\<forall>g \<in> set gone. \<forall>f \<in> set kept. bf_mtime g \<le> bf_mtime f)
    \<and> (\<forall>f. \<not> is_backup_name (bf_name f) \<or> \<not> bf_regular f \<longrightarrow> (f \<in> set (dk_files dk') \<longleftrightarrow> f \<in> set (dk_files dk)))"
proof (cases "0 < k")
  case False
  then show ?thesis by (intro exI [of _ dk] exI [of _ "backup_files dk"] exI [of _ "[]"]) (simp add: prune_disk_backups_def)
next
  case True
  define fs where "fs = backup_files dk"
  define surplus where "surplus = length fs - nat k"
  let ?dk = "dk\<lparr>dk_files := filter (\<lambda>g. g \<notin> set (take surplus fs)) (dk_files dk)\<rparr>"
  have d: "distinct (dk_files dk)" using assms(1) by (auto simp: pk_def distinct_map)
  then have df: "distinct fs" by (simp add: fs_def backup_files_def)
  have "mset (backup_files ?dk) = filter_mset (\<lambda>g. g \<notin> set (take surplus fs)) (mset fs)"
    by (simp add: backup_files_def fs_def mset_filter filter_filter_mset conj_commute)
  also have "\<dots> = mset (filter (\<lambda>g. g \<notin> set (take surplus fs)) (take surplus fs @ drop surplus fs))"
    by (simp only: mset_filter append_take_drop_id)
  also have "filter (\<lambda>g. g \<notin> set (take surplus fs)) (take surplus fs @ drop surplus fs) = drop surplus fs"
  proof -
    have "set (take surplus fs) \<inter> set (drop surplus fs) = {}" using df by (simp add: set_take_disj_set_drop_if_distinct)
    then have "filter (\<lambda>g. g \<notin> set (take surplus fs)) (drop surplus fs) = drop surplus fs"
      by (intro filter_True) blast
    moreover have "filter (\<lambda>g. g \<notin> set (take surplus fs)) (take surplus fs) = []" by (intro filter_False) blast
    ultimately show ?thesis unfolding filter_append by (simp only: append_Nil)
  qed
  finally have kept: "mset (backup_files ?dk) = mset (drop surplus fs)" .
  have s: "sorted (map bf_mtime (take surplus fs @ drop surplus fs))" by (simp add: fs_def backup_files_def)
  then have le: "\<forall>g \<in> set (take surplus fs). \<forall>f \<in> set (drop surplus fs). bf_mtime g \<le> bf_mtime f"
    unfolding map_append sorted_append by auto
  have "set (take surplus fs) \<subseteq> {f. is_backup_name (bf_name f) \<and> bf_regular f}"
    using set_take_subset set_backup_files unfolding fs_def by fastforce
  then have o: "\<forall>f. \<not> is_backup_name (bf_name f) \<or> \<not> bf_regular f \<longrightarrow> (f \<in> set (dk_files ?dk) \<longleftrightarrow> f \<in> set (dk_files dk))" by auto
  have "mset fs = mset (take surplus fs) + mset (drop surplus fs)" by (metis append_take_drop_id mset_append)
  moreover have "prune_disk_backups k dk = (length (take surplus fs), ?dk)"
    using prune_effect [OF assms True] by (simp add: fs_def surplus_def)
  moreover have "int (length (drop surplus fs)) = min k (int (length fs))" using True by (simp add: surplus_def min_def)
  ultimately show ?thesis
    using kept le o True unfolding fs_def [symmetric]
    by (intro exI [of _ ?dk] exI [of _ "drop surplus fs"] exI [of _ "take surplus fs"] conjI) simp_all
qed


text \<open>Three archives and another file, a cap of two: the oldest archive goes.\<close>

definition demo_file :: "string \<Rightarrow> int \<Rightarrow> backup_file" where
  "demo_file n t = \<lparr>bf_name = n, bf_mtime = t, bf_content = [], bf_regular = True\<rparr>"

definition demo_disk :: disk where
  "demo_disk = \<lparr>dk_files = [demo_file ''nks-wdc-backup-b.zip'' 2, demo_file ''notes.txt'' 0, demo_file ''nks-wdc-backup-a.zip'' 1,
     demo_file ''nks-wdc-backup-c.zip'' 3], dk_isdir = True, dk_makedirs = True, dk_writable = True, dk_removable = (\<lambda>_. True)\<rparr>"

theorem prune_keeps_newest_witness:
  "\<exists>dk' (gone :: backup_file list). prune_disk_backups 2 demo_disk = (length gone, dk') \<and> length (backup_files dk') = 2 \<and> length gone = 1
     \<and> demo_file ''notes.txt'' 0 \<in> set (dk_files dk')"
proof -
  have p: "pk bf_name (dk_files demo_disk)" by (simp add: demo_disk_def demo_file_def pk_def)
  have n: "length (backup_files demo_disk) = 3"
    by (simp add: backup_files_def demo_disk_def demo_file_def is_backup_name_def suffix_def)
  have o: "\<not> is_backup_name (bf_name (demo_file ''notes.txt'' 0))" by (simp add: demo_file_def is_backup_name_def)
  from prune_keeps_newest [OF p, of 2] obtain dk' kept gone where
    e: "prune_disk_backups 2 demo_disk = (length gone, dk')" "mset (backup_files demo_disk) = mset gone + mset kept"
      "mset (backup_files dk') = mset kept" "int (length kept) = min 2 (int (length (backup_files demo_disk)))"
      "\<forall>f. \<not> is_backup_name (bf_name f) \<or> \<not> bf_regular f \<longrightarrow> (f \<in> set (dk_files dk') \<longleftrightarrow> f \<in> set (dk_files demo_disk))"
    by (auto simp: demo_disk_def)
  have "length gone + length kept = 3" using e(2) n by (metis size_mset size_union)
  moreover have "length kept = 2" using e(4) n by simp
  moreover have "length (backup_files dk') = length kept" using e(3) by (metis size_mset)
  moreover have "demo_file ''notes.txt'' 0 \<in> set (dk_files dk')" using e(5) o by (simp add: demo_disk_def)
  ultimately show ?thesis using e(1) by (intro exI [of _ dk'] exI [of _ gone] conjI) simp_all
qed

section \<open>The archive holds no credentials\<close>

text \<open>The database without what proves an identity or opens a snapshot.\<close>

definition erase_secrets :: "database \<Rightarrow> database" where
  "erase_secrets d = d\<lparr>
     accounts := map (\<lambda>a. a\<lparr>acc_password_hash := [], acc_totp_secret := None, acc_totp_recovery_hashes := None\<rparr>) (accounts d),
     users := map (\<lambda>u. u\<lparr>usr_password_hash := []\<rparr>) (users d),
     personal_access_tokens := [], revoked_tokens := [], admin_sessions := [], idempotency_records := [],
     account_encryption_keys := [], device_configs := [], device_snapshots := [], device_heads := [], sync_snapshots := []\<rparr>"

lemma sort_key_map: "\<forall>x. key (f x) = key x \<Longrightarrow> sort_key key (map f xs) = map f (sort_key key xs)"
proof (induction xs)
  case (Cons x xs)
  have "insort_key key (f x) (map f ys) = map f (insort_key key x ys)" for ys
    using Cons.prems by (induction ys) simp_all
  with Cons show ?case by simp
qed simp

lemma erased_tables [simp]:
  "apps (erase_secrets d) = apps d" "releases (erase_secrets d) = releases d" "downloads (erase_secrets d) = downloads d"
  "consumed_invites (erase_secrets d) = consumed_invites d" "scheduler_runs (erase_secrets d) = scheduler_runs d"
  "global_policies (erase_secrets d) = global_policies d" "audit_events (erase_secrets d) = audit_events d"
  by (simp_all add: erase_secrets_def)

lemma erased_accounts:
  "map (account_json env) (sort_key acc_id (accounts (erase_secrets d))) = map (account_json env) (sort_key acc_id (accounts d))"
  "map (user_json env) (sort_key usr_id (users (erase_secrets d))) = map (user_json env) (sort_key usr_id (users d))"
  by (simp_all add: erase_secrets_def sort_key_map account_json_def user_json_def)

lemma erased_files: "archive_files lib env (erase_secrets d) = archive_files lib env d"
  unfolding archive_files_def erased_tables erased_accounts by (rule refl)

lemma erased_counts: "archive_counts lib (erase_secrets d) = archive_counts lib d"
  by (simp add: archive_counts_def) (simp add: erase_secrets_def)

text \<open>
  C33: A leaked archive gives no access. The archive, its name and its manifest, and everything the
  scheduled run leaves on disk, are the same whether or not the database holds password hashes,
  TOTP secrets, recovery codes, access tokens, sessions, encryption keys, stored responses and
  the device payloads: none of them has any influence on a byte of it.
\<close>
theorem backup_carries_no_secret:
  "generate_backup_bytes lib env now who (erase_secrets d) = generate_backup_bytes lib env now who d
   \<and> backup_run lib env now (erase_secrets d) dk = backup_run lib env now d dk"
proof -
  have "generate_backup_bytes lib env now who (erase_secrets d) = generate_backup_bytes lib env now who d" for who
    by (simp add: generate_backup_bytes_def manifest_def erased_files erased_counts)
  moreover have "backup_dir (erase_secrets d) = backup_dir d" by (simp add: backup_dir_def)
  ultimately show ?thesis by (simp only: backup_run_def erased_tables erased_counts conj_absorb simp_thms)
qed

section \<open>What the scheduled run leaves behind\<close>

lemma backup_recorded:
  "\<exists>r. scheduler_runs (committed (snd (fst (run_scheduled_backup lib env exn_str now ms dk st))))
       = scheduler_runs (if isl (fst (fst (run_scheduled_backup lib env exn_str now ms dk st))) then committed st else db st) @ [r]
     \<and> run_job r = ''backup'' \<and> (run_error r = None \<longleftrightarrow> \<not> isl (fst (fst (run_scheduled_backup lib env exn_str now ms dk st))))"
  by (cases "backup_run lib env now (db st) dk"; cases "fst (backup_run lib env now (db st) dk)")
     (auto simp: run_scheduled_backup_def run_scheduled_backup_in_def write_scheduler_run_def row_add_def commit_def rollback_def Let_def)

text \<open>Only archives can be deleted by name, whatever name is sent.\<close>

lemma delete_only_archives:
  assumes "delete_backup_file w now req filename u dk st = (r, dk')" "f \<in> set (dk_files dk)" "f \<notin> set (dk_files dk')"
  shows "is_backup_name (bf_name f) \<and> bf_name f = filename \<and> CHR ''/'' \<notin> set filename"
proof -
  have b: "CHR ''/'' \<notin> set (basename p)" for p by (auto simp: basename_def dest: set_takeWhileD)
  have "basename filename = filename \<and> is_backup_name filename \<and> dk_files dk' = row_del bf_name filename (dk_files dk)"
    using assms by (auto simp: delete_backup_file_def Let_def split: if_splits option.splits prod.splits)
  then show ?thesis using assms(2,3) b [of filename] by (auto simp: row_del_def)
qed

end
