(* ===== verification/Plugins.thy ===== *)
theory Plugins
  imports Generators Json_Text Cache
begin

text \<open>
  The plugin catalog (\<^verbatim>\<open>app/plugins_catalog.py\<close>): releases from GitHub with the last good copy in
  memory and in the state directory, the naming conventions of tags and assets, digests and
  manifests with their process-wide caches, grouping, and the two endpoints.

  The web at the time of a request is \<open>plugin_web\<close>: parsed bodies and raw bytes of successful
  GETs, \<open>None\<close> for any failure. The module's state is \<open>plugin_state\<close>; the file is kept as its
  text. The pool's workers only fill caches with what they fetch, so they run here one after
  another. A member of another type than text where the code needs text raises.
\<close>

record plugin_web =
  pw_json :: "string \<Rightarrow> json option"
  pw_bytes :: "string \<Rightarrow> bytes option"

record plugin_cfg =
  pc_repo :: string
  pc_ttl :: int
  pc_sha256_hex :: "bytes \<Rightarrow> string"
  pc_utc :: "instant \<Rightarrow> string"
  pc_state_writable :: bool

record plugin_state =
  ps_cache :: "string \<times> int \<rightharpoonup> int \<times> json \<times> json"
  ps_file :: "string option"
  ps_sha256 :: "json \<times> json \<rightharpoonup> string"
  ps_manifest :: "string \<times> string \<times> string \<rightharpoonup> json"

record releases_snapshot =
  rs_releases :: json
  rs_generated_at :: json
  rs_stale :: bool

definition RELEASES_LIMIT :: int where "RELEASES_LIMIT = 100"

section \<open>The releases and their last good copy\<close>

definition save_snapshot :: "plugin_cfg \<Rightarrow> int \<Rightarrow> json \<Rightarrow> json \<Rightarrow> plugin_state \<Rightarrow> plugin_state" where
  "save_snapshot cfg limit generated_at releases ps =
     (if pc_state_writable cfg
      then ps\<lparr>ps_file := Some (dumps_default (JObj
        [(''repo'', JStr (pc_repo cfg)), (''limit'', JInt limit), (''generated_at'', generated_at), (''releases'', releases)]))\<rparr>
      else ps)"

text \<open>Any exception on the way, a missing key included, counts as no copy.\<close>

definition load_snapshot :: "plugin_cfg \<Rightarrow> int \<Rightarrow> plugin_state \<Rightarrow> (json \<times> json) option" where
  "load_snapshot cfg limit ps = do {
     txt \<leftarrow> ps_file ps; saved \<leftarrow> loads txt;
     repo \<leftarrow> jget saved ''repo''; lim \<leftarrow> jget saved ''limit''; releases \<leftarrow> jget saved ''releases'';
     generated_at \<leftarrow> jget saved ''generated_at'';
     if repo = JStr (pc_repo cfg) \<and> lim = JInt limit \<and> json_truthy releases then Some (generated_at, releases) else None }"

definition releases_url :: "plugin_cfg \<Rightarrow> int \<Rightarrow> string" where
  "releases_url cfg limit = ''https://api.github.com/repos/'' @ pc_repo cfg @ ''/releases?per_page='' @ show_int limit"

definition fetch_list :: "plugin_web \<Rightarrow> string \<Rightarrow> json option" where
  "fetch_list w url = (case pw_json w url of Some (JList js) \<Rightarrow> Some (JList js) | _ \<Rightarrow> None)"

definition plugin_releases ::
  "plugin_cfg \<Rightarrow> plugin_web \<Rightarrow> int \<Rightarrow> instant \<Rightarrow> int \<Rightarrow> plugin_state \<Rightarrow> releases_snapshot option \<times> plugin_state" where
  "plugin_releases cfg w now wall limit ps =
     (let key = (pc_repo cfg, limit);
          entry = ps_cache ps key;
          fetched = (case fetch_list w (releases_url cfg limit) of
             None \<Rightarrow>
               (let saved = map_option (\<lambda>(generated_at, releases).
                      \<lparr>rs_releases = releases, rs_generated_at = generated_at, rs_stale = True\<rparr>) (load_snapshot cfg limit ps) in
                ((case entry of Some (_, releases, generated_at) \<Rightarrow>
                     if json_truthy releases then Some \<lparr>rs_releases = releases, rs_generated_at = generated_at, rs_stale = True\<rparr>
                     else saved
                   | None \<Rightarrow> saved), ps))
           | Some data \<Rightarrow>
               (let generated_at = JStr (pc_utc cfg wall);
                    ps1 = ps\<lparr>ps_cache := (ps_cache ps)(key \<mapsto> (now, data, generated_at))\<rparr>
                in (Some \<lparr>rs_releases = data, rs_generated_at = generated_at, rs_stale = False\<rparr>,
                    if json_truthy data then save_snapshot cfg limit generated_at data ps1 else ps1)))
      in case entry of
           Some (t, releases, generated_at) \<Rightarrow>
             if 0 < pc_ttl cfg \<and> now - t < pc_ttl cfg
             then (Some \<lparr>rs_releases = releases, rs_generated_at = generated_at, rs_stale = False\<rparr>, ps)
             else fetched
         | None \<Rightarrow> fetched)"

section \<open>Names\<close>

definition chomp :: "string \<Rightarrow> string" where
  "chomp s = (if s \<noteq> [] \<and> last s = char_of (10 :: nat) then butlast s else s)"

text \<open>
  \<open>_TAG_RE\<close>, read from the end: the version is the longest run of digits and dots, and must be
  three numbers after a \<open>v\<close>; what stands before is empty or a text without line feed and a dash.
\<close>

definition tag_match :: "string \<Rightarrow> (string \<times> string) option" where
  "tag_match tag =
     (let t = chomp tag;
          version = rev (takeWhile (\<lambda>c. is_digit c \<or> c = CHR ''.'') (rev t));
          before = rev (dropWhile (\<lambda>c. is_digit c \<or> c = CHR ''.'') (rev t));
          parts = split_on (CHR ''.'') version
      in if length parts = 3 \<and> [] \<notin> set parts \<and> before \<noteq> [] \<and> last before = CHR ''v'' then
           (let p = butlast before in
            if p = [] then Some ([], version)
            else if last p = CHR ''-'' \<and> butlast p \<noteq> [] \<and> char_of (10 :: nat) \<notin> set (butlast p)
            then Some (butlast p, version) else None)
         else None)"

definition TAG_ID_PREFIX :: string where "TAG_ID_PREFIX = ''nks.wdc.''"

definition is_alnum_ascii :: "char \<Rightarrow> bool" where
  "is_alnum_ascii c = (let n = char_code c in is_digit c \<or> (65 \<le> n \<and> n \<le> 90) \<or> (97 \<le> n \<and> n \<le> 122))"

definition remove_suffix :: "string \<Rightarrow> string \<Rightarrow> string" where
  "remove_suffix x s = (if suffix x s then take (length s - length x) s else s)"

definition asset_plugin_id :: "string \<Rightarrow> string option" where
  "asset_plugin_id filename =
     (let f = chomp filename; p = ''NKS.WebDevConsole.Plugin.''; name = drop (length p) (remove_suffix ''.zip'' f) in
      if prefix p f \<and> suffix ''.zip'' f \<and> length p + 4 \<le> length f \<and> name \<noteq> [] \<and> list_all is_alnum_ascii name
      then Some (''nks.wdc.'' @ py_lower name) else None)"

fun plugin_assets_from :: "string \<Rightarrow> string \<Rightarrow> json list \<Rightarrow> exn + (string \<times> string \<times> json) list" where
  "plugin_assets_from pre version [] = Inr []"
| "plugin_assets_from pre version (asset # rest) =
     bind_exn (dget_or_empty asset ''name'') (\<lambda>name.
     case asset_plugin_id name of None \<Rightarrow> plugin_assets_from pre version rest
     | Some i \<Rightarrow>
       bind_exn (dget asset ''browser_download_url'' JNull) (\<lambda>url.
       if \<not> json_truthy url then plugin_assets_from pre version rest
       else if prefix TAG_ID_PREFIX pre then Inr [(pre, version, asset)]
       else bind_exn (plugin_assets_from pre version rest) (\<lambda>found. Inr ((i, version, asset) # found))))"

definition plugin_assets :: "json \<Rightarrow> exn + (string \<times> string \<times> json) list" where
  "plugin_assets rel =
     bind_exn (dget_or_empty rel ''tag_name'') (\<lambda>tag.
     case tag_match tag of None \<Rightarrow> Inr []
     | Some (pre, version) \<Rightarrow>
       bind_exn (dget rel ''assets'' JNull) (\<lambda>assets.
       bind_exn (if json_truthy assets then json_iter assets else Inr []) (plugin_assets_from pre version)))"

section \<open>Digests and manifests\<close>

text \<open>\<open>a or b\<close> on JSON values.\<close>

definition jor :: "json \<Rightarrow> json \<Rightarrow> json" where
  "jor a b = (if json_truthy a then a else b)"

definition asset_sha256 :: "plugin_cfg \<Rightarrow> plugin_web \<Rightarrow> json \<Rightarrow> plugin_state \<Rightarrow> (exn + string option) \<times> plugin_state" where
  "asset_sha256 cfg w asset ps =
     (case bind_exn (dget_or_empty asset ''digest'') (\<lambda>digest.
           bind_exn (dget_or_empty asset ''browser_download_url'') (\<lambda>url.
           bind_exn (dget asset ''id'' JNull) (\<lambda>i.
           bind_exn (dget asset ''updated_at'' JNull) (\<lambda>u. Inr (digest, url, jor i (JStr url), jor u (JStr [])))))) of
        Inl e \<Rightarrow> (Inl e, ps)
      | Inr (digest, url, key) \<Rightarrow>
        if prefix ''sha256:'' digest then (Inr (Some (py_lower (drop 7 digest))), ps)
        else (case ps_sha256 ps key of
            Some s \<Rightarrow> (Inr (Some s), ps)
          | None \<Rightarrow>
            (case pw_bytes w url of None \<Rightarrow> (Inr None, ps)
             | Some bs \<Rightarrow> (Inr (Some (pc_sha256_hex cfg bs)), ps\<lparr>ps_sha256 := (ps_sha256 ps)(key \<mapsto> pc_sha256_hex cfg bs)\<rparr>))))"

definition plugin_manifest ::
  "plugin_cfg \<Rightarrow> plugin_web \<Rightarrow> string \<Rightarrow> string \<Rightarrow> plugin_state \<Rightarrow> json \<times> plugin_state" where
  "plugin_manifest cfg w tag plugin_dir ps =
     (let key = (pc_repo cfg, tag, plugin_dir) in
      case ps_manifest ps key of Some m \<Rightarrow> (m, ps)
      | None \<Rightarrow>
        (case pw_json w (''https://raw.githubusercontent.com/'' @ pc_repo cfg @ ''/'' @ tag @ ''/'' @ plugin_dir @ ''/plugin.json'') of
           Some (JObj kvs) \<Rightarrow> (JObj kvs, ps\<lparr>ps_manifest := (ps_manifest ps)(key \<mapsto> JObj kvs)\<rparr>)
         | _ \<Rightarrow> (JObj [], ps)))"

section \<open>The catalog\<close>

record plugin_entry =
  pe_id :: string
  pe_name :: json
  pe_description :: json
  pe_releases :: "gen_release list"

record plugins_catalog =
  pcat_plugins :: "plugin_entry list"
  pcat_generated_at :: json
  pcat_stale :: bool

type_synonym found_item = "string \<times> json \<times> json"

text \<open>\<open>found.setdefault(plugin_id, []).append(item)\<close>, keys in order of first use.\<close>

fun add_found :: "string \<Rightarrow> 'i \<Rightarrow> (string \<times> 'i list) list \<Rightarrow> (string \<times> 'i list) list" where
  "add_found i x [] = [(i, [x])]"
| "add_found i x ((i', xs) # found) = (if i' = i then (i', xs @ [x]) # found else (i', xs) # add_found i x found)"

fun group_releases :: "json list \<Rightarrow> (string \<times> found_item list) list \<Rightarrow> exn + (string \<times> found_item list) list" where
  "group_releases [] found = Inr found"
| "group_releases (rel # rels) found =
     bind_exn (plugin_assets rel) (\<lambda>as.
       group_releases rels (foldl (\<lambda>f (i, version, asset). add_found i (version, rel, asset) f) found as))"

definition newest_items :: "found_item list \<Rightarrow> found_item list" where
  "newest_items items = sort_desc (\<lambda>(version, _, _). semver_key version) items"

definition describe :: "plugin_cfg \<Rightarrow> plugin_web \<Rightarrow> found_item list \<Rightarrow> plugin_state \<Rightarrow> (exn + json \<times> json) \<times> plugin_state" where
  "describe cfg w items ps =
     (case items of [] \<Rightarrow> (Inl (PyError ''IndexError''), ps)
      | (_, rel, asset) # _ \<Rightarrow>
        (case bind_exn (dget_or_empty asset ''name'') (\<lambda>n. bind_exn (dget_or_empty rel ''tag_name'') (\<lambda>t. Inr (n, t))) of
           Inl e \<Rightarrow> (Inl e, ps)
         | Inr (name, tag) \<Rightarrow>
           (let plugin_dir = remove_suffix ''.zip'' name;
                (m, ps1) = plugin_manifest cfg w tag plugin_dir ps;
                display = (case jget m ''displayName'' of None \<Rightarrow> JNull | Some v \<Rightarrow> v)
            in (Inr (jor display (JStr (last (split_on (CHR ''.'') plugin_dir))),
                     case jget m ''description'' of None \<Rightarrow> JNull | Some v \<Rightarrow> v), ps1))))"

definition build_release :: "plugin_cfg \<Rightarrow> plugin_web \<Rightarrow> found_item \<Rightarrow> plugin_state \<Rightarrow> (exn + gen_release) \<times> plugin_state" where
  "build_release cfg w item ps =
     (case item of (version, rel, asset) \<Rightarrow>
        (case bind_exn (dget_or_empty rel ''published_at'') (\<lambda>p.
              bind_exn (dget_or_empty asset ''browser_download_url'') (\<lambda>u. Inr (take 10 p, u))) of
           Inl e \<Rightarrow> (Inl e, ps)
         | Inr (published, url) \<Rightarrow>
           (case asset_sha256 cfg w asset ps of
              (Inl e, ps1) \<Rightarrow> (Inl e, ps1)
            | (Inr sha, ps1) \<Rightarrow>
              (Inr \<lparr>gr_version = version, gr_major_minor = join_with ''.'' (take 2 (split_on (CHR ''.'') version)),
                    gr_channel = ''stable'', gr_released_at = (if published = [] then None else Some published),
                    gr_downloads = [(gen_dl url ''any'' ''any'' ''zip'' ''nks-hub-plugins'')\<lparr>gd_sha256 := sha\<rparr>]\<rparr>, ps1))))"

text \<open>A loop over items that may raise and passes the caches on.\<close>

fun map_state :: "('a \<Rightarrow> 's \<Rightarrow> (exn + 'b) \<times> 's) \<Rightarrow> 'a list \<Rightarrow> 's \<Rightarrow> (exn + 'b list) \<times> 's" where
  "map_state f [] s = (Inr [], s)"
| "map_state f (x # xs) s =
     (case f x s of (Inl e, s1) \<Rightarrow> (Inl e, s1)
      | (Inr y, s1) \<Rightarrow> (case map_state f xs s1 of (Inl e, s2) \<Rightarrow> (Inl e, s2) | (Inr ys, s2) \<Rightarrow> (Inr (y # ys), s2)))"

definition build_plugin ::
  "plugin_cfg \<Rightarrow> plugin_web \<Rightarrow> (string \<times> found_item list) \<times> json \<times> json \<Rightarrow> plugin_state \<Rightarrow> (exn + plugin_entry) \<times> plugin_state" where
  "build_plugin cfg w x ps =
     (case x of ((i, items), name, description) \<Rightarrow>
        (case map_state (build_release cfg w) items ps of
           (Inl e, ps1) \<Rightarrow> (Inl e, ps1)
         | (Inr rels, ps1) \<Rightarrow> (Inr \<lparr>pe_id = i, pe_name = name, pe_description = description, pe_releases = rels\<rparr>, ps1)))"

definition generate_plugins ::
  "plugin_cfg \<Rightarrow> plugin_web \<Rightarrow> int \<Rightarrow> instant \<Rightarrow> plugin_state \<Rightarrow> (exn + plugins_catalog option) \<times> plugin_state" where
  "generate_plugins cfg w now wall ps =
     (case plugin_releases cfg w now wall RELEASES_LIMIT ps of
        (None, ps1) \<Rightarrow> (Inr None, ps1)
      | (Some snap, ps1) \<Rightarrow>
        (case bind_exn (json_iter (rs_releases snap)) (\<lambda>rels. group_releases rels []) of
           Inl e \<Rightarrow> (Inl e, ps1)
         | Inr found0 \<Rightarrow>
           (let found = map (\<lambda>(i, items). (i, newest_items items)) found0 in
            case map_state (describe cfg w) (map snd found) ps1 of
              (Inl e, ps2) \<Rightarrow> (Inl e, ps2)
            | (Inr described, ps2) \<Rightarrow>
              (case map_state (build_plugin cfg w) (zip found described) ps2 of
                 (Inl e, ps3) \<Rightarrow> (Inl e, ps3)
               | (Inr plugins, ps3) \<Rightarrow>
                 (Inr (Some \<lparr>pcat_plugins = plugins, pcat_generated_at = rs_generated_at snap, pcat_stale = rs_stale snap\<rparr>), ps3)))))"

definition current_catalog ::
  "plugin_cfg \<Rightarrow> plugin_web \<Rightarrow> int \<Rightarrow> instant \<Rightarrow> plugin_state \<Rightarrow> (exn + plugins_catalog) \<times> plugin_state" where
  "current_catalog cfg w now wall ps =
     (case generate_plugins cfg w now wall ps of
        (Inl e, ps1) \<Rightarrow> (Inl e, ps1)
      | (Inr None, ps1) \<Rightarrow>
        (Inl (HTTPException 503 ''plugin catalog unavailable: GitHub did not answer and no earlier copy exists''), ps1)
      | (Inr (Some c), ps1) \<Rightarrow> (Inr c, ps1))"

definition download_asdict :: "gen_download \<Rightarrow> json" where
  "download_asdict d = JObj
     [(''url'', JStr (gd_url d)), (''os'', JStr (gd_os d)), (''arch'', JStr (gd_arch d)), (''archive_type'', JStr (gd_archive_type d)),
      (''source'', JStr (gd_source d)), (''headers'', case gd_headers d of None \<Rightarrow> JNull | Some h \<Rightarrow> h),
      (''size_bytes'', jopt_int (gd_size_bytes d)), (''sha256'', jopt_str (gd_sha256 d))]"

definition release_asdict :: "gen_release \<Rightarrow> json" where
  "release_asdict r = JObj
     [(''version'', JStr (gr_version r)), (''major_minor'', JStr (gr_major_minor r)), (''channel'', JStr (gr_channel r)),
      (''released_at'', jopt_str (gr_released_at r)), (''downloads'', JList (map download_asdict (gr_downloads r)))]"

definition entry_members :: "plugin_entry \<Rightarrow> (string \<times> json) list" where
  "entry_members p =
     [(''id'', JStr (pe_id p)), (''name'', pe_name p), (''description'', pe_description p),
      (''releases'', JList (map release_asdict (pe_releases p)))]"

definition plugins_catalog_payload :: "plugin_cfg \<Rightarrow> plugins_catalog \<Rightarrow> json" where
  "plugins_catalog_payload cfg c =
     (let plugins = sort_key pe_id (pcat_plugins c) in JObj
      [(''schema'', JStr ''wdc-plugins/v1''), (''source'', JStr (pc_repo cfg)), (''generated_at'', pcat_generated_at c),
       (''stale'', JBool (pcat_stale c)), (''plugin_count'', JInt (int (length plugins))),
       (''plugins'', JList (map (\<lambda>p. JObj (entry_members p)) plugins))])"

definition get_plugins_catalog ::
  "plugin_cfg \<Rightarrow> plugin_web \<Rightarrow> int \<Rightarrow> instant \<Rightarrow> plugin_state \<Rightarrow> (exn + string) \<times> plugin_state" where
  "get_plugins_catalog cfg w now wall ps =
     (case current_catalog cfg w now wall ps of (Inl e, ps1) \<Rightarrow> (Inl e, ps1)
      | (Inr c, ps1) \<Rightarrow> (Inr (dumps_raw '','' '':'' (plugins_catalog_payload cfg c)), ps1))"

definition get_single_plugin ::
  "plugin_cfg \<Rightarrow> plugin_web \<Rightarrow> int \<Rightarrow> instant \<Rightarrow> string \<Rightarrow> plugin_state \<Rightarrow> (exn + string) \<times> plugin_state" where
  "get_single_plugin cfg w now wall plugin_id ps =
     (case current_catalog cfg w now wall ps of (Inl e, ps1) \<Rightarrow> (Inl e, ps1)
      | (Inr c, ps1) \<Rightarrow>
        (case find (\<lambda>p. pe_id p = py_lower plugin_id) (pcat_plugins c) of
           None \<Rightarrow> (Inl (HTTPException 404 ''plugin not found''), ps1)
         | Some p \<Rightarrow> (Inr (dumps_raw '','' '':'' (JObj (entry_members p @
             [(''generated_at'', pcat_generated_at c), (''stale'', JBool (pcat_stale c))]))), ps1)))"


section \<open>What can be raised\<close>

text \<open>Everything but the two answers of the endpoints is an exception of Python's own.\<close>

definition py_only :: "exn + 'a \<Rightarrow> bool" where
  "py_only r \<longleftrightarrow> (\<forall>e. r = Inl e \<longrightarrow> (\<exists>s. e = PyError s))"

lemma py_simps [simp]: "py_only (Inr x)" "py_only (Inl (PyError s))"
  by (simp_all add: py_only_def)

lemma py_bind: "py_only r \<Longrightarrow> (\<And>x. py_only (f x)) \<Longrightarrow> py_only (bind_exn r f)"
  by (cases r) (simp_all add: bind_exn_def py_only_def)

lemma py_dget: "py_only (dget j k d)"
  by (cases j) (simp_all add: dget_def)

lemma py_dget_or_empty: "py_only (dget_or_empty j k)"
  unfolding dget_or_empty_def by (intro py_bind py_dget) (simp add: as_str_def split: json.splits)

lemma py_json_iter: "py_only (json_iter j)"
  by (cases j) simp_all

lemma py_assets_from: "py_only (plugin_assets_from p v as)"
  by (induction p v as rule: plugin_assets_from.induct)
     (auto intro!: py_bind py_dget_or_empty py_dget split: option.splits)

lemma py_group: "py_only (group_releases rels found)"
proof (induction rels arbitrary: found)
  case (Cons rel rels)
  have "py_only (if b then json_iter j else Inr [])" for b j using py_json_iter by simp
  then have "py_only (plugin_assets rel)"
    unfolding plugin_assets_def
    by (intro py_bind py_dget_or_empty) (auto intro!: py_bind py_dget py_assets_from split: option.splits)
  with Cons show ?case by (simp add: py_bind)
qed simp

lemma py_map_state: "(\<And>x s. py_only (fst (f x s))) \<Longrightarrow> py_only (fst (map_state f xs s))"
proof (induction xs arbitrary: s)
  case (Cons x xs)
  obtain y s1 where f: "f x s = (y, s1)" by fastforce
  have "py_only y" using Cons.prems [of x s] f by simp
  moreover obtain z s2 where g: "map_state f xs s1 = (z, s2)" by fastforce
  moreover have "py_only z" using Cons.IH [of s1] Cons.prems g by simp
  ultimately show ?case using f by (cases y; cases z) (simp_all add: py_only_def)
qed simp

lemma py_described: "py_only (fst (describe cfg w items ps))"
proof (cases items)
  case (Cons it rest)
  obtain v rel asset where it: "it = (v, rel, asset)" by (cases it)
  let ?b = "bind_exn (dget_or_empty asset ''name'') (\<lambda>n. bind_exn (dget_or_empty rel ''tag_name'') (\<lambda>t. Inr (n, t)))"
  have "py_only ?b" by (intro py_bind py_dget_or_empty) simp
  then show ?thesis by (cases ?b) (auto simp: describe_def Cons it split_beta Let_def py_only_def)
qed (simp add: describe_def)

lemma py_sha256: "py_only (fst (asset_sha256 cfg w asset ps))"
proof -
  let ?b = "bind_exn (dget_or_empty asset ''digest'') (\<lambda>digest.
           bind_exn (dget_or_empty asset ''browser_download_url'') (\<lambda>url.
           bind_exn (dget asset ''id'' JNull) (\<lambda>i.
           bind_exn (dget asset ''updated_at'' JNull) (\<lambda>u. Inr (digest, url, jor i (JStr url), jor u (JStr []))))))"
  have "py_only ?b" by (intro py_bind py_dget_or_empty py_dget) simp
  then show ?thesis unfolding asset_sha256_def by (cases ?b) (auto simp: py_only_def split: option.splits if_splits)
qed

lemma py_built: "py_only (fst (build_release cfg w item ps))"
proof -
  obtain v rel asset where it: "item = (v, rel, asset)" by (cases item)
  let ?b = "bind_exn (dget_or_empty rel ''published_at'') (\<lambda>p.
              bind_exn (dget_or_empty asset ''browser_download_url'') (\<lambda>u. Inr (take 10 p, u)))"
  have b: "py_only ?b" by (intro py_bind py_dget_or_empty) simp
  obtain s ps1 where sh: "asset_sha256 cfg w asset ps = (s, ps1)" by fastforce
  then have "py_only s" using py_sha256 [of cfg w asset ps] by simp
  with b sh show ?thesis by (cases ?b; cases s) (auto simp: build_release_def it py_only_def)
qed

lemma py_plugin: "py_only (fst (build_plugin cfg w x ps))"
proof -
  obtain i items n d where x: "x = ((i, items), n, d)" by (metis prod.collapse)
  obtain rs ps1 where m: "map_state (build_release cfg w) items ps = (rs, ps1)" by fastforce
  then have "py_only rs" using py_map_state [of "build_release cfg w" items ps] py_built by (metis fst_conv)
  with m show ?thesis by (cases rs) (auto simp: build_plugin_def x py_only_def)
qed

lemma py_generate: "py_only (fst (generate_plugins cfg w now wall ps))"
proof -
  have b: "py_only (bind_exn (json_iter j) (\<lambda>rels. group_releases rels []))" for j
    by (intro py_bind py_json_iter py_group)
  have d: "map_state (describe cfg w) xs s = (r, s') \<Longrightarrow> py_only r" for xs s r s'
    using py_map_state [of "describe cfg w" xs s] py_described by (metis fst_conv)
  have e: "map_state (build_plugin cfg w) xs s = (r, s') \<Longrightarrow> py_only r" for xs s r s'
    using py_map_state [of "build_plugin cfg w" xs s] py_plugin by (metis fst_conv)
  show ?thesis
    unfolding generate_plugins_def Let_def
    using b d e by (auto simp: py_only_def split: prod.splits option.splits sum.splits)
qed

lemma listed_no_http:
  assumes "fst (plugin_releases cfg w now wall RELEASES_LIMIT ps) = Some snap"
  shows "\<not> is_http c (fst (get_plugins_catalog cfg w now wall ps))"
proof -
  obtain r ps1 where g: "generate_plugins cfg w now wall ps = (r, ps1)" by fastforce
  then have "py_only r" using py_generate [of cfg w now wall ps] by simp
  moreover have "r \<noteq> Inr None"
    using g assms by (auto simp: generate_plugins_def Let_def split: prod.splits option.splits sum.splits)
  ultimately show ?thesis
    using g by (auto simp: get_plugins_catalog_def current_catalog_def is_http_def py_only_def split: sum.splits option.splits)
qed

section \<open>The last good copy is never lost\<close>

lemma map_state_frame: "(\<And>x s. F (snd (f x s)) = F s) \<Longrightarrow> F (snd (map_state f xs s)) = F s"
proof (induction xs arbitrary: s)
  case (Cons x xs)
  obtain y s1 where f: "f x s = (y, s1)" by fastforce
  obtain z s2 where g: "map_state f xs s1 = (z, s2)" by fastforce
  have "F s1 = F s" "F s2 = F s1" using Cons.prems [of x s] Cons.IH [of s1] Cons.prems f g by simp_all
  with f g show ?case by (cases y; cases z) simp_all
qed simp

definition copies :: "plugin_state \<Rightarrow> (string \<times> int \<rightharpoonup> int \<times> json \<times> json) \<times> string option" where
  "copies ps = (ps_cache ps, ps_file ps)"

lemma copies_manifest: "copies (snd (plugin_manifest cfg w tag d ps)) = copies ps"
  by (simp add: plugin_manifest_def Let_def copies_def split: option.splits json.splits)

lemma copies_describe: "copies (snd (describe cfg w items ps)) = copies ps"
proof (cases items)
  case (Cons it rest)
  obtain v rel asset where it: "it = (v, rel, asset)" by (cases it)
  show ?thesis
    using copies_manifest by (simp add: describe_def Cons it split_beta Let_def split: sum.splits)
qed (simp add: describe_def)

lemma copies_sha256: "copies (snd (asset_sha256 cfg w asset ps)) = copies ps"
  by (simp add: asset_sha256_def copies_def split: sum.splits prod.splits option.splits)

lemma copies_build: "copies (snd (build_release cfg w item ps)) = copies ps"
proof -
  obtain v rel asset where it: "item = (v, rel, asset)" by (cases item)
  show ?thesis
    using copies_sha256 [of cfg w asset ps] by (auto simp: build_release_def it split: sum.splits prod.splits)
qed

lemma copies_plugin: "copies (snd (build_plugin cfg w x ps)) = copies ps"
proof -
  obtain i items n d where x: "x = ((i, items), n, d)" by (metis prod.collapse)
  have "copies (snd (map_state (build_release cfg w) items ps)) = copies ps"
    by (rule map_state_frame) (rule copies_build)
  then show ?thesis by (auto simp: build_plugin_def x split: sum.splits prod.splits)
qed

lemma copies_generate: "copies (snd (generate_plugins cfg w now wall ps)) = copies (snd (plugin_releases cfg w now wall RELEASES_LIMIT ps))"
proof -
  have d: "copies (snd (map_state (describe cfg w) xs s)) = copies s" for xs s
    by (rule map_state_frame) (rule copies_describe)
  have b: "copies (snd (map_state (build_plugin cfg w) xs s)) = copies s" for xs s
    by (rule map_state_frame) (rule copies_plugin)
  show ?thesis
    unfolding generate_plugins_def Let_def
    using d b by (auto split: prod.splits option.splits sum.splits) (metis snd_conv)+
qed

lemma copies_endpoints:
  "copies (snd (current_catalog cfg w now wall ps)) = copies (snd (plugin_releases cfg w now wall RELEASES_LIMIT ps))"
  "copies (snd (get_plugins_catalog cfg w now wall ps)) = copies (snd (plugin_releases cfg w now wall RELEASES_LIMIT ps))"
  "copies (snd (get_single_plugin cfg w now wall i ps)) = copies (snd (plugin_releases cfg w now wall RELEASES_LIMIT ps))"
proof -
  show c: "copies (snd (current_catalog cfg w now wall ps)) = copies (snd (plugin_releases cfg w now wall RELEASES_LIMIT ps))"
    using copies_generate [of cfg w now wall ps] by (auto simp: current_catalog_def split: prod.splits sum.splits option.splits)
  show "copies (snd (get_plugins_catalog cfg w now wall ps)) = copies (snd (plugin_releases cfg w now wall RELEASES_LIMIT ps))"
    using c by (auto simp: get_plugins_catalog_def split: prod.splits sum.splits)
  show "copies (snd (get_single_plugin cfg w now wall i ps)) = copies (snd (plugin_releases cfg w now wall RELEASES_LIMIT ps))"
    using c by (auto simp: get_single_plugin_def split: prod.splits sum.splits option.splits)
qed

lemma load_saved:
  assumes "json_wf data" "json_truthy data" "pc_state_writable cfg"
  shows "load_snapshot cfg limit (save_snapshot cfg limit (JStr g) data ps) = Some (JStr g, data)"
proof -
  have "json_wf (JObj [(''repo'', JStr (pc_repo cfg)), (''limit'', JInt limit), (''generated_at'', JStr g), (''releases'', data)])"
    using assms(1) by simp
  from loads_dumps_default [OF this] show ?thesis
    using assms(2,3) by (simp add: load_snapshot_def save_snapshot_def jget_def)
qed

text \<open>
  What GitHub may answer during a history is a set \<open>H\<close> of lists. A step serves a request with
  such a web, or restarts the process, which keeps the file only.
\<close>

definition web_in :: "plugin_cfg \<Rightarrow> json set \<Rightarrow> plugin_web \<Rightarrow> bool" where
  "web_in cfg H w \<longleftrightarrow> (\<forall>d. fetch_list w (releases_url cfg RELEASES_LIMIT) = Some d \<longrightarrow> d \<in> H \<and> json_wf d)"

inductive plugin_step :: "plugin_cfg \<Rightarrow> json set \<Rightarrow> plugin_state \<Rightarrow> plugin_state \<Rightarrow> bool" for cfg H where
  serve_all: "web_in cfg H w \<Longrightarrow> plugin_step cfg H ps (snd (get_plugins_catalog cfg w now wall ps))"
| serve_one: "web_in cfg H w \<Longrightarrow> plugin_step cfg H ps (snd (get_single_plugin cfg w now wall i ps))"
| restart: "plugin_step cfg H ps \<lparr>ps_cache = Map.empty, ps_file = ps_file ps, ps_sha256 = Map.empty, ps_manifest = Map.empty\<rparr>"

definition copy_inv :: "plugin_cfg \<Rightarrow> json set \<Rightarrow> plugin_state \<Rightarrow> bool" where
  "copy_inv cfg H ps \<longleftrightarrow> (\<exists>g r. load_snapshot cfg RELEASES_LIMIT ps = Some (g, r) \<and> r \<in> H) \<and>
     (\<forall>t r g. ps_cache ps (pc_repo cfg, RELEASES_LIMIT) = Some (t, r, g) \<longrightarrow> r \<in> H)"

lemma load_same_file: "ps_file ps' = ps_file ps \<Longrightarrow> load_snapshot cfg limit ps' = load_snapshot cfg limit ps"
  by (simp add: load_snapshot_def)

lemma copy_inv_same: "copies ps' = copies ps \<Longrightarrow> copy_inv cfg H ps' = copy_inv cfg H ps"
  using load_same_file [of ps' ps] by (simp add: copy_inv_def copies_def)

lemma stored_copy:
  fixes now :: int and g' :: json
  assumes "d \<in> H" "json_wf d" "copy_inv cfg H ps \<or> (json_truthy d \<and> pc_state_writable cfg)"
  defines "ps1 \<equiv> ps\<lparr>ps_cache := (ps_cache ps)((pc_repo cfg, RELEASES_LIMIT) \<mapsto> (now, d, g'))\<rparr>"
  shows "copy_inv cfg H (if json_truthy d then save_snapshot cfg RELEASES_LIMIT (JStr g) d ps1 else ps1)"
proof (cases "json_truthy d \<and> pc_state_writable cfg")
  case True
  then show ?thesis using load_saved [OF assms(2)] assms(1) by (simp add: copy_inv_def save_snapshot_def ps1_def)
next
  case False
  then have "copy_inv cfg H ps" using assms(3) by blast
  moreover have "load_snapshot cfg RELEASES_LIMIT ps1 = load_snapshot cfg RELEASES_LIMIT ps"
    by (rule load_same_file) (simp add: ps1_def)
  ultimately have "copy_inv cfg H ps1" using assms(1) by (simp add: copy_inv_def ps1_def)
  with False show ?thesis by (simp add: save_snapshot_def)
qed

lemma releases_keep_copy:
  assumes "web_in cfg H w" "copy_inv cfg H ps"
  shows "copy_inv cfg H (snd (plugin_releases cfg w now wall RELEASES_LIMIT ps))"
proof (cases "fetch_list w (releases_url cfg RELEASES_LIMIT)")
  case None
  then show ?thesis using assms(2) by (auto simp: plugin_releases_def Let_def split: option.splits)
next
  case (Some d)
  then have "d \<in> H" "json_wf d" using assms(1) by (simp_all add: web_in_def)
  note k = stored_copy [OF this disjI1 [OF assms(2)]]
  show ?thesis
    using assms(2) k by (auto simp: plugin_releases_def Let_def Some split: option.splits)
qed

lemma plugin_step_inv:
  assumes "plugin_step cfg H ps ps'" "copy_inv cfg H ps"
  shows "copy_inv cfg H ps'"
  using assms(1)
proof cases
  case (restart)
  have "load_snapshot cfg RELEASES_LIMIT ps' = load_snapshot cfg RELEASES_LIMIT ps"
    by (rule load_same_file) (simp add: restart)
  then show ?thesis using assms(2) by (simp add: copy_inv_def restart)
qed (use releases_keep_copy [OF _ assms(2)] copies_endpoints copy_inv_same in metis)+

interpretation plugin_sys: inv_system "plugin_step cfg H" "copy_inv cfg H" for cfg H
  by unfold_locales (rule plugin_step_inv)

lemma releases_answer:
  assumes "web_in cfg H w" "copy_inv cfg H ps"
  obtains snap where "fst (plugin_releases cfg w now wall RELEASES_LIMIT ps) = Some snap" "rs_releases snap \<in> H"
proof -
  obtain g r where l: "load_snapshot cfg RELEASES_LIMIT ps = Some (g, r)" "r \<in> H" using assms(2) by (auto simp: copy_inv_def)
  have c: "ps_cache ps (pc_repo cfg, RELEASES_LIMIT) = Some (t, r', g') \<Longrightarrow> r' \<in> H" for t r' g'
    using assms(2) by (simp add: copy_inv_def)
  have f: "fetch_list w (releases_url cfg RELEASES_LIMIT) = Some d \<Longrightarrow> d \<in> H" for d using assms(1) by (simp add: web_in_def)
  have "\<exists>snap. fst (plugin_releases cfg w now wall RELEASES_LIMIT ps) = Some snap \<and> rs_releases snap \<in> H"
    using l c f by (auto simp: plugin_releases_def Let_def split: option.splits)
  with that show ?thesis by blast
qed

lemma failed_fetch_changes_nothing:
  "fetch_list w (releases_url cfg limit) = None \<Longrightarrow> snd (plugin_releases cfg w now wall limit ps) = ps"
  by (auto simp: plugin_releases_def Let_def split: option.splits)

text \<open>
  C35: Once GitHub has answered with releases and the state file could be written, the plugin
  catalog is never unavailable again: after any number of requests and restarts, whatever
  GitHub answers or fails to answer, a request has a list of releases to serve, that list is
  one GitHub gave at some time, the answer is not 503, and a request GitHub fails leaves
  both copies as they were.
\<close>
theorem plugin_catalog_stays_available:
  assumes "pc_state_writable cfg" "ps_cache ps0 (pc_repo cfg, RELEASES_LIMIT) = None"
    and "fetch_list w0 (releases_url cfg RELEASES_LIMIT) = Some d" "json_truthy d" "web_in cfg H w0"
    and "(plugin_step cfg H)\<^sup>*\<^sup>* (snd (get_plugins_catalog cfg w0 t0 wall0 ps0)) ps"
    and "web_in cfg H w"
  shows "(\<exists>snap. fst (plugin_releases cfg w now wall RELEASES_LIMIT ps) = Some snap \<and> rs_releases snap \<in> H)
    \<and> \<not> is_http 503 (fst (get_plugins_catalog cfg w now wall ps))
    \<and> (fetch_list w (releases_url cfg RELEASES_LIMIT) = None \<longrightarrow> copies (snd (get_plugins_catalog cfg w now wall ps)) = copies ps)"
proof -
  have d: "d \<in> H" "json_wf d" using assms(3,5) by (simp_all add: web_in_def)
  have "copy_inv cfg H (snd (plugin_releases cfg w0 t0 wall0 RELEASES_LIMIT ps0))"
    using stored_copy [OF d, of cfg ps0] assms(1,2,3,4) by (simp add: plugin_releases_def Let_def)
  then have "copy_inv cfg H (snd (get_plugins_catalog cfg w0 t0 wall0 ps0))" using copies_endpoints copy_inv_same by metis
  then have inv: "copy_inv cfg H ps" using plugin_sys.reach_inv assms(6) by blast
  obtain snap where s: "fst (plugin_releases cfg w now wall RELEASES_LIMIT ps) = Some snap" "rs_releases snap \<in> H"
    by (rule releases_answer [OF assms(7) inv])
  have "\<not> is_http 503 (fst (get_plugins_catalog cfg w now wall ps))" by (rule listed_no_http [OF s(1)])
  moreover have "copies (snd (get_plugins_catalog cfg w now wall ps)) = copies ps"
    if "fetch_list w (releases_url cfg RELEASES_LIMIT) = None"
    using copies_endpoints failed_fetch_changes_nothing [OF that] by metis
  ultimately show ?thesis using s by blast
qed


definition demo_plugins :: plugin_cfg where
  "demo_plugins = \<lparr>pc_repo = ''r'', pc_ttl = 60, pc_sha256_hex = (\<lambda>_. ''0''), pc_utc = (\<lambda>_. ''t''), pc_state_writable = True\<rparr>"

definition demo_up :: plugin_web where
  "demo_up = \<lparr>pw_json = (\<lambda>_. Some (JList [JObj []])), pw_bytes = (\<lambda>_. None)\<rparr>"

definition demo_down :: plugin_web where
  "demo_down = \<lparr>pw_json = (\<lambda>_. None), pw_bytes = (\<lambda>_. None)\<rparr>"

definition no_plugins :: "string option \<Rightarrow> plugin_state" where
  "no_plugins file = \<lparr>ps_cache = Map.empty, ps_file = file, ps_sha256 = Map.empty, ps_manifest = Map.empty\<rparr>"

text \<open>One answer, a restart, and a request while GitHub is down.\<close>
theorem plugin_catalog_stays_available_witness:
  "\<exists>ps. ps_cache ps = Map.empty \<and> \<not> is_http 503 (fst (get_plugins_catalog demo_plugins demo_down 1000 0 ps))
     \<and> (\<exists>snap. fst (plugin_releases demo_plugins demo_down 1000 0 RELEASES_LIMIT ps) = Some snap
          \<and> rs_releases snap = JList [JObj []])"
proof -
  let ?H = "{JList [JObj []]}" and ?ps1 = "snd (get_plugins_catalog demo_plugins demo_up 0 0 (no_plugins None))"
  have w: "pc_state_writable demo_plugins" "ps_cache (no_plugins None) (pc_repo demo_plugins, RELEASES_LIMIT) = None"
    "fetch_list demo_up (releases_url demo_plugins RELEASES_LIMIT) = Some (JList [JObj []])" "json_truthy (JList [JObj []])"
    "web_in demo_plugins ?H demo_up" "web_in demo_plugins ?H demo_down"
    by (simp_all add: demo_plugins_def no_plugins_def fetch_list_def demo_up_def demo_down_def web_in_def)
  have st: "(plugin_step demo_plugins ?H)\<^sup>*\<^sup>* ?ps1 (no_plugins (ps_file ?ps1))"
    unfolding no_plugins_def by (rule r_into_rtranclp) (rule restart)
  from plugin_catalog_stays_available [OF w(1-5) st w(6), of 1000 0] show ?thesis
    by (intro exI [of _ "no_plugins (ps_file ?ps1)"]) (simp add: no_plugins_def)
qed

section \<open>The catalog lists the assets, newest first\<close>

definition assets_of :: "string \<Rightarrow> json list \<Rightarrow> found_item list" where
  "assets_of i rels = concat (map (\<lambda>rel. case plugin_assets rel of Inl _ \<Rightarrow> []
     | Inr as \<Rightarrow> map (\<lambda>(_, v, a). (v, rel, a)) (filter (\<lambda>(i', _). i' = i) as)) rels)"

definition items_of :: "string \<Rightarrow> (string \<times> 'i list) list \<Rightarrow> 'i list" where
  "items_of i found = (case map_of found i of None \<Rightarrow> [] | Some xs \<Rightarrow> xs)"

definition groups_ok :: "(string \<times> 'i list) list \<Rightarrow> bool" where
  "groups_ok found \<longleftrightarrow> distinct (map fst found) \<and> (\<forall>(i, xs) \<in> set found. xs \<noteq> [])"

lemma add_found_keys: "fst ` set (add_found i x found) = insert i (fst ` set found)"
  by (induction i x found rule: add_found.induct) auto

lemma add_found_ok: "groups_ok found \<Longrightarrow> groups_ok (add_found i x found)"
  by (induction i x found rule: add_found.induct) (auto simp: groups_ok_def add_found_keys)

lemma add_found_items: "items_of j (add_found i x found) = items_of j found @ (if j = i then [x] else [])"
  by (induction i x found rule: add_found.induct) (auto simp: items_of_def)

lemma fold_found:
  "items_of j (foldl (\<lambda>f (i, v, a). add_found i (v, rel, a) f) found as)
     = items_of j found @ map (\<lambda>(_, v, a). (v, rel, a)) (filter (\<lambda>(i', _). i' = j) as)
   \<and> (groups_ok found \<longrightarrow> groups_ok (foldl (\<lambda>f (i, v, a). add_found i (v, rel, a) f) found as))"
  by (induction as arbitrary: found) (auto simp: add_found_items add_found_ok)

lemma group_found:
  assumes "group_releases rels found = Inr out" "groups_ok found"
  shows "groups_ok out \<and> items_of j out = items_of j found @ assets_of j rels"
  using assms
proof (induction rels arbitrary: found)
  case (Cons rel rels)
  then obtain as where as: "plugin_assets rel = Inr as" by (cases "plugin_assets rel") (simp_all add: bind_exn_def)
  let ?f = "foldl (\<lambda>f (i, v, a). add_found i (v, rel, a) f) found as"
  have "group_releases rels ?f = Inr out" using Cons.prems(1) as by (simp add: bind_exn_def)
  from Cons.IH [OF this] show ?case
    using fold_found [of j rel found as] Cons.prems(2) by (simp add: assets_of_def as)
qed (simp add: assets_of_def)

lemma map_state_each: "map_state f xs s = (Inr ys, s') \<Longrightarrow> list_all2 (\<lambda>x y. \<exists>s s'. f x s = (Inr y, s')) xs ys"
proof (induction xs arbitrary: s s' ys)
  case (Cons x xs)
  from Cons.prems obtain y s1 zs s2 where "f x s = (Inr y, s1)" "map_state f xs s1 = (Inr zs, s2)" "ys = y # zs"
    by (auto split: prod.splits sum.splits)
  with Cons.IH show ?case by auto
qed simp

lemma built_version: "build_release cfg w (v, rel, a) ps = (Inr r, ps') \<Longrightarrow> gr_version r = v"
  by (auto simp: build_release_def split: sum.splits prod.splits)

lemma built_plugin:
  assumes "build_plugin cfg w ((i, items), d) ps = (Inr p, ps')"
  shows "pe_id p = i \<and> map gr_version (pe_releases p) = map fst items"
proof -
  obtain n e where d: "d = (n, e)" by fastforce
  from assms obtain rels where m: "map_state (build_release cfg w) items ps = (Inr rels, ps')" and p: "pe_id p = i" "pe_releases p = rels"
    by (auto simp: build_plugin_def d split: prod.splits sum.splits)
  have "list_all2 (\<lambda>x y. gr_version y = fst x) items rels"
    using map_state_each [OF m] built_version by (auto elim!: list_all2_mono)
  then have "map gr_version rels = map fst items" by (induction) simp_all
  with p show ?thesis by simp
qed

lemma newest_first_sorted:
  "sorted_wrt (\<lambda>a b. semver_key (fst b) \<le> semver_key (fst a)) (newest_items items) \<and> mset (newest_items items) = mset items"
proof -
  let ?k = "\<lambda>(version, _ :: json, _ :: json). semver_key version"
  have k: "?k x = semver_key (fst x)" for x by (cases x) simp
  have "sorted (map ?k (sort_key ?k (rev items)))" by simp
  then have "sorted_wrt (\<lambda>a b. semver_key (fst a) \<le> semver_key (fst b)) (sort_key ?k (rev items))"
    by (simp only: sorted_map k)
  then show ?thesis by (simp add: newest_items_def sort_desc_def sorted_wrt_rev)
qed

text \<open>
  The catalog a request builds lists, for the releases it was built from, exactly the plugins an
  asset was found for, each once, and under each one download per asset found for it, newest
  version first.
\<close>
lemma catalog_groups_exact:
  assumes "generate_plugins cfg w now wall ps = (Inr (Some c), ps')"
  shows "\<exists>snap rels. fst (plugin_releases cfg w now wall RELEASES_LIMIT ps) = Some snap \<and> json_iter (rs_releases snap) = Inr rels
    \<and> distinct (map pe_id (pcat_plugins c)) \<and> set (map pe_id (pcat_plugins c)) = {i. assets_of i rels \<noteq> []}
    \<and> (\<forall>p \<in> set (pcat_plugins c). mset (map gr_version (pe_releases p)) = mset (map fst (assets_of (pe_id p) rels))
        \<and> sorted_wrt (\<lambda>a b. semver_key b \<le> semver_key a) (map gr_version (pe_releases p)))"
proof -
  obtain snap ps1 where r: "plugin_releases cfg w now wall RELEASES_LIMIT ps = (Some snap, ps1)"
    using assms by (auto simp: generate_plugins_def split: prod.splits option.splits)
  obtain found0 where f: "bind_exn (json_iter (rs_releases snap)) (\<lambda>rels. group_releases rels []) = Inr found0"
    using assms by (cases "bind_exn (json_iter (rs_releases snap)) (\<lambda>rels. group_releases rels [])") (simp_all add: generate_plugins_def r)
  then obtain rels where rels: "json_iter (rs_releases snap) = Inr rels" "group_releases rels [] = Inr found0"
    by (cases "json_iter (rs_releases snap)") (simp_all add: bind_exn_def)
  define found where "found = map (\<lambda>(i, items). (i, newest_items items)) found0"
  obtain described ps2 where d: "map_state (describe cfg w) (map snd found) ps1 = (Inr described, ps2)"
    and b: "map_state (build_plugin cfg w) (zip found described) ps2 = (Inr (pcat_plugins c), ps')"
    using assms by (auto simp: generate_plugins_def r f Let_def found_def [symmetric] split: prod.splits sum.splits)
  have "length described = length found" using list_all2_lengthD [OF map_state_each [OF d]] by simp
  then have z: "map fst (zip found described) = found" by simp
  have "list_all2 (\<lambda>x p. pe_id p = fst (fst x) \<and> map gr_version (pe_releases p) = map fst (snd (fst x))) (zip found described) (pcat_plugins c)"
    using map_state_each [OF b]
    by (rule list_all2_mono) (metis built_plugin prod.collapse)
  then have "list_all2 (\<lambda>x p. pe_id p = fst x \<and> map gr_version (pe_releases p) = map fst (snd x))
      (map fst (zip found described)) (pcat_plugins c)" by (simp add: list_all2_map1)
  then have l: "list_all2 (\<lambda>x p. pe_id p = fst x \<and> map gr_version (pe_releases p) = map fst (snd x)) found (pcat_plugins c)"
    by (simp only: z)
  then have ids: "map pe_id (pcat_plugins c) = map fst found" by induction simp_all
  have g: "groups_ok found0 \<and> items_of j found0 = assets_of j rels" for j
    using group_found [OF rels(2), of j] by (simp add: groups_ok_def items_of_def)
  have fst0: "map fst found = map fst found0" by (simp add: found_def case_prod_unfold comp_def)
  have item: "xs = assets_of i rels \<and> xs \<noteq> []" if "(i, xs) \<in> set found0" for i xs
    using that g [of i] by (auto simp: groups_ok_def items_of_def)
  have "set (map fst found0) = {i. assets_of i rels \<noteq> []}"
  proof (intro equalityI subsetI)
    fix i assume "i \<in> {i. assets_of i rels \<noteq> []}"
    then have "map_of found0 i \<noteq> None" using g [of i] by (auto simp: items_of_def split: option.splits)
    then show "i \<in> set (map fst found0)" by (simp add: map_of_eq_None_iff)
  qed (use item in auto)
  moreover have "mset (map gr_version (pe_releases p)) = mset (map fst (assets_of (pe_id p) rels))
      \<and> sorted_wrt (\<lambda>a b. semver_key b \<le> semver_key a) (map gr_version (pe_releases p))" if "p \<in> set (pcat_plugins c)" for p
  proof -
    from l have "\<forall>p \<in> set (pcat_plugins c). \<exists>x \<in> set found. pe_id p = fst x \<and> map gr_version (pe_releases p) = map fst (snd x)"
      by induction auto
    with that obtain x where x: "x \<in> set found" "pe_id p = fst x" "map gr_version (pe_releases p) = map fst (snd x)" by blast
    then obtain items where "(fst x, items) \<in> set found0" "snd x = newest_items items" by (auto simp: found_def)
    with x item newest_first_sorted [of items] show ?thesis by (simp add: sorted_wrt_map)
  qed
  ultimately show ?thesis using r rels g ids fst0 by (auto simp: groups_ok_def)
qed

end
