(* ===== verification/Http_Shell.thy ===== *)
theory Http_Shell
  imports Admin_Guard Admin_Login "HOL-Library.AList"
begin

text \<open>
  What surrounds every request: the body limit, the renewal of the session cookie and the
  CSRF cookie (the middleware of \<^verbatim>\<open>app/main.py\<close>), the template context with its banners
  (\<^verbatim>\<open>app/templating.py\<close>), error bodies (\<^verbatim>\<open>app/problems.py\<close>), security headers
  (\<^verbatim>\<open>app/security_headers.py\<close>), the metrics and health endpoints (\<^verbatim>\<open>app/observability.py\<close>,
  \<^verbatim>\<open>app/api_health.py\<close>), and the checks at start-up.
\<close>

section \<open>Error bodies\<close>

text \<open>The names of the HTTP statuses, as in \<open>http.HTTPStatus\<close> of Python 3.12.\<close>

definition http_phrases :: "(nat \<times> string) list" where
  "http_phrases =
     [(100, ''Continue''), (101, ''Switching Protocols''), (102, ''Processing''), (103, ''Early Hints''), (200, ''OK''),
      (201, ''Created''), (202, ''Accepted''), (203, ''Non-Authoritative Information''), (204, ''No Content''),
      (205, ''Reset Content''), (206, ''Partial Content''), (207, ''Multi-Status''), (208, ''Already Reported''),
      (226, ''IM Used''), (300, ''Multiple Choices''), (301, ''Moved Permanently''), (302, ''Found''), (303, ''See Other''),
      (304, ''Not Modified''), (305, ''Use Proxy''), (307, ''Temporary Redirect''), (308, ''Permanent Redirect''),
      (400, ''Bad Request''), (401, ''Unauthorized''), (402, ''Payment Required''), (403, ''Forbidden''), (404, ''Not Found''),
      (405, ''Method Not Allowed''), (406, ''Not Acceptable''), (407, ''Proxy Authentication Required''),
      (408, ''Request Timeout''), (409, ''Conflict''), (410, ''Gone''), (411, ''Length Required''), (412, ''Precondition Failed''),
      (413, ''Request Entity Too Large''), (414, ''Request-URI Too Long''), (415, ''Unsupported Media Type''),
      (416, ''Requested Range Not Satisfiable''), (417, ''Expectation Failed''), (418, ''I'm a Teapot''),
      (421, ''Misdirected Request''), (422, ''Unprocessable Entity''), (423, ''Locked''), (424, ''Failed Dependency''),
      (425, ''Too Early''), (426, ''Upgrade Required''), (428, ''Precondition Required''), (429, ''Too Many Requests''),
      (431, ''Request Header Fields Too Large''), (451, ''Unavailable For Legal Reasons''), (500, ''Internal Server Error''),
      (501, ''Not Implemented''), (502, ''Bad Gateway''), (503, ''Service Unavailable''), (504, ''Gateway Timeout''),
      (505, ''HTTP Version Not Supported''), (506, ''Variant Also Negotiates''), (507, ''Insufficient Storage''),
      (508, ''Loop Detected''), (510, ''Not Extended''), (511, ''Network Authentication Required'')]"

definition phrase :: "nat \<Rightarrow> string" where
  "phrase code = (case map_of http_phrases code of None \<Rightarrow> ''Error'' | Some p \<Rightarrow> p)"

record http_reply =
  hr_status :: nat
  hr_media_type :: string
  hr_headers :: "(string \<times> string) list"
  hr_json :: json
  hr_template :: "(string \<times> string) option"

text \<open>The path, the \<open>Accept\<close> header and the request id of the request an error answers.\<close>

record error_request =
  er_path :: string
  er_accept :: string
  er_request_id :: string

text \<open>\<open>dict.update\<close>\<close>

definition dict_update :: "(string \<times> json) list \<Rightarrow> (string \<times> json) list \<Rightarrow> (string \<times> json) list" where
  "dict_update d extra = fold (\<lambda>(k, v) xs. AList.update k v xs) extra d"

definition problem_response ::
  "string \<Rightarrow> error_request \<Rightarrow> nat \<Rightarrow> json \<Rightarrow> string option \<Rightarrow> (string \<times> json) list \<Rightarrow> (string \<times> string) list \<Rightarrow> http_reply" where
  "problem_response base r code detail title extra headers =
     (let body = [(''type'', JStr (base @ ''/'' @ show_nat code)),
                  (''title'', JStr (if truthy title then the title else phrase code)), (''status'', JInt (int code)),
                  (''detail'', detail), (''instance'', JStr (er_path r))];
          rid = er_request_id r;
          body1 = (if rid \<noteq> [] \<and> rid \<noteq> ''-'' then body @ [(''request_id'', JStr rid)] else body)
      in \<lparr>hr_status = code, hr_media_type = ''application/problem+json'', hr_headers = headers,
          hr_json = JObj (dict_update body1 extra), hr_template = None\<rparr>)"

definition is_infix_of :: "string \<Rightarrow> string \<Rightarrow> bool" where
  "is_infix_of p s = list_ex (\<lambda>i. prefix p (drop i s)) [0..<Suc (length s)]"

definition prefers_html :: "error_request \<Rightarrow> bool" where
  "prefers_html r =
     (if list_ex (\<lambda>p. prefix p (er_path r)) [''/api/'', ''/metrics'', ''/healthz'', ''/readyz'', ''/docs''] then False
      else is_infix_of ''text/html'' (py_lower (er_accept r)))"

text \<open>The error page with its template, whose context is the title and the detail.\<close>

definition html_error_response :: "nat \<Rightarrow> string \<Rightarrow> string option \<Rightarrow> http_reply" where
  "html_error_response code detail title =
     \<lparr>hr_status = code, hr_media_type = ''text/html'', hr_headers = [], hr_json = JNull,
      hr_template = Some (if truthy title then the title else phrase code, detail)\<rparr>"

definition wants_page :: "error_request \<Rightarrow> nat \<Rightarrow> bool" where
  "wants_page r code \<longleftrightarrow> prefers_html r \<and> 400 \<le> code \<and> code < 600 \<and> code \<noteq> 401"

definition http_exc :: "string \<Rightarrow> error_request \<Rightarrow> nat \<Rightarrow> string \<Rightarrow> (string \<times> string) list \<Rightarrow> http_reply" where
  "http_exc base r code detail headers =
     (if wants_page r code then html_error_response code detail (Some (phrase code))
      else problem_response base r code (JStr detail) None [] headers)"

text \<open>The handler for what the router itself raises: an empty detail becomes the phrase.\<close>

definition starlette_http_exc :: "string \<Rightarrow> error_request \<Rightarrow> nat \<Rightarrow> string \<Rightarrow> (string \<times> string) list \<Rightarrow> http_reply" where
  "starlette_http_exc base r code detail headers = http_exc base r code (str_or detail (phrase code)) headers"

definition validation_exc :: "string \<Rightarrow> error_request \<Rightarrow> json \<Rightarrow> http_reply" where
  "validation_exc base r errors =
     (if prefers_html r then html_error_response 422 ''The submitted form data was invalid.'' (Some ''Invalid submission'')
      else problem_response base r 422 errors (Some ''Unprocessable Entity'') [(''errors'', errors)] [])"

definition rate_limit_handler :: "string \<Rightarrow> error_request \<Rightarrow> string \<Rightarrow> http_reply" where
  "rate_limit_handler base r detail =
     problem_response base r 429 (JStr (''Rate limit exceeded: '' @ detail)) (Some ''Too Many Requests'') [] []"

section \<open>The body limit\<close>

text \<open>An ASGI message: a chunk of the body, or anything else.\<close>

datatype asgi_message = HttpRequest bytes | HttpOther

text \<open>\<open>content-length\<close> beyond the limit; a header that is no number is passed over.\<close>

definition length_rejected :: "int \<Rightarrow> string option \<Rightarrow> bool" where
  "length_rejected limit cl =
     (case cl of None \<Rightarrow> False | Some s \<Rightarrow> (case py_int s of None \<Rightarrow> False | Some n \<Rightarrow> limit < n))"

text \<open>
  The receiving side the route reads from: the messages it is handed until the count passes the
  limit, and whether the exception was raised.
\<close>

fun counting_receive :: "int \<Rightarrow> nat \<Rightarrow> asgi_message list \<Rightarrow> asgi_message list \<times> bool" where
  "counting_receive limit seen [] = ([], False)"
| "counting_receive limit seen (HttpRequest chunk # ms) =
     (let seen1 = seen + length chunk in
      if limit < int seen1 then ([], True)
      else (case counting_receive limit seen1 ms of (rest, over) \<Rightarrow> (HttpRequest chunk # rest, over)))"
| "counting_receive limit seen (HttpOther # ms) =
     (case counting_receive limit seen ms of (rest, over) \<Rightarrow> (HttpOther # rest, over))"

definition too_large :: "string \<Rightarrow> error_request \<Rightarrow> int \<Rightarrow> http_reply" where
  "too_large base r limit =
     problem_response base r 413 (JStr (''Request body exceeds '' @ show_int limit @ '' bytes'')) (Some ''Content Too Large'') [] []"

text \<open>
  The rest of the application answers from the messages it may read; \<open>None\<close> is the exception of
  the limit coming back out of it.
\<close>

definition limit_payload_size ::
  "string \<Rightarrow> int \<Rightarrow> error_request \<Rightarrow> string option \<Rightarrow> asgi_message list
     \<Rightarrow> (asgi_message list \<times> bool \<Rightarrow> http_reply option) \<Rightarrow> http_reply" where
  "limit_payload_size base limit r cl messages call_next =
     (if length_rejected limit cl then too_large base r limit
      else (case call_next (counting_receive limit 0 messages) of None \<Rightarrow> too_large base r limit | Some reply \<Rightarrow> reply))"

definition body_bytes :: "asgi_message list \<Rightarrow> nat" where
  "body_bytes ms = sum_list (map (\<lambda>m. case m of HttpRequest c \<Rightarrow> length c | HttpOther \<Rightarrow> 0) ms)"

section \<open>The cookies the middleware sets\<close>

definition html_admin_page :: "string \<Rightarrow> string \<Rightarrow> bool" where
  "html_admin_page path content_type \<longleftrightarrow>
     (prefix ''/admin'' path \<or> prefix ''/login'' path) \<and> is_infix_of ''text/html'' content_type"

text \<open>The token of the page: the cookie's, the one minted for this request, or a fresh one.\<close>

definition context_csrf :: "string option \<Rightarrow> string option \<Rightarrow> string \<Rightarrow> string \<times> string option" where
  "context_csrf cookie state fresh =
     (let csrf = (case cookie of None \<Rightarrow> [] | Some c \<Rightarrow> c) in
      if csrf = [] \<or> length csrf < 32
      then (if truthy state then (the state, state) else (fresh, Some fresh))
      else (csrf, state))"

definition response_csrf :: "string option \<Rightarrow> string option \<Rightarrow> string \<Rightarrow> string" where
  "response_csrf cookie state fresh = ensure_csrf_cookie (if truthy cookie then cookie else state) fresh"

text \<open>The session cookie signed again; \<open>None\<close> sets no cookie.\<close>

definition refresh_session ::
  "admin_cfg \<Rightarrow> environment \<Rightarrow> instant \<Rightarrow> string \<Rightarrow> string \<Rightarrow> nat \<Rightarrow> string option \<Rightarrow> string option handler" where
  "refresh_session cfg env now uuid path status cookie st =
     (if \<not> (prefix ''/admin'' path \<and> status < 400) \<or> \<not> truthy cookie then (Inr None, st)
      else (case read_session cfg now cookie of
              Inl e \<Rightarrow> (Inl e, st)
            | Inr user \<Rightarrow>
              if \<not> truthy user then (Inr None, st)
              else (case session_id_of cfg now cookie of
                      Inl e \<Rightarrow> (Inl e, st)
                    | Inr sid \<Rightarrow>
                      (case issue_session cfg env now uuid sid False None (the user) st of
                         (Inl e, st1) \<Rightarrow> (Inl e, st1) | (Inr tok, st1) \<Rightarrow> (Inr (Some tok), st1)))))"

section \<open>Banners\<close>

definition current_banner :: "database \<Rightarrow> string option" where
  "current_banner d =
     (case global_policies d of None \<Rightarrow> None
      | Some g \<Rightarrow> (case py_strip (case gp_banner_message g of None \<Rightarrow> [] | Some m \<Rightarrow> m) of [] \<Rightarrow> None | m \<Rightarrow> Some m))"

text \<open>The runs of the last 48 hours, the newest of a job (equal times in the order of the table).\<close>

definition recent_runs :: "instant \<Rightarrow> database \<Rightarrow> scheduler_run list" where
  "recent_runs now d = filter (\<lambda>r. now - 48 * 3600 \<le> run_started_at r) (scheduler_runs d)"

definition newest_run :: "string \<Rightarrow> scheduler_run list \<Rightarrow> scheduler_run option" where
  "newest_run job rows =
     (case sort_desc run_started_at (filter (\<lambda>r. run_job r = job) rows) of [] \<Rightarrow> None | r # rs \<Rightarrow> Some r)"

definition later_failure :: "scheduler_run list \<Rightarrow> string \<Rightarrow> scheduler_run option \<Rightarrow> scheduler_run option" where
  "later_failure rows job found =
     (case newest_run job rows of None \<Rightarrow> found
      | Some latest \<Rightarrow>
        if truthy (run_error latest) \<and> (case found of None \<Rightarrow> True | Some f \<Rightarrow> run_started_at f < run_started_at latest)
        then Some latest else found)"

definition age_text :: "int \<Rightarrow> string" where
  "age_text s =
     (let d = s div 86400; h = s mod 86400 div 3600; m = s mod 86400 mod 3600 div 60 in
      if d \<noteq> 0 then show_int d @ ''d '' @ show_int h @ ''h''
      else if h \<noteq> 0 then show_int h @ ''h '' @ show_int m @ ''m''
      else if m \<noteq> 0 then show_int m @ ''m'' else show_int s @ ''s'')"

text \<open>The distinct jobs come in the order the database gives them.\<close>

definition scheduler_failure ::
  "(string list \<Rightarrow> string list) \<Rightarrow> instant \<Rightarrow> database \<Rightarrow> (string \<times> string \<times> string) option" where
  "scheduler_failure order now d =
     (let rows = recent_runs now d in
      case fold (later_failure rows) (order (remdups (map run_job rows))) None of
        None \<Rightarrow> None
      | Some r \<Rightarrow> Some (run_job r, age_text (now - run_started_at r), take 160 (py_strip (the (run_error r)))))"

section \<open>Headers, probes and start-up\<close>

definition set_default :: "string \<Rightarrow> string \<Rightarrow> (string \<times> string) list \<Rightarrow> (string \<times> string) list" where
  "set_default k v hs = (if list_ex (\<lambda>(x, _). py_lower x = py_lower k) hs then hs else hs @ [(k, v)])"

definition CSP_DEFAULT :: string where
  "CSP_DEFAULT = ''default-src 'self'; style-src 'self' 'unsafe-inline'; script-src 'self'; img-src 'self' data:; font-src 'self' data:; connect-src 'self'; frame-ancestors 'none'; base-uri 'self'; form-action 'self'' @ [CHR 0x27]"

definition HSTS :: string where
  "HSTS = ''max-age=31536000; includeSubDomains; preload''"

definition PERMISSIONS :: string where
  "PERMISSIONS = ''accelerometer=(), camera=(), geolocation=(), gyroscope=(), magnetometer=(), microphone=(), payment=(), usb=()''"

definition security_headers :: "string option \<Rightarrow> string \<Rightarrow> (string \<times> string) list \<Rightarrow> (string \<times> string) list" where
  "security_headers dev path headers =
     (if prefix ''/metrics'' path then headers
      else (let hs = fold (\<lambda>(k, v). set_default k v)
              [(''X-Content-Type-Options'', ''nosniff''), (''Referrer-Policy'', ''strict-origin-when-cross-origin''),
               (''X-Frame-Options'', ''DENY''), (''Permissions-Policy'', PERMISSIONS), (''Content-Security-Policy'', CSP_DEFAULT)] headers
            in if dev \<noteq> Some ''1'' then set_default ''Strict-Transport-Security'' HSTS hs else hs))"

text \<open>Whether the metrics are shown.\<close>

definition metrics_allowed :: "string option \<Rightarrow> string \<Rightarrow> bool" where
  "metrics_allowed expected authorization =
     (if truthy expected then prefix ''Bearer '' authorization \<and> drop 7 authorization = the expected else True)"

definition healthz :: "string \<Rightarrow> json" where
  "healthz version = JObj [(''ok'', JBool True), (''service'', JStr ''nks-wdc-catalog-api''), (''version'', JStr version)]"

text \<open>The probes answer whether the database does, and the object store (\<open>None\<close> is not configured).\<close>

definition readyz :: "string \<Rightarrow> bool \<Rightarrow> bool option \<Rightarrow> nat \<times> json" where
  "readyz version db_up blob_up =
     (let state = (\<lambda>b. JStr (if b then ''up'' else ''down''));
          checks = [(''db'', state db_up)] @ (case blob_up of None \<Rightarrow> [] | Some b \<Rightarrow> [(''blob'', state b)]);
          ok = (db_up \<and> blob_up \<noteq> Some False)
      in (if ok then 200 else 503,
          JObj [(''ok'', JBool ok), (''service'', JStr ''nks-wdc-catalog-api''), (''version'', JStr version), (''checks'', JObj checks)]))"

text \<open>The error carries the first sentence of the message.\<close>

definition warn_if_dev_in_prod :: "string option \<Rightarrow> string option \<Rightarrow> exn option" where
  "warn_if_dev_in_prod dev env_label =
     (if dev \<noteq> Some ''1'' then None
      else if py_lower (py_strip (case env_label of None \<Rightarrow> [] | Some e \<Rightarrow> e)) = ''production''
      then Some (RuntimeError ''Refusing to start: NKS_WDC_CATALOG_DEV=1 together with NKS_WDC_ENV=production'')
      else None)"

text \<open>Only PostgreSQL has the advisory lock; \<open>granted\<close> is its answer.\<close>

definition try_acquire_leader_lock :: "string option \<Rightarrow> bool \<Rightarrow> bool" where
  "try_acquire_leader_lock dialect granted = (if dialect \<noteq> Some ''postgresql'' then True else granted)"

section \<open>Facts\<close>

lemma counting_receive_exact:
  assumes "int seen \<le> limit"
  shows "int (seen + body_bytes (fst (counting_receive limit seen ms))) \<le> limit"
    and "prefix (fst (counting_receive limit seen ms)) ms"
    and "snd (counting_receive limit seen ms) \<longleftrightarrow> limit < int (seen + body_bytes ms)"
    and "\<not> snd (counting_receive limit seen ms) \<Longrightarrow> fst (counting_receive limit seen ms) = ms"
  using assms
  by (induction limit seen ms rule: counting_receive.induct)
    (auto simp: body_bytes_def Let_def split: prod.splits)



lemma refresh_outside:
  assumes "\<not> prefix ''/admin'' path \<or> 400 \<le> status \<or> \<not> truthy cookie"
  shows "refresh_session cfg env now uuid path status cookie st = (Inr None, st)"
  using assms by (auto simp: refresh_session_def)

text \<open>What a signed cookie of a session says at a later instant.\<close>

definition session_token :: "admin_cfg \<Rightarrow> instant \<Rightarrow> string \<Rightarrow> string \<Rightarrow> string" where
  "session_token cfg t username sid = ts_sign (cfg_signer cfg) SESSION_SALT t (username @ ''|'' @ sid)"

definition session_window :: "admin_cfg \<Rightarrow> int" where
  "session_window cfg = min (cfg_max_age cfg) (cfg_idle cfg)"

lemma is_ascii_bar [simp]: "is_ascii (CHR ''|'' # s) \<longleftrightarrow> is_ascii s"
  by (simp add: is_ascii_def char_code_def)

text \<open>A user name and a session id a cookie can carry.\<close>

definition session_parts :: "admin_cfg \<Rightarrow> string \<Rightarrow> string \<Rightarrow> bool" where
  "session_parts cfg username sid \<longleftrightarrow>
     signer_ok (cfg_signer cfg) \<and> is_ascii username \<and> is_ascii sid \<and>
     CHR ''|'' \<notin> set username \<and> username \<noteq> [] \<and> sid \<noteq> []"

lemma split_token:
  "session_parts cfg username sid \<Longrightarrow> split_session_payload (username @ CHR ''|'' # sid) = (username, Some sid)"
  using split_payload[of username sid] by (simp add: session_parts_def)

lemma token_text:
  assumes "session_parts cfg username sid"
  shows "session_token cfg t username sid \<noteq> []" "is_ascii (session_token cfg t username sid)"
  using assms by (simp_all add: signer_ok_def session_token_def session_parts_def)

lemma token_unsign:
  assumes "session_parts cfg username sid"
  shows "ts_unsign (cfg_signer cfg) SESSION_SALT now None (session_token cfg t username sid) = Some (username @ CHR ''|'' # sid)"
    and "t \<le> now \<Longrightarrow> ts_unsign (cfg_signer cfg) SESSION_SALT now (Some age) (session_token cfg t username sid) =
      (if now - t \<le> age then Some (username @ CHR ''|'' # sid) else None)"
  using assms by (simp_all add: signer_ok_def session_token_def session_parts_def)

lemma token_read:
  assumes "session_parts cfg username sid" "t \<le> now"
  shows "read_session cfg now (Some (session_token cfg t username sid)) =
     Inr (if now - t \<le> session_window cfg then Some username else None)"
  using assms token_text[OF assms(1)]
  by (simp add: read_session_def token_unsign session_window_def split_token)

lemma token_sid:
  assumes "session_parts cfg username sid"
  shows "session_id_of cfg now (Some (session_token cfg t username sid)) = Inr (Some sid)"
  using assms token_text[OF assms] by (simp add: session_id_of_def token_unsign split_token)

lemma token_fingerprint:
  assumes "session_parts cfg username sid"
  shows "fingerprint cfg now (session_token cfg t username sid) = Inr (cfg_sha cfg (ascii_encode sid))"
  using assms by (simp add: fingerprint_def token_sid[OF assms] session_parts_def)

lemma token_issue:
  assumes "session_parts cfg username sid"
  shows "issue_session cfg env now uuid (Some sid) False None username st = (Inr (session_token cfg now username sid), st)"
  using assms by (simp add: issue_session_def session_parts_def session_token_def)

lemma token_refresh:
  assumes "session_parts cfg username sid" "prefix ''/admin'' path" "status < 400" "t \<le> now"
  shows "refresh_session cfg env now uuid path status (Some (session_token cfg t username sid)) st =
     (Inr (if now - t \<le> session_window cfg then Some (session_token cfg now username sid) else None), st)"
  using assms token_text[OF assms(1)] assms(1)[unfolded session_parts_def]
  by (simp add: refresh_session_def token_read token_sid token_issue)

text \<open>The cookie of a browser that visits admin pages at the given instants.\<close>

fun browse :: "admin_cfg \<Rightarrow> environment \<Rightarrow> string \<Rightarrow> string \<Rightarrow> string option \<Rightarrow> app_state \<Rightarrow> instant list \<Rightarrow> string option" where
  "browse cfg env uuid path cookie st [] = cookie"
| "browse cfg env uuid path cookie st (t # ts) =
     (case refresh_session cfg env t uuid path 200 cookie st of
        (Inr (Some tok), st1) \<Rightarrow> browse cfg env uuid path (Some tok) st1 ts
      | (_, st1) \<Rightarrow> browse cfg env uuid path cookie st1 ts)"

text \<open>No pause between two visits is longer than \<open>w\<close>.\<close>

fun never_idle :: "int \<Rightarrow> instant \<Rightarrow> instant list \<Rightarrow> bool" where
  "never_idle w t [] = True"
| "never_idle w t (u # us) = (u - t \<le> w \<and> never_idle w u us)"

lemma browse_token:
  assumes "session_parts cfg username sid" "prefix ''/admin'' path" "sorted (t # ts)"
  shows "\<exists>t1. browse cfg env uuid path (Some (session_token cfg t username sid)) st ts = Some (session_token cfg t1 username sid)
     \<and> t \<le> t1 \<and> t1 \<le> last (t # ts)
     \<and> (never_idle (session_window cfg) t ts \<longrightarrow> t1 = last (t # ts))
     \<and> (\<not> never_idle (session_window cfg) t ts \<longrightarrow> session_window cfg < last (t # ts) - t1)"
  using assms(3)
proof (induction ts arbitrary: t)
  case Nil
  then show ?case by auto
next
  case (Cons u us)
  then have le: "t \<le> u" "sorted (u # us)" "sorted (t # us)" by auto
  note ih = Cons.IH[OF le(3)]
  show ?case
  proof (cases "u - t \<le> session_window cfg")
    case True
    with Cons.IH[OF le(2)] le(1) show ?thesis
      by (auto simp: token_refresh[OF assms(1,2) _ le(1)])
  next
    case False
    then have same: "browse cfg env uuid path (Some (session_token cfg t username sid)) st (u # us)
        = browse cfg env uuid path (Some (session_token cfg t username sid)) st us"
      by (simp add: token_refresh[OF assms(1,2) _ le(1)])
    show ?thesis
    proof (cases us)
      case Nil
      have "browse cfg env uuid path (Some (session_token cfg t username sid)) st (u # us) = Some (session_token cfg t username sid)"
        using same Nil by (simp del: browse.simps(2))
      then show ?thesis using False le(1) Nil by (intro exI[of _ t]) (simp del: browse.simps)
    next
      case (Cons v vs)
      then have busy: "\<not> never_idle (session_window cfg) t us" "last (t # us) = last (t # u # us)"
        "\<not> never_idle (session_window cfg) t (u # us)" using False le(2) by auto
      show ?thesis using ih busy unfolding same by fastforce
    qed
  qed
qed




text \<open>A cookie of the form without a session id gets a new fingerprint when it is signed again.\<close>
lemma legacy_refresh_renames:
  assumes "session_parts cfg username uuid" "prefix ''/admin'' path" "status < 400" "t \<le> now" "now - t \<le> session_window cfg"
  defines "legacy \<equiv> ts_sign (cfg_signer cfg) SESSION_SALT t username"
  shows "fingerprint cfg now legacy = Inr (cfg_sha cfg (ascii_encode legacy))"
    and "refresh_session cfg env now uuid path status (Some legacy) st = (Inr (Some (session_token cfg now username uuid)), st)"
    and "fingerprint cfg now (session_token cfg now username uuid) = Inr (cfg_sha cfg (ascii_encode uuid))"
proof -
  note p = assms(1)[unfolded session_parts_def]
  have l: "legacy \<noteq> []" "is_ascii legacy"
    "ts_unsign (cfg_signer cfg) SESSION_SALT now None legacy = Some username"
    "ts_unsign (cfg_signer cfg) SESSION_SALT now (Some (session_window cfg)) legacy = Some username"
    using p assms(4,5) by (simp_all add: legacy_def signer_ok_def)
  have sid: "session_id_of cfg now (Some legacy) = Inr None"
    using l p by (simp add: session_id_of_def split_session_payload_def)
  show "fingerprint cfg now legacy = Inr (cfg_sha cfg (ascii_encode legacy))"
    using l by (simp add: fingerprint_def sid)
  have rd: "read_session cfg now (Some legacy) = Inr (Some username)"
    using l p by (simp add: read_session_def split_session_payload_def session_window_def)
  show "refresh_session cfg env now uuid path status (Some legacy) st = (Inr (Some (session_token cfg now username uuid)), st)"
    using assms(2,3) l p by (simp add: refresh_session_def rd sid issue_session_def session_token_def)
  show "fingerprint cfg now (session_token cfg now username uuid) = Inr (cfg_sha cfg (ascii_encode uuid))"
    by (rule token_fingerprint[OF assms(1)])
qed

lemma csrf_pair:
  assumes "32 \<le> length fresh1" "context_csrf cookie None fresh1 = (form, state)"
  shows "\<not> truthy cookie \<or> 32 \<le> length (the cookie) \<Longrightarrow> response_csrf cookie state fresh2 = form"
    and "truthy cookie \<and> length (the cookie) < 32 \<Longrightarrow> form = fresh1 \<and> response_csrf cookie state fresh2 = fresh2"
  using assms
  by (cases cookie; auto simp: context_csrf_def response_csrf_def ensure_csrf_cookie_def Let_def split: if_splits)+

lemma api_errors_are_problems:
  assumes "prefix ''/api/'' (er_path r)"
  shows "hr_media_type (http_exc base r code detail hs) = ''application/problem+json''"
    and "hr_status (http_exc base r code detail hs) = code"
    and "validation_exc base r errors = problem_response base r 422 errors (Some ''Unprocessable Entity'') [(''errors'', errors)] []"
  using assms by (simp_all add: http_exc_def wants_page_def prefers_html_def problem_response_def Let_def validation_exc_def)

lemma later_failure_fold:
  assumes "fold (later_failure rows) jobs None = r"
  shows "case r of None \<Rightarrow> (\<forall>j \<in> set jobs. \<forall>l. newest_run j rows = Some l \<longrightarrow> \<not> truthy (run_error l))
     | Some f \<Rightarrow> (\<exists>j \<in> set jobs. newest_run j rows = Some f) \<and> truthy (run_error f)
         \<and> (\<forall>j \<in> set jobs. \<forall>l. newest_run j rows = Some l \<and> truthy (run_error l) \<longrightarrow> run_started_at l \<le> run_started_at f)"
  using assms
proof (induction jobs arbitrary: r rule: rev_induct)
  case Nil
  then show ?case by simp
next
  case (snoc j js)
  define q where "q = fold (later_failure rows) js None"
  have ih: "case q of None \<Rightarrow> (\<forall>j \<in> set js. \<forall>l. newest_run j rows = Some l \<longrightarrow> \<not> truthy (run_error l))
     | Some f \<Rightarrow> (\<exists>j \<in> set js. newest_run j rows = Some f) \<and> truthy (run_error f)
         \<and> (\<forall>j \<in> set js. \<forall>l. newest_run j rows = Some l \<and> truthy (run_error l) \<longrightarrow> run_started_at l \<le> run_started_at f)"
    using snoc.IH[of q] by (simp add: q_def)
  have r: "r = later_failure rows j q" using snoc.prems by (simp add: q_def)
  show ?case
    using ih r by (cases q; cases "newest_run j rows") (auto simp: later_failure_def split: if_splits)
qed

lemma scheduler_failure_none:
  assumes "set (order js) = set js" "js = remdups (map run_job (recent_runs now d))"
  shows "scheduler_failure order now d = None \<longleftrightarrow>
     (\<forall>j l. newest_run j (recent_runs now d) = Some l \<longrightarrow> \<not> truthy (run_error l))"
proof -
  have "j \<in> set (order js)" if "newest_run j (recent_runs now d) = Some l" for j l
  proof -
    have "filter (\<lambda>r. run_job r = j) (recent_runs now d) \<noteq> []"
      using that by (auto simp: newest_run_def sort_desc_def)
    then show ?thesis using assms by (force simp: filter_empty_conv)
  qed
  then show ?thesis
    using later_failure_fold[of "recent_runs now d" "order js", OF refl] assms(2)
    by (fastforce simp: scheduler_failure_def Let_def split: option.splits)
qed

lemma ready_iff_all_up:
  "fst (readyz v d b) = (if d \<and> b \<noteq> Some False then 200 else 503)"
  by (simp add: readyz_def Let_def)

end
