(* ===== verification/Audit_Views.thy ===== *)
theory Audit_Views
  imports Admin_Devices Admin_Credentials Admin_Users Catalog_Api
begin

text \<open>
  The views of the audit log and the statistics: the endpoint of \<^verbatim>\<open>app/admin_audit.py\<close>, the
  filter the pages of \<^verbatim>\<open>app/admin_ui.py\<close> share (\<open>_audit_filter_stmt\<close>), the audit page with its saved
  filters, the CSV and NDJSON exports, and the overview of \<^verbatim>\<open>app/admin_stats.py\<close> with its cache.
  The main facts: the CSV text reads back to exactly the rows of the filter, every line of the NDJSON
  export is one event, saved filters are unique by name and private to their account.
\<close>

section \<open>The filter\<close>

record audit_filter =
  af_action :: string
  af_resource_type :: string
  af_resource_id :: string
  af_actor_id :: "int option"
  af_q :: string

definition truthy_int :: "int option \<Rightarrow> bool" where
  "truthy_int i = (i \<noteq> None \<and> i \<noteq> Some 0)"

text \<open>A missing detail is stored as the JSON null and casts to its text.\<close>

definition detail_text :: "json option \<Rightarrow> string" where
  "detail_text j = dumps_default (opt_json j)"

text \<open>\<open>ilike\<close> of a null is null, which selects nothing.\<close>

definition ilike :: "(char \<Rightarrow> char) \<Rightarrow> string \<Rightarrow> string option \<Rightarrow> bool" where
  "ilike fc pattern s = (case s of None \<Rightarrow> False | Some t \<Rightarrow> like_plain fc pattern t)"

definition audit_filter_ok :: "(char \<Rightarrow> char) \<Rightarrow> audit_filter \<Rightarrow> audit_event \<Rightarrow> bool" where
  "audit_filter_ok fc f r \<longleftrightarrow>
     (af_action f = [] \<or> aud_action r = af_action f) \<and>
     (af_resource_type f = [] \<or> aud_resource_type r = Some (af_resource_type f)) \<and>
     (af_resource_id f = [] \<or> aud_resource_id r = Some (af_resource_id f)) \<and>
     (\<not> truthy_int (af_actor_id f) \<or> aud_actor_id r = af_actor_id f) \<and>
     (af_q f = [] \<or>
       (let pattern = ''%'' @ py_strip (af_q f) @ ''%'' in
        ilike fc pattern (Some (aud_action r)) \<or> ilike fc pattern (aud_resource_id r) \<or>
        ilike fc pattern (aud_actor_email r) \<or> ilike fc pattern (Some (detail_text (aud_detail r)))))"

text \<open>Newest first, equal instants by descending id.\<close>

definition audit_order :: "audit_event list \<Rightarrow> audit_event list" where
  "audit_order rows = sort_desc aud_created_at (sort_desc aud_id rows)"

definition audit_rows :: "(audit_event \<Rightarrow> bool) \<Rightarrow> database \<Rightarrow> audit_event list" where
  "audit_rows P d = audit_order (filter P (audit_events d))"

section \<open>The endpoint\<close>

definition event_filter :: "int option \<Rightarrow> string option \<Rightarrow> string option \<Rightarrow> string option \<Rightarrow> audit_event \<Rightarrow> bool" where
  "event_filter actor_id action resource_type resource_id r \<longleftrightarrow>
     (actor_id = None \<or> aud_actor_id r = actor_id) \<and>
     (\<not> truthy action \<or> Some (aud_action r) = action) \<and>
     (\<not> truthy resource_type \<or> aud_resource_type r = resource_type) \<and>
     (\<not> truthy resource_id \<or> aud_resource_id r = resource_id)"

definition event_row :: "(instant \<Rightarrow> string) \<Rightarrow> audit_event \<Rightarrow> json" where
  "event_row fmt r = JObj
     [(''id'', JInt (aud_id r)), (''actor_id'', jopt_int (aud_actor_id r)), (''actor_email'', jopt_str (aud_actor_email r)),
      (''action'', JStr (aud_action r)), (''resource_type'', jopt_str (aud_resource_type r)),
      (''resource_id'', jopt_str (aud_resource_id r)), (''detail'', opt_json (aud_detail r)), (''ip'', jopt_str (aud_ip r)),
      (''user_agent'', jopt_str (aud_user_agent r)), (''created_at'', JStr (fmt (aud_created_at r)))]"

definition list_events ::
  "environment \<Rightarrow> instant \<Rightarrow> request \<Rightarrow> int option \<Rightarrow> string option \<Rightarrow> string option \<Rightarrow> string option \<Rightarrow> int \<Rightarrow> int
     \<Rightarrow> account \<Rightarrow> (json list \<times> nat) handler" where
  "list_events env now req actor_id action resource_type resource_id offset limit who =
     with_role env now req Support who (\<lambda>st.
       if limit < 1 \<or> 500 < limit then (Inl (HTTPException 422 ''validation''), st)
       else (let P = event_filter actor_id action resource_type resource_id;
                 rows = take (nat limit) (drop (nat (max 0 offset)) (audit_rows P (db st)))
             in (Inr (map (event_row (env_isoformat env)) rows, count_query P (audit_events (db st))), st)))"

section \<open>The page and its saved filters\<close>

definition filter_params :: "string \<Rightarrow> string \<Rightarrow> string \<Rightarrow> int option \<Rightarrow> string list" where
  "filter_params action resource_type resource_id actor_id =
     (if action \<noteq> [] then [''action='' @ action] else []) @
     (if resource_type \<noteq> [] then [''resource_type='' @ resource_type] else []) @
     (if resource_id \<noteq> [] then [''resource_id='' @ resource_id] else []) @
     (if truthy_int actor_id then [''actor_id='' @ show_int (the actor_id)] else [])"

definition query_of :: "string list \<Rightarrow> string" where
  "query_of parts = (if parts = [] then [] else ''?'' @ join_with ''&'' parts)"

definition or_blank :: "string option \<Rightarrow> string" where
  "or_blank s = (case s of None \<Rightarrow> [] | Some t \<Rightarrow> t)"

definition saved_qs :: "saved_audit_query \<Rightarrow> string" where
  "saved_qs r = query_of (filter_params (or_blank (saq_action r)) (or_blank (saq_resource_type r))
     (or_blank (saq_resource_id r)) (saq_actor_id r))"

definition saved_matches :: "audit_filter \<Rightarrow> saved_audit_query \<Rightarrow> bool" where
  "saved_matches f r \<longleftrightarrow>
     or_blank (saq_action r) = af_action f \<and> or_blank (saq_resource_type r) = af_resource_type f \<and>
     or_blank (saq_resource_id r) = af_resource_id f \<and>
     (if truthy_int (saq_actor_id r) then saq_actor_id r else None) = (if truthy_int (af_actor_id f) then af_actor_id f else None)"

definition event_card :: "(instant \<Rightarrow> string) \<Rightarrow> audit_event \<Rightarrow> json" where
  "event_card fmt r = JObj
     [(''id'', JInt (aud_id r)), (''created_at'', JStr (fmt (aud_created_at r))), (''actor_id'', jopt_int (aud_actor_id r)),
      (''actor_email'', jopt_str (aud_actor_email r)), (''action'', JStr (aud_action r)),
      (''resource_type'', jopt_str (aud_resource_type r)), (''resource_id'', jopt_str (aud_resource_id r)),
      (''ip'', jopt_str (aud_ip r)), (''detail'', opt_json (aud_detail r))]"

text \<open>\<open>quote\<close> keeps a slash.\<close>

definition url_quote_path :: "string \<Rightarrow> string" where
  "url_quote_path s = concat (map (\<lambda>c. if c = CHR ''/'' then [c] else quote_one c) s)"

definition page_qs :: "audit_filter \<Rightarrow> string" where
  "page_qs f =
     (let parts = filter_params (af_action f) (af_resource_type f) (af_resource_id f) (af_actor_id f)
            @ (if af_q f \<noteq> [] then [''q='' @ url_quote_path (af_q f)] else [])
      in if parts = [] then [] else join_with ''&'' parts @ ''&'')"

text \<open>The order of names is the database's collation.\<close>

definition own_saved :: "(saved_audit_query list \<Rightarrow> saved_audit_query list) \<Rightarrow> account \<Rightarrow> database \<Rightarrow> saved_audit_query list" where
  "own_saved name_order acct d = name_order (filter (\<lambda>r. saq_account_id r = acc_id acct) (saved_audit_queries d))"

definition saved_card :: "audit_filter \<Rightarrow> saved_audit_query \<Rightarrow> json" where
  "saved_card f r = JObj [(''id'', JInt (saq_id r)), (''name'', JStr (saq_name r)), (''qs'', JStr (saved_qs r)),
     (''active'', JBool (saved_matches f r))]"

definition flash_json :: "ui_world \<Rightarrow> instant \<Rightarrow> string option \<Rightarrow> json" where
  "flash_json w now flash =
     (case pop_flash (uw_cfg w) now flash of None \<Rightarrow> JNull
      | Some (kind, message) \<Rightarrow> JObj [(''kind'', JStr kind), (''message'', JStr message)])"

definition admin_audit ::
  "ui_world \<Rightarrow> (saved_audit_query list \<Rightarrow> saved_audit_query list) \<Rightarrow> instant \<Rightarrow> audit_filter \<Rightarrow> int \<Rightarrow> int \<Rightarrow> string
     \<Rightarrow> string option \<Rightarrow> ui_response handler" where
  "admin_audit w name_order now f offset0 limit0 username flash st =
     (let P = audit_filter_ok (lk_fold (uw_lk w)) f;
          total = count_query P (audit_events (db st));
          limit = max 1 (min limit0 200); offset = max 0 offset0;
          rows = take (nat limit) (drop (nat offset) (audit_rows P (db st)));
          (acct, st1) = admin_account w now username st
      in (Inr ((ui_page 200 ''audit.html''
            [(''events'', JList (map (event_card (env_isoformat (uw_env w))) rows)), (''total'', JInt (int total)),
             (''offset'', JInt offset), (''limit'', JInt limit), (''action'', JStr (af_action f)),
             (''resource_type'', JStr (af_resource_type f)), (''resource_id'', JStr (af_resource_id f)),
             (''actor_id'', jopt_int (af_actor_id f)), (''q'', JStr (af_q f)), (''qs'', JStr (page_qs f)),
             (''saved_queries'', JList (map (saved_card f) (own_saved name_order acct (db st1)))),
             (''any_filter_active'', JBool (af_action f \<noteq> [] \<or> af_resource_type f \<noteq> [] \<or> af_resource_id f \<noteq> []
                 \<or> truthy_int (af_actor_id f) \<or> af_q f \<noteq> [])),
             (''flash'', flash_json w now flash)])\<lparr>ui_deleted := [''flash'']\<rparr>), st1))"

definition strip_or_none :: "string \<Rightarrow> string option" where
  "strip_or_none s = or_none (py_strip s)"

definition save_query ::
  "environment \<Rightarrow> instant \<Rightarrow> int \<Rightarrow> string \<Rightarrow> string option \<Rightarrow> string option \<Rightarrow> string option \<Rightarrow> int option \<Rightarrow> database
     \<Rightarrow> database" where
  "save_query env now account_id name action resource_type resource_id actor_id d =
     (case find (\<lambda>r. saq_account_id r = account_id \<and> saq_name r = name) (saved_audit_queries d) of
        None \<Rightarrow> d\<lparr>saved_audit_queries := row_add
            \<lparr>saq_id = env_alloc env (map saq_id (saved_audit_queries d)), saq_account_id = account_id, saq_name = name,
             saq_action = action, saq_resource_type = resource_type, saq_resource_id = resource_id, saq_actor_id = actor_id,
             saq_created_at = now\<rparr> (saved_audit_queries d)\<rparr>
      | Some old \<Rightarrow> d\<lparr>saved_audit_queries := row_set saq_id (saq_id old)
            (\<lambda>r. r\<lparr>saq_action := action, saq_resource_type := resource_type, saq_resource_id := resource_id,
                   saq_actor_id := actor_id\<rparr>) (saved_audit_queries d)\<rparr>)"

definition admin_audit_save ::
  "ui_world \<Rightarrow> instant \<Rightarrow> string \<Rightarrow> string \<Rightarrow> string \<Rightarrow> string \<Rightarrow> string \<Rightarrow> string \<Rightarrow> ui_response handler" where
  "admin_audit_save w now username name action resource_type resource_id actor_id st =
     (let clean = take 64 (py_strip name) in
      if clean = [] then (Inr (flash_to w now ''/admin/audit'' ''error'' ''Name is required''), st)
      else
       (let (acct, st0) = admin_account w now username st in
        case (if py_strip actor_id = [] then Some None else map_option Some (py_int actor_id)) of
          None \<Rightarrow> (Inr (flash_to w now ''/admin/audit'' ''error'' ''Actor ID must be a number''), st0)
        | Some actor \<Rightarrow>
          (Inr (flash_to w now (''/admin/audit'' @ query_of (filter_params action resource_type resource_id actor)) ''success''
                  (''Saved as '' @ [squote] @ clean @ [squote])),
           st0\<lparr>db := save_query (uw_env w) now (acc_id acct) clean (strip_or_none action) (strip_or_none resource_type)
                       (strip_or_none resource_id) actor (db st0)\<rparr>)))"

definition admin_audit_saved_delete :: "ui_world \<Rightarrow> instant \<Rightarrow> int \<Rightarrow> string \<Rightarrow> ui_response handler" where
  "admin_audit_saved_delete w now saved_id username st =
     (let (acct, st0) = admin_account w now username st in
      case find (\<lambda>r. saq_id r = saved_id \<and> saq_account_id r = acc_id acct) (saved_audit_queries (db st0)) of
        None \<Rightarrow> (Inr (flash_to w now ''/admin/audit'' ''error'' ''Saved filter not found''), st0)
      | Some row \<Rightarrow>
        (Inr (flash_to w now ''/admin/audit'' ''success'' ''Saved filter removed''),
         st0\<lparr>db := (db st0)\<lparr>saved_audit_queries := row_del saq_id (saq_id row) (saved_audit_queries (db st0))\<rparr>\<rparr>))"

section \<open>Exports\<close>

definition CRLF :: string where
  "CRLF = [CHR 0x0D, CHR 0x0A]"

text \<open>\<open>csv.writer\<close> with its default dialect: a field is quoted when it needs to be.\<close>

definition csv_special :: "char \<Rightarrow> bool" where
  "csv_special c \<longleftrightarrow> c = CHR '','' \<or> c = dquote \<or> c = CHR 0x0D \<or> c = CHR 0x0A"

definition csv_field :: "string \<Rightarrow> string" where
  "csv_field s =
     (if list_ex csv_special s
      then dquote # concat (map (\<lambda>c. if c = dquote then [dquote, dquote] else [c]) s) @ [dquote] else s)"

definition writerow :: "string list \<Rightarrow> string" where
  "writerow cells = join_with '','' (map csv_field cells) @ CRLF"

definition CSV_HEADER :: "string list" where
  "CSV_HEADER = [''id'', ''created_at'', ''actor_id'', ''actor_email'', ''action'', ''resource_type'', ''resource_id'', ''ip'',
     ''user_agent'', ''detail'']"

definition csv_cells :: "(instant \<Rightarrow> string) \<Rightarrow> audit_event \<Rightarrow> string list" where
  "csv_cells fmt r =
     [show_int (aud_id r), fmt (aud_created_at r), (if truthy_int (aud_actor_id r) then show_int (the (aud_actor_id r)) else []),
      or_blank (aud_actor_email r), aud_action r, or_blank (aud_resource_type r), or_blank (aud_resource_id r),
      or_blank (aud_ip r), or_blank (aud_user_agent r),
      (if json_truthy (opt_json (aud_detail r)) then dumps_raw '', '' '': '' (opt_json (aud_detail r)) else [])]"

definition admin_audit_csv :: "ui_world \<Rightarrow> audit_filter \<Rightarrow> int \<Rightarrow> string handler" where
  "admin_audit_csv w f limit st =
     (let rows = take (nat (max 1 (min limit 10000))) (audit_rows (audit_filter_ok (lk_fold (uw_lk w)) f) (db st))
      in (Inr (writerow CSV_HEADER @ concat (map (\<lambda>r. writerow (csv_cells (env_isoformat (uw_env w)) r)) rows)), st))"

definition event_line :: "(instant \<Rightarrow> string) \<Rightarrow> audit_event \<Rightarrow> json" where
  "event_line fmt r = JObj
     [(''id'', JInt (aud_id r)), (''created_at'', JStr (fmt (aud_created_at r))), (''actor_id'', jopt_int (aud_actor_id r)),
      (''actor_email'', jopt_str (aud_actor_email r)), (''action'', JStr (aud_action r)),
      (''resource_type'', jopt_str (aud_resource_type r)), (''resource_id'', jopt_str (aud_resource_id r)),
      (''ip'', jopt_str (aud_ip r)), (''user_agent'', jopt_str (aud_user_agent r)), (''detail'', opt_json (aud_detail r))]"

text \<open>What is compressed: flushing every thousand lines does not change the stream \<open>gz\<close> reads.\<close>

definition admin_audit_export_jsonl :: "ui_world \<Rightarrow> (bytes \<Rightarrow> bytes) \<Rightarrow> audit_filter \<Rightarrow> int \<Rightarrow> bytes handler" where
  "admin_audit_export_jsonl w gz f limit st =
     (let rows = take (nat (max 1 (min limit 200000))) (audit_rows (audit_filter_ok (lk_fold (uw_lk w)) f) (db st))
      in (Inr (gz (utf8_encode (concat (map
             (\<lambda>r. dumps_raw '', '' '': '' (event_line (env_isoformat (uw_env w)) r) @ [CHR 0x0A]) rows)))), st))"

section \<open>The overview\<close>

text \<open>The groups of a \<open>GROUP BY\<close> with their counts; the order of the groups is the database's.\<close>

definition group_counts :: "('r \<Rightarrow> string) \<Rightarrow> 'r list \<Rightarrow> (string \<times> nat) list" where
  "group_counts key rows = map (\<lambda>k. (k, length (filter (\<lambda>r. key r = k) rows))) (remdups (map key rows))"

record stats_world =
  sw_groups :: "(string \<times> nat) list \<Rightarrow> (string \<times> nat) list"
  sw_iso_utc :: "instant \<Rightarrow> string"

definition jcount :: "('r \<Rightarrow> bool) \<Rightarrow> 'r list \<Rightarrow> json" where
  "jcount P rows = JInt (int (count_query P rows))"

definition top_actions :: "stats_world \<Rightarrow> database \<Rightarrow> (string \<times> nat) list" where
  "top_actions sw d = take 10 (sort_desc snd (sw_groups sw (group_counts aud_action (audit_events d))))"

definition compute_overview :: "stats_world \<Rightarrow> instant \<Rightarrow> instant \<Rightarrow> database \<Rightarrow> json" where
  "compute_overview sw now t_end d = JObj
     [(''catalog'', JObj [(''apps'', jcount (\<lambda>_. True) (apps d)), (''releases'', jcount (\<lambda>_. True) (releases d)),
        (''downloads'', jcount (\<lambda>_. True) (downloads d))]),
      (''users'', JObj [(''accounts_total'', jcount (\<lambda>_. True) (accounts d)),
        (''accounts_suspended'', jcount (\<lambda>a. acc_suspended_at a \<noteq> None) (accounts d)),
        (''accounts_by_role'', JObj (map (\<lambda>(k, n). (k, JInt (int n))) (sw_groups sw (group_counts acc_role (accounts d))))),
        (''admin_ui_users'', jcount (\<lambda>_. True) (users d)), (''devices'', jcount (\<lambda>_. True) (device_configs d)),
        (''devices_linked'', jcount (\<lambda>r. dev_user_id r \<noteq> None) (device_configs d)),
        (''devices_online_recent'', jcount (\<lambda>r. case dev_last_seen_at r of None \<Rightarrow> False | Some t \<Rightarrow> now - 300 < t) (device_configs d))]),
      (''audit'', JObj [(''events_total'', jcount (\<lambda>_. True) (audit_events d)),
        (''events_last_24h'', jcount (\<lambda>r. now - 86400 < aud_created_at r) (audit_events d)),
        (''top_actions'', JList (map (\<lambda>(a, c). JObj [(''action'', JStr a), (''count'', JInt (int c))]) (top_actions sw d)))]),
      (''generated_at'', JStr (sw_iso_utc sw t_end))]"

text \<open>\<open>t\<close> is the cache's clock.\<close>

definition build_overview :: "stats_world \<Rightarrow> int \<Rightarrow> instant \<Rightarrow> instant \<Rightarrow> app_state \<Rightarrow> json \<times> app_state" where
  "build_overview sw t now t_end st =
     (case cache_get t (stats_cache st) ''overview'' of Some cached \<Rightarrow> (cached, st)
      | None \<Rightarrow> (let response = compute_overview sw now t_end (db st)
                in (response, st\<lparr>stats_cache := cache_set t (stats_cache st) ''overview'' response None\<rparr>)))"

definition overview :: "environment \<Rightarrow> stats_world \<Rightarrow> int \<Rightarrow> instant \<Rightarrow> instant \<Rightarrow> request \<Rightarrow> account \<Rightarrow> json handler" where
  "overview env sw t now t_end req who =
     with_role env now req Support who (\<lambda>st. let (r, st1) = build_overview sw t now t_end st in (Inr r, st1))"

section \<open>The order of the rows\<close>

lemma insort_lex:
  assumes "sorted_wrt Q ys" "sorted (map f ys)"
    and "\<forall>y \<in> set ys. f x \<le> f y \<longrightarrow> Q x y" "\<forall>y \<in> set ys. f y < f x \<longrightarrow> Q y x"
  shows "sorted_wrt Q (insort_key f x ys)"
  using assms by (induction ys) (auto simp: set_insort_key dest: order_trans)

lemma sort_key_lex:
  assumes "sorted_wrt R xs"
  shows "sorted_wrt (\<lambda>x y. f x < f y \<or> f x = f y \<and> R x y) (sort_key f xs)"
  using assms
proof (induction xs)
  case Nil
  then show ?case by simp
next
  case (Cons x xs)
  then have "sorted_wrt (\<lambda>x y. f x < f y \<or> f x = f y \<and> R x y) (sort_key f xs)" "\<forall>y \<in> set xs. R x y" by auto
  then show ?case by (auto intro!: insort_lex)
qed

definition not_older :: "audit_event \<Rightarrow> audit_event \<Rightarrow> bool" where
  "not_older r s \<longleftrightarrow> aud_created_at s < aud_created_at r \<or> aud_created_at s = aud_created_at r \<and> aud_id s \<le> aud_id r"

lemma audit_order_sorted: "sorted_wrt not_older (audit_order rows)"
proof -
  have "sorted_wrt (\<lambda>r s. aud_id r \<le> aud_id s) (rev (sort_desc aud_id rows))"
    using sorted_sort_key [of aud_id "rev rows"] by (simp add: sort_desc_def sorted_map)
  from sort_key_lex [OF this, of aud_created_at] show ?thesis
    by (simp add: audit_order_def sort_desc_def sorted_wrt_rev eq_commute not_older_def [abs_def])
qed

lemma mset_sort_desc: "mset (sort_desc f xs) = mset xs"
  by (simp add: sort_desc_def)

lemma audit_rows_exact: "mset (audit_rows P d) = mset (filter P (audit_events d))"
  by (simp add: audit_rows_def audit_order_def mset_sort_desc)

section \<open>Reading CSV\<close>

text \<open>A reader of CSV text: whether it is inside quotes, the field and the row so far.\<close>

fun csv_read_from :: "bool \<Rightarrow> string \<Rightarrow> string list \<Rightarrow> string \<Rightarrow> string list list" where
  "csv_read_from q cell row [] = (if cell = [] \<and> row = [] then [] else [row @ [cell]])"
| "csv_read_from True cell row (c # s) =
     (if c = dquote
      then (if s \<noteq> [] \<and> hd s = dquote then csv_read_from True (cell @ [dquote]) row (tl s) else csv_read_from False cell row s)
      else csv_read_from True (cell @ [c]) row s)"
| "csv_read_from False cell row (c # s) =
     (if c = dquote \<and> cell = [] then csv_read_from True cell row s
      else if c = CHR '','' then csv_read_from False [] (row @ [cell]) s
      else if c = CHR 0x0D \<and> s \<noteq> [] \<and> hd s = CHR 0x0A then (row @ [cell]) # csv_read_from False [] [] (tl s)
      else csv_read_from False (cell @ [c]) row s)"

definition csv_read :: "string \<Rightarrow> string list list" where
  "csv_read s = csv_read_from False [] [] s"

lemma read_plain:
  "\<not> list_ex csv_special s \<Longrightarrow> csv_read_from False cell row (s @ r) = csv_read_from False (cell @ s) row r"
  by (induction s arbitrary: cell) (auto simp: csv_special_def)

lemma read_quoted:
  assumes "r = [] \<or> hd r \<noteq> dquote"
  shows "csv_read_from True cell row (concat (map (\<lambda>c. if c = dquote then [dquote, dquote] else [c]) s) @ dquote # r)
     = csv_read_from False (cell @ s) row r"
  using assms by (induction s arbitrary: cell) auto

lemma read_field:
  assumes "r = [] \<or> hd r \<noteq> dquote"
  shows "csv_read_from False [] row (csv_field s @ r) = csv_read_from False s row r"
  using assms read_plain [of s "[]" row r] read_quoted [OF assms, of "[]" row s] by (simp add: csv_field_def)

lemma not_dquote [simp]: "CHR '','' \<noteq> dquote" "CHR 0x0D \<noteq> dquote"
  by (simp_all add: char_eq_code) (simp_all add: char_code_def)

lemma read_fields:
  "fs \<noteq> [] \<Longrightarrow> csv_read_from False [] row (join_with '','' (map csv_field fs) @ CRLF @ r)
     = (row @ fs) # csv_read_from False [] [] r"
proof (induction fs arbitrary: row)
  case (Cons f fs)
  then show ?case
    by (cases fs) (simp_all add: read_field CRLF_def)
qed simp

lemma csv_read_rows:
  "\<forall>fs \<in> set rows. fs \<noteq> [] \<Longrightarrow> csv_read (concat (map writerow rows)) = rows"
  by (induction rows) (simp_all add: csv_read_def writerow_def read_fields)


section \<open>Free text\<close>

lemma like_plain_percent: "like_plain fc (CHR ''%'' # p) t \<longleftrightarrow> (\<exists>u v. t = u @ v \<and> like_plain fc p v)"
proof (induction t)
  case (Cons c t)
  have "(\<exists>u v. c # t = u @ v \<and> like_plain fc p v) \<longleftrightarrow> like_plain fc p (c # t) \<or> (\<exists>u v. t = u @ v \<and> like_plain fc p v)"
    by (auto simp: Cons_eq_append_conv)
  with Cons show ?case by simp
qed simp

lemma like_plain_literal:
  "CHR ''%'' \<notin> set s \<Longrightarrow> CHR ''_'' \<notin> set s \<Longrightarrow>
     like_plain fc (s @ p) t \<longleftrightarrow> (\<exists>u v. t = u @ v \<and> map fc u = map fc s \<and> like_plain fc p v)"
proof (induction s arbitrary: t)
  case (Cons c s)
  show ?case
  proof (cases t)
    case (Cons d t')
    have "(\<exists>u v. d # t' = u @ v \<and> map fc u = map fc (c # s) \<and> like_plain fc p v)
        \<longleftrightarrow> fc d = fc c \<and> (\<exists>u v. t' = u @ v \<and> map fc u = map fc s \<and> like_plain fc p v)"
      (is "?L \<longleftrightarrow> ?R")
    proof
      assume ?L
      then obtain u v where u: "d # t' = u @ v" "map fc u = map fc (c # s)" "like_plain fc p v" by blast
      then obtain u' where "u = d # u'" by (cases u) auto
      with u show ?R by auto
    next
      assume ?R
      then obtain u v where "fc d = fc c" "t' = u @ v" "map fc u = map fc s" "like_plain fc p v" by blast
      then show ?L by (intro exI [of _ "d # u"] exI [of _ v]) simp
    qed
    with Cons.IH [of t'] Cons.prems show ?thesis unfolding Cons by auto
  qed (use Cons.prems in auto)
qed simp

text \<open>A search text without wildcards selects by substring, up to the case folding of the database.\<close>

lemma free_text_substring:
  assumes "CHR ''%'' \<notin> set (py_strip q)" "CHR ''_'' \<notin> set (py_strip q)"
  shows "ilike fc (''%'' @ py_strip q @ ''%'') (Some t) \<longleftrightarrow> (\<exists>u m v. t = u @ m @ v \<and> map fc m = map fc (py_strip q))"
proof -
  have any: "like_plain fc ''%'' v" for v using like_plain_percent [of fc "[]" v] by auto
  have "ilike fc (''%'' @ py_strip q @ ''%'') (Some t) \<longleftrightarrow> (\<exists>u v. t = u @ v \<and> like_plain fc (py_strip q @ ''%'') v)"
    using like_plain_percent [of fc "py_strip q @ ''%''" t] by (simp add: ilike_def)
  then show ?thesis by (simp add: like_plain_literal [OF assms] any) blast
qed

section \<open>Saved filters\<close>

definition saved_ok :: "database \<Rightarrow> bool" where
  "saved_ok d \<longleftrightarrow> pk saq_id (saved_audit_queries d)
     \<and> pk (\<lambda>r. (saq_account_id r, saq_name r)) (saved_audit_queries d)"

lemma saved_keys_set:
  "(\<And>r. k (f r) = k r) \<Longrightarrow> map k (row_set saq_id i f rows) = map k rows"
  by (simp add: row_set_def)

lemma saved_id_inj:
  "saved_ok d \<Longrightarrow> r \<in> set (saved_audit_queries d) \<Longrightarrow> s \<in> set (saved_audit_queries d) \<Longrightarrow> saq_id r = saq_id s \<Longrightarrow> r = s"
  by (auto simp: saved_ok_def pk_def distinct_map dest: inj_onD)

lemma save_query_ok:
  assumes "fresh_alloc (env_alloc env)" "saved_ok d"
  shows "saved_ok (save_query env now a n action rt ri actor d)"
proof (cases "find (\<lambda>r. saq_account_id r = a \<and> saq_name r = n) (saved_audit_queries d)")
  case None
  then have "(a, n) \<notin> (\<lambda>r. (saq_account_id r, saq_name r)) ` set (saved_audit_queries d)"
    by (auto simp: find_None_iff)
  moreover have "env_alloc env (map saq_id (saved_audit_queries d)) \<notin> saq_id ` set (saved_audit_queries d)"
    using assms(1) unfolding fresh_alloc_def by (metis set_map)
  ultimately show ?thesis using assms(2) None by (simp add: saved_ok_def save_query_def pk_def row_add_def)
next
  case (Some old)
  then show ?thesis using assms(2) by (simp add: saved_ok_def save_query_def pk_def saved_keys_set)
qed

lemma saved_set_other:
  assumes "\<forall>r \<in> set rows. saq_id r = i \<longrightarrow> saq_account_id r = a" "\<forall>r. saq_account_id (g r) = saq_account_id r"
  shows "filter (\<lambda>r. saq_account_id r \<noteq> a) (row_set saq_id i g rows) = filter (\<lambda>r. saq_account_id r \<noteq> a) rows"
  using assms by (induction rows) (auto simp: row_set_def)

text \<open>A filter of another account never changes.\<close>

lemma save_query_private:
  assumes "saved_ok d"
  shows "filter (\<lambda>r. saq_account_id r \<noteq> a) (saved_audit_queries (save_query env now a n action rt ri actor d))
     = filter (\<lambda>r. saq_account_id r \<noteq> a) (saved_audit_queries d)"
proof (cases "find (\<lambda>r. saq_account_id r = a \<and> saq_name r = n) (saved_audit_queries d)")
  case None
  then show ?thesis by (simp add: save_query_def row_add_def)
next
  case (Some old)
  then have old: "old \<in> set (saved_audit_queries d)" "saq_account_id old = a"
    by (auto simp: find_Some_iff)
  have "saq_account_id r = a" if "r \<in> set (saved_audit_queries d)" "saq_id r = saq_id old" for r
    using saved_id_inj [OF assms that(1) old(1) that(2)] old(2) by simp
  then have "filter (\<lambda>r. saq_account_id r \<noteq> a) (row_set saq_id (saq_id old) g (saved_audit_queries d))
      = filter (\<lambda>r. saq_account_id r \<noteq> a) (saved_audit_queries d)"
    if "\<And>r. saq_account_id (g r) = saq_account_id r" for g
    using that by (intro saved_set_other) auto
  with Some show ?thesis by (simp add: save_query_def)
qed

lemma saved_delete_private:
  assumes "saved_ok (db st0)" "admin_account w now username st = (acct, st0)"
    and "admin_audit_saved_delete w now i username st = (r, st')"
  shows "filter (\<lambda>r. saq_account_id r \<noteq> acc_id acct) (saved_audit_queries (db st'))
     = filter (\<lambda>r. saq_account_id r \<noteq> acc_id acct) (saved_audit_queries (db st0))"
proof (cases "find (\<lambda>r. saq_id r = i \<and> saq_account_id r = acc_id acct) (saved_audit_queries (db st0))")
  case None
  then show ?thesis using assms(2,3) by (auto simp: admin_audit_saved_delete_def)
next
  case (Some old)
  then have old: "old \<in> set (saved_audit_queries (db st0))" "saq_account_id old = acc_id acct"
    by (auto simp: find_Some_iff)
  have own: "saq_account_id x = acc_id acct" if "x \<in> set (saved_audit_queries (db st0))" "saq_id x = saq_id old" for x
    using saved_id_inj [OF assms(1) that(1) old(1) that(2)] old(2) by simp
  have "db st' = (db st0)\<lparr>saved_audit_queries := row_del saq_id (saq_id old) (saved_audit_queries (db st0))\<rparr>"
    using Some assms(2,3) by (auto simp: admin_audit_saved_delete_def)
  then show ?thesis using own by (auto simp: row_del_def intro!: filter_cong)
qed

section \<open>Counts\<close>

lemma group_counts_total: "sum_list (map snd (group_counts key rows)) = length rows"
proof -
  have "sum_list (map snd (group_counts key rows)) = (\<Sum>k\<in>set (map key rows). length (filter (\<lambda>r. key r = k) rows))"
    by (simp add: group_counts_def comp_def sum_list_distinct_conv_sum_set)
  also have "\<dots> = (\<Sum>k\<in>set_mset (mset (map key rows)). count (mset (map key rows)) k)"
    by (intro sum.cong) (simp_all add: count_mset count_list_eq_length_filter filter_map comp_def eq_commute del: mset_map)
  also have "\<dots> = size (mset (map key rows))"
    by (rule size_multiset_overloaded_eq [symmetric])
  finally show ?thesis by simp
qed

text \<open>The actions listed are at most ten, and no other action is more frequent than one of them.\<close>

lemma top_actions_largest:
  assumes "mset (sw_groups sw (group_counts aud_action (audit_events d))) = mset (group_counts aud_action (audit_events d))"
  shows "length (top_actions sw d) \<le> 10"
    and "g \<in> set (group_counts aud_action (audit_events d)) \<Longrightarrow>
       g \<in> set (top_actions sw d) \<or> (\<forall>t \<in> set (top_actions sw d). snd g \<le> snd t)"
proof -
  define gs where "gs = sort_desc snd (sw_groups sw (group_counts aud_action (audit_events d)))"
  show "length (top_actions sw d) \<le> 10" by (simp add: top_actions_def)
  assume "g \<in> set (group_counts aud_action (audit_events d))"
  then have "g \<in> set gs" using mset_eq_setD [OF assms] by (simp add: gs_def)
  then have "g \<in> set (take 10 gs) \<or> g \<in> set (drop 10 gs)" by (metis Un_iff append_take_drop_id set_append)
  moreover have "snd g \<le> snd t" if "g \<in> set (drop 10 gs)" "t \<in> set (take 10 gs)" for t
    using sort_desc_sorted [of snd "sw_groups sw (group_counts aud_action (audit_events d))"] that
    by (metis append_take_drop_id gs_def sorted_wrt_append)
  ultimately show "g \<in> set (top_actions sw d) \<or> (\<forall>t \<in> set (top_actions sw d). snd g \<le> snd t)"
    by (auto simp: top_actions_def gs_def)
qed

lemma overview_cached:
  assumes "build_overview sw t now t_end st = (r, st')" "t \<le> t'" "cache_get t (stats_cache st) ''overview'' = None"
    and "t' < t + cache_ttl (stats_cache st)"
  shows "build_overview sw t' now' t_end' st' = (r, st')"
  using assms by (auto simp: build_overview_def Let_def cache_get_set)

section \<open>Lines of JSON\<close>

interpretation spaced_raw: json_printer raw_escape "'', ''" "'': ''"
  by unfold_locales (simp_all add: parse_raw_escape is_ws_def char_code_def)

lemma raw_escape_line: "x \<in> set (raw_escape c) \<Longrightarrow> 32 \<le> char_code x"
proof -
  have h: "d < 16 \<Longrightarrow> 32 \<le> char_code (hex_digit d)" for d by (simp add: hex_digit_def char_code_char_of)
  have "char_code c div 16 < 16" using char_code_lt [of c] by simp
  moreover have "32 \<le> char_code (CHR ''n'')" "32 \<le> char_code (CHR ''r'')" "32 \<le> char_code (CHR ''t'')"
    "32 \<le> char_code (CHR ''f'')" "32 \<le> char_code (CHR ''b'')" "32 \<le> char_code (CHR ''u'')"
    "32 \<le> char_code (CHR ''0'')" by (simp_all add: char_code_def)
  ultimately show "x \<in> set (raw_escape c) \<Longrightarrow> 32 \<le> char_code x"
    using h by (auto simp: raw_escape_def json_escape_def Let_def split: if_splits)
qed

lemma line_str: "x \<in> set (dumps_str_gen raw_escape s) \<Longrightarrow> 32 \<le> char_code x"
  by (auto simp: dumps_str_gen_def dest: raw_escape_line)

text \<open>The text of a JSON value has no control character, so no line break.\<close>

lemma one_line: "json_wf j \<Longrightarrow> x \<in> set (dumps_raw '', '' '': '' j) \<Longrightarrow> 32 \<le> char_code x"
  unfolding dumps_raw_def
proof (induction j arbitrary: x)
  case (JList js)
  have m: "32 \<le> char_code (CHR ''['')" "32 \<le> char_code (CHR '']'')" "32 \<le> char_code (CHR '','')" "32 \<le> char_code (CHR '' '')"
    by (simp_all add: char_code_def)
  from JList m show ?case by (auto simp: list_all_iff dest!: ascii_join)
next
  case (JObj kvs)
  have m: "32 \<le> char_code (CHR ''{'')" "32 \<le> char_code (CHR ''}'')" "32 \<le> char_code (CHR '','')" "32 \<le> char_code (CHR '' '')"
    "32 \<le> char_code (CHR '':'')"
    by (simp_all add: char_code_def)
  from JObj m show ?case by (fastforce simp: list_all_iff dest!: ascii_join line_str)
next
  case (JInt i)
  then show ?case using scan_number_chars [OF scan_number_show_int [of i]] by simp
next
  case (JReal r)
  then show ?case using scan_number_chars [of r] by simp
next
  case (JStr s)
  then show ?case using line_str by simp
qed (auto simp: char_code_def split: if_splits)

lemma split_on_at: "c \<notin> set w \<Longrightarrow> split_on c (w @ c # r) = w # split_on c r"
  by (induction w) auto

lemma split_lines:
  assumes "\<forall>l \<in> set ls. CHR 0x0A \<notin> set l"
  shows "split_on (CHR 0x0A) (concat (map (\<lambda>l. l @ [CHR 0x0A]) ls)) = ls @ [[]]"
  using assms by (induction ls) (simp_all add: split_on_at)

lemma wf_jopt [simp]: "json_wf (jopt_str s)" "json_wf (jopt_int i)"
  by (cases s; simp) (cases i; simp)

text \<open>The uncompressed export, split at its line breaks, is one line per event, and each reads back to its event.\<close>

lemma jsonl_lines:
  fixes fmt :: "instant \<Rightarrow> string"
  assumes "\<forall>r \<in> set rows. json_wf (opt_json (aud_detail r))"
  defines "lines \<equiv> map (\<lambda>r. dumps_raw '', '' '': '' (event_line fmt r)) rows"
  shows "split_on (CHR 0x0A) (concat (map (\<lambda>l. l @ [CHR 0x0A]) lines)) = lines @ [[]]"
    and "map loads lines = map (\<lambda>r. Some (event_line fmt r)) rows"
proof -
  have wf: "json_wf (event_line fmt r)" if "r \<in> set rows" for r
    using assms(1) that by (simp add: event_line_def)
  show "map loads lines = map (\<lambda>r. Some (event_line fmt r)) rows"
    using wf spaced_raw.loads_printed by (simp add: lines_def dumps_raw_def)
  have "CHR 0x0A \<notin> set l" if "l \<in> set lines" for l
    using that wf one_line by (force simp: lines_def char_code_def)
  then show "split_on (CHR 0x0A) (concat (map (\<lambda>l. l @ [CHR 0x0A]) lines)) = lines @ [[]]"
    by (intro split_lines) blast
qed

end
