(* ===== verification/Spec2Isabelle.thy ===== *)
theory Spec2Isabelle
  imports Roles Db Cache Device_Ids Ratelimit Event_Bus Audit_Trail Snapshot_Purge
    Retention Idempotency Pats Auth Devices Backups Store Store_Guarantees Sync
    Admin_Users Admin_Invites Autogen Admin_Guard Admin_Catalog Admin_User_Forms Admin_Devices Sso_Login Archive Plugins Http_Shell Audit_Views
begin

text \<open>
  A verification library for the WDC catalog service (\<^verbatim>\<open>src/app\<close>, a FastAPI
  application over SQLAlchemy).

  \<^bold>\<open>The program.\<close> The service has five parts. (1) Devices push their configuration; every push
  is versioned as a snapshot with a HEAD per device, which users list, compare, restore,
  import and delete, and which a nightly sweep thins out. (2) Accounts log in with
  passwords, JSON web tokens or personal access tokens; roles gate the administration.
  (3) A public catalog of applications, releases and downloads is edited by administrators and
  regenerated daily from upstream listings. (4) Every action is audited, published on an
  event bus and posted to a webhook. (5) Helpers: caches, idempotent requests, rate-limit keys,
  envelope encryption, an object store, pagination.

  \<^bold>\<open>How it is modelled.\<close> A database is the record of its tables (\<open>database\<close>), a table the list of its rows in
  insertion order. A request handler is a function from the server state (\<open>app_state\<close>: the
  session's tables, the committed tables, and what no rollback undoes: bus, webhook pool,
  caches, counters, objects) to an exception or a result and the new state; \<open>get_session\<close>
  commits or rolls back around it. Exceptions are values of \<open>exn\<close>. Strings are lists of
  characters (ASCII and Latin-1), instants are integers in seconds, sizes are naturals,
  byte strings are lists of 8-bit words. Code outside the repository is a parameter: the
  clock, fresh row identifiers (\<open>fresh_alloc\<close>), digests, AES-GCM, HKDF, Argon2, zstd and gzip,
  bcrypt, the JWT and signing libraries, S3, the web, the address parser, the order of rows
  SQL leaves open. What is relied on of a parameter is a named predicate
  (\<open>aead_ok\<close>, \<open>invite_ok\<close>, ...), and each property that assumes one has a witness with a
  concrete instance.

  \<^bold>\<open>The theories.\<close>
  \<^item> \<open>Prelude\<close>: exceptions, Python strings and slices, JSON values, decimal numerals, tables with a
    primary key (locale \<open>pk_table\<close>) and transition systems with an invariant (locale \<open>inv_system\<close>).
  \<^item> \<open>Roles\<close> (\<^verbatim>\<open>roles.py\<close>), \<open>Db\<close> (\<^verbatim>\<open>db.py\<close>: every ORM class, \<open>count_query\<close>, migration literals),
    \<open>Cache\<close> (\<^verbatim>\<open>_cache.py\<close>), \<open>Device_Ids\<close> (\<^verbatim>\<open>device_ids.py\<close>), \<open>Ratelimit\<close> (\<^verbatim>\<open>ratelimit.py\<close>),
    \<open>Event_Bus\<close> (\<^verbatim>\<open>event_bus.py\<close>), \<open>Json_Codec\<close> (the parts of \<open>json\<close> the code uses).
  \<^item> \<open>Audit_Trail\<close> (\<^verbatim>\<open>audit.py\<close>, \<^verbatim>\<open>webhooks.py\<close>, the security counter of \<^verbatim>\<open>observability.py\<close>,
    \<open>get_session\<close>): the server state; one audit row, event and webhook job per action; a
    request that raises leaves no flushed row behind.
  \<^item> \<open>Crypto\<close> (\<^verbatim>\<open>crypto.py\<close>), \<open>Blob_Store\<close> (\<^verbatim>\<open>blob_store.py\<close>), \<open>Snapshots\<close> (\<^verbatim>\<open>snapshots.py\<close>), with their
    consequences in \<open>Snapshot_Crypto\<close>, \<open>Snapshot_Store\<close> and \<open>Snapshot_Purge\<close>: payloads read back
    on every storage lane, HEAD never dangles, equal payloads are stored once, listings
    are scoped and exact, the purge removes what its policy names and never a HEAD.
  \<^item> \<open>Retention\<close> (\<^verbatim>\<open>retention.py\<close>, \<^verbatim>\<open>retention_policies.py\<close>), \<open>Idempotency\<close> (\<^verbatim>\<open>idempotency.py\<close>),
    \<open>Pats\<close> (\<^verbatim>\<open>pats.py\<close>, \<^verbatim>\<open>api_pats.py\<close>), \<open>Auth\<close> (\<^verbatim>\<open>devices.py\<close> up to logout, \<^verbatim>\<open>permissions.py\<close>).
  \<^item> \<open>Devices\<close> (the device endpoints of \<^verbatim>\<open>devices.py\<close>, \<^verbatim>\<open>api_sync.py\<close>, \<^verbatim>\<open>api_sync_snapshots.py\<close>), \<open>Backups\<close>
    (\<^verbatim>\<open>backups.py\<close>); \<open>Store\<close> composes them into a transition system with one invariant,
    \<open>Store_Guarantees\<close> shows that a restore can be undone and that accounts are isolated,
    \<open>Sync\<close> the rotation of sync snapshots and the effect of a push.
  \<^item> \<open>Admin_Users\<close> (\<^verbatim>\<open>admin_users.py\<close>): the administration as a transition system; an owner always
    remains and is out of reach of others. \<open>Admin_Invites\<close> (\<^verbatim>\<open>admin_invites.py\<close>): single use.
  \<^item> \<open>Generators\<close> (\<^verbatim>\<open>generators.py\<close>) and \<open>Generator_Facts\<close>: the scrapers, the pre-release pattern as
    its regular expression, stability and termination.
  \<^item> \<open>Catalog\<close> (\<^verbatim>\<open>service.py\<close>, \<^verbatim>\<open>schemas.py\<close>), \<open>Catalog_Merge\<close> (the merge refines an abstract merge of
    maps), \<open>Catalog_Api\<close> (\<^verbatim>\<open>api_catalog.py\<close>, \<^verbatim>\<open>catalog.py\<close>: the cached page is always current, the document
    is exact), \<open>Autogen\<close> (\<^verbatim>\<open>catalog_autogen.py\<close>: the daily job completes and loses nothing).
  \<^item> \<open>Sha1\<close>, \<open>Totp\<close> (\<^verbatim>\<open>totp.py\<close>: base32, HMAC-SHA-1 and one-time passwords on machine words), \<open>Base64\<close>,
    \<open>Json_Text\<close> (the printers other settings of \<open>dumps\<close> and \<open>repr\<close> give; the locale \<open>json_printer\<close> of
    \<open>Json_Codec\<close> is their common interface).
  \<^item> \<open>Admin_Sessions\<close> (\<^verbatim>\<open>auth.py\<close>, \<^verbatim>\<open>cookies.py\<close>, \<^verbatim>\<open>csrf.py\<close>), \<open>Admin_Login\<close> (\<^verbatim>\<open>api_auth_ui.py\<close>), \<open>Admin_Account\<close>
    and \<open>Admin_Credentials\<close> (the self-service pages of \<^verbatim>\<open>admin_ui.py\<close>), \<open>Admin_Guard\<close> (their sessions over
    time): the session cookie is set only after every factor the account has, and a killed
    session stays out on every later sequence of requests.
  \<^item> \<open>Sso\<close> (\<^verbatim>\<open>sso.py\<close>) and \<open>Sso_Login\<close> (its routes): a login rests on a code redeemed for the state, nonce and
    verifier of the same browser.
  \<^item> \<open>Admin_User_Forms\<close>, \<open>Admin_Devices\<close>, \<open>Admin_Catalog\<close> and \<open>Admin_Policy\<close> (the account, device, catalog and
    settings forms of \<^verbatim>\<open>admin_ui.py\<close>; \<^verbatim>\<open>admin_policies.py\<close>, \<^verbatim>\<open>admin_retention.py\<close>): the invariants of \<open>Store\<close>,
    \<open>Catalog_Api\<close> and the settings row hold on every sequence of API requests and forms.
  \<^item> \<open>Archive\<close> (\<^verbatim>\<open>backup.py\<close>): the archive has no secret in it, pruning keeps the newest files.
    \<open>Plugins\<close> (\<^verbatim>\<open>plugins_catalog.py\<close>): after one good answer the last good copy is served.
  \<^item> \<open>Http_Shell\<close> (the middleware of \<^verbatim>\<open>main.py\<close>, \<^verbatim>\<open>templating.py\<close>, \<^verbatim>\<open>problems.py\<close>, \<^verbatim>\<open>security_headers.py\<close>,
    \<^verbatim>\<open>api_health.py\<close>): the body limit, and how the renewal of the cookie decides how long a session lives.
  \<^item> \<open>Audit_Views\<close> (\<^verbatim>\<open>admin_audit.py\<close>, \<^verbatim>\<open>admin_stats.py\<close>, the audit pages of \<^verbatim>\<open>admin_ui.py\<close>): the filter, saved filters private to
    their account, exports that read back, the overview and its cache.

  \<^bold>\<open>Interfaces.\<close> A table is an instance of \<open>pk_table\<close>, a cache of \<open>ttl_store\<close>, a bounded queue of \<open>drop_oldest\<close>,
  a printer of \<open>json_printer\<close>. Each long-running part is an instance of \<open>inv_system\<close>, whose
  conclusion about every sequence of steps the properties use: \<open>bus\<close>, \<open>store\<close> and \<open>store_ui\<close>
  (devices and snapshots through the API and the pages), \<open>owners\<close>, \<open>session_end\<close>, \<open>policy_sys\<close>, \<open>catalog\<close>
  and \<open>forms\<close> (catalog edits), \<open>plugin_sys\<close>.

  \<^bold>\<open>Loops and bounds.\<close> Loops over finite data are structural recursions. \<open>delete_chunks\<close>,
  \<open>batched_delete\<close> and \<open>finditer\<close> terminate by a measure on the remaining rows or text. The walk
  over GitHub's pages is a \<open>partial_function\<close>, since only GitHub decides when it ends: every
  claim that it returns assumes a page that is missing or short, and none assumes that it
  returns. The JSON parser runs on fuel, the length of its input plus one, which suffices for every
  text \<open>dumps\<close> prints (\<open>loads_dumps\<close>).

  \<^bold>\<open>Not modelled.\<close> The remaining list, dashboard, search and delivery pages of \<^verbatim>\<open>admin_ui.py\<close>; the seeding of an empty
  catalog from files, the scheduler's threads, logging and metrics, HTTP routing, the HTML of
  the templates, \<^verbatim>\<open>settings.py\<close> and the migrations. Validation by pydantic appears as the guards the code
  declares. Concurrency between requests appears only where the code handles it: the event
  bus's callbacks, and the rows a racing transaction may have inserted
  (parameters \<open>racing\<close>). Column widths are not enforced, as SQLite does not enforce them.
\<close>

end
